(* ===== verification/Prelude.thy ===== *)
theory Prelude
  imports Main "HOL-Library.Word" "HOL-Library.Char_ord" "HOL-Library.List_Lexorder" "HOL-Library.Sublist" "HOL-Library.Multiset"
begin

text \<open>
  The vocabulary every theory of the development shares: Go strings and byte slices, the
  conversions between them, results with an error, association lists for Go maps, and the
  generic lemmas about them. A Go string is a list of bytes, which is what \<^typ>\<open>string\<close> is;
  a Go byte slice is a list of 8-bit words, so that masks and shifts are the word operations.
  A Go map is an association list: the order of the list is the (unspecified) order in which
  \<^verbatim>\<open>range\<close> visits the map, so a theorem about every list is a theorem about every order.
\<close>

named_theorems go_defs \<open>definitions of Go library operations, for unfolding\<close>
named_theorems inv_rules \<open>preservation of the components' invariants\<close>
named_theorems step_defs \<open>definitions of the components' operations, for unfolding\<close>

type_synonym byte = "8 word"
type_synonym bytes = "byte list"
type_synonym 'v gomap = "(string \<times> 'v) list"

section \<open>Conversions between strings and byte slices\<close>

definition bytes_of :: "string \<Rightarrow> bytes" where
  "bytes_of s = map (\<lambda>c. word_of_nat (of_char c)) s"

definition str_of :: "bytes \<Rightarrow> string" where
  "str_of b = map (\<lambda>w. char_of (unat w)) b"

lemma unat_word_of_char [simp]: "unat (word_of_nat (of_char c) :: 8 word) = of_char c"
  by (simp add: unat_of_nat)

lemma str_of_bytes_of [simp]: "str_of (bytes_of s) = s"
  by (induction s) (simp_all add: str_of_def bytes_of_def)

lemma bytes_of_str_of [simp]: "bytes_of (str_of b) = b"
proof (induction b)
  case Nil
  then show ?case by (simp add: str_of_def bytes_of_def)
next
  case (Cons w b)
  have "unat w < 256" by (rule less_le_trans [OF unsigned_less]) simp
  with Cons show ?case by (simp add: str_of_def bytes_of_def)
qed

lemma length_bytes_of [simp]: "length (bytes_of s) = length s"
  by (simp add: bytes_of_def)

lemma length_str_of [simp]: "length (str_of b) = length b"
  by (simp add: str_of_def)

lemma bytes_of_Nil [simp]: "bytes_of [] = []" and str_of_Nil [simp]: "str_of [] = []"
  by (simp_all add: bytes_of_def str_of_def)

lemma bytes_of_eq_Nil [simp]: "bytes_of s = [] \<longleftrightarrow> s = []"
  by (simp add: bytes_of_def)

lemma bytes_of_append [simp]: "bytes_of (s @ t) = bytes_of s @ bytes_of t"
  by (simp add: bytes_of_def)

lemma str_of_append [simp]: "str_of (a @ b) = str_of a @ str_of b"
  by (simp add: str_of_def)

lemma bytes_of_inject [simp]: "bytes_of s = bytes_of t \<longleftrightarrow> s = t"
  by (metis str_of_bytes_of)

section \<open>Results\<close>

type_synonym ('e, 'a) result = "'e + 'a"

fun rbind :: "'e + 'a \<Rightarrow> ('a \<Rightarrow> 'e + 'b) \<Rightarrow> 'e + 'b" where
  "rbind (Inl e) f = Inl e"
| "rbind (Inr a) f = f a"

lemma rbind_eq_Inr: "rbind r f = Inr b \<longleftrightarrow> (\<exists>a. r = Inr a \<and> f a = Inr b)"
  by (cases r) auto

lemma rbind_eq_Inl: "rbind r f = Inl e \<longleftrightarrow> r = Inl e \<or> (\<exists>a. r = Inr a \<and> f a = Inl e)"
  by (cases r) auto

lemma rbind_cong [fundef_cong]:
  "r = r' \<Longrightarrow> (\<And>a. r' = Inr a \<Longrightarrow> f a = g a) \<Longrightarrow> rbind r f = rbind r' g"
  by (cases r') auto

text \<open>\<^verbatim>\<open>for _, x := range xs { y, err := f(x); if err != nil { return err } ... append(y) }\<close>\<close>

fun rmap :: "('a \<Rightarrow> 'e + 'b) \<Rightarrow> 'a list \<Rightarrow> 'e + 'b list" where
  "rmap f [] = Inr []"
| "rmap f (x # xs) = rbind (f x) (\<lambda>y. rbind (rmap f xs) (\<lambda>ys. Inr (y # ys)))"

lemma rmap_eq_Inr_length: "rmap f xs = Inr ys \<Longrightarrow> length ys = length xs"
  by (induction xs arbitrary: ys) (auto simp: rbind_eq_Inr)

lemma rmap_Inr_iff: "rmap f xs = Inr ys \<longleftrightarrow> list_all2 (\<lambda>x y. f x = Inr y) xs ys"
  by (induction xs arbitrary: ys) (auto simp: rbind_eq_Inr list_all2_Cons1)

lemma rmap_append:
  "rmap f (xs @ ys) = rbind (rmap f xs) (\<lambda>as. rbind (rmap f ys) (\<lambda>bs. Inr (as @ bs)))"
proof (induction xs)
  case Nil
  show ?case by (cases "rmap f ys") simp_all
next
  case (Cons x xs)
  then show ?case
    by (cases "f x"; cases "rmap f xs"; cases "rmap f ys") simp_all
qed

section \<open>Go maps\<close>

definition gget :: "'v gomap \<Rightarrow> string \<Rightarrow> 'v \<Rightarrow> 'v" where
  "gget m k d = (case map_of m k of None \<Rightarrow> d | Some v \<Rightarrow> v)"

definition ghas :: "'v gomap \<Rightarrow> string \<Rightarrow> bool" where
  "ghas m k = (map_of m k \<noteq> None)"

fun gput :: "'v gomap \<Rightarrow> string \<Rightarrow> 'v \<Rightarrow> 'v gomap" where
  "gput [] k v = [(k, v)]"
| "gput ((k', v') # m) k v = (if k' = k then (k, v) # m else (k', v') # gput m k v)"

definition gdel :: "'v gomap \<Rightarrow> string \<Rightarrow> 'v gomap" where
  "gdel m k = filter (\<lambda>kv. fst kv \<noteq> k) m"

definition gkeys :: "'v gomap \<Rightarrow> string list" where
  "gkeys m = map fst m"

definition gmap_ok :: "'v gomap \<Rightarrow> bool" where
  "gmap_ok m = distinct (gkeys m)"

lemma map_of_gput [simp]: "map_of (gput m k v) = (map_of m)(k \<mapsto> v)"
  by (induction m k v rule: gput.induct) auto

lemma map_of_gdel [simp]: "map_of (gdel m k) = (map_of m)(k := None)"
proof -
  have "map_of (filter (\<lambda>kv. fst kv \<noteq> k) m) k' = ((map_of m)(k := None)) k'" for k'
    by (induction m) auto
  then show ?thesis by (auto simp: gdel_def)
qed

lemma gget_gput [simp]: "gget (gput m k v) k' d = (if k' = k then v else gget m k' d)"
  by (simp add: gget_def)

lemma ghas_gput [simp]: "ghas (gput m k v) k' \<longleftrightarrow> k' = k \<or> ghas m k'"
  by (simp add: ghas_def)

lemma set_gkeys_gput [simp]: "set (gkeys (gput m k v)) = insert k (set (gkeys m))"
  by (induction m k v rule: gput.induct) (auto simp: gkeys_def)

lemma gmap_ok_gput [simp]: "gmap_ok m \<Longrightarrow> gmap_ok (gput m k v)"
proof (induction m k v rule: gput.induct)
  case (1 k v)
  then show ?case by (simp add: gmap_ok_def gkeys_def)
next
  case (2 k' v' m k v)
  show ?case
  proof (cases "k' = k")
    case True
    with 2 show ?thesis by (simp add: gmap_ok_def gkeys_def)
  next
    case False
    from 2 have ok: "gmap_ok m" and new: "k' \<notin> set (gkeys m)"
      by (simp_all add: gmap_ok_def gkeys_def)
    have "gmap_ok (gput m k v)" using "2.IH" False ok by simp
    moreover have "k' \<notin> set (gkeys (gput m k v))" using new False by simp
    ultimately show ?thesis using False by (simp add: gmap_ok_def gkeys_def)
  qed
qed

lemma gmap_ok_gdel [simp]: "gmap_ok m \<Longrightarrow> gmap_ok (gdel m k)"
  by (auto simp: gmap_ok_def gkeys_def gdel_def intro: distinct_map_filter)

lemma gmap_ok_Nil [simp]: "gmap_ok []"
  by (simp add: gmap_ok_def gkeys_def)

lemma ghas_keys: "ghas m k \<longleftrightarrow> k \<in> set (gkeys m)"
  by (simp add: ghas_def gkeys_def map_of_eq_None_iff)

text \<open>\<^verbatim>\<open>sort.Strings\<close> over the keys of a map: Go compares strings byte by byte.\<close>

definition sorted_gkeys :: "'v gomap \<Rightarrow> string list" where
  "sorted_gkeys m = sort (gkeys m)"

lemma sorted_gkeys_set [simp]: "set (sorted_gkeys m) = set (gkeys m)"
  by (simp add: sorted_gkeys_def)

lemma sorted_sorted_gkeys [simp]: "sorted (sorted_gkeys m)"
  by (simp add: sorted_gkeys_def)

lemma sorted_gkeys_perm:
  assumes "gmap_ok m" and "gmap_ok m'" and "map_of m = map_of m'"
  shows "sorted_gkeys m = sorted_gkeys m'"
proof -
  have "set (gkeys m) = set (gkeys m')"
    using assms(3) by (metis ghas_def ghas_keys subsetI subset_antisym)
  then have "mset (gkeys m) = mset (gkeys m')"
    using assms(1,2) by (simp add: gmap_ok_def set_eq_iff_mset_eq_distinct)
  then show ?thesis
    unfolding sorted_gkeys_def by (metis mset_sort properties_for_sort sorted_sort)
qed

section \<open>Integers\<close>

text \<open>Go's \<^verbatim>\<open>int\<close> is 64 bits wide; \<^verbatim>\<open>int(u)\<close> of a \<^verbatim>\<open>uint64\<close> keeps the bits.\<close>

definition int_of_u64 :: "64 word \<Rightarrow> int" where
  "int_of_u64 w = sint w"

definition wrap_int :: "int \<Rightarrow> int" where
  "wrap_int i = sint (word_of_int i :: 64 word)"

lemma wrap_int_small: "- (2 ^ 63) \<le> i \<Longrightarrow> i < 2 ^ 63 \<Longrightarrow> wrap_int i = i"
  by (simp add: wrap_int_def sint_sbintrunc' signed_take_bit_int_eq_self)

end
