(* ===== verification/GoStrings.thy ===== *)
theory GoStrings
  imports Prelude
begin

text \<open>
  The operations of Go's \<^verbatim>\<open>strings\<close>, \<^verbatim>\<open>bytes\<close> and \<^verbatim>\<open>strconv\<close> packages that the
  program calls, on lists of bytes. Unicode white space is recognised by its UTF-8 encoding.
  Case folding is exact on ASCII and on the three runes whose folding is an ASCII letter
  (U+0130, U+212A, U+017F); other letters are left alone, so that a comparison with an ASCII
  text, which is what the program does with a folded string, has Go's result.
\<close>

section \<open>Searching\<close>

text \<open>\<^verbatim>\<open>strings.Index(s, p)\<close>, \<^verbatim>\<open>None\<close> for -1.\<close>

fun index_of :: "'a list \<Rightarrow> 'a list \<Rightarrow> nat option" where
  "index_of [] p = (if p = [] then Some 0 else None)"
| "index_of (x # xs) p =
     (if prefix p (x # xs) then Some 0 else map_option Suc (index_of xs p))"

definition contains :: "'a list \<Rightarrow> 'a list \<Rightarrow> bool" where
  "contains s p = (index_of s p \<noteq> None)"

text \<open>\<^verbatim>\<open>strings.Cut(s, sep)\<close>\<close>

definition cut :: "'a list \<Rightarrow> 'a list \<Rightarrow> 'a list \<times> 'a list \<times> bool" where
  "cut s p = (case index_of s p of
       None \<Rightarrow> (s, [], False)
     | Some i \<Rightarrow> (take i s, drop (i + length p) s, True))"

lemma index_of_SomeD:
  "index_of s p = Some i \<Longrightarrow> \<exists>b. s = take i s @ p @ b \<and> i \<le> length s \<and> drop (i + length p) s = b"
proof (induction s p arbitrary: i rule: index_of.induct)
  case (1 p)
  then show ?case by (auto split: if_splits)
next
  case (2 x xs p)
  show ?case
  proof (cases "prefix p (x # xs)")
    case True
    with 2 show ?thesis by (auto elim: prefixE)
  next
    case False
    with 2 obtain j where "i = Suc j" and "index_of xs p = Some j" by auto
    with 2 False show ?thesis by fastforce
  qed
qed

lemma index_of_None_iff: "index_of s p = None \<longleftrightarrow> \<not> sublist p s"
  by (induction s p rule: index_of.induct) (auto simp: sublist_Cons_right)

lemma contains_sublist: "contains s p \<longleftrightarrow> sublist p s"
  by (simp add: contains_def index_of_None_iff)

lemma index_of_first:
  "index_of s p = Some i \<Longrightarrow> j < i \<Longrightarrow> \<not> prefix p (drop j s)"
proof (induction s p arbitrary: i j rule: index_of.induct)
  case (1 p)
  then show ?case by (auto split: if_splits)
next
  case (2 x xs p)
  then show ?case by (cases j) (auto split: if_splits)
qed

lemma index_of_append_sep:
  "(\<And>j. j < length a \<Longrightarrow> \<not> prefix p (drop j (a @ p @ b)))
    \<Longrightarrow> index_of (a @ p @ b) p = Some (length a)"
proof (induction a)
  case Nil
  show ?case
  proof (cases "p @ b")
    case (Cons c cs)
    moreover have "prefix p (p @ b)" by simp
    ultimately show ?thesis by simp
  qed simp
next
  case (Cons x a)
  have "\<not> prefix p (x # a @ p @ b)" using Cons.prems [of 0] by simp
  moreover have "index_of (a @ p @ b) p = Some (length a)"
    by (rule Cons.IH) (use Cons.prems [of "Suc j" for j] in auto)
  ultimately show ?case by simp
qed

lemma cut_app: "cut s p = (a, b, True) \<Longrightarrow> s = a @ p @ b"
  by (auto simp: cut_def dest!: index_of_SomeD split: option.splits)

section \<open>Splitting and joining\<close>

text \<open>\<^verbatim>\<open>strings.Split(s, sep)\<close> for a non-empty separator, and \<^verbatim>\<open>strings.Join\<close>.\<close>

function split_on :: "'a list \<Rightarrow> 'a list \<Rightarrow> 'a list list" where
  "split_on sep [] = [[]]"
| "split_on sep (x # xs) =
     (if prefix sep (x # xs) then [] # split_on sep (drop (length sep - 1) xs)
      else (x # hd (split_on sep xs)) # tl (split_on sep xs))"
  by pat_completeness auto
termination
  by (relation "measure (\<lambda>(sep, s). length s)") auto

fun join :: "'a list \<Rightarrow> 'a list list \<Rightarrow> 'a list" where
  "join sep [] = []"
| "join sep [x] = x"
| "join sep (x # y # ys) = x @ sep @ join sep (y # ys)"

lemma split_on_not_Nil [simp]: "split_on sep s \<noteq> []"
  by (cases s) auto

text \<open>Evaluation without computing the rest twice.\<close>

lemma split_on_code [code]:
  "split_on sep [] = [[]]"
  "split_on sep (x # xs) =
     (if prefix sep (x # xs) then [] # split_on sep (drop (length sep - 1) xs)
      else case split_on sep xs of [] \<Rightarrow> [[x]] | w # ws \<Rightarrow> (x # w) # ws)"
  by (auto split: list.split)

lemma join_Cons: "xs \<noteq> [] \<Longrightarrow> join sep (x # xs) = x @ sep @ join sep xs"
  by (cases xs) auto

lemma join_snoc: "xs \<noteq> [] \<Longrightarrow> join sep (xs @ [x]) = join sep xs @ sep @ x"
  by (induction sep xs rule: join.induct) (auto simp: join_Cons)

lemma join_append:
  "xs \<noteq> [] \<Longrightarrow> ys \<noteq> [] \<Longrightarrow> join sep (xs @ ys) = join sep xs @ sep @ join sep ys"
  by (induction sep xs rule: join.induct) (auto simp: join_Cons)

lemma join_Cons_hd: "join sep ((c # a) # as) = c # join sep (a # as)"
  by (cases as) auto

lemma join_split_on: "sep \<noteq> [] \<Longrightarrow> join sep (split_on sep s) = s"
proof (induction sep s rule: split_on.induct)
  case (1 sep)
  then show ?case by simp
next
  case (2 sep x xs)
  show ?case
  proof (cases "prefix sep (x # xs)")
    case True
    then have "x # xs = sep @ drop (length sep - 1) xs"
      using "2.prems" by (cases sep) (auto simp: prefix_def)
    moreover have "join sep (split_on sep (x # xs)) = sep @ drop (length sep - 1) xs"
      using 2 True by (simp add: join_Cons)
    ultimately show ?thesis by simp
  next
    case False
    have "join sep ((x # hd (split_on sep xs)) # tl (split_on sep xs))
        = x # join sep (split_on sep xs)"
      by (simp add: join_Cons_hd)
    with 2 False show ?thesis by simp
  qed
qed

lemma split_on_no_sep: "c \<notin> set s \<Longrightarrow> split_on [c] s = [s]"
  by (induction s) auto

lemma split_on_char_app:
  "c \<notin> set a \<Longrightarrow> split_on [c] (a @ c # b) = a # split_on [c] b"
  by (induction a) auto

lemma split_on_join:
  "xs \<noteq> [] \<Longrightarrow> \<forall>x \<in> set xs. c \<notin> set x \<Longrightarrow> split_on [c] (join [c] xs) = xs"
  by (induction "[c]" xs rule: join.induct) (auto simp: split_on_no_sep split_on_char_app)

lemma split_on_char_elems: "x \<in> set (split_on [c] s) \<Longrightarrow> c \<notin> set x"
proof (induction "[c]" s arbitrary: x rule: split_on.induct)
  case 1
  then show ?case by simp
next
  case (2 y ys)
  then show ?case
    by (cases "split_on [c] ys") (auto split: if_splits)
qed

text \<open>\<^verbatim>\<open>strings.ReplaceAll(s, old, new)\<close> for a non-empty \<^verbatim>\<open>old\<close>.\<close>

function replace_all :: "'a list \<Rightarrow> 'a list \<Rightarrow> 'a list \<Rightarrow> 'a list" where
  "replace_all old new [] = []"
| "replace_all old new (x # xs) =
     (if prefix old (x # xs) then new @ replace_all old new (drop (length old - 1) xs)
      else x # replace_all old new xs)"
  by pat_completeness auto
termination
  by (relation "measure (\<lambda>(old, new, s). length s)") auto

lemma replace_all_char: "replace_all [c] new s = concat (map (\<lambda>x. if x = c then new else [x]) s)"
  by (induction "[c]" new s rule: replace_all.induct) auto

lemma replace_all_join: "old \<noteq> [] \<Longrightarrow> replace_all old new s = join new (split_on old s)"
proof (induction old new s rule: replace_all.induct)
  case (1 old new)
  then show ?case by simp
next
  case (2 old new x xs)
  then show ?case by (simp add: join_Cons join_Cons_hd)
qed

lemma set_split_on: "x \<in> set (split_on sep s) \<Longrightarrow> set x \<subseteq> set s"
proof (induction sep s arbitrary: x rule: split_on.induct)
  case (1 sep)
  then show ?case by simp
next
  case (2 sep y ys)
  show ?case
  proof (cases "prefix sep (y # ys)")
    case True
    with 2 show ?thesis by (fastforce dest: in_set_dropD)
  next
    case False
    with 2 show ?thesis by (cases "split_on sep ys") fastforce+
  qed
qed

section \<open>White space\<close>

text \<open>The width of the \<^verbatim>\<open>unicode.IsSpace\<close> rune at the front of a string, 0 if there is none.\<close>

definition space3 :: "nat \<Rightarrow> nat \<Rightarrow> nat \<Rightarrow> bool" where
  "space3 a b c \<longleftrightarrow>
     a = 225 \<and> b = 154 \<and> c = 128
   \<or> a = 226 \<and> b = 128 \<and> (128 \<le> c \<and> c \<le> 138 \<or> c = 168 \<or> c = 169 \<or> c = 175)
   \<or> a = 226 \<and> b = 129 \<and> c = 159
   \<or> a = 227 \<and> b = 128 \<and> c = 128"

definition space2 :: "nat \<Rightarrow> nat \<Rightarrow> bool" where
  "space2 a b \<longleftrightarrow> a = 194 \<and> (b = 133 \<or> b = 160)"

definition space1 :: "nat \<Rightarrow> bool" where
  "space1 a \<longleftrightarrow> 9 \<le> a \<and> a \<le> 13 \<or> a = 32"

fun lead_space :: "string \<Rightarrow> nat" where
  "lead_space [] = 0"
| "lead_space [a] = (if space1 (of_char a) then 1 else 0)"
| "lead_space [a, b] =
     (if space1 (of_char a) then 1 else if space2 (of_char a) (of_char b) then 2 else 0)"
| "lead_space (a # b # c # s) =
     (if space1 (of_char a) then 1 else if space2 (of_char a) (of_char b) then 2
      else if space3 (of_char a) (of_char b) (of_char c) then 3 else 0)"

fun trail_space :: "string \<Rightarrow> nat" where
  "trail_space [] = 0"
| "trail_space [a] = (if space1 (of_char a) then 1 else 0)"
| "trail_space [a, b] =
     (if space1 (of_char a) then 1 else if space2 (of_char b) (of_char a) then 2 else 0)"
| "trail_space (a # b # c # s) =
     (if space1 (of_char a) then 1 else if space2 (of_char b) (of_char a) then 2
      else if space3 (of_char c) (of_char b) (of_char a) then 3 else 0)"

lemma lead_space_shrinks: "0 < lead_space s \<Longrightarrow> length s - lead_space s < length s"
  by (cases s) auto

lemma trail_space_shrinks: "0 < trail_space s \<Longrightarrow> length s - trail_space s < length s"
  by (cases s) auto

function trim_left :: "string \<Rightarrow> string" where
  "trim_left s = (if lead_space s = 0 then s else trim_left (drop (lead_space s) s))"
  by pat_completeness auto
termination
  by (relation "measure length") (auto simp: lead_space_shrinks)

function trim_right_rev :: "string \<Rightarrow> string" where
  "trim_right_rev s = (if trail_space s = 0 then s else trim_right_rev (drop (trail_space s) s))"
  by pat_completeness auto
termination
  by (relation "measure length") (auto simp: trail_space_shrinks)

declare trim_left.simps [simp del] trim_right_rev.simps [simp del]

definition trim_space :: "string \<Rightarrow> string" where
  "trim_space s = rev (trim_right_rev (rev (trim_left s)))"

lemma trim_left_suffix: "suffix (trim_left s) s"
proof (induction s rule: trim_left.induct)
  case (1 s)
  show ?case
  proof (cases "lead_space s = 0")
    case True
    then show ?thesis by (subst trim_left.simps) simp
  next
    case False
    with 1 have "suffix (trim_left (drop (lead_space s) s)) s"
      using suffix_drop suffix_order.trans by blast
    with False show ?thesis by (subst trim_left.simps) simp
  qed
qed

lemma trim_right_rev_suffix: "suffix (trim_right_rev s) s"
proof (induction s rule: trim_right_rev.induct)
  case (1 s)
  show ?case
  proof (cases "trail_space s = 0")
    case True
    then show ?thesis by (subst trim_right_rev.simps) simp
  next
    case False
    with 1 have "suffix (trim_right_rev (drop (trail_space s) s)) s"
      using suffix_drop suffix_order.trans by blast
    with False show ?thesis by (subst trim_right_rev.simps) simp
  qed
qed

lemma trail_space_trim_right_rev [simp]: "trail_space (trim_right_rev s) = 0"
  by (induction s rule: trim_right_rev.induct) (subst trim_right_rev.simps, auto)

lemma lead_space_trim_left [simp]: "lead_space (trim_left s) = 0"
  by (induction s rule: trim_left.induct) (subst trim_left.simps, auto)

lemma lead_space_prefix: "lead_space (s @ t) = 0 \<Longrightarrow> lead_space s = 0"
  by (cases "(s @ t)" rule: lead_space.cases; cases s rule: lead_space.cases)
     (simp_all split: if_splits)

lemma trim_space_parts: "\<exists>a b. s = a @ trim_space s @ b"
proof -
  obtain a where a: "s = a @ trim_left s" using trim_left_suffix [of s] by (auto simp: suffix_def)
  obtain b where "rev (trim_left s) = b @ trim_right_rev (rev (trim_left s))"
    using trim_right_rev_suffix [of "rev (trim_left s)"] by (auto simp: suffix_def)
  then have "trim_left s = trim_space s @ rev b"
    unfolding trim_space_def by (metis rev_append rev_rev_ident)
  with a show ?thesis by metis
qed

lemma set_trim_space: "set (trim_space s) \<subseteq> set s"
  using trim_space_parts [of s] by (metis Un_iff set_append subsetI)

lemma lead_space_trim_space [simp]: "lead_space (trim_space s) = 0"
proof -
  obtain b where "rev (trim_left s) = b @ trim_right_rev (rev (trim_left s))"
    using trim_right_rev_suffix [of "rev (trim_left s)"] by (auto simp: suffix_def)
  then have "trim_left s = trim_space s @ rev b"
    unfolding trim_space_def by (metis rev_append rev_rev_ident)
  then show ?thesis using lead_space_prefix lead_space_trim_left by metis
qed

lemma trail_space_trim_space [simp]: "trail_space (rev (trim_space s)) = 0"
  by (simp add: trim_space_def)

lemma trim_space_id: "lead_space s = 0 \<Longrightarrow> trail_space (rev s) = 0 \<Longrightarrow> trim_space s = s"
  by (simp add: trim_space_def trim_left.simps trim_right_rev.simps)

lemma trim_space_idem [simp]: "trim_space (trim_space s) = trim_space s"
  by (simp add: trim_space_id)

text \<open>\<^verbatim>\<open>strings.Fields\<close>\<close>

fun nonspace_span :: "string \<Rightarrow> string \<times> string" where
  "nonspace_span [] = ([], [])"
| "nonspace_span (c # cs) =
     (if lead_space (c # cs) > 0 then ([], c # cs)
      else (c # fst (nonspace_span cs), snd (nonspace_span cs)))"

lemma nonspace_span_code [code]:
  "nonspace_span [] = ([], [])"
  "nonspace_span (c # cs) =
     (if lead_space (c # cs) > 0 then ([], c # cs)
      else case nonspace_span cs of (w, rest) \<Rightarrow> (c # w, rest))"
  by (auto split: prod.split)

lemma nonspace_span_app: "fst (nonspace_span s) @ snd (nonspace_span s) = s"
  by (induction s) auto

lemma length_snd_nonspace_span: "length (snd (nonspace_span s)) \<le> length s"
  by (induction s) auto

lemma length_trim_left: "length (trim_left s) \<le> length s"
proof (induction s rule: trim_left.induct)
  case (1 s)
  then show ?case
    by (subst trim_left.simps) (auto intro: order_trans)
qed

lemma trim_left_id: "lead_space s = 0 \<Longrightarrow> trim_left s = s"
  by (simp add: trim_left.simps)

lemma length_rest_less:
  assumes "s \<noteq> []" and "lead_space s = 0"
  shows "length (snd (nonspace_span s)) < length s"
  using assms by (cases s) (auto simp: le_imp_less_Suc length_snd_nonspace_span)

function fields :: "string \<Rightarrow> string list" where
  "fields s =
     (if trim_left s = [] then []
      else fst (nonspace_span (trim_left s)) # fields (snd (nonspace_span (trim_left s))))"
  by pat_completeness auto
termination
  by (relation "measure length")
     (auto intro: less_le_trans [OF length_rest_less length_trim_left])

declare fields.simps [simp del]

lemma fields_nonempty: "w \<in> set (fields s) \<Longrightarrow> w \<noteq> []"
proof (induction s rule: fields.induct)
  case (1 s)
  show ?case
  proof (cases "trim_left s")
    case Nil
    with "1.prems" show ?thesis by (simp add: fields.simps)
  next
    case (Cons c cs)
    then have "lead_space (c # cs) = 0" using lead_space_trim_left [of s] by simp
    with Cons 1 show ?thesis
      by (subst (asm) fields.simps) auto
  qed
qed

text \<open>Trimming a fixed set of trailing bytes, \<^verbatim>\<open>strings.TrimRight\<close>.\<close>

definition trim_right_set :: "char list \<Rightarrow> string \<Rightarrow> string" where
  "trim_right_set cs s = rev (dropWhile (\<lambda>c. c \<in> set cs) (rev s))"

section \<open>Case folding\<close>

definition lower_char :: "char \<Rightarrow> char" where
  "lower_char c = (if 65 \<le> (of_char c :: nat) \<and> (of_char c :: nat) \<le> 90
     then char_of ((of_char c :: nat) + 32) else c)"

text \<open>
  \<^verbatim>\<open>strings.ToLower\<close>: U+0130 (C4 B0) becomes i, U+212A (E2 84 AA) becomes k.
\<close>

fun to_lower :: "string \<Rightarrow> string" where
  "to_lower [] = []"
| "to_lower (a # b # c # s) =
     (if of_char a = (226::nat) \<and> of_char b = (132::nat) \<and> of_char c = (170::nat)
      then CHR ''k'' # to_lower s
      else if of_char a = (196::nat) \<and> of_char b = (176::nat) then CHR ''i'' # to_lower (c # s)
      else lower_char a # to_lower (b # c # s))"
| "to_lower [a, b] =
     (if of_char a = (196::nat) \<and> of_char b = (176::nat) then [CHR ''i'']
      else [lower_char a, lower_char b])"
| "to_lower [a] = [lower_char a]"

text \<open>
  The fold class \<^verbatim>\<open>strings.EqualFold\<close> compares: U+212A folds with k, U+017F (C5 BF) with s.
\<close>

fun fold_key :: "string \<Rightarrow> string" where
  "fold_key [] = []"
| "fold_key (a # b # c # s) =
     (if of_char a = (226::nat) \<and> of_char b = (132::nat) \<and> of_char c = (170::nat)
      then CHR ''k'' # fold_key s
      else if of_char a = (197::nat) \<and> of_char b = (191::nat) then CHR ''s'' # fold_key (c # s)
      else lower_char a # fold_key (b # c # s))"
| "fold_key [a, b] =
     (if of_char a = (197::nat) \<and> of_char b = (191::nat) then [CHR ''s'']
      else [lower_char a, lower_char b])"
| "fold_key [a] = [lower_char a]"

definition equal_fold :: "string \<Rightarrow> string \<Rightarrow> bool" where
  "equal_fold s t \<longleftrightarrow> fold_key s = fold_key t"

lemma equal_fold_refl [simp]: "equal_fold s s"
  by (simp add: equal_fold_def)

lemma equal_fold_sym: "equal_fold s t \<longleftrightarrow> equal_fold t s"
  by (auto simp: equal_fold_def)

lemma equal_fold_trans: "equal_fold s t \<Longrightarrow> equal_fold t u \<Longrightarrow> equal_fold s u"
  by (simp add: equal_fold_def)

section \<open>Decimal numbers\<close>

definition digit_char :: "nat \<Rightarrow> char" where
  "digit_char d = char_of (48 + d)"

definition is_digit :: "char \<Rightarrow> bool" where
  "is_digit c \<longleftrightarrow> 48 \<le> (of_char c :: nat) \<and> (of_char c :: nat) \<le> 57"

definition digit_val :: "char \<Rightarrow> nat" where
  "digit_val c = of_char c - 48"

text \<open>\<^verbatim>\<open>strconv.Itoa\<close> and the decimal verb of \<^verbatim>\<open>fmt\<close>.\<close>

fun show_nat :: "nat \<Rightarrow> string" where
  "show_nat n = (if n < 10 then [digit_char n] else show_nat (n div 10) @ [digit_char (n mod 10)])"

declare show_nat.simps [simp del]

definition show_int :: "int \<Rightarrow> string" where
  "show_int i = (if i < 0 then CHR ''-'' # show_nat (nat (- i)) else show_nat (nat i))"

definition digits_val :: "string \<Rightarrow> nat" where
  "digits_val s = foldl (\<lambda>a c. a * 10 + digit_val c) 0 s"

text \<open>A non-empty run of decimal digits, \<^verbatim>\<open>None\<close> for a syntax error.\<close>

definition parse_digits :: "string \<Rightarrow> nat option" where
  "parse_digits s = (if s \<noteq> [] \<and> list_all is_digit s then Some (digits_val s) else None)"

text \<open>\<^verbatim>\<open>strconv.ParseUint(s, 10, w)\<close>\<close>

definition parse_uint :: "nat \<Rightarrow> string \<Rightarrow> nat option" where
  "parse_uint w s = (case parse_digits s of
     None \<Rightarrow> None | Some n \<Rightarrow> if n < 2 ^ w then Some n else None)"

text \<open>\<^verbatim>\<open>strconv.ParseInt(s, 10, 64)\<close> and \<^verbatim>\<open>strconv.Atoi\<close>: an optional sign, then digits.\<close>

fun parse_int :: "string \<Rightarrow> int option" where
  "parse_int [] = None"
| "parse_int (c # s) =
     (if c = CHR ''-'' then
        (case parse_digits s of None \<Rightarrow> None
         | Some n \<Rightarrow> if n \<le> 2 ^ 63 then Some (- int n) else None)
      else if c = CHR ''+'' then
        (case parse_digits s of None \<Rightarrow> None
         | Some n \<Rightarrow> if n < 2 ^ 63 then Some (int n) else None)
      else
        (case parse_digits (c # s) of None \<Rightarrow> None
         | Some n \<Rightarrow> if n < 2 ^ 63 then Some (int n) else None))"

lemma is_digit_digit_char [simp]: "d < 10 \<Longrightarrow> is_digit (digit_char d)"
  by (simp add: is_digit_def digit_char_def)

lemma digit_val_digit_char [simp]: "d < 10 \<Longrightarrow> digit_val (digit_char d) = d"
  by (simp add: digit_val_def digit_char_def)

lemma show_nat_digits: "list_all is_digit (show_nat n)"
proof (induction n rule: show_nat.induct)
  case (1 n)
  then show ?case by (subst show_nat.simps) auto
qed

lemma show_nat_not_Nil [simp]: "show_nat n \<noteq> []"
  by (subst show_nat.simps) simp

lemma digits_val_snoc: "digits_val (s @ [c]) = digits_val s * 10 + digit_val c"
  by (simp add: digits_val_def)

lemma digits_val_show_nat [simp]: "digits_val (show_nat n) = n"
proof (induction n rule: show_nat.induct)
  case (1 n)
  show ?case
  proof (cases "n < 10")
    case True
    then show ?thesis by (subst show_nat.simps) (simp add: digits_val_def)
  next
    case False
    with 1 show ?thesis by (subst show_nat.simps) (simp add: digits_val_snoc)
  qed
qed

lemma parse_digits_show_nat [simp]: "parse_digits (show_nat n) = Some n"
  by (simp add: parse_digits_def show_nat_digits)

lemma show_nat_inject [simp]: "show_nat m = show_nat n \<longleftrightarrow> m = n"
  by (metis digits_val_show_nat)

lemma hd_show_nat_digit: "is_digit (hd (show_nat n))"
  using show_nat_digits [of n] by (cases "show_nat n") auto

lemma parse_uint_show_nat: "parse_uint w (show_nat n) = (if n < 2 ^ w then Some n else None)"
  by (simp add: parse_uint_def)

end
