(* ===== verification/ShellQuote.thy ===== *)
theory ShellQuote
  imports GoStrings
begin

text \<open>
  \<^verbatim>\<open>internal/shellquote\<close>: quoting a string for a POSIX shell. The contract is stated against a
  reader of shell words (the reference): it knows single quotes, the backslash and the word
  delimiters, and refuses every unquoted character that the shell would expand. The locale
  \<open>word_quoting\<close> is the interface the callers use (the curl export, the \<^verbatim>\<open>-shell\<close> command
  line): a quoted word reads back as itself whatever delimiter follows it.
\<close>

abbreviation quote_char :: char where "quote_char \<equiv> CHR 0x27"
abbreviation newline :: char where "newline \<equiv> CHR 0x0A"
abbreviation backslash :: char where "backslash \<equiv> CHR 0x5C"

text \<open>\<^verbatim>\<open>shellquote.Single\<close>: an embedded quote closes the run, escapes a literal one, reopens.\<close>

definition Single :: "string \<Rightarrow> string" where
  "Single s = [quote_char]
     @ replace_all [quote_char] [quote_char, backslash, quote_char, quote_char] s
     @ [quote_char]"

section \<open>The shell's reading of a word\<close>

definition blank :: "char \<Rightarrow> bool" where
  "blank c \<longleftrightarrow> c = CHR 0x20 \<or> c = CHR 0x09"

text \<open>Characters that end an unquoted word.\<close>

definition word_end :: "char \<Rightarrow> bool" where
  "word_end c \<longleftrightarrow> blank c \<or> c \<in> set [CHR 0x0A, CHR 0x26, CHR 0x28, CHR 0x29, CHR 0x3B, CHR 0x3C, CHR 0x3E, CHR 0x7C]"

text \<open>Characters the shell expands when they are not quoted (globs, parameters, commands, comments).\<close>

definition expands :: "char \<Rightarrow> bool" where
  "expands c \<longleftrightarrow> c \<in> set [CHR 0x21, CHR 0x22, CHR 0x23, CHR 0x24, CHR 0x2A, CHR 0x3F, CHR 0x5B, CHR 0x5D,
     CHR 0x5E, CHR 0x60, CHR 0x7B, CHR 0x7D, CHR 0x7E]"

definition prepend :: "'a \<Rightarrow> ('a list \<times> 'b) option \<Rightarrow> ('a list \<times> 'b) option" where
  "prepend c r = map_option (\<lambda>(w, rest). (c # w, rest)) r"

fun sh_word :: "string \<Rightarrow> (string \<times> string) option"
and sh_single :: "string \<Rightarrow> (string \<times> string) option" where
  "sh_word [] = Some ([], [])"
| "sh_word (c # s) =
     (if c = quote_char then sh_single s
      else if c = backslash then (case s of [] \<Rightarrow> None
        | d # t \<Rightarrow> if d = newline then sh_word t else prepend d (sh_word t))
      else if word_end c then Some ([], c # s)
      else if expands c then None
      else prepend c (sh_word s))"
| "sh_single [] = None"
| "sh_single (c # s) = (if c = quote_char then sh_word s else prepend c (sh_single s))"

text \<open>Between words: blanks, and the backslash-newline that continues a line.\<close>

fun skip_blanks :: "string \<Rightarrow> string" where
  "skip_blanks (c # d # s) =
     (if blank c then skip_blanks (d # s) else if c = backslash \<and> d = newline then skip_blanks s else c # d # s)"
| "skip_blanks [c] = (if blank c then [] else [c])"
| "skip_blanks [] = []"

lemma length_skip_blanks: "length (skip_blanks s) \<le> length s"
  by (induction s rule: skip_blanks.induct) auto

lemma skip_blanks_blank [simp]: "blank c \<Longrightarrow> skip_blanks (c # s) = skip_blanks s"
  by (cases s) auto

lemma skip_blanks_continue [simp]: "skip_blanks (backslash # newline # s) = skip_blanks s"
  by (simp add: blank_def)

lemma skip_blanks_word: "\<not> blank c \<Longrightarrow> c \<noteq> backslash \<Longrightarrow> skip_blanks (c # s) = c # s"
  by (cases s) auto

text \<open>A whole command line as its words; \<^verbatim>\<open>None\<close> if it holds anything but literal words.\<close>

function sh_split :: "string \<Rightarrow> string list option" where
  "sh_split s =
     (case skip_blanks s of
        [] \<Rightarrow> Some []
      | c # t \<Rightarrow>
          (case sh_word (c # t) of
             None \<Rightarrow> None
           | Some (w, rest) \<Rightarrow>
               if length rest < length (c # t) then map_option ((#) w) (sh_split rest) else None))"
  by pat_completeness auto
termination
proof (relation "measure length")
  fix s c t x w and rest :: string
  assume "skip_blanks s = c # t" and "length rest < length (c # t)"
  then have "length rest < length (skip_blanks s)" by simp
  also have "\<dots> \<le> length s" by (rule length_skip_blanks)
  finally show "(rest, s) \<in> measure length" by simp
qed simp

declare sh_split.simps [simp del]

lemma prepend_simps [simp]:
  "prepend c None = None" "prepend c (Some (w, rest)) = Some (c # w, rest)"
  by (simp_all add: prepend_def)

lemma sh_single_quoted:
  "sh_single (replace_all [quote_char] [quote_char, backslash, quote_char, quote_char] s
      @ quote_char # rest)
    = map_option (\<lambda>(w, r). (s @ w, r)) (sh_word rest)"
proof (induction s)
  case Nil
  show ?case by (cases "sh_word rest") auto
next
  case (Cons c s)
  then show ?case by (cases "sh_word rest") auto
qed

lemma sh_word_Single:
  "sh_word (Single s @ rest) = map_option (\<lambda>(w, r). (s @ w, r)) (sh_word rest)"
  by (simp add: Single_def sh_single_quoted)

definition at_delimiter :: "string \<Rightarrow> bool" where
  "at_delimiter rest \<longleftrightarrow> (case rest of [] \<Rightarrow> True | c # _ \<Rightarrow> word_end c)"

lemma word_end_not_quote:
  "word_end c \<Longrightarrow> c \<noteq> quote_char" "word_end c \<Longrightarrow> c \<noteq> backslash"
  by (auto simp: word_end_def blank_def)

lemma sh_word_delimiter: "at_delimiter rest \<Longrightarrow> sh_word rest = Some ([], rest)"
  by (cases rest) (auto simp: at_delimiter_def word_end_not_quote)

text \<open>A word of characters that mean nothing to the shell reads as itself.\<close>

definition sh_plain :: "char \<Rightarrow> bool" where
  "sh_plain c \<longleftrightarrow> c \<noteq> quote_char \<and> c \<noteq> backslash \<and> \<not> word_end c \<and> \<not> expands c"

lemma sh_word_plain:
  "list_all sh_plain w \<Longrightarrow> at_delimiter rest \<Longrightarrow> sh_word (w @ rest) = Some (w, rest)"
  by (induction w) (auto simp: sh_plain_def sh_word_delimiter)

lemma sh_plain_not_blank: "sh_plain c \<Longrightarrow> \<not> blank c \<and> c \<noteq> backslash"
  by (simp add: sh_plain_def word_end_def)

lemma split_plain_then:
  assumes "w \<noteq> []" and "list_all sh_plain w" and "at_delimiter rest"
  shows "sh_split (w @ rest) = map_option ((#) w) (sh_split rest)"
proof -
  obtain c t where w: "w = c # t" using assms(1) by (cases w) auto
  have "skip_blanks (w @ rest) = w @ rest"
    using assms(2) sh_plain_not_blank [of c] by (simp add: w skip_blanks_word)
  then show ?thesis
    using sh_word_plain [OF assms(2,3)] by (subst sh_split.simps) (simp add: w)
qed

section \<open>The quoting interface\<close>

lemma split_blank: "blank c \<Longrightarrow> sh_split (c # s) = sh_split s"
  by (subst (1 2) sh_split.simps) simp

locale word_quoting =
  fixes quote :: "string \<Rightarrow> string"
  assumes quote_reads: "at_delimiter rest \<Longrightarrow> sh_word (quote s @ rest) = Some (s, rest)"
    and quote_starts: "quote s \<noteq> [] \<and> \<not> blank (hd (quote s)) \<and> hd (quote s) \<noteq> backslash"
begin

lemma split_quoted_then:
  assumes "at_delimiter rest"
  shows "sh_split (quote s @ rest) = map_option ((#) s) (sh_split rest)"
proof -
  obtain c t where q: "quote s = c # t" "\<not> blank c" "c \<noteq> backslash"
    using quote_starts [of s] by (cases "quote s") auto
  moreover have "sh_word (c # t @ rest) = Some (s, rest)"
    using quote_reads [OF assms, of s] q by simp
  ultimately show ?thesis by (subst sh_split.simps) (simp add: skip_blanks_word)
qed

text \<open>A command line of quoted words, one blank between two of them, is those words.\<close>

lemma split_quoted_words: "sh_split (join '' '' (map quote ws)) = Some ws"
proof (induction ws)
  case Nil
  show ?case by (simp add: sh_split.simps)
next
  case (Cons w ws)
  show ?case
  proof (cases ws)
    case Nil
    have "sh_split (quote w @ []) = Some [w]"
      by (subst split_quoted_then) (simp_all add: at_delimiter_def sh_split.simps)
    with Nil show ?thesis by simp
  next
    case (Cons v vs)
    have "sh_split (quote w @ '' '' @ join '' '' (map quote ws)) = Some (w # ws)"
      by (subst split_quoted_then)
         (simp_all add: at_delimiter_def word_end_def blank_def split_blank [of "CHR '' ''", unfolded blank_def] Cons.IH)
    with Cons show ?thesis by (simp add: join_Cons)
  qed
qed

lemma quote_inject: "quote s = quote t \<Longrightarrow> s = t"
  using quote_reads [of "[]" s] quote_reads [of "[]" t] by (simp add: at_delimiter_def)

end

lemma Single_starts: "Single s \<noteq> [] \<and> \<not> blank (hd (Single s)) \<and> hd (Single s) \<noteq> backslash"
  by (simp add: Single_def blank_def)

interpretation single: word_quoting Single
  by unfold_locales (simp_all add: sh_word_Single sh_word_delimiter Single_starts)

text \<open>
  C39: whatever bytes an argument holds (quotes, blanks, \<^verbatim>\<open>$\<close>, backquotes, newlines), a line of
  arguments quoted with \<^verbatim>\<open>shellquote.Single\<close> is read by the shell as exactly those arguments:
  no expansion, no splitting, no word lost.
\<close>

theorem shell_reads_back_quoted_words: "sh_split (join '' '' (map Single ws)) = Some ws"
  by (rule single.split_quoted_words)

end
