(* ===== verification/GoUtf8.thy ===== *)
theory GoUtf8
  imports GoStrings
begin

text \<open>
  Go's UTF-8: \<^verbatim>\<open>utf8.DecodeRuneInString\<close>, the rune loop \<^verbatim>\<open>for _, r := range s\<close> (which is also
  the conversion \<^verbatim>\<open>[]rune(s)\<close>), the conversion \<^verbatim>\<open>string(r)\<close> and \<^verbatim>\<open>utf8.Valid\<close>. An invalid byte
  decodes to U+FFFD with width 1.
\<close>

definition rune_error :: nat where "rune_error = 65533"

definition cont :: "nat \<Rightarrow> bool" where "cont b \<longleftrightarrow> 128 \<le> b \<and> b < 192"

definition valid_rune :: "nat \<Rightarrow> bool" where
  "valid_rune r \<longleftrightarrow> r < 55296 \<or> 57344 \<le> r \<and> r \<le> 1114111"

text \<open>The rune at the front of a list of byte codes, with its width.\<close>

definition dec2 :: "nat \<Rightarrow> nat list \<Rightarrow> nat \<times> nat" where
  "dec2 a s = (case s of b # _ \<Rightarrow>
       if 194 \<le> a \<and> cont b then ((a - 192) * 64 + (b - 128), 2) else (rune_error, 1)
     | [] \<Rightarrow> (rune_error, 1))"

definition dec3 :: "nat \<Rightarrow> nat list \<Rightarrow> nat \<times> nat" where
  "dec3 a s = (case s of b # c # _ \<Rightarrow>
       if (if a = 224 then 160 \<le> b else 128 \<le> b) \<and> (if a = 237 then b < 160 else b < 192) \<and> cont c
       then ((a - 224) * 4096 + (b - 128) * 64 + (c - 128), 3) else (rune_error, 1)
     | _ \<Rightarrow> (rune_error, 1))"

definition dec4 :: "nat \<Rightarrow> nat list \<Rightarrow> nat \<times> nat" where
  "dec4 a s = (case s of b # c # d # _ \<Rightarrow>
       if (if a = 240 then 144 \<le> b else 128 \<le> b) \<and> (if a = 244 then b < 144 else b < 192)
          \<and> cont c \<and> cont d
       then ((a - 240) * 262144 + (b - 128) * 4096 + (c - 128) * 64 + (d - 128), 4)
       else (rune_error, 1)
     | _ \<Rightarrow> (rune_error, 1))"

fun decode_rune :: "nat list \<Rightarrow> nat \<times> nat" where
  "decode_rune [] = (rune_error, 0)"
| "decode_rune (a # s) =
     (if a < 128 then (a, 1) else if a < 224 then dec2 a s else if a < 240 then dec3 a s
      else if a < 245 then dec4 a s else (rune_error, 1))"

lemmas dec_defs = dec2_def dec3_def dec4_def

lemma decode_rune_width: "s \<noteq> [] \<Longrightarrow> 1 \<le> snd (decode_rune s) \<and> snd (decode_rune s) \<le> length s"
  by (cases s) (auto simp: dec_defs split: list.split)

lemma decode_rune_width_pos: "0 < snd (decode_rune (a # s))"
  using decode_rune_width [of "a # s"] by simp

function runes_of_codes :: "nat list \<Rightarrow> nat list" where
  "runes_of_codes [] = []"
| "runes_of_codes (a # s) =
     fst (decode_rune (a # s)) # runes_of_codes (drop (snd (decode_rune (a # s)) - 1) s)"
  by pat_completeness auto
termination
  by (relation "measure length") auto

definition codes :: "string \<Rightarrow> nat list" where
  "codes s = map of_char s"

definition uncodes :: "nat list \<Rightarrow> string" where
  "uncodes ns = map char_of ns"

definition runes :: "string \<Rightarrow> nat list" where
  "runes s = runes_of_codes (codes s)"

text \<open>\<^verbatim>\<open>string(r)\<close>: surrogates and values past U+10FFFF become U+FFFD.\<close>

fun encode_rune :: "nat \<Rightarrow> nat list" where
  "encode_rune r =
     (if r < 128 then [r]
      else if r < 2048 then [192 + r div 64, 128 + r mod 64]
      else if \<not> valid_rune r then [239, 191, 189]
      else if r < 65536 then [224 + r div 4096, 128 + r div 64 mod 64, 128 + r mod 64]
      else [240 + r div 262144, 128 + r div 4096 mod 64, 128 + r div 64 mod 64, 128 + r mod 64])"

definition string_of_rune :: "nat \<Rightarrow> string" where
  "string_of_rune r = uncodes (encode_rune r)"

definition string_of_runes :: "nat list \<Rightarrow> string" where
  "string_of_runes rs = concat (map string_of_rune rs)"

text \<open>\<^verbatim>\<open>utf8.Valid\<close>: no position decodes to an invalid byte.\<close>

function utf8_valid_codes :: "nat list \<Rightarrow> bool" where
  "utf8_valid_codes [] = True"
| "utf8_valid_codes (a # s) =
     (if a < 128 then utf8_valid_codes s
      else snd (decode_rune (a # s)) > 1
        \<and> utf8_valid_codes (drop (snd (decode_rune (a # s)) - 1) s))"
  by pat_completeness auto
termination
  by (relation "measure length") auto

definition utf8_valid :: "bytes \<Rightarrow> bool" where
  "utf8_valid b = utf8_valid_codes (map unat b)"

declare decode_rune.simps [simp del] encode_rune.simps [simp del]

lemma codes_uncodes: "\<forall>n \<in> set ns. n < 256 \<Longrightarrow> codes (uncodes ns) = ns"
  by (induction ns) (auto simp: codes_def uncodes_def)

lemma uncodes_codes [simp]: "uncodes (codes s) = s"
  by (induction s) (auto simp: codes_def uncodes_def)

lemma codes_append [simp]: "codes (s @ t) = codes s @ codes t"
  by (simp add: codes_def)

lemma codes_bound: "n \<in> set (codes s) \<Longrightarrow> n < 256"
  by (auto simp: codes_def)

lemma encode_rune_bytes: "n \<in> set (encode_rune r) \<Longrightarrow> n < 256"
  by (auto simp: encode_rune.simps valid_rune_def split: if_splits)

lemma codes_string_of_rune: "codes (string_of_rune r) = encode_rune r"
  by (auto simp: string_of_rune_def encode_rune_bytes intro: codes_uncodes)

lemma encode_rune_not_Nil [simp]: "encode_rune r \<noteq> []"
  by (simp add: encode_rune.simps)

lemma base64_digits3: "r div 4096 * 4096 + r div 64 mod 64 * 64 + r mod 64 = (r :: nat)"
proof -
  have "r div 4096 = r div 64 div 64" by (simp add: div_mult2_eq [symmetric])
  moreover have "r div 64 = r div 64 div 64 * 64 + r div 64 mod 64" by simp
  moreover have "r = r div 64 * 64 + r mod 64" by simp
  ultimately show ?thesis by linarith
qed

lemma base64_digits4:
  "r div 262144 * 262144 + r div 4096 mod 64 * 4096 + r div 64 mod 64 * 64 + r mod 64 = (r :: nat)"
proof -
  have "r div 262144 = r div 4096 div 64" by (simp add: div_mult2_eq [symmetric])
  moreover have "r div 4096 = r div 4096 div 64 * 64 + r div 4096 mod 64" by simp
  moreover have "r = r div 4096 * 4096 + r div 64 mod 64 * 64 + r mod 64"
    by (simp add: base64_digits3)
  ultimately show ?thesis by linarith
qed

lemma decode_encode_rune:
  assumes "valid_rune r"
  shows "decode_rune (encode_rune r @ s) = (r, length (encode_rune r))"
proof -
  consider "r < 128" | "128 \<le> r" "r < 2048" | "2048 \<le> r" "r < 65536" | "65536 \<le> r" "r \<le> 1114111"
    using assms by (force simp: valid_rune_def)
  then show ?thesis
  proof cases
    case 1
    then show ?thesis by (simp add: encode_rune.simps decode_rune.simps)
  next
    case 2
    then have "r div 64 < 32" and "2 \<le> r div 64" by auto
    with 2 show ?thesis
      by (simp add: encode_rune.simps decode_rune.simps dec2_def cont_def)
  next
    case 3
    define p q t where "p = r div 4096" and "q = r div 64 mod 64" and "t = r mod 64"
    have eq: "p * 4096 + q * 64 + t = r" using base64_digits3 by (simp add: p_def q_def t_def)
    have bnd: "p < 16" "q < 64" "t < 64" using 3 by (auto simp: p_def q_def t_def)
    have "p = 0 \<Longrightarrow> 32 \<le> q" using eq bnd 3 by linarith
    moreover have "p = 13 \<Longrightarrow> q < 32" using eq bnd 3 assms unfolding valid_rune_def by linarith
    ultimately show ?thesis
      using 3 assms eq bnd
      by (simp add: encode_rune.simps decode_rune.simps dec3_def cont_def
          p_def [symmetric] q_def [symmetric] t_def [symmetric])
  next
    case 4
    define w p q t where "w = r div 262144" and "p = r div 4096 mod 64"
      and "q = r div 64 mod 64" and "t = r mod 64"
    have eq: "w * 262144 + p * 4096 + q * 64 + t = r"
      using base64_digits4 by (simp add: w_def p_def q_def t_def)
    have bnd: "w < 5" "p < 64" "q < 64" "t < 64" using 4 by (auto simp: w_def p_def q_def t_def)
    have "w = 0 \<Longrightarrow> 16 \<le> p" using eq bnd 4 by linarith
    moreover have "w = 4 \<Longrightarrow> p < 16" using eq bnd 4 by linarith
    ultimately show ?thesis
      using 4 assms eq bnd
      by (simp add: encode_rune.simps decode_rune.simps dec4_def cont_def
          w_def [symmetric] p_def [symmetric] q_def [symmetric] t_def [symmetric])
  qed
qed

lemma runes_of_codes_encode:
  assumes "valid_rune r"
  shows "runes_of_codes (encode_rune r @ s) = r # runes_of_codes s"
proof -
  obtain a t where at: "encode_rune r = a # t" by (cases "encode_rune r") auto
  then have "decode_rune (a # t @ s) = (r, Suc (length t))"
    using decode_encode_rune [OF assms, of s] by simp
  with at show ?thesis by simp
qed

lemma runes_string_of_rune: "valid_rune r \<Longrightarrow> runes (string_of_rune r @ s) = r # runes s"
  by (simp add: runes_def codes_string_of_rune runes_of_codes_encode)

lemma runes_Nil [simp]: "runes [] = []"
  by (simp add: runes_def codes_def)

lemma runes_ascii: "(of_char c :: nat) < 128 \<Longrightarrow> runes (c # s) = of_char c # runes s"
  by (simp add: runes_def codes_def decode_rune.simps)

lemma runes_string_of_runes: "\<forall>r \<in> set rs. valid_rune r \<Longrightarrow> runes (string_of_runes rs) = rs"
  by (induction rs) (auto simp: string_of_runes_def runes_string_of_rune)

lemma valid_rune_error [simp]: "valid_rune rune_error"
  by (simp add: valid_rune_def rune_error_def)

lemma valid_fst_decode_rune:
  assumes "\<forall>n \<in> set s. n < 256"
  shows "valid_rune (fst (decode_rune s))"
proof (cases s)
  case Nil
  then show ?thesis by (simp add: decode_rune.simps)
next
  case (Cons a t)
  have "valid_rune (fst (dec2 a t))" if "a < 224"
  proof (cases t)
    case (Cons b u)
    with that show ?thesis
      using valid_rune_error by (auto simp: dec2_def cont_def valid_rune_def)
  qed (simp add: dec2_def)
  moreover have "valid_rune (fst (dec3 a t))" if "224 \<le> a" "a < 240"
    using that by (auto simp: dec3_def cont_def valid_rune_def rune_error_def split: list.split)
  moreover have "valid_rune (fst (dec4 a t))" if "240 \<le> a" "a < 245"
    using that by (auto simp: dec4_def cont_def valid_rune_def rune_error_def split: list.split)
  ultimately show ?thesis
    using Cons by (auto simp: decode_rune.simps valid_rune_def rune_error_def)
qed

lemma valid_runes_of_codes: "\<forall>n \<in> set s. n < 256 \<Longrightarrow> r \<in> set (runes_of_codes s) \<Longrightarrow> valid_rune r"
proof (induction s rule: runes_of_codes.induct)
  case 1
  then show ?case by simp
next
  case (2 a s)
  have "\<forall>n \<in> set (drop (snd (decode_rune (a # s)) - 1) s). n < 256"
    using "2.prems"(1) by (auto dest: in_set_dropD)
  with 2 show ?case
    using valid_fst_decode_rune [of "a # s"] by auto
qed

lemma valid_runes: "r \<in> set (runes s) \<Longrightarrow> valid_rune r"
  by (auto simp: runes_def intro: valid_runes_of_codes codes_bound)

lemma length_runes_le: "length (runes_of_codes s) \<le> length s"
  by (induction s rule: runes_of_codes.induct) auto

end
