(* ===== verification/Scope.thy ===== *)
theory Scope
  imports GoUtf8
begin

text \<open>
  \<^verbatim>\<open>internal/scope\<close>: conditions, rules, rule sets and the compact spec syntax, with
  \<^verbatim>\<open>buildScope\<close> and \<^verbatim>\<open>splitComma\<close> of \<^verbatim>\<open>cmd/cli-capture\<close>. Regular expressions: the anchored
  patterns that \<open>globToRegexp\<close> writes are compiled and matched here, rune by rune as RE2 does;
  any other expression the user types goes to a \<open>regex_engine\<close>, a parameter of the model.
\<close>

section \<open>Regular expressions\<close>

datatype glob_item = GLit nat | GAny | GStar

record 're regex_engine =
  rx_compile :: "string \<Rightarrow> 're option"
  rx_match :: "'re \<Rightarrow> string \<Rightarrow> bool"

datatype 're regexp = GlobRe "glob_item list" | OtherRe 're

definition regex_meta :: "nat list" where
  "regex_meta = [92, 46, 43, 42, 63, 40, 41, 124, 91, 93, 123, 125, 94, 36]"

text \<open>The runes after the anchor \<^verbatim>\<open>^\<close>: literals, escaped literals, \<^verbatim>\<open>.\<close>, \<^verbatim>\<open>.*\<close> and a final \<^verbatim>\<open>$\<close>.\<close>

fun parse_items :: "nat list \<Rightarrow> glob_item list option" where
  "parse_items [] = None"
| "parse_items (r # rs) =
     (if r = 36 then (if rs = [] then Some [] else None)
      else if r = 46 then
        (case rs of r' # rs' \<Rightarrow>
            if r' = 42 then map_option ((#) GStar) (parse_items rs')
            else map_option ((#) GAny) (parse_items rs)
          | [] \<Rightarrow> None)
      else if r = 92 then
        (case rs of r' # rs' \<Rightarrow>
            if r' \<in> set regex_meta then map_option ((#) (GLit r')) (parse_items rs') else None
          | [] \<Rightarrow> None)
      else if r \<in> set regex_meta then None
      else map_option ((#) (GLit r)) (parse_items rs))"

definition glob_compile :: "string \<Rightarrow> glob_item list option" where
  "glob_compile p = (case runes p of r # rs \<Rightarrow>
       if r = 94 \<and> utf8_valid_codes (codes p) then parse_items rs else None
     | [] \<Rightarrow> None)"

text \<open>\<^verbatim>\<open>.\<close> matches every rune but the newline.\<close>

fun glob_match :: "glob_item list \<Rightarrow> nat list \<Rightarrow> bool" where
  "glob_match [] rs \<longleftrightarrow> rs = []"
| "glob_match (GLit c # its) rs \<longleftrightarrow> (case rs of [] \<Rightarrow> False | r # rs' \<Rightarrow> r = c \<and> glob_match its rs')"
| "glob_match (GAny # its) rs \<longleftrightarrow> (case rs of [] \<Rightarrow> False | r # rs' \<Rightarrow> r \<noteq> 10 \<and> glob_match its rs')"
| "glob_match (GStar # its) [] \<longleftrightarrow> glob_match its []"
| "glob_match (GStar # its) (r # rs) \<longleftrightarrow>
     glob_match its (r # rs) \<or> r \<noteq> 10 \<and> glob_match (GStar # its) rs"

definition regexp_compile :: "'re regex_engine \<Rightarrow> string \<Rightarrow> 're regexp option" where
  "regexp_compile E p = (case glob_compile p of
       Some its \<Rightarrow> Some (GlobRe its)
     | None \<Rightarrow> map_option OtherRe (rx_compile E p))"

fun regexp_match :: "'re regex_engine \<Rightarrow> 're regexp \<Rightarrow> string \<Rightarrow> bool" where
  "regexp_match E (GlobRe its) s = glob_match its (runes s)"
| "regexp_match E (OtherRe re) s = rx_match E re s"

section \<open>Targets and conditions\<close>

datatype scope_field = FieldHost | FieldPath | FieldMethod | FieldProtocol | FieldBody | FieldAny

definition fieldNames :: "(string \<times> scope_field) list" where
  "fieldNames = [(''host'', FieldHost), (''path'', FieldPath), (''method'', FieldMethod),
     (''proto'', FieldProtocol), (''protocol'', FieldProtocol), (''body'', FieldBody),
     (''any'', FieldAny)]"

datatype strategy = Substr | Glob | Regex | Exact

record target =
  tg_Host :: string
  tg_Method :: string
  tg_Path :: string
  tg_Protocol :: string
  tg_Body :: bytes

fun target_field :: "target \<Rightarrow> scope_field \<Rightarrow> string" where
  "target_field t FieldHost = tg_Host t"
| "target_field t FieldPath = tg_Path t"
| "target_field t FieldMethod = tg_Method t"
| "target_field t FieldProtocol = tg_Protocol t"
| "target_field t FieldBody = str_of (tg_Body t)"
| "target_field t FieldAny =
     join '' '' [tg_Host t, tg_Method t, tg_Path t, tg_Protocol t, str_of (tg_Body t)]"

record 're condition =
  c_Field :: scope_field
  c_Strategy :: strategy
  c_Pattern :: string
  c_Negate :: bool
  c_re :: "'re regexp option"

definition is_upper :: "char \<Rightarrow> bool" where
  "is_upper c \<longleftrightarrow> 65 \<le> (of_char c :: nat) \<and> (of_char c :: nat) \<le> 90"

text \<open>The loop looks for the first capital; only then is the rest copied and folded.\<close>

fun canonicalDNSCase :: "string \<Rightarrow> string" where
  "canonicalDNSCase [] = []"
| "canonicalDNSCase (c # s) =
     (if \<not> is_upper c then c # canonicalDNSCase s
      else map (\<lambda>d. if is_upper d then char_of ((of_char d :: nat) + 32) else d) (c # s))"

definition quote_meta :: "string \<Rightarrow> string" where
  "quote_meta s = concat (map (\<lambda>c. if of_char c \<in> set regex_meta then [CHR 0x5C, c] else [c]) s)"

definition globToRegexp :: "string \<Rightarrow> string" where
  "globToRegexp g = ''^'' @ concat (map (\<lambda>r.
       if r = 42 then ''.*'' else if r = 63 then ''.'' else quote_meta (string_of_rune r)) (runes g))
     @ ''$''"

text \<open>\<^verbatim>\<open>(*Condition).Compile\<close>; \<^verbatim>\<open>None\<close> is the error of \<^verbatim>\<open>regexp.Compile\<close>.\<close>

definition condition_compile :: "'re regex_engine \<Rightarrow> 're condition \<Rightarrow> 're condition option" where
  "condition_compile E c = (case c_Strategy c of
       Regex \<Rightarrow> map_option (\<lambda>re. c\<lparr>c_re := Some re\<rparr>) (regexp_compile E (c_Pattern c))
     | Glob \<Rightarrow>
         (let pattern = (if c_Field c = FieldHost then canonicalDNSCase (c_Pattern c) else c_Pattern c)
          in map_option (\<lambda>re. c\<lparr>c_re := Some re\<rparr>) (regexp_compile E (globToRegexp pattern)))
     | _ \<Rightarrow> Some c)"

definition condition_match :: "'re regex_engine \<Rightarrow> 're condition \<Rightarrow> target \<Rightarrow> bool" where
  "condition_match E c t =
     (let v0 = target_field t (c_Field c);
          host = (c_Field c = FieldHost \<and> c_Strategy c \<noteq> Regex);
          v = (if host then canonicalDNSCase v0 else v0);
          pattern = (if host \<and> (c_Strategy c = Substr \<or> c_Strategy c = Exact)
                     then canonicalDNSCase (c_Pattern c) else c_Pattern c);
          m = (case c_Strategy c of
                 Substr \<Rightarrow> contains v pattern
               | Exact \<Rightarrow> v = pattern
               | Glob \<Rightarrow> (case c_re c of None \<Rightarrow> False | Some re \<Rightarrow> regexp_match E re v)
               | Regex \<Rightarrow> (case c_re c of None \<Rightarrow> False | Some re \<Rightarrow> regexp_match E re v))
      in if c_Negate c then \<not> m else m)"

section \<open>Rules and sets\<close>

datatype action = Include | Exclude

fun action_string :: "action \<Rightarrow> string" where
  "action_string Include = ''include''"
| "action_string Exclude = ''exclude''"

record 're rule =
  r_Name :: string
  r_Action :: action
  r_Enabled :: bool
  r_Conditions :: "'re condition list"

fun all_match :: "'re regex_engine \<Rightarrow> 're condition list \<Rightarrow> target \<Rightarrow> bool" where
  "all_match E [] t = True"
| "all_match E (c # cs) t = (if \<not> condition_match E c t then False else all_match E cs t)"

definition rule_match :: "'re regex_engine \<Rightarrow> 're rule \<Rightarrow> target \<Rightarrow> bool" where
  "rule_match E r t = (if \<not> r_Enabled r then False else all_match E (r_Conditions r) t)"

record 're scope_set =
  s_Rules :: "'re rule list"
  s_Default :: action
  s_LastMatchWins :: bool

fun eval_rules :: "'re regex_engine \<Rightarrow> bool \<Rightarrow> target \<Rightarrow> action \<Rightarrow> 're rule list \<Rightarrow> action" where
  "eval_rules E lastWins t a [] = a"
| "eval_rules E lastWins t a (r # rs) =
     (if rule_match E r t
      then (if \<not> lastWins then r_Action r else eval_rules E lastWins t (r_Action r) rs)
      else eval_rules E lastWins t a rs)"

definition Eval :: "'re regex_engine \<Rightarrow> 're scope_set \<Rightarrow> target \<Rightarrow> action" where
  "Eval E s t = eval_rules E (s_LastMatchWins s) t (s_Default s) (s_Rules s)"

definition InScope :: "'re regex_engine \<Rightarrow> 're scope_set \<Rightarrow> target \<Rightarrow> bool" where
  "InScope E s t \<longleftrightarrow> Eval E s t = Include"

text \<open>
  \<^verbatim>\<open>(*Set).Compile\<close> stops at the first condition that does not compile; the ones before it stay
  compiled. The flag says whether an error was returned.
\<close>

fun compile_conditions :: "'re regex_engine \<Rightarrow> 're condition list \<Rightarrow> 're condition list \<times> bool" where
  "compile_conditions E [] = ([], False)"
| "compile_conditions E (c # cs) =
     (case condition_compile E c of
        None \<Rightarrow> (c # cs, True)
      | Some c' \<Rightarrow> (let (cs', e) = compile_conditions E cs in (c' # cs', e)))"

fun compile_rules :: "'re regex_engine \<Rightarrow> 're rule list \<Rightarrow> 're rule list \<times> bool" where
  "compile_rules E [] = ([], False)"
| "compile_rules E (r # rs) =
     (let (cs', e) = compile_conditions E (r_Conditions r); r' = r\<lparr>r_Conditions := cs'\<rparr>
      in if e then (r' # rs, True)
         else (let (rs', e') = compile_rules E rs in (r' # rs', e')))"

definition set_compile :: "'re regex_engine \<Rightarrow> 're scope_set \<Rightarrow> 're scope_set \<times> bool" where
  "set_compile E s = (let (rs, e) = compile_rules E (s_Rules s) in (s\<lparr>s_Rules := rs\<rparr>, e))"

definition Describe :: "'re scope_set \<Rightarrow> string" where
  "Describe s = join '', '' ((''default='' @ action_string (s_Default s))
     # map r_Name (filter r_Enabled (s_Rules s)))"

section \<open>Specs\<close>

datatype scope_error = EmptyCondition | BadPattern string

definition split_negate :: "string \<Rightarrow> bool \<times> string" where
  "split_negate spec = (if prefix ''!'' spec then (True, drop 1 spec) else (False, spec))"

definition split_field :: "string \<Rightarrow> scope_field \<times> string" where
  "split_field spec = (case index_of spec '':'' of
       None \<Rightarrow> (FieldHost, spec)
     | Some i \<Rightarrow>
         (case map_of fieldNames (to_lower (take i spec)) of
            None \<Rightarrow> (FieldHost, spec)
          | Some f \<Rightarrow> (f, drop (i + 1) spec)))"

definition split_strategy :: "string \<Rightarrow> strategy \<times> string" where
  "split_strategy spec =
     (if prefix ''~'' spec then (Regex, drop 1 spec)
      else if prefix ''='' spec then (Exact, drop 1 spec)
      else if list_ex (\<lambda>c. c = CHR ''*'' \<or> c = CHR ''?'') spec then (Glob, spec)
      else (Substr, spec))"

definition ParseCondition :: "'re regex_engine \<Rightarrow> string \<Rightarrow> scope_error + 're condition" where
  "ParseCondition E spec0 =
     (let spec = trim_space spec0 in
      if spec = [] then Inl EmptyCondition
      else
        (let (neg, spec1) = split_negate spec;
             (f, spec2) = split_field spec1;
             (st, p) = split_strategy spec2;
             c = \<lparr>c_Field = f, c_Strategy = st, c_Pattern = p, c_Negate = neg, c_re = None\<rparr>
         in case condition_compile E c of
              None \<Rightarrow> Inl (BadPattern spec2)
            | Some c' \<Rightarrow> Inr c'))"

definition Rule1 :: "'re regex_engine \<Rightarrow> action \<Rightarrow> string \<Rightarrow> scope_error + 're rule" where
  "Rule1 E a spec = rbind (ParseCondition E spec) (\<lambda>c. Inr
     \<lparr>r_Name = action_string a @ '' '' @ spec, r_Action = a, r_Enabled = True, r_Conditions = [c]\<rparr>)"

definition Build :: "'re regex_engine \<Rightarrow> string list \<Rightarrow> string list \<Rightarrow> bool \<Rightarrow> scope_error + 're scope_set" where
  "Build E includes excludes defaultAll =
     rbind (rmap (Rule1 E Exclude) excludes) (\<lambda>exc.
     rbind (rmap (Rule1 E Include) includes) (\<lambda>inc.
       Inr \<lparr>s_Rules = exc @ inc, s_Default = (if defaultAll then Include else Exclude),
            s_LastMatchWins = False\<rparr>))"

definition splitComma :: "string \<Rightarrow> string list" where
  "splitComma s =
     (let s' = trim_space s in
      if s' = [] then []
      else filter (\<lambda>p. p \<noteq> []) (map trim_space (split_on '','' s')))"

definition buildScope :: "'re regex_engine \<Rightarrow> string \<Rightarrow> string \<Rightarrow> bool \<Rightarrow> scope_error + 're scope_set" where
  "buildScope E includes excludes lastWins =
     (let inc = splitComma includes; exc = splitComma excludes in
      rbind (Build E inc exc (inc = [])) (\<lambda>s. Inr (s\<lparr>s_LastMatchWins := lastWins\<rparr>)))"

section \<open>Globs\<close>

text \<open>
  What a glob promises: \<^verbatim>\<open>*\<close> stands for any run of runes on one line, \<^verbatim>\<open>?\<close> for one rune that is
  not a newline, any other rune for itself, over the whole field.
\<close>

inductive wild :: "nat list \<Rightarrow> nat list \<Rightarrow> bool" where
  wild_Nil: "wild [] []"
| wild_Lit: "r \<noteq> 42 \<Longrightarrow> r \<noteq> 63 \<Longrightarrow> wild p s \<Longrightarrow> wild (r # p) (r # s)"
| wild_Any: "r \<noteq> 10 \<Longrightarrow> wild p s \<Longrightarrow> wild (63 # p) (r # s)"
| wild_Star: "10 \<notin> set run \<Longrightarrow> wild p s \<Longrightarrow> wild (42 # p) (run @ s)"

inductive_simps wild_Nil_iff [simp]: "wild [] s"
inductive_cases wild_ConsE: "wild (r # p) s"

definition glob_item_of :: "nat \<Rightarrow> glob_item" where
  "glob_item_of r = (if r = 42 then GStar else if r = 63 then GAny else GLit r)"

definition glob_runes :: "nat \<Rightarrow> nat list" where
  "glob_runes r = (if r = 42 then [46, 42] else if r = 63 then [46]
     else if r \<in> set regex_meta then [92, r] else [r])"

lemma glob_match_star:
  "glob_match (GStar # its) s \<longleftrightarrow> (\<exists>run rest. s = run @ rest \<and> 10 \<notin> set run \<and> glob_match its rest)"
proof (induction s)
  case Nil
  show ?case by simp
next
  case (Cons r s)
  have "(\<exists>run rest. r # s = run @ rest \<and> 10 \<notin> set run \<and> glob_match its rest) \<longleftrightarrow>
      glob_match its (r # s) \<or>
      r \<noteq> 10 \<and> (\<exists>run rest. s = run @ rest \<and> 10 \<notin> set run \<and> glob_match its rest)"
    by (auto simp: Cons_eq_append_conv ex_disj_distrib conj_disj_distribR conj_disj_distribL) force+
  with Cons show ?case by simp
qed

lemma wild_star_iff:
  "wild (42 # p) s \<longleftrightarrow> (\<exists>run rest. s = run @ rest \<and> 10 \<notin> set run \<and> wild p rest)"
  by (subst wild.simps) auto

lemma wild_any_iff: "wild (63 # p) s \<longleftrightarrow> (\<exists>r rest. s = r # rest \<and> r \<noteq> 10 \<and> wild p rest)"
  by (auto elim: wild_ConsE intro: wild_Any)

lemma wild_lit_iff:
  "r \<noteq> 42 \<Longrightarrow> r \<noteq> 63 \<Longrightarrow> wild (r # p) s \<longleftrightarrow> (\<exists>rest. s = r # rest \<and> wild p rest)"
  by (auto elim: wild_ConsE intro: wild_Lit)

lemma glob_match_wild: "glob_match (map glob_item_of p) s \<longleftrightarrow> wild p s"
proof (induction p arbitrary: s)
  case Nil
  show ?case by simp
next
  case (Cons r p)
  consider "r = 42" | "r = 63" | "r \<noteq> 42" "r \<noteq> 63" by auto
  then show ?case
  proof cases
    case 1
    with Cons show ?thesis by (simp add: glob_item_of_def glob_match_star wild_star_iff)
  next
    case 2
    with Cons show ?thesis by (auto simp: glob_item_of_def wild_any_iff split: list.split)
  next
    case 3
    with Cons show ?thesis by (auto simp: glob_item_of_def wild_lit_iff split: list.split)
  qed
qed

lemma parse_items_glob_runes: "parse_items (concat (map glob_runes p) @ [36]) = Some (map glob_item_of p)"
proof (induction p)
  case Nil
  show ?case by simp
next
  case (Cons r p)
  have hd: "\<exists>a as. concat (map glob_runes p) @ [36] = a # as \<and> a \<noteq> 42"
    by (cases p) (auto simp: glob_runes_def)
  consider "r = 42" | "r = 63" | "r \<noteq> 42" "r \<noteq> 63" by auto
  then show ?case
  proof cases
    case 1
    with Cons show ?thesis by (simp add: glob_runes_def glob_item_of_def)
  next
    case 2
    from hd obtain a as where "concat (map glob_runes p) @ [36] = a # as" "a \<noteq> 42" by blast
    with Cons show ?thesis by (simp add: 2 glob_runes_def [of 63] glob_item_of_def [of 63])
  next
    case 3
    with Cons show ?thesis
      by (auto simp: glob_runes_def glob_item_of_def regex_meta_def)
  qed
qed

lemma glob_runes_valid: "valid_rune r \<Longrightarrow> r' \<in> set (glob_runes r) \<Longrightarrow> valid_rune r'"
  by (auto simp: glob_runes_def valid_rune_def split: if_splits)

lemma string_of_rune_ascii: "r < 128 \<Longrightarrow> string_of_rune r = [char_of r]"
  by (simp add: string_of_rune_def uncodes_def encode_rune.simps)

lemma string_of_rune_lits:
  "string_of_rune 46 = ''.''" "string_of_rune 42 = ''*''" "string_of_rune 92 = [CHR 0x5C]"
  "string_of_rune 94 = ''^''" "string_of_rune 36 = ''$''"
  by code_simp+

lemma meta_ascii: "n \<in> set regex_meta \<Longrightarrow> n < 128"
  by (auto simp: regex_meta_def)

lemma encode_rune_high: "128 \<le> r \<Longrightarrow> n \<in> set (encode_rune r) \<Longrightarrow> 128 \<le> n"
  by (auto simp: encode_rune.simps split: if_splits)

lemma quote_meta_plain: "\<forall>c \<in> set s. of_char c \<notin> set regex_meta \<Longrightarrow> quote_meta s = s"
  by (induction s) (auto simp: quote_meta_def)

lemma quote_meta_rune:
  "quote_meta (string_of_rune r) = (if r \<in> set regex_meta then [CHR 0x5C] else []) @ string_of_rune r"
proof (cases "r < 128")
  case True
  then show ?thesis by (simp add: string_of_rune_ascii quote_meta_def)
next
  case False
  have "of_char c \<notin> set regex_meta" if "c \<in> set (string_of_rune r)" for c
  proof -
    have "of_char c \<in> set (codes (string_of_rune r))"
      using that by (simp add: codes_def)
    then have "128 \<le> (of_char c :: nat)"
      using False encode_rune_high [of r] by (simp add: codes_string_of_rune)
    then show ?thesis using meta_ascii by force
  qed
  moreover have "r \<notin> set regex_meta" using False meta_ascii by blast
  ultimately show ?thesis by (simp add: quote_meta_plain)
qed

lemma string_of_runes_append: "string_of_runes (a @ b) = string_of_runes a @ string_of_runes b"
  by (simp add: string_of_runes_def)

lemma globToRegexp_runes:
  "globToRegexp g = string_of_runes (94 # concat (map glob_runes (runes g)) @ [36])"
proof -
  have "(if r = 42 then ''.*'' else if r = 63 then ''.'' else quote_meta (string_of_rune r))
      = string_of_runes (glob_runes r)" for r
    by (auto simp: glob_runes_def string_of_runes_def string_of_rune_lits quote_meta_rune)
  then have "concat (map (\<lambda>r. if r = 42 then ''.*'' else if r = 63 then ''.''
        else quote_meta (string_of_rune r)) rs) = string_of_runes (concat (map glob_runes rs))" for rs
    by (induction rs) (simp_all add: string_of_runes_append string_of_runes_def)
  then show ?thesis
    by (simp add: globToRegexp_def string_of_runes_def string_of_rune_lits)
qed

lemma utf8_valid_encode:
  assumes "valid_rune r"
  shows "utf8_valid_codes (encode_rune r @ s) \<longleftrightarrow> utf8_valid_codes s"
proof (cases "r < 128")
  case True
  then show ?thesis by (simp add: encode_rune.simps)
next
  case False
  obtain a t where at: "encode_rune r = a # t" by (cases "encode_rune r") auto
  have "128 \<le> a" using False at encode_rune_high [of r a] by simp
  moreover have "decode_rune (a # t @ s) = (r, Suc (length t))"
    using decode_encode_rune [OF assms, of s] at by simp
  moreover have "t \<noteq> []"
    using False at by (auto simp: encode_rune.simps split: if_splits)
  ultimately show ?thesis using at by simp
qed

lemma utf8_valid_string_of_runes:
  "\<forall>r \<in> set rs. valid_rune r \<Longrightarrow> utf8_valid_codes (codes (string_of_runes rs))"
proof (induction rs)
  case Nil
  show ?case by (simp add: string_of_runes_def codes_def)
next
  case (Cons r rs)
  then show ?case
    by (simp add: string_of_runes_def codes_string_of_rune utf8_valid_encode)
qed

lemma glob_compile_globToRegexp:
  "glob_compile (globToRegexp g) = Some (map glob_item_of (runes g))"
proof -
  have ok: "\<forall>r \<in> set (94 # concat (map glob_runes (runes g)) @ [36]). valid_rune r"
    using valid_runes glob_runes_valid by (auto simp: valid_rune_def [of 94] valid_rune_def [of 36])
  show ?thesis
    unfolding glob_compile_def globToRegexp_runes
    by (simp add: runes_string_of_runes [OF ok] utf8_valid_string_of_runes [OF ok] parse_items_glob_runes)
qed

text \<open>The value a condition compares: a host is folded unless the strategy is a regular expression.\<close>

definition glob_fold :: "scope_field \<Rightarrow> string \<Rightarrow> string" where
  "glob_fold f s = (if f = FieldHost then canonicalDNSCase s else s)"

text \<open>
  C37: a glob condition always compiles, whatever its pattern and whatever regular expression
  engine is used, and it then holds of a target exactly when the wildcard pattern spells out the
  whole field (host names with the ASCII case folded), or exactly when it does not if the
  condition is negated.
\<close>

theorem glob_condition_is_wildcard:
  "\<exists>c'. condition_compile E (c\<lparr>c_Strategy := Glob\<rparr>) = Some c' \<and>
     (\<forall>t. condition_match E c' t =
        (wild (runes (glob_fold (c_Field c) (c_Pattern c)))
              (runes (glob_fold (c_Field c) (target_field t (c_Field c)))) \<noteq> c_Negate c))"
  by (cases "c_Field c = FieldHost")
     (auto simp: condition_compile_def condition_match_def regexp_compile_def glob_compile_globToRegexp
       glob_match_wild glob_fold_def)

section \<open>Verdicts\<close>

lemma all_match_iff: "all_match E cs t \<longleftrightarrow> (\<forall>c \<in> set cs. condition_match E c t)"
  by (induction cs) auto

lemma rule_match_iff:
  "rule_match E r t \<longleftrightarrow> r_Enabled r \<and> (\<forall>c \<in> set (r_Conditions r). condition_match E c t)"
  by (simp add: rule_match_def all_match_iff)

lemma eval_rules_hits:
  "eval_rules E w t a rs =
     (let hits = filter (\<lambda>r. rule_match E r t) rs in
      if hits = [] then a else r_Action (if w then last hits else hd hits))"
  by (induction rs arbitrary: a) (auto simp: Let_def)

lemma Eval_hits:
  "Eval E s t =
     (let hits = filter (\<lambda>r. rule_match E r t) (s_Rules s) in
      if hits = [] then s_Default s
      else r_Action (if s_LastMatchWins s then last hits else hd hits))"
  by (simp add: Eval_def eval_rules_hits)

text \<open>A spec of one of the two lists holds of a target.\<close>

definition spec_matches :: "'re regex_engine \<Rightarrow> string \<Rightarrow> target \<Rightarrow> bool" where
  "spec_matches E spec t = (case ParseCondition E spec of Inl _ \<Rightarrow> False | Inr c \<Rightarrow> condition_match E c t)"

lemma Rule1_match:
  "Rule1 E a spec = Inr r \<Longrightarrow> rule_match E r t = spec_matches E spec t \<and> r_Action r = a"
  by (auto simp: Rule1_def rbind_eq_Inr spec_matches_def rule_match_iff)

lemma rules_match:
  assumes "rmap (Rule1 E a) specs = Inr rs"
  shows "(\<exists>r \<in> set rs. rule_match E r t) \<longleftrightarrow> (\<exists>p \<in> set specs. spec_matches E p t)"
    and "\<forall>r \<in> set rs. r_Action r = a"
  using assms
  by (induction specs arbitrary: rs) (auto simp: rbind_eq_Inr dest: Rule1_match)

lemma eval_rules_append:
  "eval_rules E w t a (xs @ ys) =
     (if \<not> w \<and> (\<exists>r \<in> set xs. rule_match E r t) then eval_rules E w t a xs
      else eval_rules E w t (eval_rules E w t a xs) ys)"
  by (induction xs arbitrary: a) auto

lemma eval_rules_uniform:
  "\<forall>r \<in> set rs. r_Action r = b \<Longrightarrow>
    eval_rules E w t a rs = (if \<exists>r \<in> set rs. rule_match E r t then b else a)"
  by (induction rs arbitrary: a) auto

text \<open>
  The verdict of a scope built from the \<^verbatim>\<open>-include\<close> and \<^verbatim>\<open>-exclude\<close> lists. With no include,
  everything no exclude matches is in scope. With includes, what some include matches and no
  exclude does; but under \<^verbatim>\<open>-last-match\<close> an include wins over an overlapping exclude.
\<close>

lemma buildScope_verdict:
  assumes "buildScope E includes excludes lastWins = Inr s"
  shows "InScope E s t \<longleftrightarrow>
    (let inc = \<exists>p \<in> set (splitComma includes). spec_matches E p t;
         exc = \<exists>p \<in> set (splitComma excludes). spec_matches E p t
     in if splitComma includes = [] then \<not> exc else inc \<and> (lastWins \<or> \<not> exc))"
proof -
  from assms obtain exs ins where
    r: "rmap (Rule1 E Exclude) (splitComma excludes) = Inr exs"
       "rmap (Rule1 E Include) (splitComma includes) = Inr ins"
    and s: "s_Rules s = exs @ ins" "s_LastMatchWins s = lastWins"
      "s_Default s = (if splitComma includes = [] then Include else Exclude)"
    by (auto simp: buildScope_def Build_def rbind_eq_Inr Let_def)
  have "splitComma includes = [] \<Longrightarrow> ins = []" using r(2) by simp
  then show ?thesis
    unfolding InScope_def Eval_def s eval_rules_append Let_def
      eval_rules_uniform [OF rules_match(2) [OF r(1)]] eval_rules_uniform [OF rules_match(2) [OF r(2)]]
      rules_match(1) [OF r(1), symmetric] rules_match(1) [OF r(2), symmetric]
    by simp
qed

section \<open>Specs that parse\<close>

lemma condition_compile_None:
  "condition_compile E c = None \<Longrightarrow> c_Strategy c = Regex \<and> regexp_compile E (c_Pattern c) = None"
  by (auto simp: condition_compile_def regexp_compile_def glob_compile_globToRegexp Let_def
      split: strategy.splits if_splits)

lemma set_snd_split_field: "set (snd (split_field s)) \<subseteq> set s"
  by (auto simp: split_field_def split: option.splits dest: in_set_dropD)

lemma set_snd_split_negate: "set (snd (split_negate s)) \<subseteq> set s"
  by (auto simp: split_negate_def dest: in_set_dropD)

lemma split_strategy_Regex: "fst (split_strategy s) = Regex \<Longrightarrow> CHR ''~'' \<in> set s"
  by (cases s) (auto simp: split_strategy_def split: if_splits)

lemma ParseCondition_error:
  assumes "ParseCondition E spec = Inl e"
  shows "trim_space spec = [] \<or> CHR ''~'' \<in> set spec"
proof (cases "trim_space spec = []")
  case False
  obtain n s1 where n: "split_negate (trim_space spec) = (n, s1)" by fastforce
  obtain f s2 where f: "split_field s1 = (f, s2)" by fastforce
  obtain st p where st: "split_strategy s2 = (st, p)" by fastforce
  from False assms have "st = Regex"
    by (auto simp: ParseCondition_def n f st Let_def dest!: condition_compile_None split: option.splits)
  then have "CHR ''~'' \<in> set s2" using split_strategy_Regex [of s2] st by simp
  then have "CHR ''~'' \<in> set (trim_space spec)"
    using set_snd_split_field [of s1] set_snd_split_negate [of "trim_space spec"] n f by auto
  then show ?thesis using set_trim_space by blast
qed simp

lemma splitComma_elems:
  "p \<in> set (splitComma s) \<Longrightarrow> trim_space p = p \<and> p \<noteq> [] \<and> set p \<subseteq> set s"
  unfolding splitComma_def Let_def
  by (auto split: if_splits) (meson set_split_on set_trim_space subsetD)

lemma rmap_Rule1_ok:
  "\<forall>p \<in> set ps. trim_space p \<noteq> [] \<and> CHR ''~'' \<notin> set p \<Longrightarrow> \<exists>rs. rmap (Rule1 E a) ps = Inr rs"
proof (induction ps)
  case Nil
  show ?case by simp
next
  case (Cons p ps)
  then obtain rs where "rmap (Rule1 E a) ps = Inr rs" by auto
  moreover from Cons.prems have "ParseCondition E p \<noteq> Inl e" for e
    using ParseCondition_error [of E p e] by auto
  then obtain c where "ParseCondition E p = Inr c" by (metis sum.exhaust)
  ultimately show ?case by (simp add: Rule1_def [of E a p])
qed

text \<open>
  Scope lists are total up to regular expressions. Whatever the user types after \<^verbatim>\<open>-include\<close>
  and \<^verbatim>\<open>-exclude\<close>, blank items, unknown field names, stray negations and globs included, a
  scope is built without an error as long as no \<^verbatim>\<open>~\<close> asks for a regular expression.
\<close>

lemma buildScope_total:
  assumes "CHR ''~'' \<notin> set includes" and "CHR ''~'' \<notin> set excludes"
  shows "\<exists>s. buildScope E includes excludes lastWins = Inr s"
proof -
  have "\<exists>rs. rmap (Rule1 E a) (splitComma l) = Inr rs" if "CHR ''~'' \<notin> set l" for a l
  proof (rule rmap_Rule1_ok)
    show "\<forall>p \<in> set (splitComma l). trim_space p \<noteq> [] \<and> CHR ''~'' \<notin> set p"
      using that splitComma_elems [of _ l] by (metis subsetD)
  qed
  from this [OF assms(1), of Include] this [OF assms(2), of Exclude] show ?thesis
    by (auto simp: buildScope_def Build_def Let_def)
qed

section \<open>Witnesses\<close>

definition no_engine :: "unit regex_engine" where
  "no_engine = \<lparr>rx_compile = (\<lambda>_. None), rx_match = (\<lambda>_ _. False)\<rparr>"

definition demo_target :: target where
  "demo_target = \<lparr>tg_Host = ''a.b'', tg_Method = ''GET'', tg_Path = ''/e'', tg_Protocol = ''tls'', tg_Body = []\<rparr>"

definition demo_set :: "unit scope_set" where
  "demo_set = (case buildScope no_engine ''*.B'' ''path:/e'' True of Inr s \<Rightarrow> s
     | Inl _ \<Rightarrow> \<lparr>s_Rules = [], s_Default = Include, s_LastMatchWins = False\<rparr>)"

lemma buildScope_verdict_witness:
  "buildScope no_engine ''*.B'' ''path:/e'' True = Inr demo_set \<and> InScope no_engine demo_set demo_target"
proof -
  have ok: "buildScope no_engine ''*.B'' ''path:/e'' True = Inr demo_set" by code_simp
  have "splitComma ''*.B'' = [''*.B'']" "spec_matches no_engine ''*.B'' demo_target" by code_simp+
  with buildScope_verdict [OF ok, of demo_target] ok show ?thesis by simp
qed

lemma buildScope_total_witness:
  "\<exists>s. buildScope no_engine ''!,host:,::x, ,*'' ''bogus:y'' False = Inr s"
  by (rule buildScope_total) simp_all

end
