(* ===== verification/GoNet.thy ===== *)
theory GoNet
  imports GoStrings
begin

text \<open>
  The parts of Go's \<^verbatim>\<open>net\<close> the program uses on address strings: \<^verbatim>\<open>SplitHostPort\<close> and
  \<^verbatim>\<open>JoinHostPort\<close>, with every error of the former, and how one undoes the other.
\<close>

datatype addr_error = MissingPort | TooManyColons | MissingBracket | UnexpectedOpen | UnexpectedClose

text \<open>\<^verbatim>\<open>strings.LastIndexByte\<close>, as the parts before and after the last occurrence.\<close>

definition last_cut :: "char \<Rightarrow> string \<Rightarrow> (string \<times> string) option" where
  "last_cut c s = (let r = takeWhile (\<lambda>x. x \<noteq> c) (rev s) in
     if length r = length s then None
     else Some (take (length s - length r - 1) s, rev r))"

definition SplitHostPort :: "string \<Rightarrow> addr_error + string \<times> string" where
  "SplitHostPort hp =
     (case last_cut (CHR '':'') hp of
        None \<Rightarrow> Inl MissingPort
      | Some (before, port) \<Rightarrow>
          if prefix ''['' hp then
            (case index_of hp '']'' of
               None \<Rightarrow> Inl MissingBracket
             | Some e \<Rightarrow>
                 if e + 1 = length hp then Inl MissingPort
                 else if e + 1 \<noteq> length before then
                   (if hp ! (e + 1) = CHR '':'' then Inl TooManyColons else Inl MissingPort)
                 else if CHR ''['' \<in> set (drop 1 hp) then Inl UnexpectedOpen
                 else if CHR '']'' \<in> set (drop (e + 1) hp) then Inl UnexpectedClose
                 else Inr (take (e - 1) (drop 1 hp), port))
          else if CHR '':'' \<in> set before then Inl TooManyColons
          else if CHR ''['' \<in> set hp then Inl UnexpectedOpen
          else if CHR '']'' \<in> set hp then Inl UnexpectedClose
          else Inr (before, port))"

definition JoinHostPort :: "string \<Rightarrow> string \<Rightarrow> string" where
  "JoinHostPort host port =
     (if CHR '':'' \<in> set host then ''['' @ host @ '']:'' @ port else host @ '':'' @ port)"

lemma last_cut_app: "c \<notin> set b \<Longrightarrow> last_cut c (a @ c # b) = Some (a, b)"
proof -
  assume "c \<notin> set b"
  then have "takeWhile (\<lambda>x. x \<noteq> c) (rev (a @ c # b)) = rev b"
    by (simp, subst takeWhile_append2) auto
  then show ?thesis by (simp add: last_cut_def)
qed

lemma last_cut_None: "last_cut c s = None \<longleftrightarrow> c \<notin> set s"
proof
  assume "last_cut c s = None"
  then have "length (takeWhile (\<lambda>x. x \<noteq> c) (rev s)) = length (rev s)"
    by (simp add: last_cut_def Let_def split: if_splits)
  then have "takeWhile (\<lambda>x. x \<noteq> c) (rev s) = rev s"
    using takeWhile_eq_take [of "\<lambda>x. x \<noteq> c" "rev s"] by simp
  then show "c \<notin> set s" by (metis set_rev set_takeWhileD)
next
  assume "c \<notin> set s"
  then have "takeWhile (\<lambda>x. x \<noteq> c) (rev s) = rev s"
    unfolding takeWhile_eq_all_conv by auto
  then have "length (takeWhile (\<lambda>x. x \<noteq> c) (rev s)) = length s" by (simp only: length_rev)
  then show "last_cut c s = None" unfolding last_cut_def Let_def by (simp only: if_True refl)
qed

lemma index_of_char: "c \<notin> set a \<Longrightarrow> index_of (a @ c # b) [c] = Some (length a)"
  by (induction a) auto

lemma Split_bracketed:
  assumes "CHR '':'' \<notin> set port" "CHR ''['' \<notin> set port" "CHR '']'' \<notin> set port"
    and "CHR ''['' \<notin> set host" "CHR '']'' \<notin> set host"
  shows "SplitHostPort (''['' @ host @ '']:'' @ port) = Inr (host, port)"
proof -
  have l: "last_cut (CHR '':'') (''['' @ host @ '']:'' @ port) = Some (''['' @ host @ '']'', port)"
    using last_cut_app [of "CHR '':''" port "''['' @ host @ '']''"] assms(1) by simp
  have i: "index_of (''['' @ host @ '']:'' @ port) '']'' = Some (length host + 1)"
    using index_of_char [of "CHR '']''" "''['' @ host" "'':'' @ port"] assms(5) by simp
  show ?thesis using assms l i by (simp add: SplitHostPort_def)
qed

lemma Split_Join:
  assumes "CHR '':'' \<notin> set port" "CHR ''['' \<notin> set port" "CHR '']'' \<notin> set port"
    and "CHR ''['' \<notin> set host" "CHR '']'' \<notin> set host"
  shows "SplitHostPort (JoinHostPort host port) = Inr (host, port)"
proof (cases "CHR '':'' \<in> set host")
  case True
  then show ?thesis using Split_bracketed [OF assms] by (simp add: JoinHostPort_def)
next
  case False
  have l: "last_cut (CHR '':'') (host @ '':'' @ port) = Some (host, port)"
    using last_cut_app [of "CHR '':''" port host] assms(1) by simp
  have "\<not> prefix ''['' (host @ '':'' @ port)"
    using assms(4) by (cases host) auto
  with False assms l show ?thesis by (auto simp: JoinHostPort_def SplitHostPort_def)
qed

end
