(* ===== verification/Capture.thy ===== *)
theory Capture
  imports GoNet
begin

text \<open>
  \<^verbatim>\<open>internal/capture\<close>: the traffic model (\<^verbatim>\<open>flow.go\<close>) and the store the UI subscribes to
  (\<^verbatim>\<open>store.go\<close>). A \<^verbatim>\<open>*Flow\<close> is a reference into a heap of flows, so that the store, the
  intercept engine and the handlers share it as the code does; the mutex-protected sections are
  the operations. Time stamps are not modelled. A channel of the store is the list of events in
  its buffer.
\<close>

section \<open>Flows and messages\<close>

datatype direction = ClientToServer | ServerToClient

fun direction_string :: "direction \<Rightarrow> string" where
  "direction_string ClientToServer = [CHR 0xE2, CHR 0x86, CHR 0x92]"
| "direction_string ServerToClient = [CHR 0xE2, CHR 0x86, CHR 0x90]"

datatype status = StatusActive | StatusPending | StatusComplete | StatusError

fun status_string :: "status \<Rightarrow> string" where
  "status_string StatusActive = ''active''"
| "status_string StatusPending = ''PAUSED''"
| "status_string StatusComplete = ''done''"
| "status_string StatusError = ''error''"

type_synonym header = "(string \<times> string list) list"

record message =
  m_Direction :: direction
  m_Summary :: string
  m_Headers :: header
  m_Body :: bytes
  m_Raw :: bytes
  m_Meta :: "string gomap"

record flow =
  f_ID :: string
  f_Protocol :: string
  f_ClientAddr :: string
  f_ServerAddr :: string
  f_SNI :: string
  f_Secure :: bool
  f_Status :: status
  f_Flagged :: bool
  f_Err :: "string option"
  f_Request :: "message option"
  f_Response :: "message option"
  f_Messages :: "message list"

definition ProtoHTTP1 :: string where "ProtoHTTP1 = ''http/1.1''"
definition ProtoHTTP2 :: string where "ProtoHTTP2 = ''http/2''"
definition ProtoWebSocket :: string where "ProtoWebSocket = ''websocket''"
definition ProtoGRPC :: string where "ProtoGRPC = ''grpc''"
definition ProtoRawTCP :: string where "ProtoRawTCP = ''tcp''"
definition ProtoUnknown :: string where "ProtoUnknown = ''unknown''"

definition AddMessage :: "message \<Rightarrow> flow \<Rightarrow> flow" where
  "AddMessage m f = f\<lparr>f_Messages := f_Messages f @ [m]\<rparr>"

definition hex_digit :: "nat \<Rightarrow> char" where
  "hex_digit n = (if n < 10 then char_of (48 + n) else char_of (87 + n))"

definition hex_encode :: "bytes \<Rightarrow> string" where
  "hex_encode b = concat (map (\<lambda>w. [hex_digit (unat w div 16), hex_digit (unat w mod 16)]) b)"

text \<open>\<^verbatim>\<open>newID\<close> and \<^verbatim>\<open>NewFlow\<close> on the six bytes the random source delivers.\<close>

definition newID :: "bytes \<Rightarrow> string" where
  "newID rand = hex_encode (take 6 rand)"

definition NewFlow :: "bytes \<Rightarrow> string \<Rightarrow> string \<Rightarrow> flow" where
  "NewFlow rand client server =
     \<lparr>f_ID = newID rand, f_Protocol = ProtoUnknown, f_ClientAddr = client, f_ServerAddr = server,
      f_SNI = [], f_Secure = False, f_Status = StatusActive, f_Flagged = False, f_Err = None,
      f_Request = None, f_Response = None, f_Messages = []\<rparr>"

definition Title :: "flow \<Rightarrow> string" where
  "Title f =
     (let host = (if f_SNI f \<noteq> [] then f_SNI f else f_ServerAddr f);
          fallback = f_Protocol f @ '' '' @ host
      in case f_Request f of
           None \<Rightarrow> fallback
         | Some r \<Rightarrow> if m_Summary r \<noteq> [] then m_Summary r else fallback)"

section \<open>The store\<close>

type_synonym fref = nat
type_synonym heap = "fref \<Rightarrow> flow"

datatype event_kind = FlowAdded | FlowUpdated

record event =
  ev_Flow :: fref
  ev_Kind :: event_kind

record store =
  st_order :: "string list"
  st_byID :: "fref gomap"
  st_subs :: "event list list"

definition NewStore :: store where
  "NewStore = \<lparr>st_order = [], st_byID = [], st_subs = []\<rparr>"

definition sub_capacity :: nat where "sub_capacity = 256"

text \<open>\<^verbatim>\<open>publish\<close>: a full buffer drops the event, the send never blocks.\<close>

definition offer :: "event \<Rightarrow> event list \<Rightarrow> event list" where
  "offer ev ch = (if length ch < sub_capacity then ch @ [ev] else ch)"

definition publish :: "event \<Rightarrow> store \<Rightarrow> store" where
  "publish ev s = s\<lparr>st_subs := map (offer ev) (st_subs s)\<rparr>"

definition Add :: "heap \<Rightarrow> fref \<Rightarrow> store \<Rightarrow> store" where
  "Add h p s =
     (let ident = f_ID (h p);
          s1 = s\<lparr>st_byID := gput (st_byID s) ident p, st_order := st_order s @ [ident]\<rparr>
      in publish \<lparr>ev_Flow = p, ev_Kind = FlowAdded\<rparr> s1)"

definition Touch :: "fref \<Rightarrow> store \<Rightarrow> store" where
  "Touch p s = publish \<lparr>ev_Flow = p, ev_Kind = FlowUpdated\<rparr> s"

text \<open>\<^verbatim>\<open>List\<close>: an id with no entry reads as the nil pointer.\<close>

definition ListFlows :: "store \<Rightarrow> fref option list" where
  "ListFlows s = map (map_of (st_byID s)) (st_order s)"

definition GetFlow :: "string \<Rightarrow> store \<Rightarrow> fref option" where
  "GetFlow ident s = map_of (st_byID s) ident"

definition Subscribe :: "store \<Rightarrow> nat \<times> store" where
  "Subscribe s = (length (st_subs s), s\<lparr>st_subs := st_subs s @ [[]]\<rparr>)"

text \<open>The subscriber's receive on its channel.\<close>

definition recv :: "nat \<Rightarrow> store \<Rightarrow> store" where
  "recv i s = (if i < length (st_subs s) then s\<lparr>st_subs := (st_subs s)[i := tl (st_subs s ! i)]\<rparr> else s)"

datatype store_op = OpAdd fref | OpTouch fref | OpSubscribe | OpRecv nat

fun store_step :: "heap \<Rightarrow> store_op \<Rightarrow> store \<Rightarrow> store" where
  "store_step h (OpAdd p) s = Add h p s"
| "store_step h (OpTouch p) s = Touch p s"
| "store_step h OpSubscribe s = snd (Subscribe s)"
| "store_step h (OpRecv i) s = recv i s"

definition store_run :: "heap \<Rightarrow> store_op list \<Rightarrow> store \<Rightarrow> store" where
  "store_run h ops s = fold (store_step h) ops s"


section \<open>What the store promises\<close>

text \<open>
  The abstract store is the list of references added so far; the concrete one represents it when
  \<^verbatim>\<open>order\<close> holds the ids of those flows in order and \<^verbatim>\<open>byID\<close> the last flow of each id.
\<close>

definition store_abs :: "heap \<Rightarrow> fref list \<Rightarrow> store \<Rightarrow> bool" where
  "store_abs h ps s \<longleftrightarrow> st_order s = map (\<lambda>p. f_ID (h p)) ps
     \<and> map_of (st_byID s) = map_of (rev (map (\<lambda>p. (f_ID (h p), p)) ps))"

definition store_inv :: "store \<Rightarrow> bool" where
  "store_inv s \<longleftrightarrow> gmap_ok (st_byID s) \<and> set (st_order s) = set (gkeys (st_byID s))
     \<and> (\<forall>ch \<in> set (st_subs s). length ch \<le> sub_capacity)"

fun added :: "store_op list \<Rightarrow> fref list" where
  "added [] = []"
| "added (OpAdd p # ops) = p # added ops"
| "added (_ # ops) = added ops"

lemma added_append: "added (xs @ ys) = added xs @ added ys"
  by (induction xs rule: added.induct) auto

lemma publish_sel [simp]:
  "st_order (publish ev s) = st_order s" "st_byID (publish ev s) = st_byID s"
  "st_subs (publish ev s) = map (offer ev) (st_subs s)"
  by (simp_all add: publish_def)

lemma length_offer: "length ch \<le> sub_capacity \<Longrightarrow> length (offer ev ch) \<le> sub_capacity"
  by (simp add: offer_def)

lemma store_inv_New [inv_rules]: "store_inv NewStore"
  unfolding store_inv_def NewStore_def by (simp add: gkeys_def)

lemma store_inv_step [inv_rules]: "store_inv s \<Longrightarrow> store_inv (store_step h op s)"
proof (cases op)
  case (OpRecv i)
  assume "store_inv s"
  then have "length (tl (st_subs s ! i)) \<le> sub_capacity" if "i < length (st_subs s)"
    using that unfolding store_inv_def by (metis diff_le_self le_trans length_tl nth_mem)
  with \<open>store_inv s\<close> OpRecv show ?thesis
    by (auto simp: store_inv_def recv_def dest: set_update_subset_insert [THEN subsetD])
qed (auto simp: store_inv_def Add_def Touch_def Subscribe_def Let_def length_offer)

lemma store_abs_step:
  "store_abs h ps s \<Longrightarrow> store_abs h (ps @ added [op]) (store_step h op s)"
  by (cases op) (auto simp: store_abs_def Add_def Touch_def Subscribe_def recv_def Let_def)

lemma store_run_inv: "store_inv (store_run h ops NewStore) \<and> store_abs h (added ops) (store_run h ops NewStore)"
proof (induction ops rule: rev_induct)
  case Nil
  have "store_abs h [] NewStore" by (simp add: store_abs_def NewStore_def)
  then show ?case by (simp add: store_run_def store_inv_New)
next
  case (snoc op ops)
  then show ?case
    using store_inv_step store_abs_step [of h "added ops" "store_run h ops NewStore" op]
    by (simp add: store_run_def added_append)
qed

lemma store_abs_List:
  assumes "store_abs h ps s" and "distinct (map (\<lambda>p. f_ID (h p)) ps)"
  shows "ListFlows s = map Some ps"
proof -
  let ?kv = "\<lambda>p. (f_ID (h p), p)"
  have "distinct (map fst (rev (map ?kv ps)))"
    using assms(2) by (simp add: comp_def rev_map [symmetric])
  then have "map_of (st_byID s) (f_ID (h p)) = Some p" if "p \<in> set ps" for p
    using that assms(1) by (simp add: store_abs_def)
  then show ?thesis using assms(1) by (simp add: ListFlows_def store_abs_def)
qed

text \<open>
  C34: however captures, updates, subscriptions and reads interleave, the list the UI shows never
  holds a nil flow, and it is the flows that were added, in the order they were added, as long
  as no two of them drew the same random id; no subscriber's buffer ever exceeds 256 events.
\<close>

theorem store_lists_insertion_order:
  "None \<notin> set (ListFlows (store_run h ops NewStore)) \<and>
   (distinct (map (\<lambda>p. f_ID (h p)) (added ops)) \<longrightarrow>
      ListFlows (store_run h ops NewStore) = map Some (added ops)) \<and>
   (\<forall>ch \<in> set (st_subs (store_run h ops NewStore)). length ch \<le> 256)"
proof -
  let ?s = "store_run h ops NewStore"
  note r = store_run_inv [of h ops]
  have "map_of (st_byID ?s) i \<noteq> None" if "i \<in> set (st_order ?s)" for i
    using r that by (simp add: store_inv_def ghas_keys [symmetric] ghas_def)
  then have "None \<notin> set (ListFlows ?s)" unfolding ListFlows_def by (metis imageE set_map)
  with r show ?thesis
    using store_abs_List by (auto simp: store_inv_def sub_capacity_def)
qed

fun published :: "store_op list \<Rightarrow> event list" where
  "published [] = []"
| "published (OpAdd p # ops) = \<lparr>ev_Flow = p, ev_Kind = FlowAdded\<rparr> # published ops"
| "published (OpTouch p # ops) = \<lparr>ev_Flow = p, ev_Kind = FlowUpdated\<rparr> # published ops"
| "published (_ # ops) = published ops"

text \<open>The events a subscriber took from its channel, in order, while the operations ran.\<close>

fun taken :: "heap \<Rightarrow> nat \<Rightarrow> store_op list \<Rightarrow> store \<Rightarrow> event list" where
  "taken h i [] s = []"
| "taken h i (op # ops) s =
     (if op = OpRecv i \<and> st_subs s ! i \<noteq> [] then [hd (st_subs s ! i)] else [])
     @ taken h i ops (store_step h op s)"

definition within_capacity :: "heap \<Rightarrow> nat \<Rightarrow> store_op list \<Rightarrow> store \<Rightarrow> bool" where
  "within_capacity h i ops s \<longleftrightarrow>
     (\<forall>n \<in> set [0..<Suc (length ops)]. length (st_subs (store_run h (take n ops) s) ! i) < sub_capacity)"

lemma length_subs_step: "length (st_subs s) \<le> length (st_subs (store_step h op s))"
  by (cases op) (auto simp: Add_def Touch_def Subscribe_def recv_def Let_def)

lemma sub_step:
  assumes "i < length (st_subs s)" and "length (st_subs s ! i) < sub_capacity"
  shows "(if op = OpRecv i \<and> st_subs s ! i \<noteq> [] then [hd (st_subs s ! i)] else [])
      @ st_subs (store_step h op s) ! i = st_subs s ! i @ published [op]"
  using assms
  by (cases op) (auto simp: Add_def Touch_def Subscribe_def recv_def Let_def offer_def nth_append nth_list_update)

lemma sub_run:
  "i < length (st_subs s) \<Longrightarrow> within_capacity h i ops s \<Longrightarrow>
    taken h i ops s @ st_subs (store_run h ops s) ! i = st_subs s ! i @ published ops"
proof (induction ops arbitrary: s)
  case Nil
  show ?case by (simp add: store_run_def)
next
  case (Cons op ops)
  have cap: "length (st_subs s ! i) < sub_capacity"
    using Cons.prems(2) [unfolded within_capacity_def, rule_format, of 0] by (simp add: store_run_def del: upt_Suc)
  have "within_capacity h i ops (store_step h op s)"
    unfolding within_capacity_def
  proof
    fix n
    assume "n \<in> set [0..<Suc (length ops)]"
    then show "length (st_subs (store_run h (take n ops) (store_step h op s)) ! i) < sub_capacity"
      using Cons.prems(2) [unfolded within_capacity_def, rule_format, of "Suc n"]
      by (simp add: store_run_def del: upt_Suc)
  qed
  moreover have "i < length (st_subs (store_step h op s))"
    using Cons.prems(1) length_subs_step less_le_trans by blast
  ultimately have ih: "taken h i ops (store_step h op s) @ st_subs (store_run h (op # ops) s) ! i
      = st_subs (store_step h op s) ! i @ published ops"
    using Cons.IH by (simp add: store_run_def)
  have p: "published (op # ops) = published [op] @ published ops"
    by (cases op) auto
  show ?case
    using sub_step [OF Cons.prems(1) cap, of op h] ih unfolding p by (metis append_assoc taken.simps(2))
qed

text \<open>
  A subscriber that keeps up misses nothing. From its subscription on, the events it has
  taken followed by those still in its channel are exactly the events published since, in
  order, as long as its buffer never fills; only a full buffer drops an event.
\<close>

lemma subscriber_sees_every_event:
  assumes "Subscribe s = (i, s')" and "within_capacity h i ops s'"
  shows "taken h i ops s' @ st_subs (store_run h ops s') ! i = published ops"
proof -
  have "i < length (st_subs s')" and "st_subs s' ! i = []"
    using assms(1) by (auto simp: Subscribe_def)
  with sub_run [OF _ assms(2)] show ?thesis by simp
qed

definition demo_heap :: heap where
  "demo_heap p = NewFlow (map word_of_nat [p, 0, 0, 0, 0, 1]) ''c'' ''s''"

lemma subscriber_sees_every_event_witness:
  "taken demo_heap 0 [OpAdd 1, OpRecv 0, OpTouch 1] (snd (Subscribe NewStore))
    @ st_subs (store_run demo_heap [OpAdd 1, OpRecv 0, OpTouch 1] (snd (Subscribe NewStore))) ! 0
    = [\<lparr>ev_Flow = 1, ev_Kind = FlowAdded\<rparr>, \<lparr>ev_Flow = 1, ev_Kind = FlowUpdated\<rparr>]"
proof -
  have "within_capacity demo_heap 0 [OpAdd 1, OpRecv 0, OpTouch 1] (snd (Subscribe NewStore))"
    unfolding within_capacity_def by code_simp
  moreover have "Subscribe NewStore = (0, snd (Subscribe NewStore))"
    by (simp add: Subscribe_def NewStore_def)
  ultimately show ?thesis
    using subscriber_sees_every_event [of NewStore 0 "snd (Subscribe NewStore)" demo_heap "[OpAdd 1, OpRecv 0, OpTouch 1]"]
    by simp
qed

theorem store_lists_insertion_order_witness:
  "ListFlows (store_run demo_heap [OpAdd 1, OpSubscribe, OpAdd 2] NewStore) = [Some 1, Some 2]"
proof -
  have "distinct (map (\<lambda>p. f_ID (demo_heap p)) (added [OpAdd 1, OpSubscribe, OpAdd 2]))" by code_simp
  with store_lists_insertion_order [of demo_heap "[OpAdd 1, OpSubscribe, OpAdd 2]"] show ?thesis by simp
qed

end
