(* ===== verification/ContentEncoding.thy ===== *)
theory ContentEncoding
  imports GoStrings
begin

text \<open>
  \<^verbatim>\<open>internal/capture/decode.go\<close>: undoing and redoing a Content-Encoding. The compression
  formats themselves are a parameter, the record \<open>codecs\<close>: a reader is what the code can see of
  it, the bytes it delivers and whether it then ends or fails; opening it may fail, and so may
  the writer. What the program does with them (which codec, in which order, the size limit, the
  fallbacks) is the model.
\<close>

text \<open>A reader: the bytes it delivers before it stops, and the error it stops with, if any.\<close>

type_synonym reader = "bytes \<times> string option"

record codecs =
  gzip_reader :: "bytes \<Rightarrow> string + reader"
  zlib_reader :: "bytes \<Rightarrow> string + reader"
  flate_reader :: "bytes \<Rightarrow> reader"
  brotli_reader :: "bytes \<Rightarrow> reader"
  zstd_reader :: "bytes \<Rightarrow> string + reader"
  gzip_writer :: "bytes \<Rightarrow> string + bytes"
  zlib_writer :: "bytes \<Rightarrow> string + bytes"
  brotli_writer :: "bytes \<Rightarrow> string + bytes"
  zstd_writer :: "bytes \<Rightarrow> string + bytes"

datatype codec_error = EmptyEncoding | UnsupportedEncoding string | CodecFailed string string
  | TooLarge | CodecPanic

definition maxDecoded :: nat where "maxDecoded = 64 * 1024 * 1024"

text \<open>\<^verbatim>\<open>readDecoded\<close>: at most one byte past the limit is read, so an error behind it is not seen.\<close>

definition readDecoded :: "reader \<Rightarrow> codec_error + bytes" where
  "readDecoded r = (let (out, err) = r in
     if length out > maxDecoded then Inl TooLarge
     else case err of Some e \<Rightarrow> Inl (CodecFailed [] e) | None \<Rightarrow> Inr out)"

definition open_reader :: "string + reader \<Rightarrow> codec_error + bytes" where
  "open_reader r = (case r of Inl e \<Rightarrow> Inl (CodecFailed [] e) | Inr rd \<Rightarrow> readDecoded rd)"

definition known_encodings :: "string list" where
  "known_encodings = [''identity'', ''gzip'', ''x-gzip'', ''deflate'', ''br'', ''zstd'']"

fun parse_encodings :: "string list \<Rightarrow> codec_error + string list" where
  "parse_encodings [] = Inr []"
| "parse_encodings (part # parts) =
     (let encoding = to_lower (trim_space part) in
      if encoding \<in> set known_encodings
      then rbind (parse_encodings parts) (\<lambda>es. Inr (encoding # es))
      else if encoding = [] then Inl EmptyEncoding
      else Inl (UnsupportedEncoding (trim_space part)))"

definition contentEncodings :: "string \<Rightarrow> codec_error + string list" where
  "contentEncodings h = (if trim_space h = [] then Inr [] else parse_encodings (split_on '','' h))"

definition decodeOneContentEncoding :: "codecs \<Rightarrow> bytes \<Rightarrow> string \<Rightarrow> codec_error + bytes" where
  "decodeOneContentEncoding C body enc =
     (if enc = ''identity'' then Inr body
      else if enc = ''gzip'' \<or> enc = ''x-gzip'' then open_reader (gzip_reader C body)
      else if enc = ''deflate'' then
        (case zlib_reader C body of Inr rd \<Rightarrow> readDecoded rd | Inl _ \<Rightarrow> readDecoded (flate_reader C body))
      else if enc = ''br'' then readDecoded (brotli_reader C body)
      else if enc = ''zstd'' then open_reader (zstd_reader C body)
      else Inl CodecPanic)"

definition encodeOneContentEncoding :: "codecs \<Rightarrow> bytes \<Rightarrow> string \<Rightarrow> codec_error + bytes" where
  "encodeOneContentEncoding C body enc =
     (let run = (\<lambda>w. case w body of Inl e \<Rightarrow> Inl (CodecFailed [] e) | Inr out \<Rightarrow> Inr out) in
      if enc = ''identity'' then Inr body
      else if enc = ''gzip'' \<or> enc = ''x-gzip'' then run (gzip_writer C)
      else if enc = ''deflate'' then run (zlib_writer C)
      else if enc = ''br'' then run (brotli_writer C)
      else if enc = ''zstd'' then run (zstd_writer C)
      else Inl CodecPanic)"

text \<open>\<^verbatim>\<open>fmt.Errorf("... %q: %w", encoding, err)\<close>; a panic is not wrapped.\<close>

fun wrap_codec :: "string \<Rightarrow> codec_error + bytes \<Rightarrow> codec_error + bytes" where
  "wrap_codec enc (Inl CodecPanic) = Inl CodecPanic"
| "wrap_codec enc (Inl (CodecFailed _ e)) = Inl (CodecFailed enc e)"
| "wrap_codec enc r = r"

fun decode_loop :: "codecs \<Rightarrow> string list \<Rightarrow> bytes \<Rightarrow> codec_error + bytes" where
  "decode_loop C [] out = Inr out"
| "decode_loop C (e # es) out =
     rbind (wrap_codec e (decodeOneContentEncoding C out e)) (decode_loop C es)"

fun encode_loop :: "codecs \<Rightarrow> string list \<Rightarrow> bytes \<Rightarrow> codec_error + bytes" where
  "encode_loop C [] out = Inr out"
| "encode_loop C (e # es) out =
     rbind (wrap_codec e (encodeOneContentEncoding C out e)) (encode_loop C es)"

definition DecodeContentEncodingStrict :: "codecs \<Rightarrow> bytes \<Rightarrow> string \<Rightarrow> codec_error + bytes" where
  "DecodeContentEncodingStrict C body encoding =
     rbind (contentEncodings encoding) (\<lambda>encodings.
       if body = [] then Inr body else decode_loop C (rev encodings) body)"

definition DecodeContentEncoding :: "codecs \<Rightarrow> bytes \<Rightarrow> string \<Rightarrow> bytes" where
  "DecodeContentEncoding C body encoding =
     (case DecodeContentEncodingStrict C body encoding of
        Inl _ \<Rightarrow> body | Inr out \<Rightarrow> if out = [] then body else out)"

definition EncodeContentEncoding :: "codecs \<Rightarrow> bytes \<Rightarrow> string \<Rightarrow> codec_error + bytes" where
  "EncodeContentEncoding C body encoding =
     rbind (contentEncodings encoding) (\<lambda>encodings.
       if body = [] then Inr [] else encode_loop C encodings body)"

section \<open>Lemmas\<close>

text \<open>What the formats' documentation promises: a reader undoes its writer, no stream is empty.\<close>

definition codecs_lawful :: "codecs \<Rightarrow> bool" where
  "codecs_lawful C \<longleftrightarrow> (\<forall>b w.
     (gzip_writer C b = Inr w \<longrightarrow> w \<noteq> [] \<and> gzip_reader C w = Inr (b, None)) \<and>
     (zlib_writer C b = Inr w \<longrightarrow> w \<noteq> [] \<and> zlib_reader C w = Inr (b, None)) \<and>
     (brotli_writer C b = Inr w \<longrightarrow> w \<noteq> [] \<and> brotli_reader C w = (b, None)) \<and>
     (zstd_writer C b = Inr w \<longrightarrow> w \<noteq> [] \<and> zstd_reader C w = Inr (b, None)))"

lemma wrap_codec_Inr [simp]: "wrap_codec e r = Inr b \<longleftrightarrow> r = Inr b"
  by (cases "(e, r)" rule: wrap_codec.cases) auto

lemma wrap_codec_panic [simp]: "wrap_codec e r = Inl CodecPanic \<longleftrightarrow> r = Inl CodecPanic"
  by (cases "(e, r)" rule: wrap_codec.cases) auto

lemma parse_encodings_known: "parse_encodings ps = Inr es \<Longrightarrow> set es \<subseteq> set known_encodings"
  by (induction ps arbitrary: es) (auto simp: Let_def rbind_eq_Inr split: if_splits)

lemma contentEncodings_known: "contentEncodings h = Inr es \<Longrightarrow> set es \<subseteq> set known_encodings"
  by (auto simp: contentEncodings_def dest: parse_encodings_known split: if_splits)

lemma readDecoded_Inr: "readDecoded r = Inr out \<longleftrightarrow> r = (out, None) \<and> length out \<le> maxDecoded"
  by (cases r) (auto simp: readDecoded_def split: option.splits)

lemma readDecoded_no_panic: "readDecoded r \<noteq> Inl CodecPanic"
  by (cases r) (auto simp: readDecoded_def split: option.splits)

lemma decode_one_no_panic:
  "e \<in> set known_encodings \<Longrightarrow> decodeOneContentEncoding C b e \<noteq> Inl CodecPanic"
  by (auto simp: known_encodings_def decodeOneContentEncoding_def open_reader_def readDecoded_no_panic
      split: sum.splits)

lemma encode_one_no_panic:
  "e \<in> set known_encodings \<Longrightarrow> encodeOneContentEncoding C b e \<noteq> Inl CodecPanic"
  by (auto simp: known_encodings_def encodeOneContentEncoding_def Let_def split: sum.splits)

lemma decode_loop_no_panic: "set es \<subseteq> set known_encodings \<Longrightarrow> decode_loop C es b \<noteq> Inl CodecPanic"
  by (induction es arbitrary: b) (auto simp: rbind_eq_Inl decode_one_no_panic)

lemma encode_loop_no_panic: "set es \<subseteq> set known_encodings \<Longrightarrow> encode_loop C es b \<noteq> Inl CodecPanic"
  by (induction es arbitrary: b) (auto simp: rbind_eq_Inl encode_one_no_panic)

lemma parse_encodings_no_panic: "parse_encodings ps \<noteq> Inl CodecPanic"
  by (induction ps) (auto simp: Let_def rbind_eq_Inl)

lemma contentEncodings_no_panic: "contentEncodings h \<noteq> Inl CodecPanic"
  by (simp add: contentEncodings_def parse_encodings_no_panic)

lemma decode_one_bound:
  "decodeOneContentEncoding C b e = Inr out \<Longrightarrow> length out \<le> max maxDecoded (length b)"
  by (auto simp: decodeOneContentEncoding_def open_reader_def readDecoded_Inr split: if_splits sum.splits)

lemma decode_loop_bound: "decode_loop C es b = Inr out \<Longrightarrow> length out \<le> max maxDecoded (length b)"
proof (induction es arbitrary: b)
  case Nil
  then show ?case by simp
next
  case (Cons e es)
  then obtain m where "decodeOneContentEncoding C b e = Inr m" and "decode_loop C es m = Inr out"
    by (auto simp: rbind_eq_Inr)
  with Cons.IH decode_one_bound [of C b e m] show ?case by fastforce
qed

text \<open>
  Decoding and encoding never panic, whatever the header says; and a compression bomb is
  contained: decoding returns at most 64 MiB, or no more than it was given. The display
  decoder moreover never turns a body that is there into an empty one.
\<close>

lemma decoding_is_safe:
  "DecodeContentEncodingStrict C body h \<noteq> Inl CodecPanic \<and>
   EncodeContentEncoding C body h \<noteq> Inl CodecPanic \<and>
   length (DecodeContentEncoding C body h) \<le> max (64 * 1024 * 1024) (length body) \<and>
   (body = [] \<longleftrightarrow> DecodeContentEncoding C body h = [])"
proof (intro conjI)
  show "DecodeContentEncodingStrict C body h \<noteq> Inl CodecPanic"
    using contentEncodings_known [of h] decode_loop_no_panic
    by (auto simp: DecodeContentEncodingStrict_def rbind_eq_Inl contentEncodings_no_panic)
  show "EncodeContentEncoding C body h \<noteq> Inl CodecPanic"
    using contentEncodings_known [of h] encode_loop_no_panic
    by (auto simp: EncodeContentEncoding_def rbind_eq_Inl contentEncodings_no_panic)
  show "length (DecodeContentEncoding C body h) \<le> max (64 * 1024 * 1024) (length body)"
    using decode_loop_bound
    by (auto simp: DecodeContentEncoding_def DecodeContentEncodingStrict_def rbind_eq_Inr maxDecoded_def
        split: sum.splits if_splits)
  show "body = [] \<longleftrightarrow> DecodeContentEncoding C body h = []"
    by (auto simp: DecodeContentEncoding_def DecodeContentEncodingStrict_def rbind_eq_Inr split: sum.splits)
qed

text \<open>The bodies between two encodings: the decoder sees each of them again.\<close>

fun encode_stages :: "codecs \<Rightarrow> string list \<Rightarrow> bytes \<Rightarrow> bytes list" where
  "encode_stages C [] b = []"
| "encode_stages C (e # es) b =
     b # (case encodeOneContentEncoding C b e of Inl _ \<Rightarrow> [] | Inr b' \<Rightarrow> encode_stages C es b')"

lemma decode_encode_one:
  assumes "codecs_lawful C" "b \<noteq> []" "length b \<le> maxDecoded" "encodeOneContentEncoding C b e = Inr w"
  shows "decodeOneContentEncoding C w e = Inr b \<and> w \<noteq> []"
  using assms
  by (auto simp: codecs_lawful_def encodeOneContentEncoding_def decodeOneContentEncoding_def
      open_reader_def readDecoded_Inr Let_def split: if_splits sum.splits)

lemma decode_loop_append: "decode_loop C (xs @ ys) b = rbind (decode_loop C xs b) (decode_loop C ys)"
proof (induction xs arbitrary: b)
  case (Cons x xs)
  then show ?case by (cases "wrap_codec x (decodeOneContentEncoding C b x)") auto
qed simp

lemma decode_encode_loop:
  assumes "codecs_lawful C"
  shows "b \<noteq> [] \<Longrightarrow> \<forall>s \<in> set (encode_stages C es b). length s \<le> maxDecoded \<Longrightarrow>
    encode_loop C es b = Inr w \<Longrightarrow> decode_loop C (rev es) w = Inr b \<and> w \<noteq> []"
proof (induction es arbitrary: b)
  case Nil
  then show ?case by simp
next
  case (Cons e es)
  then obtain m where m: "encodeOneContentEncoding C b e = Inr m" "encode_loop C es m = Inr w"
    by (auto simp: rbind_eq_Inr)
  with decode_encode_one [OF assms Cons.prems(1)] Cons.prems(2)
  have d: "decodeOneContentEncoding C m e = Inr b" "m \<noteq> []" by auto
  with Cons m have "decode_loop C (rev es) w = Inr m \<and> w \<noteq> []" by simp
  with d show ?case by (simp add: decode_loop_append)
qed

definition stages_fit :: "codecs \<Rightarrow> bytes \<Rightarrow> string \<Rightarrow> bool" where
  "stages_fit C body h \<longleftrightarrow> (case contentEncodings h of
       Inl _ \<Rightarrow> True
     | Inr es \<Rightarrow> list_all (\<lambda>s. length s \<le> maxDecoded) (encode_stages C es body))"

lemma DecodeStrict_Encode:
  assumes "codecs_lawful C" and "EncodeContentEncoding C body h = Inr w" and "stages_fit C body h"
  shows "DecodeContentEncodingStrict C w h = Inr body"
proof -
  obtain es where es: "contentEncodings h = Inr es"
    and w: "(if body = [] then Inr [] else encode_loop C es body) = Inr w"
    using assms(2) by (auto simp: EncodeContentEncoding_def rbind_eq_Inr)
  show ?thesis
  proof (cases "body = []")
    case True
    with es w show ?thesis by (simp add: DecodeContentEncodingStrict_def)
  next
    case False
    with w es assms(3) [unfolded stages_fit_def] decode_encode_loop [OF assms(1), of body es w] show ?thesis
      by (simp add: DecodeContentEncodingStrict_def list_all_iff)
  qed
qed

text \<open>
  An edit made on the decoded body goes out as the same body: what
  \<^verbatim>\<open>EncodeContentEncoding\<close> produces under a header, with any number of codings in any order and
  case, \<^verbatim>\<open>DecodeContentEncodingStrict\<close> turns back into the body, provided the compression
  libraries do what their documentation says and no stage is larger than the limit.
\<close>

lemma encoding_round_trip:
  assumes "codecs_lawful C" and "EncodeContentEncoding C body h = Inr w"
    and "stages_fit C body h"
  shows "DecodeContentEncodingStrict C w h = Inr body"
  using assms by (rule DecodeStrict_Encode)

text \<open>Toy codecs that put a marker byte in front: they show that the law can hold.\<close>

definition demo_reader :: "byte \<Rightarrow> bytes \<Rightarrow> string + reader" where
  "demo_reader t b = (case b of [] \<Rightarrow> Inl ''EOF'' | x # xs \<Rightarrow> if x = t then Inr (xs, None) else Inl ''bad'')"

definition demo_codecs :: codecs where
  "demo_codecs =
     \<lparr>gzip_reader = demo_reader 1, zlib_reader = demo_reader 2, flate_reader = (\<lambda>b. (b, None)),
      brotli_reader = (\<lambda>b. case demo_reader 3 b of Inl e \<Rightarrow> ([], Some e) | Inr r \<Rightarrow> r),
      zstd_reader = demo_reader 4, gzip_writer = (\<lambda>b. Inr (1 # b)), zlib_writer = (\<lambda>b. Inr (2 # b)),
      brotli_writer = (\<lambda>b. Inr (3 # b)), zstd_writer = (\<lambda>b. Inr (4 # b))\<rparr>"

lemma demo_codecs_lawful: "codecs_lawful demo_codecs"
  by (auto simp: codecs_lawful_def demo_codecs_def demo_reader_def)

lemma encoding_round_trip_witness:
  "DecodeContentEncodingStrict demo_codecs [3, 1, 65] ''GZIP, br'' = Inr [65]"
proof (rule encoding_round_trip [OF demo_codecs_lawful])
  have es: "contentEncodings ''GZIP, br'' = Inr [''gzip'', ''br'']" by code_simp
  show "EncodeContentEncoding demo_codecs [65] ''GZIP, br'' = Inr [3, 1, 65]" by code_simp
  show "stages_fit demo_codecs [65] ''GZIP, br''"
    by (simp add: stages_fit_def es encodeOneContentEncoding_def demo_codecs_def maxDecoded_def)
qed

end
