(* ===== verification/Intercept.thy ===== *)
theory Intercept
  imports Capture Scope
begin

text \<open>
  \<^verbatim>\<open>internal/intercept\<close>: the engine that pauses messages and hands each to the user. The
  goroutines of the proxy block in \<^verbatim>\<open>pause\<close> while the UI calls \<^verbatim>\<open>Resolve\<close>, so the model is a
  step relation whose steps are the code's critical sections and channel operations, in any
  interleaving. A call of \<^verbatim>\<open>pause\<close> makes one channel of capacity one: the channel is named by
  the call. References to flows are those of the capture heap.
\<close>

section \<open>The engine's data\<close>

datatype decision = Forward | Drop

type_synonym token = "64 word"

record resolution =
  rs_Decision :: decision
  rs_EditedBody :: "bytes option"

type_synonym chan_ref = nat

record ('re, 'inj) engine =
  e_reqEnabled :: bool
  e_respEnabled :: bool
  e_scope :: "'re scope_set option"
  e_nextPauseToken :: token
  e_pending :: "token \<Rightarrow> chan_ref option"
  e_pausedByFlow :: "fref \<Rightarrow> int option"
  e_sessions :: "(string \<times> 'inj) list"
  e_onPause :: bool

definition NewEngine :: "('re, 'inj) engine" where
  "NewEngine = \<lparr>e_reqEnabled = False, e_respEnabled = False, e_scope = None, e_nextPauseToken = 0,
     e_pending = (\<lambda>_. None), e_pausedByFlow = (\<lambda>_. None), e_sessions = [], e_onPause = False\<rparr>"

definition RegisterSession :: "string \<Rightarrow> 'inj \<Rightarrow> ('re, 'inj) engine \<Rightarrow> ('re, 'inj) engine" where
  "RegisterSession flowID ij e = e\<lparr>e_sessions := gput (e_sessions e) flowID ij\<rparr>"

definition UnregisterSession :: "string \<Rightarrow> ('re, 'inj) engine \<Rightarrow> ('re, 'inj) engine" where
  "UnregisterSession flowID e = e\<lparr>e_sessions := gdel (e_sessions e) flowID\<rparr>"

definition Session :: "('re, 'inj) engine \<Rightarrow> string \<Rightarrow> 'inj option" where
  "Session e flowID = map_of (e_sessions e) flowID"

definition SetScope :: "'re scope_set option \<Rightarrow> ('re, 'inj) engine \<Rightarrow> ('re, 'inj) engine" where
  "SetScope s e = e\<lparr>e_scope := s\<rparr>"

definition SetEnabled :: "bool \<Rightarrow> ('re, 'inj) engine \<Rightarrow> ('re, 'inj) engine" where
  "SetEnabled on e = e\<lparr>e_reqEnabled := on\<rparr>"

definition Enabled :: "('re, 'inj) engine \<Rightarrow> bool" where "Enabled e = e_reqEnabled e"

definition SetInterceptResponses :: "bool \<Rightarrow> ('re, 'inj) engine \<Rightarrow> ('re, 'inj) engine" where
  "SetInterceptResponses on e = e\<lparr>e_respEnabled := on\<rparr>"

definition InterceptResponses :: "('re, 'inj) engine \<Rightarrow> bool" where "InterceptResponses e = e_respEnabled e"

definition OnPause :: "bool \<Rightarrow> ('re, 'inj) engine \<Rightarrow> ('re, 'inj) engine" where
  "OnPause fn e = e\<lparr>e_onPause := fn\<rparr>"

definition hostOnly :: "string \<Rightarrow> string" where
  "hostOnly hostport = (case SplitHostPort hostport of Inr (h, _) \<Rightarrow> h | Inl _ \<Rightarrow> hostport)"

definition TargetFromFlow :: "flow \<Rightarrow> target" where
  "TargetFromFlow f =
     (let host = (if f_SNI f = [] then hostOnly (f_ServerAddr f) else f_SNI f);
          t = \<lparr>tg_Host = host, tg_Method = [], tg_Path = [], tg_Protocol = f_Protocol f, tg_Body = []\<rparr>
      in case f_Request f of
           None \<Rightarrow> t
         | Some r \<Rightarrow> t\<lparr>tg_Method := gget (m_Meta r) ''method'' [], tg_Path := gget (m_Meta r) ''path'' [],
                       tg_Body := m_Body r\<rparr>)"

definition inScopeAnd :: "'re regex_engine \<Rightarrow> ('re, 'inj) engine \<Rightarrow> bool \<Rightarrow> flow \<Rightarrow> bool" where
  "inScopeAnd E e directionOn f =
     (if \<not> directionOn then False
      else case e_scope e of None \<Rightarrow> False | Some sc \<Rightarrow> InScope E sc (TargetFromFlow f))"

definition ShouldInterceptRequest :: "'re regex_engine \<Rightarrow> ('re, 'inj) engine \<Rightarrow> flow \<Rightarrow> bool" where
  "ShouldInterceptRequest E e f = inScopeAnd E e (Enabled e) f"

definition ShouldInterceptResponse :: "'re regex_engine \<Rightarrow> ('re, 'inj) engine \<Rightarrow> flow \<Rightarrow> bool" where
  "ShouldInterceptResponse E e f = inScopeAnd E e (InterceptResponses e) f"

section \<open>The critical sections of a pause\<close>

text \<open>The search for a free token; it would spin for ever only if every token were pending.\<close>

partial_function (option) find_token :: "(token \<Rightarrow> chan_ref option) \<Rightarrow> token \<Rightarrow> token option" where
  "find_token pending n =
     (let t = n + 1 in
      if t = 0 then find_token pending t
      else if pending t = None then Some t
      else find_token pending t)"

text \<open>The first locked section: \<^verbatim>\<open>None\<close> if the token search does not end.\<close>

definition pause_register ::
    "chan_ref \<Rightarrow> fref \<Rightarrow> ('re, 'inj) engine \<times> heap \<Rightarrow> (token \<times> ('re, 'inj) engine \<times> heap) option" where
  "pause_register ch f eh = (let (e, h) = eh in
     case find_token (e_pending e) (e_nextPauseToken e) of
       None \<Rightarrow> None
     | Some t \<Rightarrow> Some (t,
         e\<lparr>e_nextPauseToken := t, e_pending := (e_pending e)(t \<mapsto> ch),
           e_pausedByFlow := (e_pausedByFlow e)
             (f \<mapsto> (case e_pausedByFlow e f of None \<Rightarrow> 0 | Some n \<Rightarrow> n) + 1)\<rparr>,
         h(f := (h f)\<lparr>f_Status := StatusPending\<rparr>)))"

text \<open>The deferred section.\<close>

definition pause_cleanup ::
    "chan_ref \<Rightarrow> token \<Rightarrow> fref \<Rightarrow> ('re, 'inj) engine \<times> heap \<Rightarrow> ('re, 'inj) engine \<times> heap" where
  "pause_cleanup ch t f eh = (let (e, h) = eh;
     pend = (if e_pending e t = Some ch then (e_pending e)(t := None) else e_pending e);
     remaining = (case e_pausedByFlow e f of None \<Rightarrow> 0 | Some n \<Rightarrow> n) - 1
     in if remaining = 0
        then (e\<lparr>e_pending := pend, e_pausedByFlow := (e_pausedByFlow e)(f := None)\<rparr>,
              h(f := (h f)\<lparr>f_Status := StatusActive\<rparr>))
        else (e\<lparr>e_pending := pend, e_pausedByFlow := (e_pausedByFlow e)(f \<mapsto> remaining)\<rparr>, h))"

text \<open>The locked section of \<^verbatim>\<open>Resolve\<close>: the channel claimed, if the token is pending.\<close>

definition resolve_claim :: "token \<Rightarrow> ('re, 'inj) engine \<Rightarrow> chan_ref option \<times> ('re, 'inj) engine" where
  "resolve_claim t e = (case e_pending e t of
       None \<Rightarrow> (None, e)
     | Some ch \<Rightarrow> (Some ch, e\<lparr>e_pending := (e_pending e)(t := None)\<rparr>))"

definition pause_result :: "resolution \<Rightarrow> bytes option \<times> bool" where
  "pause_result res = (if rs_Decision res = Drop then (None, True) else (rs_EditedBody res, False))"

section \<open>Interleavings\<close>

text \<open>
  Where a call of the tamper hooks stands: before its scope check, with the direction's switch
  read; admitted; registered but the callback not yet called; waiting on its channel; returned;
  or unwound by a panic of the callback.
\<close>

datatype call = Entered fref bool | Admitted fref | Registered fref token | Waiting fref token
  | Returned "bytes option \<times> bool" | Panicked

record ('re, 'inj) sys =
  y_engine :: "('re, 'inj) engine"
  y_heap :: heap
  y_calls :: "chan_ref \<Rightarrow> call option"
  y_chans :: "chan_ref \<Rightarrow> resolution list"
  y_sends :: "(chan_ref \<times> resolution) list"
  y_notified :: "(token \<times> fref) list"

definition sys_init :: "heap \<Rightarrow> ('re, 'inj) sys" where
  "sys_init h = \<lparr>y_engine = NewEngine, y_heap = h, y_calls = (\<lambda>_. None), y_chans = (\<lambda>_. []),
     y_sends = [], y_notified = []\<rparr>"

definition set_call :: "chan_ref \<Rightarrow> call \<Rightarrow> ('re, 'inj) sys \<Rightarrow> ('re, 'inj) sys" where
  "set_call c k y = y\<lparr>y_calls := (y_calls y)(c \<mapsto> k)\<rparr>"

inductive step :: "'re regex_engine \<Rightarrow> ('re, 'inj) sys \<Rightarrow> ('re, 'inj) sys \<Rightarrow> bool" for E where
  s_BeforeForward: "y_calls y c = None \<Longrightarrow>
    step E y (set_call c (Entered f (Enabled (y_engine y))) y)"
| s_BeforeDeliver: "y_calls y c = None \<Longrightarrow>
    step E y (set_call c (Entered f (InterceptResponses (y_engine y))) y)"
| s_Pass: "y_calls y c = Some (Entered f on) \<Longrightarrow> \<not> inScopeAnd E (y_engine y) on (y_heap y f) \<Longrightarrow>
    step E y (set_call c (Returned (None, False)) y)"
| s_Admit: "y_calls y c = Some (Entered f on) \<Longrightarrow> inScopeAnd E (y_engine y) on (y_heap y f) \<Longrightarrow>
    step E y (set_call c (Admitted f) y)"
| s_Register: "y_calls y c = Some (Admitted f) \<Longrightarrow>
    pause_register c f (y_engine y, y_heap y) = Some (t, e', h') \<Longrightarrow>
    step E y (set_call c (Registered f t) (y\<lparr>y_engine := e', y_heap := h'\<rparr>))"
| s_Notify: "y_calls y c = Some (Registered f t) \<Longrightarrow>
    step E y (set_call c (Waiting f t)
      (if e_onPause (y_engine y) then y\<lparr>y_notified := y_notified y @ [(t, f)]\<rparr> else y))"
| s_CallbackPanic: "y_calls y c = Some (Registered f t) \<Longrightarrow>
    pause_cleanup c t f (y_engine y, y_heap y) = (e', h') \<Longrightarrow>
    step E y (set_call c Panicked (y\<lparr>y_engine := e', y_heap := h'\<rparr>))"
| s_Receive: "y_calls y c = Some (Waiting f t) \<Longrightarrow> y_chans y c = res # rest \<Longrightarrow>
    pause_cleanup c t f (y_engine y, y_heap y) = (e', h') \<Longrightarrow>
    step E y (set_call c (Returned (pause_result res))
      (y\<lparr>y_engine := e', y_heap := h', y_chans := (y_chans y)(c := rest)\<rparr>))"
| s_Resolve_unknown: "resolve_claim t (y_engine y) = (None, e') \<Longrightarrow> step E y (y\<lparr>y_engine := e'\<rparr>)"
| s_Resolve: "resolve_claim t (y_engine y) = (Some c, e') \<Longrightarrow>
    step E y (y\<lparr>y_engine := e', y_sends := (c, res) # y_sends y\<rparr>)"
| s_Send: "y_sends y = xs @ (c, res) # zs \<Longrightarrow> length (y_chans y c) < 1 \<Longrightarrow>
    step E y (y\<lparr>y_sends := xs @ zs, y_chans := (y_chans y)(c := y_chans y c @ [res])\<rparr>)"
| s_SetScope: "step E y (y\<lparr>y_engine := SetScope sc (y_engine y)\<rparr>)"
| s_SetEnabled: "step E y (y\<lparr>y_engine := SetEnabled on (y_engine y)\<rparr>)"
| s_SetInterceptResponses: "step E y (y\<lparr>y_engine := SetInterceptResponses on (y_engine y)\<rparr>)"
| s_OnPause: "step E y (y\<lparr>y_engine := OnPause fn (y_engine y)\<rparr>)"
| s_RegisterSession: "step E y (y\<lparr>y_engine := RegisterSession i ij (y_engine y)\<rparr>)"
| s_UnregisterSession: "step E y (y\<lparr>y_engine := UnregisterSession i (y_engine y)\<rparr>)"

inductive reachable :: "'re regex_engine \<Rightarrow> heap \<Rightarrow> ('re, 'inj) sys \<Rightarrow> bool" for E h where
  r_init: "reachable E h (sys_init h)"
| r_step: "reachable E h y \<Longrightarrow> step E y y' \<Longrightarrow> reachable E h y'"

section \<open>Tokens\<close>

lemma find_token_fresh:
  assumes "find_token p n = Some t"
  shows "t \<noteq> 0 \<and> p t = None"
  by (rule find_token.raw_induct [OF _ assms]) (auto simp: Let_def split: if_splits)

lemma find_token_total:
  assumes "t \<noteq> 0" and "p t = None"
  shows "\<exists>t'. find_token p n = Some t'"
proof (induction "unat (t - (n + 1))" arbitrary: n)
  case 0
  then have "n + 1 = t" by (simp add: unat_eq_0)
  with assms show ?case by (subst find_token.simps) simp
next
  case (Suc k)
  then have ne: "t - (n + 1) \<noteq> 0" by auto
  have step: "t - (n + 1 + 1) = t - (n + 1) - 1" by (simp add: diff_diff_eq)
  have "unat (t - (n + 1 + 1)) = unat (t - (n + 1)) - 1"
    unfolding step by (rule unat_minus_one [OF ne])
  then have "k = unat (t - (n + 1 + 1))" using Suc(2) by linarith
  from Suc(1) [OF this] obtain t' where "find_token p (n + 1) = Some t'" by blast
  then show ?case by (subst find_token.simps) (auto simp: Let_def)
qed

lemma find_token_card:
  assumes "finite (dom p)" and "card (dom p) < 2 ^ 64 - 1"
  shows "\<exists>t. find_token p n = Some t"
proof -
  have "card (UNIV - {0} :: token set) = 2 ^ 64 - 1"
    by (simp add: card_Diff_singleton card_word)
  then have "\<not> (UNIV - {0}) \<subseteq> dom p"
    using assms card_mono [of "dom p" "UNIV - {0}"] by fastforce
  then obtain t where "t \<noteq> 0" "p t = None" by blast
  then show ?thesis by (rule find_token_total)
qed

text \<open>
  C40: registering a pause always succeeds while fewer than 2^64 - 1 pauses are pending, also
  when the 64-bit counter has wrapped around; the token it issues is never 0 and never one that
  is pending, so no pause can take over another's entry.
\<close>

theorem pause_register_terminates:
  assumes "finite (dom (e_pending e))" and "card (dom (e_pending e)) < 2 ^ 64 - 1"
  shows "\<exists>t e' h'. pause_register c f (e, h) = Some (t, e', h') \<and> t \<noteq> 0 \<and> e_pending e t = None
    \<and> e_pending e' = (e_pending e)(t \<mapsto> c) \<and> f_Status (h' f) = StatusPending"
  using find_token_card [OF assms, of "e_nextPauseToken e"] find_token_fresh [of "e_pending e"]
  by (auto simp: pause_register_def)

section \<open>Invariants\<close>

definition paused_on :: "call \<Rightarrow> fref \<Rightarrow> bool" where
  "paused_on k f \<longleftrightarrow> (\<exists>t. k = Registered f t \<or> k = Waiting f t)"

definition pausers :: "('re, 'inj) sys \<Rightarrow> fref \<Rightarrow> chan_ref set" where
  "pausers y f = {c. \<exists>k. y_calls y c = Some k \<and> paused_on k f}"

definition sends_to :: "('re, 'inj) sys \<Rightarrow> chan_ref \<Rightarrow> nat" where
  "sends_to y c = count_list (map fst (y_sends y)) c + length (y_chans y c)"

definition owed :: "('re, 'inj) sys \<Rightarrow> chan_ref \<Rightarrow> token \<Rightarrow> nat" where
  "owed y c t = (if e_pending (y_engine y) t = Some c then 1 else 0) + sends_to y c"

fun call_ok :: "('re, 'inj) sys \<Rightarrow> chan_ref \<Rightarrow> call option \<Rightarrow> bool" where
  "call_ok y c (Some (Registered f t)) \<longleftrightarrow> owed y c t = 1"
| "call_ok y c (Some (Waiting f t)) \<longleftrightarrow> owed y c t = 1"
| "call_ok y c (Some Panicked) \<longleftrightarrow> sends_to y c \<le> 1"
| "call_ok y c _ \<longleftrightarrow> sends_to y c = 0"

definition pending_ok :: "('re, 'inj) sys \<Rightarrow> bool" where
  "pending_ok y \<longleftrightarrow> (\<forall>t c. e_pending (y_engine y) t = Some c \<longrightarrow> t \<noteq> 0 \<and>
     (\<exists>f. y_calls y c = Some (Registered f t) \<or> y_calls y c = Some (Waiting f t)))"

definition count_ok :: "('re, 'inj) sys \<Rightarrow> bool" where
  "count_ok y \<longleftrightarrow> finite (dom (y_calls y)) \<and> (\<forall>f. e_pausedByFlow (y_engine y) f =
     (if pausers y f = {} then None else Some (int (card (pausers y f)))))"

definition status_ok :: "('re, 'inj) sys \<Rightarrow> bool" where
  "status_ok y \<longleftrightarrow> (\<forall>f. f_Status (y_heap y f) = StatusPending \<longleftrightarrow> pausers y f \<noteq> {})"

definition sys_inv :: "('re, 'inj) sys \<Rightarrow> bool" where
  "sys_inv y \<longleftrightarrow> (\<forall>c. call_ok y c (y_calls y c)) \<and> pending_ok y"

lemma set_call_sel [simp]:
  "y_engine (set_call c k y) = y_engine y" "y_heap (set_call c k y) = y_heap y"
  "y_calls (set_call c k y) = (y_calls y)(c \<mapsto> k)" "y_chans (set_call c k y) = y_chans y"
  "y_sends (set_call c k y) = y_sends y" "y_notified (set_call c k y) = y_notified y"
  by (simp_all add: set_call_def)

lemma setters_pending [simp]:
  "e_pending (SetScope sc e) = e_pending e" "e_pending (SetEnabled on e) = e_pending e"
  "e_pending (SetInterceptResponses on e) = e_pending e" "e_pending (OnPause fn e) = e_pending e"
  "e_pending (RegisterSession i ij e) = e_pending e" "e_pending (UnregisterSession i e) = e_pending e"
  "e_pausedByFlow (SetScope sc e) = e_pausedByFlow e" "e_pausedByFlow (SetEnabled on e) = e_pausedByFlow e"
  "e_pausedByFlow (SetInterceptResponses on e) = e_pausedByFlow e" "e_pausedByFlow (OnPause fn e) = e_pausedByFlow e"
  "e_pausedByFlow (RegisterSession i ij e) = e_pausedByFlow e" "e_pausedByFlow (UnregisterSession i e) = e_pausedByFlow e"
  by (simp_all add: SetScope_def SetEnabled_def SetInterceptResponses_def OnPause_def
      RegisterSession_def UnregisterSession_def)

lemma pausers_set_call:
  "pausers (set_call c k y) f = (if paused_on k f then insert c (pausers y f) else pausers y f - {c})"
  by (auto simp: pausers_def)

lemma pausers_frame [simp]:
  "pausers (y\<lparr>y_engine := e\<rparr>) f = pausers y f" "pausers (y\<lparr>y_heap := h\<rparr>) f = pausers y f"
  "pausers (y\<lparr>y_chans := ch\<rparr>) f = pausers y f" "pausers (y\<lparr>y_sends := sd\<rparr>) f = pausers y f"
  "pausers (y\<lparr>y_notified := n\<rparr>) f = pausers y f"
  by (simp_all add: pausers_def)

lemma paused_on_simps [simp]:
  "paused_on (Registered f t) g \<longleftrightarrow> f = g" "paused_on (Waiting f t) g \<longleftrightarrow> f = g"
  "\<not> paused_on (Entered f on) g" "\<not> paused_on (Admitted f) g" "\<not> paused_on (Returned r) g"
  "\<not> paused_on Panicked g"
  by (auto simp: paused_on_def)

lemma call_ok_cong:
  "sends_to y' c = sends_to y c \<Longrightarrow> (\<And>t. (e_pending (y_engine y') t = Some c) = (e_pending (y_engine y) t = Some c))
    \<Longrightarrow> call_ok y' c k = call_ok y c k"
  by (cases "(y, c, k)" rule: call_ok.cases) (auto simp: owed_def)

lemma sys_invD:
  "sys_inv y \<Longrightarrow> y_calls y c = k \<Longrightarrow> call_ok y c k"
  "sys_inv y \<Longrightarrow> e_pending (y_engine y) t = Some c \<Longrightarrow> t \<noteq> 0 \<and>
     (\<exists>f. y_calls y c = Some (Registered f t) \<or> y_calls y c = Some (Waiting f t))"
  by (auto simp: sys_inv_def pending_ok_def)

text \<open>A change that leaves tokens, channels and sends alone and moves one call.\<close>

lemma sys_inv_set_call:
  assumes "sys_inv y" and "y_chans y' = y_chans y" "y_sends y' = y_sends y"
    and "e_pending (y_engine y') = e_pending (y_engine y)"
    and "y_calls y' = (y_calls y)(c \<mapsto> k)" and "call_ok y c (Some k)"
    and "\<forall>t. e_pending (y_engine y) t = Some c \<longrightarrow> (\<exists>f. k = Registered f t \<or> k = Waiting f t)"
  shows "sys_inv y'"
proof -
  have "call_ok y' d j = call_ok y d j" for d j
    using assms by (intro call_ok_cong) (simp_all add: sends_to_def)
  with assms show ?thesis by (auto simp: sys_inv_def pending_ok_def)
qed

lemma no_pending:
  assumes "sys_inv y" and "y_calls y c = k" and "\<forall>f t. k \<noteq> Some (Registered f t) \<and> k \<noteq> Some (Waiting f t)"
  shows "e_pending (y_engine y) t \<noteq> Some c"
  using sys_invD(2) [OF assms(1), of t c] assms(2,3) by blast

lemma sys_inv_idle:
  assumes "sys_inv y" and "y_calls y c = k0" and "sends_to y c = 0"
    and "\<forall>f t. k0 \<noteq> Some (Registered f t) \<and> k0 \<noteq> Some (Waiting f t)"
    and "call_ok y c (Some k) = (sends_to y c = 0)"
  shows "sys_inv (set_call c k y)"
  by (rule sys_inv_set_call [OF assms(1), of _ c k])
     (use assms no_pending [OF assms(1,2,4)] in simp_all)

lemma cleanup_pending:
  "pause_cleanup c t f (e, h) = (e', h') \<Longrightarrow>
    e_pending e' = (if e_pending e t = Some c then (e_pending e)(t := None) else e_pending e)"
  by (auto simp: pause_cleanup_def Let_def split: if_splits)

lemma sys_inv_same:
  assumes "sys_inv y" and "y_chans y' = y_chans y" "y_sends y' = y_sends y" "y_calls y' = y_calls y"
    and "e_pending (y_engine y') = e_pending (y_engine y)"
  shows "sys_inv y'"
proof -
  have "call_ok y' d k = call_ok y d k" for d k
    using assms by (intro call_ok_cong) (simp_all add: sends_to_def)
  with assms show ?thesis by (simp add: sys_inv_def pending_ok_def)
qed

lemma pending_ok_move:
  assumes "sys_inv y" and "y_calls y' = (y_calls y)(c \<mapsto> k)"
    and "\<And>t d. e_pending (y_engine y') t = Some d \<Longrightarrow> e_pending (y_engine y) t = Some d \<and> d \<noteq> c"
  shows "pending_ok y'"
  unfolding pending_ok_def
proof (intro allI impI)
  fix t d
  assume "e_pending (y_engine y') t = Some d"
  with assms(3) have "e_pending (y_engine y) t = Some d" and "d \<noteq> c" by blast+
  with sys_invD(2) [OF assms(1), of t d] show "t \<noteq> 0 \<and>
      (\<exists>f. y_calls y' d = Some (Registered f t) \<or> y_calls y' d = Some (Waiting f t))"
    by (simp add: assms(2))
qed

lemma sys_inv_step [inv_rules]:
  assumes "step E y y'" and "sys_inv y"
  shows "sys_inv y'"
  using assms(1)
proof cases
  case (s_BeforeForward c f)
  show ?thesis unfolding s_BeforeForward(1)
    using sys_invD(1) [OF assms(2) s_BeforeForward(2)] by (intro sys_inv_idle [OF assms(2) s_BeforeForward(2)]) simp_all
next
  case (s_BeforeDeliver c f)
  show ?thesis unfolding s_BeforeDeliver(1)
    using sys_invD(1) [OF assms(2) s_BeforeDeliver(2)] by (intro sys_inv_idle [OF assms(2) s_BeforeDeliver(2)]) simp_all
next
  case (s_Pass c f on)
  show ?thesis unfolding s_Pass(1)
    using sys_invD(1) [OF assms(2) s_Pass(2)] by (intro sys_inv_idle [OF assms(2) s_Pass(2)]) simp_all
next
  case (s_Admit c f on)
  show ?thesis unfolding s_Admit(1)
    using sys_invD(1) [OF assms(2) s_Admit(2)] by (intro sys_inv_idle [OF assms(2) s_Admit(2)]) simp_all
next
  case (s_Notify c f t)
  have "e_pending (y_engine y) t' = Some c \<Longrightarrow> t' = t" for t'
    using sys_invD(2) [OF assms(2), of t' c] s_Notify(2) by auto
  then show ?thesis
    using sys_invD(1) [OF assms(2) s_Notify(2)] unfolding s_Notify(1)
    by (intro sys_inv_set_call [OF assms(2), of _ c "Waiting f t"]) simp_all
next
  case (s_Register c f t e' h')
  then have p: "e_pending e' = (e_pending (y_engine y))(t \<mapsto> c)" and fresh: "t \<noteq> 0" "e_pending (y_engine y) t = None"
    using find_token_fresh by (auto simp: pause_register_def split: option.splits)
  have none: "sends_to y c = 0" using sys_invD(1) [OF assms(2) s_Register(2)] by simp
  have other: "e_pending (y_engine y) t' \<noteq> Some c" for t'
    using sys_invD(2) [OF assms(2), of t' c] s_Register(2) by auto
  have "call_ok y' d (y_calls y d)" if "d \<noteq> c" for d
    using that s_Register(1) p fresh sys_invD(1) [OF assms(2) refl, of d]
    by (subst call_ok_cong [of y' d y]) (auto simp: sends_to_def)
  moreover have "call_ok y' c (Some (Registered f t))"
    using none p by (simp add: s_Register(1) owed_def sends_to_def)
  moreover have "pending_ok y'"
    using assms(2) p fresh other s_Register(1,2) by (auto simp: sys_inv_def pending_ok_def)
  ultimately show ?thesis by (auto simp: sys_inv_def s_Register(1))
next
  case (s_CallbackPanic c f t e' h')
  note p = cleanup_pending [OF s_CallbackPanic(3)]
  have own: "t' \<noteq> t \<Longrightarrow> e_pending (y_engine y) t' \<noteq> Some c" for t'
    using sys_invD(2) [OF assms(2), of t' c] s_CallbackPanic(2) by auto
  have "call_ok y' d (y_calls y d)" if "d \<noteq> c" for d
    using that s_CallbackPanic(1) p sys_invD(1) [OF assms(2) refl, of d]
    by (subst call_ok_cong [of y' d y]) (auto simp: sends_to_def)
  moreover have "call_ok y' c (Some Panicked)"
    using sys_invD(1) [OF assms(2) s_CallbackPanic(2)] by (auto simp: s_CallbackPanic(1) owed_def sends_to_def)
  moreover have np: "e_pending e' t' \<noteq> Some c \<and> (e_pending e' t' = Some d \<longrightarrow> e_pending (y_engine y) t' = Some d)" for t' d
    by (cases "t' = t") (use p own [of t'] in \<open>auto split: if_splits\<close>)
  moreover have "pending_ok y'"
    by (rule pending_ok_move [OF assms(2), of _ c Panicked])
       (use np in \<open>fastforce simp: s_CallbackPanic(1)\<close>)+
  ultimately show ?thesis by (auto simp: sys_inv_def s_CallbackPanic(1))
next
  case (s_Receive c f t res rest e' h')
  note p = cleanup_pending [OF s_Receive(4)]
  have "owed y c t = 1" using sys_invD(1) [OF assms(2) s_Receive(2)] by simp
  then have np: "e_pending (y_engine y) t \<noteq> Some c" and sd: "count_list (map fst (y_sends y)) c = 0" "rest = []"
    using s_Receive(3) by (auto simp: owed_def sends_to_def split: if_splits)
  with p have p': "e_pending e' = e_pending (y_engine y)" by simp
  have own: "e_pending (y_engine y) t' \<noteq> Some c" for t'
    using sys_invD(2) [OF assms(2), of t' c] s_Receive(2) np by auto
  have "call_ok y' d (y_calls y d)" if "d \<noteq> c" for d
    using that s_Receive(1) p' sys_invD(1) [OF assms(2) refl, of d]
    by (subst call_ok_cong [of y' d y]) (auto simp: sends_to_def)
  moreover have "call_ok y' c (Some (Returned (pause_result res)))"
    using sd by (simp add: s_Receive(1) sends_to_def)
  moreover have "pending_ok y'"
    by (rule pending_ok_move [OF assms(2), of _ c "Returned (pause_result res)"])
       (use p' own in \<open>auto simp: s_Receive(1)\<close>)
  ultimately show ?thesis by (auto simp: sys_inv_def s_Receive(1))
next
  case (s_Resolve_unknown t e')
  then have "e' = y_engine y" by (auto simp: resolve_claim_def split: option.splits)
  with s_Resolve_unknown assms(2) show ?thesis by simp
next
  case (s_Resolve t c e' res)
  then have pt: "e_pending (y_engine y) t = Some c" and e': "e_pending e' = (e_pending (y_engine y))(t := None)"
    by (auto simp: resolve_claim_def split: option.splits)
  obtain f where f: "y_calls y c = Some (Registered f t) \<or> y_calls y c = Some (Waiting f t)"
    using sys_invD(2) [OF assms(2) pt] by blast
  have own: "t' \<noteq> t \<Longrightarrow> e_pending (y_engine y) t' \<noteq> Some c" for t'
    using sys_invD(2) [OF assms(2), of t' c] f by auto
  have "call_ok y' d (y_calls y d)" if "d \<noteq> c" for d
    using that s_Resolve(1) e' pt sys_invD(1) [OF assms(2) refl, of d]
    by (subst call_ok_cong [of y' d y]) (auto simp: sends_to_def)
  moreover have "call_ok y' c (y_calls y c)"
    using f pt e' sys_invD(1) [OF assms(2) refl, of c] by (auto simp: s_Resolve(1) owed_def sends_to_def)
  moreover have "pending_ok y'"
    using assms(2) e' by (auto simp: sys_inv_def pending_ok_def s_Resolve(1))
  ultimately have "call_ok y' d (y_calls y d) \<and> pending_ok y'" for d by (cases "d = c") simp_all
  then show ?thesis by (simp add: sys_inv_def s_Resolve(1))
next
  case (s_Send xs c res zs)
  have "sends_to y' d = sends_to y d" for d
    using s_Send(2) by (simp add: s_Send(1) sends_to_def)
  then have "call_ok y' d k = call_ok y d k" for d k
    by (intro call_ok_cong) (simp_all add: s_Send(1))
  with assms(2) show ?thesis by (simp add: sys_inv_def pending_ok_def s_Send(1))
qed (rule sys_inv_same [OF assms(2)]; simp)+

section \<open>Counters and statuses\<close>

definition flow_inv :: "('re, 'inj) sys \<Rightarrow> bool" where
  "flow_inv y \<longleftrightarrow> count_ok y \<and> status_ok y"

lemma pausers_iff: "y_calls y c = Some k \<Longrightarrow> c \<in> pausers y f \<longleftrightarrow> paused_on k f"
  by (simp add: pausers_def)

lemma pausers_new: "y_calls y c = None \<Longrightarrow> c \<notin> pausers y f"
  by (simp add: pausers_def)

lemma finite_pausers: "count_ok y \<Longrightarrow> finite (pausers y f)"
  by (rule finite_subset [of _ "dom (y_calls y)"]) (auto simp: count_ok_def pausers_def)

lemma flow_inv_same:
  assumes "flow_inv y" and "\<And>f. pausers y' f = pausers y f" and "finite (dom (y_calls y'))"
    and "e_pausedByFlow (y_engine y') = e_pausedByFlow (y_engine y)" and "y_heap y' = y_heap y"
  shows "flow_inv y'"
  using assms by (simp add: flow_inv_def count_ok_def status_ok_def)

lemma flow_inv_finite: "flow_inv y \<Longrightarrow> finite (dom (y_calls y))"
  by (simp add: flow_inv_def count_ok_def)

text \<open>A paused call leaves.\<close>

lemma flow_inv_leave:
  assumes "flow_inv y" and "y_calls y c = Some k" and "\<And>g. paused_on k g \<longleftrightarrow> g = f"
    and "pause_cleanup c t f (y_engine y, y_heap y) = (e', h')"
    and "\<And>g. pausers y' g = pausers y g - {c}" and "finite (dom (y_calls y'))"
    and "y_engine y' = e'" and "y_heap y' = h'"
  shows "flow_inv y'"
proof -
  have cin: "c \<in> pausers y g \<longleftrightarrow> g = f" for g
    using pausers_iff [OF assms(2)] assms(3) by simp
  have cnt: "count_ok y" and st: "status_ok y" using assms(1) by (simp_all add: flow_inv_def)
  note fin = finite_pausers [OF cnt, of f]
  have cf: "c \<in> pausers y f" using cin by simp
  define n where "n = card (pausers y f)"
  have n: "n \<noteq> 0" "e_pausedByFlow (y_engine y) f = Some (int n)"
    using cf fin cnt by (auto simp: n_def count_ok_def)
  have left: "card (pausers y' f) = n - 1" and lf: "pausers y' f = {} \<longleftrightarrow> n = 1"
    using cf fin by (auto simp: assms(5) n_def card_Diff_singleton card_1_singleton_iff)
  have other: "g \<noteq> f \<Longrightarrow> pausers y' g = pausers y g" for g
    using cin assms(5) by auto
  have "e_pausedByFlow e' = (e_pausedByFlow (y_engine y))(f := (if n = 1 then None else Some (int n - 1)))"
    and h': "h' = (if n = 1 then (y_heap y)(f := (y_heap y f)\<lparr>f_Status := StatusActive\<rparr>) else y_heap y)"
    using assms(4) n by (auto simp: pause_cleanup_def Let_def split: if_splits)
  then have "e_pausedByFlow e' g = (if pausers y' g = {} then None else Some (int (card (pausers y' g))))" for g
    using cnt other [of g] left lf n by (cases "g = f") (simp_all add: count_ok_def of_nat_diff)
  then have "count_ok y'" using assms(6,7) by (simp add: count_ok_def)
  moreover have "f_Status (h' g) = StatusPending \<longleftrightarrow> pausers y' g \<noteq> {}" for g
    using st other [of g] lf cf h' by (cases "g = f") (auto simp: status_ok_def)
  then have "status_ok y'" by (simp add: status_ok_def assms(8))
  ultimately show ?thesis by (simp add: flow_inv_def)
qed

lemma flow_inv_step [inv_rules]:
  assumes "step E y y'" and "flow_inv y"
  shows "flow_inv y'"
  using assms(1)
proof cases
  case (s_Register c f t e' h')
  have cnt: "count_ok y" and st: "status_ok y" using assms(2) by (simp_all add: flow_inv_def)
  have c: "c \<notin> pausers y g" for g using pausers_iff [OF s_Register(2)] by simp
  have p: "pausers y' g = (if f = g then insert c (pausers y g) else pausers y g)" for g
    using c by (simp add: s_Register(1) pausers_set_call)
  have e': "e_pausedByFlow e' = (e_pausedByFlow (y_engine y))
      (f \<mapsto> (case e_pausedByFlow (y_engine y) f of None \<Rightarrow> 0 | Some n \<Rightarrow> n) + 1)"
    and h': "h' = (y_heap y)(f := (y_heap y f)\<lparr>f_Status := StatusPending\<rparr>)"
    using s_Register(3) by (auto simp: pause_register_def split: option.splits)
  have "e_pausedByFlow e' g = (if pausers y' g = {} then None else Some (int (card (pausers y' g))))" for g
    using cnt c finite_pausers [OF cnt, of g]
    by (cases "g = f") (simp_all add: count_ok_def p e' card_insert_disjoint)
  then have "count_ok y'"
    using flow_inv_finite [OF assms(2)] by (simp add: count_ok_def s_Register(1))
  moreover have "f_Status (h' g) = StatusPending \<longleftrightarrow> pausers y' g \<noteq> {}" for g
    using st by (simp add: status_ok_def p h')
  then have "status_ok y'" by (simp add: status_ok_def s_Register(1))
  ultimately show ?thesis by (simp add: flow_inv_def)
next
  case (s_CallbackPanic c f t e' h')
  show ?thesis
    by (rule flow_inv_leave [OF assms(2) s_CallbackPanic(2) _ s_CallbackPanic(3)])
       (use flow_inv_finite [OF assms(2)] in \<open>auto simp: s_CallbackPanic(1) pausers_set_call\<close>)
next
  case (s_Receive c f t res rest e' h')
  show ?thesis
    by (rule flow_inv_leave [OF assms(2) s_Receive(2) _ s_Receive(4)])
       (use flow_inv_finite [OF assms(2)] in \<open>auto simp: s_Receive(1) pausers_set_call\<close>)
next
  case (s_Resolve_unknown t e')
  then have "e' = y_engine y" by (auto simp: resolve_claim_def split: option.splits)
  with s_Resolve_unknown assms(2) show ?thesis by simp
next
  case (s_Resolve t c e' res)
  show ?thesis
    by (rule flow_inv_same [OF assms(2)])
       (use s_Resolve flow_inv_finite [OF assms(2)] in \<open>auto simp: resolve_claim_def split: option.splits\<close>)
qed (rule flow_inv_same [OF assms(2)];
      simp add: pausers_set_call pausers_iff pausers_new flow_inv_finite [OF assms(2)] insert_absorb)+

lemma reachable_inv: "reachable E h y \<Longrightarrow> sys_inv y"
proof (induction rule: reachable.induct)
  case r_init
  show ?case by (simp add: sys_init_def sys_inv_def pending_ok_def NewEngine_def sends_to_def)
qed (rule sys_inv_step)

lemma reachable_flow_inv:
  assumes "reachable E h y" and "\<forall>f. f_Status (h f) \<noteq> StatusPending"
  shows "flow_inv y"
  using assms(1)
proof (induction rule: reachable.induct)
  case r_init
  show ?case
    using assms(2)
    by (simp add: sys_init_def flow_inv_def count_ok_def status_ok_def pausers_def NewEngine_def)
qed (rule flow_inv_step)

text \<open>
  C2: at every moment of every interleaving, a paused message is owed exactly one resolution:
  its token is still pending, or one resolver has claimed it, or the resolution is already in its
  channel, never two of these; so a resolver never blocks sending to the channel of a pause, and
  \<^verbatim>\<open>Resolve\<close> answers true at most once for it.
\<close>

theorem one_resolution_per_pause:
  assumes "reachable E h y"
  shows "(y_calls y c = Some (Registered f t) \<or> y_calls y c = Some (Waiting f t) \<longrightarrow>
      (if e_pending (y_engine y) t = Some c then 1 else 0)
      + count_list (map fst (y_sends y)) c + length (y_chans y c) = 1)
    \<and> ((c, res) \<in> set (y_sends y) \<longrightarrow> y_chans y c = [])"
proof -
  note inv = reachable_inv [OF assms]
  have "sends_to y c \<le> 1"
    using sys_invD(1) [OF inv refl, of c] by (cases "y_calls y c" rule: option.exhaust)
      (auto simp: owed_def split: if_splits elim: call_ok.elims)
  moreover have "0 < count_list (map fst (y_sends y)) c" if "(c, res) \<in> set (y_sends y)"
    using that by (metis count_list_0_iff fst_conv gr0I image_eqI set_map)
  ultimately have "(c, res) \<in> set (y_sends y) \<longrightarrow> y_chans y c = []"
    by (cases "y_chans y c") (auto simp: sends_to_def)
  then show ?thesis
    using sys_invD(1) [OF inv refl, of c] by (auto simp: owed_def sends_to_def)
qed


section \<open>Release\<close>

lemma waiting_leaves:
  assumes "step E y y'" and "y_calls y c = Some (Waiting f t)" and "y_calls y' c \<noteq> Some (Waiting f t)"
  shows "\<exists>res rest. y_chans y c = res # rest \<and> y_calls y' c = Some (Returned (pause_result res))"
  using assms by cases (auto split: if_splits)

lemma pending_pause_released:
  fixes y :: "('re, 'inj) sys"
  assumes "reachable E h y" and "y_calls y c = Some (Waiting f t)" and "e_pending (y_engine y) t = Some c"
  shows "\<exists>y'. (step E)\<^sup>*\<^sup>* y y' \<and> y_calls y' c = Some (Returned (pause_result res)) \<and> e_pending (y_engine y') t = None"
proof -
  have "owed y c t = 1" using sys_invD(1) [OF reachable_inv [OF assms(1)] assms(2)] by simp
  then have empty: "y_chans y c = []" by (simp add: owed_def assms(3) sends_to_def)
  define e1 where "e1 = (y_engine y)\<lparr>e_pending := (e_pending (y_engine y))(t := None)\<rparr>"
  define y1 where "y1 = y\<lparr>y_engine := e1, y_sends := (c, res) # y_sends y\<rparr>"
  have "resolve_claim t (y_engine y) = (Some c, e1)"
    by (simp add: resolve_claim_def assms(3) e1_def)
  then have s1: "step E y y1" unfolding y1_def by (rule s_Resolve)
  define y2 where "y2 = y1\<lparr>y_sends := y_sends y, y_chans := (y_chans y)(c := [res])\<rparr>"
  have s2: "step E y1 y2"
    using s_Send [of y1 "[]" c res "y_sends y" E] by (simp add: y1_def y2_def empty)
  obtain e3 h3 where cl: "pause_cleanup c t f (y_engine y2, y_heap y2) = (e3, h3)" by fastforce
  define y3 where "y3 = set_call c (Returned (pause_result res))
      (y2\<lparr>y_engine := e3, y_heap := h3, y_chans := (y_chans y2)(c := [])\<rparr>)"
  have "step E y2 y3"
    unfolding y3_def by (rule s_Receive [OF _ _ cl]) (simp_all add: y2_def y1_def assms(2))
  with s1 s2 have "(step E)\<^sup>*\<^sup>* y y3" by (meson converse_rtranclp_into_rtranclp rtranclp.rtrancl_refl)
  moreover have "e_pending e3 t = None"
    using cleanup_pending [OF cl] by (simp add: y2_def y1_def e1_def)
  ultimately show ?thesis by (intro exI [of _ y3]) (simp add: y3_def)
qed

text \<open>
  C1: a paused message can always be released, with the user's decision: from any reachable
  state in which it waits, resolving its token lets the call return that decision (the edited
  bytes, the original, or a drop), whatever else is paused; and it never returns by itself,
  only with a resolution taken from its own channel.
\<close>

theorem paused_message_released_by_its_resolution:
  fixes res :: resolution
  assumes "reachable E h y" and "y_calls y c = Some (Waiting f t)"
  shows "(e_pending (y_engine y) t = Some c \<longrightarrow> (\<exists>y'. (step E)\<^sup>*\<^sup>* y y' \<and>
      y_calls y' c = Some (Returned (if rs_Decision res = Drop then (None, True) else (rs_EditedBody res, False))) \<and>
      e_pending (y_engine y') t = None))
    \<and> (step E y y'' \<longrightarrow> y_calls y'' c \<noteq> Some (Waiting f t) \<longrightarrow>
      (\<exists>r \<in> set (y_chans y c). y_calls y'' c = Some (Returned (pause_result r))))"
proof (intro conjI impI)
  assume "e_pending (y_engine y) t = Some c"
  from pending_pause_released [OF assms this, of res]
  show "\<exists>y'. (step E)\<^sup>*\<^sup>* y y' \<and>
      y_calls y' c = Some (Returned (if rs_Decision res = Drop then (None, True) else (rs_EditedBody res, False))) \<and>
      e_pending (y_engine y') t = None"
    by (simp add: pause_result_def)
next
  assume "step E y y''" "y_calls y'' c \<noteq> Some (Waiting f t)"
  from waiting_leaves [OF this(1) assms(2) this(2)]
  show "\<exists>r \<in> set (y_chans y c). y_calls y'' c = Some (Returned (pause_result r))" by auto
qed

section \<open>Witnesses\<close>

definition demo_scope :: "unit scope_set" where
  "demo_scope = \<lparr>s_Rules = [], s_Default = Include, s_LastMatchWins = False\<rparr>"

definition demo_on :: "(unit, unit) sys" where
  "demo_on = (sys_init demo_heap)\<lparr>y_engine := SetEnabled True (SetScope (Some demo_scope) NewEngine)\<rparr>"

definition demo_waiting :: "(unit, unit) sys" where
  "demo_waiting = set_call 0 (Waiting 7 1) (demo_on
     \<lparr>y_engine := (y_engine demo_on)\<lparr>e_nextPauseToken := 1, e_pending := [1 \<mapsto> 0], e_pausedByFlow := [7 \<mapsto> 1]\<rparr>,
      y_heap := demo_heap(7 := (demo_heap 7)\<lparr>f_Status := StatusPending\<rparr>)\<rparr>)"

lemma demo_waiting_reachable: "reachable no_engine demo_heap demo_waiting"
proof -
  define y1 :: "(unit, unit) sys" where "y1 = (sys_init demo_heap)\<lparr>y_engine := SetScope (Some demo_scope) NewEngine\<rparr>"
  have "step no_engine (sys_init demo_heap) y1"
    using s_SetScope [where y = "sys_init demo_heap" and sc = "Some demo_scope" and E = no_engine]
    by (simp add: y1_def sys_init_def)
  then have 1: "reachable no_engine demo_heap y1" by (rule r_step [OF r_init])
  have "step no_engine y1 demo_on"
    using s_SetEnabled [where y = y1 and on = True and E = no_engine] by (simp add: y1_def demo_on_def)
  with 1 have 2: "reachable no_engine demo_heap demo_on" by (rule r_step)
  have "step no_engine demo_on (set_call 0 (Entered 7 True) demo_on)"
    using s_BeforeForward [where y = demo_on and c = 0 and f = 7 and E = no_engine]
    by (simp add: demo_on_def sys_init_def Enabled_def SetEnabled_def)
  with 2 have 3: "reachable no_engine demo_heap (set_call 0 (Entered 7 True) demo_on)" by (rule r_step)
  have "step no_engine (set_call 0 (Entered 7 True) demo_on) (set_call 0 (Admitted 7) demo_on)"
    using s_Admit [where y = "set_call 0 (Entered 7 True) demo_on" and c = 0 and f = 7 and on = True and E = no_engine]
    by (simp add: set_call_def inScopeAnd_def demo_on_def SetEnabled_def SetScope_def demo_scope_def InScope_def Eval_def)
  with 3 have 4: "reachable no_engine demo_heap (set_call 0 (Admitted 7) demo_on)" by (rule r_step)
  have "find_token (\<lambda>_. None) 0 = Some 1" by (subst find_token.simps) simp
  then have reg: "pause_register 0 7 (y_engine demo_on, y_heap demo_on) = Some (1, y_engine demo_waiting, y_heap demo_waiting)"
    by (simp add: pause_register_def demo_waiting_def demo_on_def sys_init_def SetEnabled_def SetScope_def NewEngine_def)
  define y5 where "y5 = set_call 0 (Registered 7 1) (demo_on\<lparr>y_engine := y_engine demo_waiting, y_heap := y_heap demo_waiting\<rparr>)"
  have "step no_engine (set_call 0 (Admitted 7) demo_on) y5"
    using s_Register [where y = "set_call 0 (Admitted 7) demo_on" and c = 0 and f = 7 and E = no_engine] reg
    by (simp add: set_call_def y5_def)
  with 4 have 5: "reachable no_engine demo_heap y5" by (rule r_step)
  have "step no_engine y5 demo_waiting"
    using s_Notify [where y = y5 and c = 0 and f = 7 and t = 1 and E = no_engine]
    by (simp add: set_call_def y5_def demo_waiting_def demo_on_def SetEnabled_def SetScope_def NewEngine_def)
  with 5 show ?thesis by (rule r_step)
qed

lemma demo_waiting_call: "y_calls demo_waiting 0 = Some (Waiting 7 1)" "e_pending (y_engine demo_waiting) 1 = Some 0"
  by (simp_all add: demo_waiting_def)

theorem pause_register_terminates_witness:
  "\<exists>t e' h'. pause_register 3 7 (y_engine demo_waiting, y_heap demo_waiting) = Some (t, e', h') \<and> t \<noteq> 0"
  using pause_register_terminates [of "y_engine demo_waiting" 3 7 "y_heap demo_waiting"]
  by (auto simp: demo_waiting_def)

theorem one_resolution_per_pause_witness:
  "count_list (map fst (y_sends demo_waiting)) 0 + length (y_chans demo_waiting 0) = 0"
  using one_resolution_per_pause [OF demo_waiting_reachable, of 0 7 1] demo_waiting_call by simp


theorem paused_message_released_by_its_resolution_witness:
  "\<exists>y'. (step no_engine)\<^sup>*\<^sup>* demo_waiting y' \<and> y_calls y' 0 = Some (Returned (Some [65], False))"
  using paused_message_released_by_its_resolution [OF demo_waiting_reachable demo_waiting_call(1),
      of "\<lparr>rs_Decision = Forward, rs_EditedBody = Some [65]\<rparr>"] demo_waiting_call by auto

end
