(* ===== verification/GoIO.thy ===== *)
theory GoIO
  imports Prelude
begin

text \<open>
  Reading from a stream and the big-endian integers of \<^verbatim>\<open>encoding/binary\<close>. A stream that a
  connection has delivered is the list of its bytes, after which it ends; the readers return
  what they took and what is left, or the error. The locale \<open>frame_codec\<close> is the interface of a
  self-delimiting frame format, with the loop that decodes a whole stream.
\<close>

datatype io_error = EOF | UnexpectedEOF

fun read_byte :: "bytes \<Rightarrow> io_error + byte \<times> bytes" where
  "read_byte [] = Inl EOF"
| "read_byte (b # bs) = Inr (b, bs)"

text \<open>\<^verbatim>\<open>io.ReadFull\<close> of a buffer of n bytes.\<close>

definition read_full :: "nat \<Rightarrow> bytes \<Rightarrow> io_error + bytes \<times> bytes" where
  "read_full n s = (if n \<le> length s then Inr (take n s, drop n s)
     else Inl (if s = [] then EOF else UnexpectedEOF))"

text \<open>\<^verbatim>\<open>ReadString\<close>: the bytes up to and with the delimiter; \<^verbatim>\<open>None\<close> if the stream ends first.\<close>

fun read_until :: "byte \<Rightarrow> bytes \<Rightarrow> (bytes \<times> bytes) option" where
  "read_until d [] = None"
| "read_until d (b # bs) = (if b = d then Some ([b], bs)
     else map_option (\<lambda>(l, r). (b # l, r)) (read_until d bs))"

fun be_val :: "bytes \<Rightarrow> nat" where
  "be_val [] = 0"
| "be_val (b # bs) = unat b * 256 ^ length bs + be_val bs"

fun be_bytes :: "nat \<Rightarrow> nat \<Rightarrow> bytes" where
  "be_bytes 0 v = []"
| "be_bytes (Suc k) v = word_of_nat (v div 256 ^ k) # be_bytes k v"

lemma length_be_bytes [simp]: "length (be_bytes k v) = k"
  by (induction k) auto

lemma be_bytes_numeral:
  "be_bytes (numeral k) v = word_of_nat (v div 256 ^ pred_numeral k) # be_bytes (pred_numeral k) v"
  by (simp add: numeral_eq_Suc)

lemma unat_byte_of_nat: "unat (word_of_nat n :: byte) = n mod 256"
  by (simp add: unat_of_nat)

lemma unat_byte_less: "unat (b :: byte) < 256"
  by (rule less_le_trans [OF unsigned_less]) simp

lemma be_val_be_bytes: "be_val (be_bytes k v) = v mod 256 ^ k"
proof (induction k)
  case 0
  show ?case by simp
next
  case (Suc k)
  have "v mod (256 ^ k * 256) = 256 ^ k * (v div 256 ^ k mod 256) + v mod 256 ^ k"
    by (rule mod_mult2_eq)
  with Suc show ?case
    by (simp add: unat_byte_of_nat mult.commute)
qed

lemma be_val_bound: "be_val b < 256 ^ length b"
proof (induction b)
  case Nil
  show ?case by simp
next
  case (Cons x b)
  have "unat x * 256 ^ length b + be_val b < unat x * 256 ^ length b + 256 ^ length b"
    using Cons by simp
  also have "\<dots> = (unat x + 1) * 256 ^ length b" by (simp add: algebra_simps)
  also have "\<dots> \<le> 256 * 256 ^ length b"
    using unat_byte_less [of x] by (intro mult_right_mono) simp_all
  finally show ?case by simp
qed

lemma read_full_app [simp]: "read_full (length a) (a @ b) = Inr (a, b)"
  by (simp add: read_full_def)

lemma read_full_Inr: "read_full n s = Inr (a, r) \<longleftrightarrow> s = a @ r \<and> length a = n"
  by (auto simp: read_full_def split: if_splits)

lemma read_byte_Inr: "read_byte s = Inr (b, r) \<longleftrightarrow> s = b # r"
  by (cases s) auto

lemma read_until_Some: "read_until d s = Some (l, r) \<Longrightarrow> s = l @ r \<and> l \<noteq> [] \<and> last l = d \<and> d \<notin> set (butlast l)"
  by (induction s arbitrary: l) (auto split: if_splits)

lemma read_until_app: "d \<notin> set l \<Longrightarrow> read_until d (l @ d # r) = Some (l @ [d], r)"
  by (induction l) auto

section \<open>Self-delimiting frames\<close>

text \<open>Decoding frame after frame until the stream is used up.\<close>

function decode_all :: "(bytes \<Rightarrow> 'e + 'f \<times> bytes) \<Rightarrow> bytes \<Rightarrow> 'e + 'f list" where
  "decode_all d s =
     (if s = [] then Inr []
      else case d s of
          Inl e \<Rightarrow> Inl e
        | Inr (f, rest) \<Rightarrow>
            if length rest < length s then rbind (decode_all d rest) (\<lambda>fs. Inr (f # fs)) else Inr [f])"
  by pat_completeness auto
termination
  by (relation "measure (\<lambda>(d, s). length s)") auto

declare decode_all.simps [simp del]

locale frame_codec =
  fixes encode :: "'f \<Rightarrow> bytes"
    and decode :: "bytes \<Rightarrow> 'e + 'f \<times> bytes"
    and ok :: "'f \<Rightarrow> bool"
  assumes decode_encode: "ok f \<Longrightarrow> decode (encode f @ rest) = Inr (f, rest)"
    and decode_shrinks: "decode s = Inr (f, rest) \<Longrightarrow> length rest < length s"
    and decode_ok: "decode s = Inr (f, rest) \<Longrightarrow> ok f"
begin

lemma encode_not_Nil: "ok f \<Longrightarrow> encode f \<noteq> []"
  using decode_shrinks [OF decode_encode, of f "[]"] by auto

lemma decode_all_encode: "\<forall>f \<in> set fs. ok f \<Longrightarrow> decode_all decode (concat (map encode fs)) = Inr fs"
proof (induction fs)
  case Nil
  show ?case by (simp add: decode_all.simps)
next
  case (Cons f fs)
  then have ok: "ok f" and ih: "decode_all decode (concat (map encode fs)) = Inr fs" by simp_all
  have d: "decode (encode f @ concat (map encode fs)) = Inr (f, concat (map encode fs))"
    using ok by (rule decode_encode)
  show ?case using encode_not_Nil [OF ok] by (subst decode_all.simps) (simp add: d ih)
qed

lemma encode_stream_inject:
  assumes "\<forall>f \<in> set fs. ok f" and "\<forall>f \<in> set gs. ok f"
    and "concat (map encode fs) = concat (map encode gs)"
  shows "fs = gs"
proof -
  have "decode_all decode (concat (map encode gs)) = Inr fs"
    using decode_all_encode [OF assms(1)] by (simp only: assms(3))
  with decode_all_encode [OF assms(2)] show ?thesis by (simp only: sum.inject)
qed

lemma reencode: "decode s = Inr (f, rest) \<Longrightarrow> decode (encode f @ rest) = Inr (f, rest)"
  by (rule decode_encode [OF decode_ok])

end

end
