(* ===== verification/WsFrame.thy ===== *)
theory WsFrame
  imports GoIO
begin

text \<open>
  \<^verbatim>\<open>internal/protocol/wsframe.go\<close>: the WebSocket frame codec, on the bytes a peer sends. The
  64-bit length goes through Go's \<^verbatim>\<open>int\<close> and \<^verbatim>\<open>make\<close>, which panics on a negative length and on
  one past the largest allocation (2^48 bytes on the 64-bit platforms), whatever the stream
  holds: that outcome is \<open>WsPanic\<close>.
\<close>

record ws_frame =
  w_Fin :: bool
  w_Opcode :: byte
  w_Masked :: bool
  w_MaskKey :: bytes
  w_Payload :: bytes

datatype ws_error = WsIO io_error | WsPanic

definition opContinuation :: byte where "opContinuation = 0"
definition opText :: byte where "opText = 1"
definition opBinary :: byte where "opBinary = 2"
definition opClose :: byte where "opClose = 8"
definition opPing :: byte where "opPing = 9"
definition opPong :: byte where "opPong = 10"

lemmas ws_op_defs = opContinuation_def opText_def opBinary_def opClose_def opPing_def opPong_def

definition max_alloc :: int where "max_alloc = 2 ^ 48"

definition wsMask :: "bytes \<Rightarrow> bytes \<Rightarrow> bytes" where
  "wsMask p key = map (\<lambda>i. xor (p ! i) (key ! (i mod 4))) [0..<length p]"

fun lift_io :: "io_error + 'a \<Rightarrow> ws_error + 'a" where
  "lift_io (Inl e) = Inl (WsIO e)"
| "lift_io (Inr a) = Inr a"

definition read_ws_length :: "nat \<Rightarrow> bytes \<Rightarrow> ws_error + int \<times> bytes" where
  "read_ws_length len r =
     (if len = 126 then rbind (lift_io (read_full 2 r)) (\<lambda>(ext, r'). Inr (int (be_val ext), r'))
      else if len = 127 then rbind (lift_io (read_full 8 r)) (\<lambda>(ext, r'). Inr (int_of_u64 (word_of_nat (be_val ext)), r'))
      else Inr (int len, r))"

definition readWSFrame :: "bytes \<Rightarrow> ws_error + ws_frame \<times> bytes" where
  "readWSFrame r0 =
     rbind (lift_io (read_byte r0)) (\<lambda>(b0, r1).
     rbind (lift_io (read_byte r1)) (\<lambda>(b1, r2).
     let masked = (and b1 0x80 \<noteq> 0) in
     rbind (read_ws_length (unat (and b1 0x7F)) r2) (\<lambda>(len, r3).
     rbind (if masked then lift_io (read_full 4 r3) else Inr ([0, 0, 0, 0], r3)) (\<lambda>(key, r4).
     if len < 0 \<or> len > max_alloc then Inl WsPanic
     else
     rbind (lift_io (read_full (nat len) r4)) (\<lambda>(payload, r5).
       Inr (\<lparr>w_Fin = (and b0 0x80 \<noteq> 0), w_Opcode = and b0 0x0F, w_Masked = masked, w_MaskKey = key,
             w_Payload = (if masked then wsMask payload key else payload)\<rparr>, r5))))))"

definition ws_length_head :: "byte \<Rightarrow> nat \<Rightarrow> bytes" where
  "ws_length_head maskBit n =
     (if n < 126 then [or maskBit (word_of_nat n)]
      else if n < 65536 then or maskBit 126 # be_bytes 2 n
      else or maskBit 127 # be_bytes 8 n)"

definition ws_encode :: "ws_frame \<Rightarrow> bytes" where
  "ws_encode fr =
     (let n = length (w_Payload fr);
          b0 = (if w_Fin fr then or (w_Opcode fr) 0x80 else w_Opcode fr);
          maskBit = (if w_Masked fr then 0x80 else 0) :: byte;
          head = ws_length_head maskBit n
      in if w_Masked fr then [b0] @ head @ w_MaskKey fr @ wsMask (w_Payload fr) (w_MaskKey fr)
         else [b0] @ head @ w_Payload fr)"

definition isWSData :: "byte \<Rightarrow> bool" where
  "isWSData op \<longleftrightarrow> op = opContinuation \<or> op = opText \<or> op = opBinary"

definition wsOpcodeName :: "byte \<Rightarrow> string" where
  "wsOpcodeName op =
     (if op = opContinuation then ''continuation'' else if op = opText then ''text''
      else if op = opBinary then ''binary'' else if op = opClose then ''close''
      else if op = opPing then ''ping'' else if op = opPong then ''pong'' else ''?'')"

section \<open>Round trips\<close>

text \<open>The frames \<^verbatim>\<open>readWSFrame\<close> can return.\<close>

definition ws_ok :: "ws_frame \<Rightarrow> bool" where
  "ws_ok fr \<longleftrightarrow> unat (w_Opcode fr) < 16 \<and> length (w_MaskKey fr) = 4
     \<and> (\<not> w_Masked fr \<longrightarrow> w_MaskKey fr = [0, 0, 0, 0]) \<and> int (length (w_Payload fr)) \<le> max_alloc"

lemma length_wsMask [simp]: "length (wsMask p key) = length p"
  by (simp add: wsMask_def)

lemma wsMask_involution [simp]: "wsMask (wsMask p key) key = p"
  by (rule nth_equalityI) (auto simp: wsMask_def xor.assoc)

lemma byte_all: "(\<forall>b :: byte. P b) \<longleftrightarrow> (\<forall>n \<in> set [0..<256]. P (word_of_nat n))"
proof
  assume all: "\<forall>n \<in> set [0..<256]. P (word_of_nat n)"
  show "\<forall>b :: byte. P b"
  proof
    fix b :: byte
    have "unat b \<in> set [0..<256]" using unat_byte_less [of b] by simp
    with all have "P (word_of_nat (unat b))" by blast
    then show "P b" by simp
  qed
qed simp

lemma low_byte_all: "(\<forall>b :: byte. unat b < k \<longrightarrow> P b) \<longleftrightarrow> (\<forall>n \<in> set [0..<min k 256]. P (word_of_nat n))"
  unfolding byte_all by (auto simp: unat_byte_of_nat)

lemma opcode_bits:
  fixes b :: byte
  assumes "unat b < 16"
  shows "and (or b 0x80) 0x0F = b \<and> and b 0x0F = b \<and> and b 0x80 = 0 \<and> and (or b 0x80) 0x80 \<noteq> 0"
proof -
  have "\<forall>b :: byte. unat b < 16 \<longrightarrow> and (or b 0x80) 0x0F = b \<and> and b 0x0F = b \<and> and b 0x80 = 0 \<and> and (or b 0x80) 0x80 \<noteq> 0"
    unfolding low_byte_all by code_simp
  with assms show ?thesis by blast
qed

lemma length_bits:
  fixes b :: byte
  assumes "unat b < 128"
  shows "and (or 0x80 b) 0x7F = b \<and> and b 0x7F = b \<and> and b 0x80 = 0 \<and> and (or 0x80 b) 0x80 \<noteq> 0"
proof -
  have "\<forall>b :: byte. unat b < 128 \<longrightarrow> and (or 0x80 b) 0x7F = b \<and> and b 0x7F = b \<and> and b 0x80 = 0 \<and> and (or 0x80 b) 0x80 \<noteq> 0"
    unfolding low_byte_all by code_simp
  with assms show ?thesis by blast
qed

lemma and_low: "unat (and (b :: byte) 0x0F) < 16"
  using word_and_le1 [of b "0x0F"] by (simp add: word_le_nat_alt)

lemma and_low7: "unat (and (b :: byte) 0x7F) < 128"
  using word_and_le1 [of b "0x7F"] by (simp add: word_le_nat_alt)

lemma int_of_u64_small: "n < 2 ^ 63 \<Longrightarrow> int_of_u64 (word_of_nat n) = int n"
  using wrap_int_small [of "int n"] by (simp add: int_of_u64_def wrap_int_def)

lemma ws_length_head_read:
  assumes "int n \<le> max_alloc"
  shows "\<exists>b ext. ws_length_head (if m then 0x80 else 0) n = b # ext \<and> (and b 0x80 \<noteq> 0) = m
     \<and> read_ws_length (unat (and b 0x7F)) (ext @ r) = Inr (int n, r)"
proof -
  have n63: "n < 2 ^ 63" using assms by (simp add: max_alloc_def)
  have bits: "(and (or (if m then 0x80 else 0) c) 0x80 \<noteq> 0) = m \<and> and (or (if m then 0x80 else 0) c) 0x7F = c"
    if "unat c < 128" for c :: byte
    using length_bits [OF that] by auto
  consider "n < 126" | "126 \<le> n" "n < 65536" | "65536 \<le> n" by linarith
  then show ?thesis
  proof cases
    case 1
    then have "unat (word_of_nat n :: byte) = n" by (simp add: unat_byte_of_nat)
    with 1 bits [of "word_of_nat n"] show ?thesis by (simp add: ws_length_head_def read_ws_length_def)
  next
    case 2
    have "read_full 2 (be_bytes 2 n @ r) = Inr (be_bytes 2 n, r)"
      using read_full_app [of "be_bytes 2 n" r] by simp
    with 2 bits [of 126] show ?thesis
      by (simp add: ws_length_head_def read_ws_length_def be_val_be_bytes)
  next
    case 3
    have "read_full 8 (be_bytes 8 n @ r) = Inr (be_bytes 8 n, r)"
      using read_full_app [of "be_bytes 8 n" r] by simp
    with 3 bits [of 127] n63 show ?thesis
      by (simp add: ws_length_head_def read_ws_length_def be_val_be_bytes int_of_u64_small)
  qed
qed

lemma readWSFrame_encode:
  assumes "ws_ok fr"
  shows "readWSFrame (ws_encode fr @ rest) = Inr (fr, rest)"
proof -
  let ?n = "length (w_Payload fr)" and ?mb = "if w_Masked fr then 0x80 else 0 :: byte"
  let ?b0 = "if w_Fin fr then or (w_Opcode fr) 0x80 else w_Opcode fr"
  note op = opcode_bits [of "w_Opcode fr"]
  have ok: "unat (w_Opcode fr) < 16" "length (w_MaskKey fr) = 4" "int ?n \<le> max_alloc"
    "\<not> w_Masked fr \<Longrightarrow> w_MaskKey fr = [0, 0, 0, 0]"
    using assms by (auto simp: ws_ok_def)
  define tail where "tail = (if w_Masked fr then w_MaskKey fr @ wsMask (w_Payload fr) (w_MaskKey fr) else w_Payload fr) @ rest"
  obtain b ext where b: "ws_length_head ?mb ?n = b # ext" "(and b 0x80 \<noteq> 0) = w_Masked fr"
      "read_ws_length (unat (and b 0x7F)) (ext @ tail) = Inr (int ?n, tail)"
    using ws_length_head_read [OF ok(3), of "w_Masked fr" tail] by blast
  have enc: "ws_encode fr @ rest = ?b0 # b # ext @ tail"
    using b(1) by (simp add: ws_encode_def tail_def)
  have key: "(if w_Masked fr then lift_io (read_full 4 tail) else Inr ([0, 0, 0, 0], tail))
      = Inr (w_MaskKey fr, (if w_Masked fr then wsMask (w_Payload fr) (w_MaskKey fr) else w_Payload fr) @ rest)"
    using ok(2,4) read_full_app [of "w_MaskKey fr"] by (auto simp: tail_def)
  have pay: "read_full ?n ((if w_Masked fr then wsMask (w_Payload fr) (w_MaskKey fr) else w_Payload fr) @ rest)
      = Inr (if w_Masked fr then wsMask (w_Payload fr) (w_MaskKey fr) else w_Payload fr, rest)"
    by (simp add: read_full_def)
  have b0: "(and ?b0 0x80 \<noteq> 0) = w_Fin fr" "and ?b0 0x0F = w_Opcode fr"
    using op ok(1) by auto
  show ?thesis
    unfolding enc readWSFrame_def
    using b(2) b0 ok(3)
    by (simp add: b(3) key pay) (cases fr, cases "w_Masked fr", simp_all add: Let_def)
qed

lemma lift_io_Inr [simp]: "lift_io r = Inr a \<longleftrightarrow> r = Inr a"
  by (cases r) auto

lemma lift_io_not_panic [simp]: "lift_io r \<noteq> Inl WsPanic"
  by (cases r) auto

lemma read_ws_length_shrinks: "read_ws_length l r = Inr (n, r') \<Longrightarrow> length r' \<le> length r"
  by (auto simp: read_ws_length_def rbind_eq_Inr read_full_Inr split: if_splits)

lemma readWSFrame_shrinks: "readWSFrame s = Inr (fr, rest) \<Longrightarrow> length rest < length s"
  by (auto simp: readWSFrame_def Let_def rbind_eq_Inr read_full_Inr read_byte_Inr
      split: if_splits dest!: read_ws_length_shrinks)

lemma readWSFrame_ok: "readWSFrame s = Inr (fr, rest) \<Longrightarrow> ws_ok fr"
  by (auto simp: readWSFrame_def Let_def rbind_eq_Inr read_full_Inr ws_ok_def and_low
      split: if_splits)

interpretation ws: frame_codec ws_encode readWSFrame ws_ok
  by unfold_locales (simp_all add: readWSFrame_encode readWSFrame_shrinks readWSFrame_ok)

text \<open>
  C21: the codec loses nothing. A stream of frames written with \<^verbatim>\<open>encode\<close> (any opcode,
  masked or not, payloads on both sides of the 126 and 65536 byte limits) is read back as
  the same frames; and a frame that was read, whatever length form or reserved bits the peer
  used, is re-encoded to bytes that read back as the same frame.
\<close>

theorem ws_stream_round_trip:
  assumes "\<forall>fr \<in> set frs. ws_ok fr"
  shows "decode_all readWSFrame (concat (map ws_encode frs)) = Inr frs
    \<and> (\<forall>s fr rest. readWSFrame s = Inr (fr, rest) \<longrightarrow> readWSFrame (ws_encode fr @ rest) = Inr (fr, rest))"
  using ws.decode_all_encode [OF assms] ws.reencode by blast

theorem ws_stream_round_trip_witness:
  "decode_all readWSFrame (concat (map ws_encode
      [\<lparr>w_Fin = True, w_Opcode = 1, w_Masked = True, w_MaskKey = [1, 2, 3, 4], w_Payload = [72, 105]\<rparr>,
       \<lparr>w_Fin = True, w_Opcode = 8, w_Masked = False, w_MaskKey = [0, 0, 0, 0], w_Payload = []\<rparr>]))
    = Inr [\<lparr>w_Fin = True, w_Opcode = 1, w_Masked = True, w_MaskKey = [1, 2, 3, 4], w_Payload = [72, 105]\<rparr>,
       \<lparr>w_Fin = True, w_Opcode = 8, w_Masked = False, w_MaskKey = [0, 0, 0, 0], w_Payload = []\<rparr>]"
  by (rule ws_stream_round_trip [THEN conjunct1]) (simp add: ws_ok_def max_alloc_def)

section \<open>The 64-bit length\<close>

lemma int_of_u64_range:
  assumes "v < 2 ^ 64"
  shows "(int_of_u64 (word_of_nat v) < 0 \<or> int_of_u64 (word_of_nat v) > max_alloc) \<longleftrightarrow> 2 ^ 48 < v"
proof (cases "v < 2 ^ 63")
  case True
  then show ?thesis by (simp add: int_of_u64_small max_alloc_def)
next
  case False
  have "(word_of_int (int v) :: 64 word) = word_of_int (int v - 2 ^ 64)"
    unfolding word_of_int_eq_iff take_bit_eq_mod by (simp add: minus_mod_self2)
  then have "int_of_u64 (word_of_nat v) = wrap_int (int v - 2 ^ 64)"
    by (simp only: int_of_u64_def wrap_int_def of_int_of_nat_eq)
  also have "\<dots> = int v - 2 ^ 64"
    using assms False by (intro wrap_int_small) auto
  finally have "int_of_u64 (word_of_nat v) = int v - 2 ^ 64" .
  with assms False show ?thesis by simp
qed

lemma read_ws_length_no_panic: "read_ws_length l r \<noteq> Inl WsPanic"
  by (auto simp: read_ws_length_def rbind_eq_Inl)

lemma read_ws_length_bound:
  assumes "read_ws_length l r = Inr (n, r')" "l \<noteq> 127" "l < 128"
  shows "0 \<le> n \<and> n \<le> max_alloc"
  using assms be_val_bound [of "take 2 r"]
  by (auto simp: read_ws_length_def rbind_eq_Inr read_full_def max_alloc_def split: if_splits)

lemma readWSFrame_panic_iff:
  "readWSFrame (b0 # b1 # rest) = Inl WsPanic \<longleftrightarrow>
    (\<exists>n r. read_ws_length (unat (and b1 0x7F)) rest = Inr (n, r) \<and> (n < 0 \<or> n > max_alloc)
       \<and> (and b1 0x80 \<noteq> 0 \<longrightarrow> 4 \<le> length r))"
proof (cases "read_ws_length (unat (and b1 0x7F)) rest")
  case (Inl e)
  with read_ws_length_no_panic [of "unat (and b1 0x7F)" rest] show ?thesis
    by (simp add: readWSFrame_def Let_def)
next
  case (Inr p)
  then obtain n r where p: "read_ws_length (unat (and b1 0x7F)) rest = Inr (n, r)" by (cases p) simp
  have nop: "rbind (lift_io (read_full k t)) (\<lambda>(payload, r5). Inr (g payload, r5)) \<noteq> Inl WsPanic"
    for k t and g :: "bytes \<Rightarrow> ws_frame"
    by (simp add: read_full_def)
  show ?thesis
  proof (cases "and b1 0x80 = 0")
    case True
    with nop [of "nat n" r] show ?thesis by (simp add: readWSFrame_def Let_def p)
  next
    case False
    then show ?thesis
    proof (cases "4 \<le> length r")
      case True
      then have "read_full 4 r = Inr (take 4 r, drop 4 r)" by (simp add: read_full_def)
      with True False nop [of "nat n" "drop 4 r"] show ?thesis by (simp add: readWSFrame_def Let_def p)
    next
      case short: False
      then have "read_full 4 r = Inl (if r = [] then EOF else UnexpectedEOF)" by (simp add: read_full_def)
      with short False show ?thesis by (simp add: readWSFrame_def Let_def p)
    qed
  qed
qed

text \<open>
  Ten bytes from a peer bring the process down. A frame whose 64-bit extended length is
  declared above 2^48 makes \<^verbatim>\<open>readWSFrame\<close> panic, with nothing of the payload sent; every
  other frame is read or ends in a read error, and a header of any other form never panics.
\<close>

lemma ws_length_panics:
  assumes "v < 2 ^ 64"
  shows "(readWSFrame ([b0, 0x7F] @ be_bytes 8 v @ rest) = Inl WsPanic \<longleftrightarrow> 2 ^ 48 < v) \<and>
    (unat (and b1 0x7F) \<noteq> 127 \<longrightarrow> readWSFrame (b0 # b1 # rest) \<noteq> Inl WsPanic)"
proof
  have "read_full 8 (be_bytes 8 v @ rest) = Inr (be_bytes 8 v, rest)"
    using read_full_app [of "be_bytes 8 v" rest] by simp
  moreover have "be_val (be_bytes 8 v) = v"
    using assms by (simp add: be_val_be_bytes)
  ultimately show "readWSFrame ([b0, 0x7F] @ be_bytes 8 v @ rest) = Inl WsPanic \<longleftrightarrow> 2 ^ 48 < v"
    using int_of_u64_range [OF assms] by (simp add: readWSFrame_panic_iff read_ws_length_def)
next
  show "unat (and b1 0x7F) \<noteq> 127 \<longrightarrow> readWSFrame (b0 # b1 # rest) \<noteq> Inl WsPanic"
    using read_ws_length_bound and_low7 by (fastforce simp: readWSFrame_panic_iff)
qed

lemma ws_length_panics_witness:
  "readWSFrame ([0x82, 0x7F] @ be_bytes 8 (2 ^ 64 - 1)) = Inl WsPanic
    \<and> readWSFrame ([0x82, 0x7F] @ be_bytes 8 3) \<noteq> Inl WsPanic"
  using ws_length_panics [where v = "2 ^ 64 - 1" and ?b0.0 = "0x82" and rest = "[]"] ws_length_panics [where v = 3 and ?b0.0 = "0x82" and rest = "[]"] by simp

end
