(* ===== verification/GoHttp.thy ===== *)
theory GoHttp
  imports Capture
begin

text \<open>
  \<^verbatim>\<open>net/http\<close> headers: \<^verbatim>\<open>http.Header\<close> is a map from canonical names to values, here an
  association list. \<^verbatim>\<open>Get\<close>, \<^verbatim>\<open>Values\<close>, \<^verbatim>\<open>Set\<close>, \<^verbatim>\<open>Add\<close> and \<^verbatim>\<open>Del\<close> canonicalise the name they are given, as
  \<^verbatim>\<open>textproto.CanonicalMIMEHeaderKey\<close> does: unchanged unless every byte is a token character.
\<close>

definition is_token_char :: "char \<Rightarrow> bool" where
  "is_token_char c \<longleftrightarrow> (let n = of_char c :: nat in
     48 \<le> n \<and> n \<le> 57 \<or> 65 \<le> n \<and> n \<le> 90 \<or> 97 \<le> n \<and> n \<le> 122
     \<or> n \<in> set [33, 35, 36, 37, 38, 39, 42, 43, 45, 46, 94, 95, 96, 124, 126])"

definition upper_char :: "char \<Rightarrow> char" where
  "upper_char c = (if 97 \<le> (of_char c :: nat) \<and> (of_char c :: nat) \<le> 122
     then char_of ((of_char c :: nat) - 32) else c)"

fun canon_from :: "bool \<Rightarrow> string \<Rightarrow> string" where
  "canon_from up [] = []"
| "canon_from up (c # s) = (if up then upper_char c else lower_char c) # canon_from (c = CHR ''-'') s"

definition canonical_key :: "string \<Rightarrow> string" where
  "canonical_key k = (if list_all is_token_char k then canon_from True k else k)"

definition hvalues :: "header \<Rightarrow> string \<Rightarrow> string list" where
  "hvalues h k = (case map_of h (canonical_key k) of None \<Rightarrow> [] | Some vs \<Rightarrow> vs)"

definition hget :: "header \<Rightarrow> string \<Rightarrow> string" where
  "hget h k = (case hvalues h k of [] \<Rightarrow> [] | v # _ \<Rightarrow> v)"

definition hset :: "header \<Rightarrow> string \<Rightarrow> string \<Rightarrow> header" where
  "hset h k v = gput h (canonical_key k) [v]"

definition hadd :: "header \<Rightarrow> string \<Rightarrow> string \<Rightarrow> header" where
  "hadd h k v = gput h (canonical_key k) (hvalues h k @ [v])"

definition hdel :: "header \<Rightarrow> string \<Rightarrow> header" where
  "hdel h k = gdel h (canonical_key k)"

lemma hvalues_hset [simp]: "hvalues (hset h k v) k' = (if canonical_key k' = canonical_key k then [v] else hvalues h k')"
  by (simp add: hvalues_def hset_def)

lemma hvalues_hadd [simp]:
  "hvalues (hadd h k v) k' = (if canonical_key k' = canonical_key k then hvalues h k @ [v] else hvalues h k')"
  by (simp add: hvalues_def hadd_def)

lemma hvalues_hdel [simp]: "hvalues (hdel h k) k' = (if canonical_key k' = canonical_key k then [] else hvalues h k')"
  by (simp add: hvalues_def hdel_def)

lemma hget_hset [simp]: "hget (hset h k v) k' = (if canonical_key k' = canonical_key k then v else hget h k')"
  by (simp add: hget_def)

lemma hget_Nil [simp]: "hget [] k = []" and hvalues_Nil [simp]: "hvalues [] k = []"
  by (simp_all add: hget_def hvalues_def)

text \<open>The names the program asks for are canonical.\<close>

lemma canonical_names [simp]:
  "canonical_key ''Content-Encoding'' = ''Content-Encoding''"
  "canonical_key ''Content-Length'' = ''Content-Length''"
  "canonical_key ''Transfer-Encoding'' = ''Transfer-Encoding''"
  "canonical_key ''Content-Type'' = ''Content-Type''"
  "canonical_key ''Connection'' = ''Connection''"
  "canonical_key ''Upgrade'' = ''Upgrade''"
  "canonical_key ''Grpc-Encoding'' = ''Grpc-Encoding''"
  "canonical_key ''Sec-WebSocket-Extensions'' = ''Sec-Websocket-Extensions''"
  by code_simp+

lemma of_char_lower [simp]: "of_char (lower_char c) =
    (if 65 \<le> (of_char c :: nat) \<and> (of_char c :: nat) \<le> 90 then of_char c + 32 else (of_char c :: nat))"
  by (simp add: lower_char_def)

lemma of_char_upper [simp]: "of_char (upper_char c) =
    (if 97 \<le> (of_char c :: nat) \<and> (of_char c :: nat) \<le> 122 then of_char c - 32 else (of_char c :: nat))"
  by (auto simp: upper_char_def)

lemma lower_upper_char: "lower_char (upper_char c) = lower_char c"
proof -
  have "(of_char (lower_char (upper_char c)) :: nat) = of_char (lower_char c)" by auto
  then show ?thesis by (simp only: of_char_eq_iff)
qed

lemma upper_lower_char: "upper_char (lower_char c) = upper_char c"
proof -
  have "(of_char (upper_char (lower_char c)) :: nat) = of_char (upper_char c)" by auto
  then show ?thesis by (simp only: of_char_eq_iff)
qed

lemma lower_lower_char [simp]: "lower_char (lower_char c) = lower_char c"
proof -
  have "(of_char (lower_char (lower_char c)) :: nat) = of_char (lower_char c)" by simp
  then show ?thesis by (simp only: of_char_eq_iff)
qed

end
