(* ===== verification/Protocols.thy ===== *)
theory Protocols
  imports GoHttp GoUtf8
begin

text \<open>
  \<^verbatim>\<open>internal/protocol/protocol.go\<close> and \<^verbatim>\<open>tcp.go\<close>: protocol detection and the raw TCP fallback
  that records and forwards opaque chunks. A connection's input is the list of chunks its
  reads deliver.
\<close>

section \<open>Detection\<close>

definition http1_methods :: "string list" where
  "http1_methods = [''GET '', ''POST '', ''PUT '', ''DELETE '', ''HEAD '', ''OPTIONS '', ''PATCH '', ''CONNECT '', ''TRACE '']"

definition HTTP1_Detect :: "bytes \<Rightarrow> bool" where
  "HTTP1_Detect peek \<longleftrightarrow> list_ex (\<lambda>m. prefix m (str_of peek)) http1_methods"

text \<open>The registry, in registration order; the fallback is raw TCP.\<close>

fun Detect :: "(string \<times> (bytes \<Rightarrow> bool)) list \<Rightarrow> bytes \<Rightarrow> string" where
  "Detect [] peek = ProtoRawTCP"
| "Detect ((name, d) # ps) peek = (if d peek then name else Detect ps peek)"

definition registry :: "(string \<times> (bytes \<Rightarrow> bool)) list" where
  "registry = [(ProtoHTTP1, HTTP1_Detect)]"

section \<open>Raw TCP\<close>

fun itoa_digits :: "nat \<Rightarrow> string \<Rightarrow> string" where
  "itoa_digits n acc = (if n = 0 then acc else itoa_digits (n div 10) (digit_char (n mod 10) # acc))"

declare itoa_digits.simps [simp del]

definition itoa :: "nat \<Rightarrow> string" where
  "itoa n = (if n = 0 then ''0'' else itoa_digits n [])"

definition humanBytes :: "nat \<Rightarrow> string" where
  "humanBytes n =
     (if n < 1024 then itoa n @ '' B''
      else if n < 1024 * 1024 then itoa (n div 1024) @ '' KB''
      else itoa (n div (1024 * 1024)) @ '' MB'')"

definition tcp_client_message :: "bytes \<Rightarrow> message" where
  "tcp_client_message chunk =
     \<lparr>m_Direction = ClientToServer, m_Summary = humanBytes (length chunk) @ '' '' @ direction_string ClientToServer,
      m_Headers = [], m_Body = chunk, m_Raw = chunk, m_Meta = []\<rparr>"

definition tcp_server_message :: "bytes \<Rightarrow> message" where
  "tcp_server_message chunk =
     \<lparr>m_Direction = ServerToClient, m_Summary = direction_string ServerToClient @ '' '' @ humanBytes (length chunk),
      m_Headers = [], m_Body = chunk, m_Raw = [], m_Meta = []\<rparr>"

text \<open>
  The state the two goroutines share and the peers they write to; a step is one read of one
  direction with what follows it. The tamper hook sees the flow with the message added.
\<close>

record tcp_state =
  tc_flow :: flow
  tc_to_server :: bytes
  tc_to_client :: bytes

definition tcp_from_client ::
    "(flow \<Rightarrow> message \<Rightarrow> bytes option \<times> bool) \<Rightarrow> bytes \<Rightarrow> tcp_state \<Rightarrow> tcp_state" where
  "tcp_from_client tamper chunk s =
     (if chunk = [] then s
      else
        (let msg = tcp_client_message chunk; f = AddMessage msg (tc_flow s); (out, drp) = tamper f msg
         in if drp then s\<lparr>tc_flow := f\<rparr>
            else s\<lparr>tc_flow := f, tc_to_server := tc_to_server s @ (case out of None \<Rightarrow> m_Body msg | Some b \<Rightarrow> b)\<rparr>))"

definition tcp_from_server :: "bytes \<Rightarrow> tcp_state \<Rightarrow> tcp_state" where
  "tcp_from_server chunk s =
     (if chunk = [] then s
      else s\<lparr>tc_flow := AddMessage (tcp_server_message chunk) (tc_flow s), tc_to_client := tc_to_client s @ chunk\<rparr>)"

text \<open>Reads of both directions in the order they happen.\<close>

fun tcp_run :: "(flow \<Rightarrow> message \<Rightarrow> bytes option \<times> bool) \<Rightarrow> (direction \<times> bytes) list \<Rightarrow> tcp_state \<Rightarrow> tcp_state" where
  "tcp_run tamper [] s = s"
| "tcp_run tamper ((ClientToServer, c) # ev) s = tcp_run tamper ev (tcp_from_client tamper c s)"
| "tcp_run tamper ((ServerToClient, c) # ev) s = tcp_run tamper ev (tcp_from_server c s)"

definition rawTCP_Handle ::
    "(flow \<Rightarrow> message \<Rightarrow> bytes option \<times> bool) \<Rightarrow> flow \<Rightarrow> (direction \<times> bytes) list \<Rightarrow> tcp_state" where
  "rawTCP_Handle tamper f ev =
     (let s = tcp_run tamper ev \<lparr>tc_flow = f\<lparr>f_Protocol := ProtoRawTCP\<rparr>, tc_to_server = [], tc_to_client = []\<rparr>
      in if f_Status (tc_flow s) = StatusActive then s\<lparr>tc_flow := (tc_flow s)\<lparr>f_Status := StatusComplete\<rparr>\<rparr> else s)"

section \<open>Properties\<close>

lemma itoa_digits_show: "0 < n \<Longrightarrow> itoa_digits n acc = show_nat n @ acc"
proof (induction n acc rule: itoa_digits.induct)
  case (1 n acc)
  show ?case
  proof (cases "n < 10")
    case True
    with 1 show ?thesis
      by (subst itoa_digits.simps, subst show_nat.simps) (simp add: itoa_digits.simps [of 0])
  next
    case False
    with 1 show ?thesis by (subst itoa_digits.simps, subst show_nat.simps) simp
  qed
qed

lemma digit_char_0: "digit_char 0 = CHR ''0''"
  by code_simp

lemma itoa_show: "itoa n = show_nat n"
  by (cases "n = 0") (simp_all add: itoa_def itoa_digits_show show_nat.simps [of 0] digit_char_0)

lemma Detect_HTTP1: "Detect registry peek = (if HTTP1_Detect peek then ProtoHTTP1 else ProtoRawTCP)"
  by (simp add: registry_def)

definition tcp_pass :: "flow \<Rightarrow> message \<Rightarrow> bytes option \<times> bool" where
  "tcp_pass f m = (None, False)"

fun sent_by :: "direction \<Rightarrow> (direction \<times> bytes) list \<Rightarrow> bytes" where
  "sent_by d [] = []"
| "sent_by d ((d', c) # ev) = (if d' = d then c else []) @ sent_by d ev"

fun tcp_messages :: "(direction \<times> bytes) list \<Rightarrow> message list" where
  "tcp_messages [] = []"
| "tcp_messages ((d, c) # ev) = (if c = [] then []
     else [if d = ClientToServer then tcp_client_message c else tcp_server_message c]) @ tcp_messages ev"

lemma tcp_run_recorded:
  "tc_to_client (tcp_run tm ev s) = tc_to_client s @ sent_by ServerToClient ev
   \<and> f_Messages (tc_flow (tcp_run tm ev s)) = f_Messages (tc_flow s) @ tcp_messages ev"
proof (induction tm ev s rule: tcp_run.induct)
  case (2 tm c ev s)
  then show ?case
    by (auto simp: tcp_from_client_def Let_def AddMessage_def split: prod.splits)
next
  case (3 tm c ev s)
  then show ?case by (auto simp: tcp_from_server_def AddMessage_def)
qed simp

lemma tcp_run_pass:
  assumes "\<And>f m. tm f m = (None, False)"
  shows "tc_to_server (tcp_run tm ev s) = tc_to_server s @ sent_by ClientToServer ev"
proof (induction ev arbitrary: s)
  case (Cons e ev)
  obtain d c where "e = (d, c)" by fastforce
  with Cons show ?case
    by (cases d) (auto simp: tcp_from_client_def tcp_from_server_def Let_def assms tcp_client_message_def)
qed simp

lemma sent_by_messages:
  "concat (map m_Body (filter (\<lambda>m. m_Direction m = d) (tcp_messages ev))) = sent_by d ev"
  by (induction ev rule: tcp_messages.induct)
     (auto simp: tcp_client_message_def tcp_server_message_def intro: direction.exhaust)

text \<open>
  The fallback loses nothing. Whatever the interleaving of the two directions and whatever
  the tamper hook does, the client receives the server's bytes exactly, and the messages recorded
  on the flow hold the bytes of each direction, in order, chunk by chunk; and when nothing is
  edited or dropped the server receives the client's bytes exactly.
\<close>

lemma raw_tcp_is_transparent:
  assumes "f_Messages f = []"
  shows "tc_to_client (rawTCP_Handle tm f ev) = sent_by ServerToClient ev
    \<and> concat (map m_Body (filter (\<lambda>m. m_Direction m = d) (f_Messages (tc_flow (rawTCP_Handle tm f ev))))) = sent_by d ev
    \<and> ((\<forall>f m. tm f m = (None, False)) \<longrightarrow> tc_to_server (rawTCP_Handle tm f ev) = sent_by ClientToServer ev)
    \<and> f_Status (tc_flow (rawTCP_Handle tm f ev)) \<noteq> StatusActive"
  using tcp_run_recorded [of tm ev] tcp_run_pass [of tm ev] sent_by_messages [of d ev] assms
  by (simp add: rawTCP_Handle_def Let_def)

lemma raw_tcp_is_transparent_witness:
  "tc_to_server (rawTCP_Handle tcp_pass (demo_heap 0) [(ClientToServer, [1, 2]), (ServerToClient, [9]), (ClientToServer, [3])]) = [1, 2, 3]"
proof -
  have "f_Messages (demo_heap 0) = []" by (simp add: demo_heap_def NewFlow_def)
  from raw_tcp_is_transparent [OF this, of tcp_pass "[(ClientToServer, [1, 2]), (ServerToClient, [9]), (ClientToServer, [3])]"]
  show ?thesis by (simp add: tcp_pass_def)
qed

end
