(* ===== verification/WebSocket.thy ===== *)
theory WebSocket
  imports WsFrame Protocols
begin

text \<open>
  \<^verbatim>\<open>internal/protocol/websocket.go\<close>: the handshake checks, the guarded session that both pumps
  and the injector write through, and the pump that relays, records and tampers the frames of
  one direction. A source is the bytes the peer sends before it closes; the writes to a peer are
  a list, one entry for each guarded write.
\<close>

section \<open>Handshake\<close>

fun list_has_token :: "string \<Rightarrow> string list \<Rightarrow> bool" where
  "list_has_token token [] = False"
| "list_has_token token (p # ps) = (if equal_fold (trim_space p) token then True else list_has_token token ps)"

fun values_have_token :: "string \<Rightarrow> string list \<Rightarrow> bool" where
  "values_have_token token [] = False"
| "values_have_token token (v # vs) =
     (if list_has_token token (split_on '','' v) then True else values_have_token token vs)"

definition headerHasToken :: "header \<Rightarrow> string \<Rightarrow> string \<Rightarrow> bool" where
  "headerHasToken h key token = values_have_token token (hvalues h key)"

definition isWebSocketUpgrade :: "header \<Rightarrow> bool" where
  "isWebSocketUpgrade h \<longleftrightarrow> equal_fold (hget h ''Upgrade'') ''websocket'' \<and> headerHasToken h ''Connection'' ''upgrade''"

text \<open>The number in front of the second field, in Go's 64-bit \<^verbatim>\<open>int\<close>.\<close>

fun status_digits :: "int \<Rightarrow> nat list \<Rightarrow> int" where
  "status_digits n [] = n"
| "status_digits n (r # rs) =
     (if r < 48 \<or> r > 57 then n else status_digits (wrap_int (n * 10 + int (r - 48))) rs)"

definition parseStatusCode :: "string \<Rightarrow> int" where
  "parseStatusCode line = (case GoStrings.fields line of _ # f # _ \<Rightarrow> status_digits 0 (runes f) | _ \<Rightarrow> 0)"

text \<open>
  \<^verbatim>\<open>relaySwitchingProtocols\<close>: what the client is sent, and the server's bytes left unread;
  \<^verbatim>\<open>None\<close> if the server ends before the blank line.
\<close>

function relay_lines :: "bytes \<Rightarrow> bytes \<Rightarrow> (bytes \<times> bytes) option" where
  "relay_lines out s = (case read_until 10 s of
       None \<Rightarrow> None
     | Some (line, rest) \<Rightarrow>
         if trim_right_set [CHR 0x0D, CHR 0x0A] (str_of line) = [] then Some (out @ line, rest)
         else relay_lines (out @ line) rest)"
  by pat_completeness auto
termination
proof (relation "measure (\<lambda>(out, s). length s)")
  fix out s line rest and x :: "bytes \<times> bytes"
  assume "read_until 10 s = Some x" "(line, rest) = x"
  then have "s = line @ rest \<and> line \<noteq> []" using read_until_Some by blast
  then show "((out @ line, rest), out, s) \<in> measure (\<lambda>(out, s). length s)" by auto
qed simp

declare relay_lines.simps [simp del]

definition relaySwitchingProtocols :: "string \<Rightarrow> bytes \<Rightarrow> (bytes \<times> bytes) option" where
  "relaySwitchingProtocols statusLine s = relay_lines (bytes_of statusLine) s"

section \<open>The session\<close>

record ws_session =
  ss_to_client :: "bytes list"
  ss_to_server :: "bytes list"

definition writeToClient :: "bytes \<Rightarrow> ws_session \<Rightarrow> ws_session" where
  "writeToClient b s = s\<lparr>ss_to_client := ss_to_client s @ [b]\<rparr>"

definition writeToServer :: "bytes \<Rightarrow> ws_session \<Rightarrow> ws_session" where
  "writeToServer b s = s\<lparr>ss_to_server := ss_to_server s @ [b]\<rparr>"

text \<open>\<^verbatim>\<open>Inject\<close>, on the four bytes the random source delivers for the mask.\<close>

definition inject_frame :: "direction \<Rightarrow> byte \<Rightarrow> bytes \<Rightarrow> bytes \<Rightarrow> ws_frame" where
  "inject_frame dir opcode payload key =
     \<lparr>w_Fin = True, w_Opcode = opcode, w_Masked = (dir = ClientToServer),
      w_MaskKey = (if dir = ClientToServer then key else [0, 0, 0, 0]), w_Payload = payload\<rparr>"

definition Inject :: "direction \<Rightarrow> byte \<Rightarrow> bytes \<Rightarrow> bytes \<Rightarrow> ws_session \<Rightarrow> ws_session" where
  "Inject dir opcode payload key s =
     (if dir = ClientToServer then writeToServer (ws_encode (inject_frame dir opcode payload key)) s
      else writeToClient (ws_encode (inject_frame dir opcode payload key)) s)"

section \<open>The pump\<close>

definition ws_message :: "direction \<Rightarrow> ws_frame \<Rightarrow> message" where
  "ws_message dir fr =
     \<lparr>m_Direction = dir,
      m_Summary = direction_string dir @ '' ws:'' @ wsOpcodeName (w_Opcode fr) @ '' '' @ humanBytes (length (w_Payload fr)),
      m_Headers = [], m_Body = w_Payload fr, m_Raw = w_Payload fr,
      m_Meta = [(''opcode'', wsOpcodeName (w_Opcode fr))]\<rparr>"

datatype pump_end = PumpStopped | PumpPanicked

text \<open>
  \<^verbatim>\<open>pumpWS\<close>. The tamper hook is absent in one direction; it sees the flow with the message
  already added. \<open>wok\<close> says whether a write succeeds after those made so far. The results are
  the flow, the writes made to the opposite peer and how the pump ended.
\<close>

function pumpWS :: "(flow \<Rightarrow> message \<Rightarrow> bytes option \<times> bool) option \<Rightarrow> direction \<Rightarrow> (bytes list \<Rightarrow> bytes \<Rightarrow> bool)
    \<Rightarrow> flow \<Rightarrow> bytes list \<Rightarrow> bytes \<Rightarrow> flow \<times> bytes list \<times> pump_end" where
  "pumpWS tamper dir wok f out src =
     (case readWSFrame src of
        Inl WsPanic \<Rightarrow> (f, out, PumpPanicked)
      | Inl (WsIO e) \<Rightarrow> (f, out, PumpStopped)
      | Inr (fr, rest) \<Rightarrow>
          (let send = (\<lambda>f fr.
                 if \<not> wok out (ws_encode fr) then (f, out, PumpStopped)
                 else if w_Opcode fr = opClose then (f, out @ [ws_encode fr], PumpStopped)
                 else pumpWS tamper dir wok f (out @ [ws_encode fr]) rest)
           in if isWSData (w_Opcode fr) then
                (let msg = ws_message dir fr; f1 = AddMessage msg f in
                 case tamper of
                   None \<Rightarrow> send f1 fr
                 | Some t \<Rightarrow>
                     (let (o1, drop1) = t f1 msg in
                      if drop1 then pumpWS tamper dir wok f1 out rest
                      else send f1 (case o1 of None \<Rightarrow> fr | Some p \<Rightarrow> fr\<lparr>w_Payload := p\<rparr>)))
              else send f fr))"
  by pat_completeness auto
termination
  by (relation "measure (\<lambda>(t, d, w, f, o1, s). length s)") (auto dest: readWSFrame_shrinks)

declare pumpWS.simps [simp del]

section \<open>The handshake response\<close>

definition blank_line :: "bytes \<Rightarrow> bool" where
  "blank_line l \<longleftrightarrow> trim_right_set [CHR 0x0D, CHR 0x0A] (str_of l) = []"

lemma relay_lines_Some:
  "relay_lines out s = Some (out', rest) \<Longrightarrow> \<exists>block. s = block @ rest \<and> out' = out @ block"
proof (induction out s rule: relay_lines.induct)
  case (1 out s)
  show ?case
  proof (cases "read_until 10 s")
    case None
    with "1.prems" show ?thesis by (subst (asm) relay_lines.simps) simp
  next
    case (Some x)
    then obtain l r where x: "read_until 10 s = Some (l, r)" by (cases x) auto
    note s = read_until_Some [OF x]
    show ?thesis
    proof (cases "trim_right_set [CHR 0x0D, CHR 0x0A] (str_of l) = []")
      case True
      with "1.prems" x have "out' = out @ l \<and> rest = r" by (subst (asm) relay_lines.simps) simp
      with s show ?thesis by blast
    next
      case False
      with "1.prems" x have "relay_lines (out @ l) r = Some (out', rest)" by (subst (asm) relay_lines.simps) simp
      from "1.IH" [OF x refl False this] s show ?thesis by auto
    qed
  qed
qed

lemma relay_lines_block:
  assumes "\<forall>l \<in> set ls. 10 \<notin> set l \<and> \<not> blank_line (l @ [10])"
  shows "relay_lines out (concat (map (\<lambda>l. l @ [10]) ls) @ [13, 10] @ rest)
    = Some (out @ concat (map (\<lambda>l. l @ [10]) ls) @ [13, 10], rest)"
  using assms
proof (induction ls arbitrary: out)
  case Nil
  have "read_until 10 ([13, 10] @ rest) = Some ([13, 10], rest)" by simp
  moreover have "trim_right_set [CHR 0x0D, CHR 0x0A] (str_of [13, 10]) = []" by code_simp
  ultimately show ?case by (subst relay_lines.simps) simp
next
  case (Cons l ls)
  let ?t = "concat (map (\<lambda>l. l @ [10]) ls) @ [13, 10] @ rest"
  have "read_until 10 (l @ 10 # ?t) = Some (l @ [10], ?t)" using Cons.prems by (intro read_until_app) simp
  with Cons show ?case by (subst relay_lines.simps) (simp add: blank_line_def)
qed

text \<open>
  The 101 response reaches the client verbatim and nothing behind it is lost: what is
  relayed is the status line and the bytes read, no byte is changed, and the relay stops exactly at the
  first blank line, so that the server's first frames stay in the buffer the pump reads.
\<close>

lemma switching_protocols_relay_stops_at_blank_line:
  assumes "\<forall>l \<in> set ls. 10 \<notin> set l \<and> \<not> blank_line (l @ [10])"
  shows "relaySwitchingProtocols st (concat (map (\<lambda>l. l @ [10]) ls) @ [13, 10] @ frames)
      = Some (bytes_of st @ concat (map (\<lambda>l. l @ [10]) ls) @ [13, 10], frames)
    \<and> (relaySwitchingProtocols st s = Some (out, rest) \<longrightarrow> (\<exists>block. s = block @ rest \<and> out = bytes_of st @ block))"
  using relay_lines_block [OF assms] relay_lines_Some by (auto simp: relaySwitchingProtocols_def)

lemma switching_protocols_relay_stops_at_blank_line_witness:
  "relaySwitchingProtocols ''HTTP/1.1 101 X'' ([65, 58, 66, 13, 10, 13, 10, 0x81, 0])
     = Some (bytes_of ''HTTP/1.1 101 X'' @ [65, 58, 66, 13, 10, 13, 10], [0x81, 0])"
proof -
  have "\<not> blank_line ([65, 58, 66, 13] @ [10])" by code_simp
  with switching_protocols_relay_stops_at_blank_line [of "[[65, 58, 66, 13]]" "''HTTP/1.1 101 X''" "[0x81, 0]"]
  show ?thesis by simp
qed

section \<open>What the pump relays\<close>

text \<open>The frames a peer sends, up to its close or to the end of what can be read.\<close>

function ws_stream :: "bytes \<Rightarrow> ws_frame list" where
  "ws_stream src = (case readWSFrame src of
       Inl _ \<Rightarrow> []
     | Inr (fr, rest) \<Rightarrow> if w_Opcode fr = opClose then [fr] else fr # ws_stream rest)"
  by pat_completeness auto
termination
  by (relation "measure length") (auto dest: readWSFrame_shrinks)

declare ws_stream.simps [simp del]

fun ws_relay :: "(flow \<Rightarrow> message \<Rightarrow> bytes option \<times> bool) option \<Rightarrow> direction \<Rightarrow> flow \<Rightarrow> ws_frame list \<Rightarrow> ws_frame list" where
  "ws_relay tamper dir f [] = []"
| "ws_relay tamper dir f (fr # frs) =
     (if isWSData (w_Opcode fr) then
        (let msg = ws_message dir fr; f1 = AddMessage msg f in
         case tamper of
           None \<Rightarrow> fr # ws_relay tamper dir f1 frs
         | Some t \<Rightarrow> (case t f1 msg of
               (_, True) \<Rightarrow> ws_relay tamper dir f1 frs
             | (None, False) \<Rightarrow> fr # ws_relay tamper dir f1 frs
             | (Some p, False) \<Rightarrow> fr\<lparr>w_Payload := p\<rparr> # ws_relay tamper dir f1 frs))
      else fr # ws_relay tamper dir f frs)"

lemma close_not_data_iff [simp]: "isWSData opClose = False"
  by (simp add: isWSData_def ws_op_defs)

lemma close_not_data: "w_Opcode fr = opClose \<Longrightarrow> \<not> isWSData (w_Opcode fr)"
  by (simp add: isWSData_def ws_op_defs)

lemma pumpWS_relay:
  assumes "\<And>o1 b. wok o1 b"
  shows "fst (snd (pumpWS tm dir wok f out src)) = out @ map ws_encode (ws_relay tm dir f (ws_stream src))
   \<and> f_Messages (fst (pumpWS tm dir wok f out src))
      = f_Messages f @ map (ws_message dir) (filter (\<lambda>fr. isWSData (w_Opcode fr)) (ws_stream src))"
proof (induction "length src" arbitrary: f out src rule: less_induct)
  case less
  show ?case
  proof (cases "readWSFrame src")
    case (Inl e)
    then show ?thesis by (cases e; subst (1 2) pumpWS.simps; subst (1 2) ws_stream.simps) simp_all
  next
    case (Inr p)
    then obtain fr rest where p: "readWSFrame src = Inr (fr, rest)" by (cases p) auto
    note ih = less [OF readWSFrame_shrinks [OF p]]
    have st: "ws_stream src = (if w_Opcode fr = opClose then [fr] else fr # ws_stream rest)"
      by (subst ws_stream.simps) (simp add: p)
    show ?thesis
    proof (cases "isWSData (w_Opcode fr)")
      case False
      then show ?thesis
        using ih by (subst (1 2) pumpWS.simps) (simp add: p st assms Let_def)
    next
      case True
      then have nc: "w_Opcode fr \<noteq> opClose" using close_not_data by blast
      show ?thesis
      proof (cases tm)
        case None
        with True nc show ?thesis
          using ih by (subst (1 2) pumpWS.simps) (simp add: p st assms Let_def AddMessage_def)
      next
        case (Some t)
        obtain o1 d where t: "t (AddMessage (ws_message dir fr) f) (ws_message dir fr) = (o1, d)" by fastforce
        with Some True nc show ?thesis
          using ih by (subst (1 2) pumpWS.simps, cases d; cases o1) (simp_all add: p st assms Let_def AddMessage_def)
      qed
    qed
  qed
qed

lemma ws_relay_none: "ws_relay None dir f frs = frs"
  by (induction frs arbitrary: f) (auto simp: Let_def)

lemma ws_relay_control:
  "filter (\<lambda>fr. \<not> isWSData (w_Opcode fr)) (ws_relay tm dir f frs) = filter (\<lambda>fr. \<not> isWSData (w_Opcode fr)) frs"
  by (induction frs arbitrary: f) (auto simp: Let_def split: option.split prod.split bool.split)

lemma ws_stream_ok: "\<forall>fr \<in> set (ws_stream src). ws_ok fr"
proof (induction src rule: ws_stream.induct)
  case (1 src)
  show ?case
  proof (cases "readWSFrame src")
    case (Inl e)
    then show ?thesis by (subst ws_stream.simps) simp
  next
    case (Inr p)
    then obtain fr rest where p: "readWSFrame src = Inr (fr, rest)" by (cases p) auto
    have "w_Opcode fr \<noteq> opClose \<Longrightarrow> \<forall>fr \<in> set (ws_stream rest). ws_ok fr"
      using "1.IH" [OF p refl] by simp
    with readWSFrame_ok [OF p] show ?thesis by (subst ws_stream.simps) (simp add: p)
  qed
qed

text \<open>
  C20: what a WebSocket peer receives, and what is shown. Every data frame the peer sent, up to
  its close, is recorded on the flow in order; the frames written to the other peer are those
  frames with the user's edits and drops applied to the data frames and the control frames
  untouched; without a tamper hook (server to client) the receiver reads back exactly the
  frames that were sent.
\<close>

theorem ws_pump_relays_frames:
  assumes "\<And>o1 b. wok o1 b"
  shows "fst (snd (pumpWS tm dir wok f [] src)) = map ws_encode (ws_relay tm dir f (ws_stream src))
    \<and> filter (\<lambda>fr. \<not> isWSData (w_Opcode fr)) (ws_relay tm dir f (ws_stream src))
        = filter (\<lambda>fr. \<not> isWSData (w_Opcode fr)) (ws_stream src)
    \<and> f_Messages (fst (pumpWS tm dir wok f [] src))
        = f_Messages f @ map (ws_message dir) (filter (\<lambda>fr. isWSData (w_Opcode fr)) (ws_stream src))
    \<and> decode_all readWSFrame (concat (fst (snd (pumpWS None dir wok f [] src)))) = Inr (ws_stream src)"
  using pumpWS_relay [where wok = wok and tm = tm and out = "[]", OF assms]
    pumpWS_relay [where wok = wok and tm = None and out = "[]", OF assms]
    ws.decode_all_encode [OF ws_stream_ok]
  by (simp add: ws_relay_control ws_relay_none)

theorem ws_pump_relays_frames_witness:
  "decode_all readWSFrame (concat (fst (snd (pumpWS None ServerToClient (\<lambda>_ _. True) (demo_heap 0) [] [0x81, 1, 65]))))
    = Inr (ws_stream [0x81, 1, 65])"
  using ws_pump_relays_frames [where wok = "\<lambda>_ _. True" and dir = ServerToClient and f = "demo_heap 0"
      and src = "[0x81, 1, 65]", OF TrueI] by blast

section \<open>Writers that share a session\<close>

text \<open>A frame forwarded by a pump, or one injected by the user, towards a peer.\<close>

datatype ws_write = Forwarded direction ws_frame | Injected direction byte bytes bytes

fun ws_written :: "ws_write \<Rightarrow> direction \<times> ws_frame" where
  "ws_written (Forwarded d fr) = (d, fr)"
| "ws_written (Injected d op payload key) = (d, inject_frame d op payload key)"

fun ws_write_step :: "ws_write \<Rightarrow> ws_session \<Rightarrow> ws_session" where
  "ws_write_step (Forwarded d fr) s =
     (if d = ServerToClient then writeToClient (ws_encode fr) s else writeToServer (ws_encode fr) s)"
| "ws_write_step (Injected d op payload key) s = Inject d op payload key s"

lemma ws_write_steps:
  "ss_to_server (fold ws_write_step ws s) = ss_to_server s
     @ map (\<lambda>w. ws_encode (snd (ws_written w))) (filter (\<lambda>w. fst (ws_written w) = ClientToServer) ws)
   \<and> ss_to_client (fold ws_write_step ws s) = ss_to_client s
     @ map (\<lambda>w. ws_encode (snd (ws_written w))) (filter (\<lambda>w. fst (ws_written w) = ServerToClient) ws)"
proof (induction ws arbitrary: s)
  case (Cons w ws)
  show ?case
  proof (cases w)
    case (Forwarded d fr)
    with Cons show ?thesis by (cases d) (simp_all add: writeToClient_def writeToServer_def)
  next
    case (Injected d op payload key)
    with Cons show ?thesis by (cases d) (simp_all add: Inject_def writeToClient_def writeToServer_def)
  qed
qed simp



end
