(* ===== verification/Grpc.thy ===== *)
theory Grpc
  imports GoIO GoStrings
begin

text \<open>
  \<^verbatim>\<open>internal/protocol/grpc.go\<close>: the gRPC message framing. The strict codec, the observer that
  taps a stream without altering it, the reader that rewrites a stream message by message, and
  the schema-less summary of a protobuf message. A source is the chunks its successive reads
  deliver, the last one together with the error that ends it.
\<close>

record grpc_message =
  g_Compressed :: bool
  g_Data :: bytes

datatype grpc_error = FrameTooLarge nat | IncompleteHeader nat | BadFlag byte | IncompletePayload nat nat

section \<open>The strict codec\<close>

definition writeGRPCFrame :: "grpc_message \<Rightarrow> grpc_error + bytes" where
  "writeGRPCFrame m =
     (if length (g_Data m) > 2 ^ 32 - 1 then Inl (FrameTooLarge (length (g_Data m)))
      else Inr ((if g_Compressed m then 1 else 0) # be_bytes 4 (length (g_Data m)) @ g_Data m))"

definition EncodeGRPCFrames :: "grpc_message list \<Rightarrow> grpc_error + bytes" where
  "EncodeGRPCFrames ms = rbind (rmap writeGRPCFrame ms) (\<lambda>fs. Inr (concat fs))"

text \<open>One turn of the decoding loop.\<close>

definition grpc_decode1 :: "bytes \<Rightarrow> grpc_error + grpc_message \<times> bytes" where
  "grpc_decode1 body =
     (if length body < 5 then Inl (IncompleteHeader (length body))
      else if body ! 0 \<noteq> 0 \<and> body ! 0 \<noteq> 1 then Inl (BadFlag (body ! 0))
      else let len = be_val (take 4 (drop 1 body)) in
        if len > length body - 5 then Inl (IncompletePayload len (length body - 5))
        else Inr (\<lparr>g_Compressed = (body ! 0 = 1), g_Data = take len (drop 5 body)\<rparr>, drop (5 + len) body))"

lemma grpc_decode1_shrinks: "grpc_decode1 s = Inr (m, rest) \<Longrightarrow> length rest < length s"
  by (auto simp: grpc_decode1_def Let_def split: if_splits)

function DecodeGRPCFrames :: "bytes \<Rightarrow> grpc_error + grpc_message list" where
  "DecodeGRPCFrames body =
     (if body = [] then Inr []
      else case grpc_decode1 body of
          Inl e \<Rightarrow> Inl e
        | Inr (m, rest) \<Rightarrow> rbind (DecodeGRPCFrames rest) (\<lambda>ms. Inr (m # ms)))"
  by pat_completeness auto
termination
  by (relation "measure length") (auto dest: grpc_decode1_shrinks)

declare DecodeGRPCFrames.simps [simp del]

section \<open>The observer\<close>

text \<open>A complete frame at the front of the buffer, taken off it.\<close>

definition grpc_take :: "bytes \<Rightarrow> (byte \<times> bytes \<times> bytes) option" where
  "grpc_take buf =
     (if length buf < 5 then None
      else let len = be_val (take 4 (drop 1 buf)) in
        if length buf < 5 + len then None
        else Some (buf ! 0, take len (drop 5 buf), drop (5 + len) buf))"

definition observed :: "byte \<Rightarrow> bytes \<Rightarrow> grpc_message" where
  "observed flag d = \<lparr>g_Compressed = (and flag 1 = 1), g_Data = d\<rparr>"

lemma grpc_take_shrinks: "grpc_take s = Some (fl, d, rest) \<Longrightarrow> length rest < length s"
  by (auto simp: grpc_take_def Let_def split: if_splits)

record framer =
  fr_buf :: bytes
  fr_seen :: "grpc_message list"

function framer_drain :: "framer \<Rightarrow> framer" where
  "framer_drain g = (case grpc_take (fr_buf g) of
       None \<Rightarrow> g
     | Some (fl, d, rest) \<Rightarrow> framer_drain (g\<lparr>fr_buf := rest, fr_seen := fr_seen g @ [observed fl d]\<rparr>))"
  by pat_completeness auto
termination
  by (relation "measure (\<lambda>g. length (fr_buf g))") (auto dest: grpc_take_shrinks)

declare framer_drain.simps [simp del]

text \<open>\<^verbatim>\<open>(*grpcFramer).Read\<close> on what its source delivered: the caller gets the same bytes.\<close>

definition framer_Read :: "bytes \<Rightarrow> framer \<Rightarrow> bytes \<times> framer" where
  "framer_Read p g = (p, if p \<noteq> [] then framer_drain (g\<lparr>fr_buf := fr_buf g @ p\<rparr>) else g)"

section \<open>The rewriter\<close>

text \<open>
  The transform may remember what it saw (it pauses messages for the user): it is given the
  messages before this one.
\<close>

type_synonym grpc_transform = "grpc_message list \<Rightarrow> grpc_message \<Rightarrow> bytes option \<times> bool"

record tamper_reader =
  tr_chunks :: "bytes list"
  tr_last :: "bytes \<times> string"
  tr_seen :: "grpc_message list"
  tr_in :: bytes
  tr_out :: bytes
  tr_err :: "string option"

text \<open>What one message leaves in the output; an oversized replacement is not written.\<close>

definition grpc_emit :: "grpc_transform \<Rightarrow> grpc_message list \<Rightarrow> grpc_message \<Rightarrow> bytes" where
  "grpc_emit tf seen msg = (let (out, drp) = tf seen msg in
     if drp then []
     else case writeGRPCFrame \<lparr>g_Compressed = g_Compressed msg,
              g_Data = (case out of None \<Rightarrow> g_Data msg | Some d \<Rightarrow> d)\<rparr> of
          Inl _ \<Rightarrow> [] | Inr fr \<Rightarrow> fr)"

function tamper_drain :: "grpc_transform \<Rightarrow> tamper_reader \<Rightarrow> tamper_reader" where
  "tamper_drain tf g = (case grpc_take (tr_in g) of
       None \<Rightarrow> g
     | Some (fl, d, rest) \<Rightarrow>
         (let msg = observed fl d in
          tamper_drain tf (g\<lparr>tr_in := rest, tr_seen := tr_seen g @ [msg],
             tr_out := tr_out g @ grpc_emit tf (tr_seen g) msg\<rparr>)))"
  by pat_completeness auto
termination
  by (relation "measure (\<lambda>(tf, g). length (tr_in g))") (auto dest: grpc_take_shrinks)

declare tamper_drain.simps [simp del]

definition tamper_fill :: "grpc_transform \<Rightarrow> tamper_reader \<Rightarrow> tamper_reader" where
  "tamper_fill tf g = (case tr_chunks g of
       c # cs \<Rightarrow>
         (let g1 = g\<lparr>tr_chunks := cs\<rparr> in
          if c \<noteq> [] then tamper_drain tf (g1\<lparr>tr_in := tr_in g1 @ c\<rparr>) else g1)
     | [] \<Rightarrow>
         (let (c, err) = tr_last g;
              g1 = (if c \<noteq> [] then tamper_drain tf (g\<lparr>tr_in := tr_in g @ c\<rparr>) else g)
          in g1\<lparr>tr_out := tr_out g1 @ tr_in g1, tr_in := [], tr_err := Some err\<rparr>))"

lemma tamper_drain_frame:
  "tr_chunks (tamper_drain tf g) = tr_chunks g \<and> tr_last (tamper_drain tf g) = tr_last g
    \<and> tr_err (tamper_drain tf g) = tr_err g"
proof (induction tf g rule: tamper_drain.induct)
  case (1 tf g)
  then show ?case by (subst (1 2 3) tamper_drain.simps) (auto split: option.split simp: Let_def)
qed

lemma tamper_fill_less:
  "tr_err g = None \<Longrightarrow> length (tr_chunks (tamper_fill tf g)) + (if tr_err (tamper_fill tf g) = None then 1 else 0)
    < length (tr_chunks g) + 1"
  by (auto simp: tamper_fill_def Let_def tamper_drain_frame split: list.split prod.split)

text \<open>The loop at the head of \<^verbatim>\<open>Read\<close>.\<close>

function fill_loop :: "grpc_transform \<Rightarrow> tamper_reader \<Rightarrow> tamper_reader" where
  "fill_loop tf g = (if tr_out g = [] \<and> tr_err g = None then fill_loop tf (tamper_fill tf g) else g)"
  by pat_completeness auto
termination
  by (relation "measure (\<lambda>(tf, g). length (tr_chunks g) + (if tr_err g = None then 1 else 0))")
     (use tamper_fill_less in auto)

declare fill_loop.simps [simp del]

text \<open>\<^verbatim>\<open>(*grpcTamperReader).Read\<close> into a buffer of n bytes: bytes served, error.\<close>

definition tamper_Read :: "grpc_transform \<Rightarrow> nat \<Rightarrow> tamper_reader \<Rightarrow> bytes \<times> string option \<times> tamper_reader" where
  "tamper_Read tf n g = (let g1 = fill_loop tf g in
     if tr_out g1 \<noteq> [] then (take n (tr_out g1), None, g1\<lparr>tr_out := drop n (tr_out g1)\<rparr>)
     else ([], tr_err g1, g1))"

section \<open>Protobuf fields\<close>

text \<open>\<^verbatim>\<open>binary.Uvarint\<close>: the value and the bytes used, 0 if the buffer ends, negative on overflow.\<close>

fun uvarint_from :: "nat \<Rightarrow> nat \<Rightarrow> bytes \<Rightarrow> nat \<times> int" where
  "uvarint_from i x [] = (0, 0)"
| "uvarint_from i x (b # bs) =
     (if i = 10 then (0, - (int i + 1))
      else if unat b < 128 then
        (if i = 9 \<and> unat b > 1 then (0, - (int i + 1)) else (x + unat b * 2 ^ (7 * i), int i + 1))
      else uvarint_from (i + 1) (x + (unat b - 128) * 2 ^ (7 * i)) bs)"

definition Uvarint :: "bytes \<Rightarrow> nat \<times> int" where
  "Uvarint buf = uvarint_from 0 0 buf"

definition wireName :: "nat \<Rightarrow> string" where
  "wireName w = (if w = 0 then ''varint'' else if w = 1 then ''i64'' else if w = 2 then ''len''
     else if w = 5 then ''i32'' else ''?'')"

text \<open>
  The walk over the fields with the fields left to report, the position as Go's 64-bit \<^verbatim>\<open>int\<close> and
  the fields found. \<^verbatim>\<open>None\<close> is the panic of slicing with a negative position.
\<close>

fun proto_walk :: "bytes \<Rightarrow> nat \<Rightarrow> int \<Rightarrow> string list \<Rightarrow> string list option" where
  "proto_walk buf 0 i fs = Some fs"
| "proto_walk buf (Suc k) i fs =
     (if \<not> i < int (length buf) then Some fs
      else if i < 0 then None
      else
        (let (tag, n) = Uvarint (drop (nat i) buf) in
         if n \<le> 0 then Some fs
         else
           (let i1 = i + n; num = tag div 8; wire = tag mod 8;
                found = (\<lambda>j. let fs' = fs @ [''#'' @ show_nat num @ ''('' @ wireName wire @ '')''] in
                   if j > int (length buf) then Some fs' else proto_walk buf k j fs')
            in if wire = 0 then
                 (let (_, m) = Uvarint (drop (nat i1) buf) in if m \<le> 0 then Some fs else found (wrap_int (i1 + m)))
               else if wire = 1 then found (i1 + 8)
               else if wire = 2 then
                 (let (l, m) = Uvarint (drop (nat i1) buf) in
                  if m \<le> 0 then Some fs
                  else found (wrap_int (i1 + wrap_int (m + int_of_u64 (word_of_nat l)))))
               else if wire = 5 then found (i1 + 4)
               else Some fs)))"

definition ProtoFieldSummary :: "bytes \<Rightarrow> string option" where
  "ProtoFieldSummary buf = map_option (join '' '') (proto_walk buf 12 0 [])"

section \<open>The codec is a bijection\<close>

definition grpc_ok :: "grpc_message \<Rightarrow> bool" where
  "grpc_ok m \<longleftrightarrow> length (g_Data m) \<le> 2 ^ 32 - 1"

definition grpc_frame :: "grpc_message \<Rightarrow> bytes" where
  "grpc_frame m = (if g_Compressed m then 1 else 0) # be_bytes 4 (length (g_Data m)) @ g_Data m"

lemma writeGRPCFrame_Inr: "writeGRPCFrame m = Inr b \<longleftrightarrow> grpc_ok m \<and> b = grpc_frame m"
  by (auto simp: writeGRPCFrame_def grpc_ok_def grpc_frame_def)

lemma rmap_writeGRPCFrame: "rmap writeGRPCFrame ms = Inr fs \<longleftrightarrow> (\<forall>m \<in> set ms. grpc_ok m) \<and> fs = map grpc_frame ms"
  by (induction ms arbitrary: fs) (auto simp: rbind_eq_Inr writeGRPCFrame_Inr)

lemma EncodeGRPCFrames_Inr:
  "EncodeGRPCFrames ms = Inr b \<longleftrightarrow> (\<forall>m \<in> set ms. grpc_ok m) \<and> b = concat (map grpc_frame ms)"
  by (auto simp: EncodeGRPCFrames_def rbind_eq_Inr rmap_writeGRPCFrame)

lemma drop_header: "length h = 4 \<Longrightarrow> drop (5 + n) (x # h @ s) = drop n s"
  by (simp add: drop_Cons')

lemma grpc_decode1_frame:
  assumes "grpc_ok m"
  shows "grpc_decode1 (grpc_frame m @ rest) = Inr (m, rest)"
proof -
  have "be_val (be_bytes 4 (length (g_Data m))) = length (g_Data m)"
    using assms by (simp add: be_val_be_bytes grpc_ok_def)
  then show ?thesis
    by (cases m) (auto simp: grpc_decode1_def grpc_frame_def Let_def drop_header)
qed

lemma byte_of_nat_mult: "(word_of_nat (n * 256 + c) :: byte) = word_of_nat c"
  unfolding word_of_nat_eq_iff take_bit_eq_mod by simp

lemma be_bytes_be_val: "be_bytes (length b) (be_val b) = b"
proof (induction b)
  case Nil
  show ?case by simp
next
  case (Cons x b)
  have lt: "be_val b < 256 ^ length b" by (rule be_val_bound)
  have sub: "be_bytes k (u * 256 ^ length b + v) = be_bytes k v" if "k \<le> length b" for k u v
    using that
  proof (induction k)
    case 0
    show ?case by simp
  next
    case (Suc k)
    then obtain j where j: "length b = Suc k + j" using le_Suc_ex by blast
    have "(u * 256 ^ length b + v) div 256 ^ k = u * 256 ^ j * 256 + v div 256 ^ k"
    proof -
      have "u * 256 ^ length b + v = v + (u * 256 ^ j * 256) * 256 ^ k"
        by (simp add: j power_add)
      then show ?thesis by (simp only: div_mult_self1 power_not_zero) simp
    qed
    then have "(word_of_nat ((u * 256 ^ length b + v) div 256 ^ k) :: byte) = word_of_nat (v div 256 ^ k)"
      by (simp only: byte_of_nat_mult)
    with Suc show ?case by simp
  qed
  have "(unat x * 256 ^ length b + be_val b) div 256 ^ length b = unat x"
    using lt by simp
  with Cons sub [of "length b" "unat x" "be_val b"] show ?case by simp
qed

lemma grpc_decode1_Inr:
  assumes "grpc_decode1 s = Inr (m, rest)"
  shows "grpc_ok m \<and> s = grpc_frame m @ rest"
proof -
  let ?len = "be_val (take 4 (drop 1 s))"
  from assms have len: "5 \<le> length s" "?len \<le> length s - 5" and flag: "s ! 0 = 0 \<or> s ! 0 = 1"
    and m: "m = \<lparr>g_Compressed = (s ! 0 = 1), g_Data = take ?len (drop 5 s)\<rparr>" and r: "rest = drop (5 + ?len) s"
    by (auto simp: grpc_decode1_def Let_def split: if_splits)
  have l4: "length (take 4 (drop 1 s)) = 4" using len(1) by simp
  have "?len < 256 ^ 4" using be_val_bound [of "take 4 (drop 1 s)"] l4 by simp
  moreover have dl: "length (take ?len (drop 5 s)) = ?len" using len by simp
  ultimately have ok: "grpc_ok m" by (simp add: grpc_ok_def m)
  have e1: "s = s ! 0 # take 4 (drop 1 s) @ drop 5 s"
    using len(1) by (cases s) (auto simp: numeral_eq_Suc)
  have e2: "drop 5 s = take ?len (drop 5 s) @ rest"
    unfolding r by (simp add: add.commute [of 5] flip: drop_drop)
  have e3: "take 4 (drop 1 s) = be_bytes 4 ?len"
    using be_bytes_be_val [of "take 4 (drop 1 s)"] l4 by simp
  have e4: "grpc_frame m @ rest = s ! 0 # be_bytes 4 ?len @ take ?len (drop 5 s) @ rest"
    using flag dl by (auto simp: grpc_frame_def m)
  have "s = s ! 0 # be_bytes 4 ?len @ take ?len (drop 5 s) @ rest"
    by (rule trans [OF e1]) (rule arg_cong2 [OF e3 e2, of "\<lambda>a b. s ! 0 # a @ b"])
  then have "s = grpc_frame m @ rest" by (rule trans [OF _ e4 [symmetric]])
  with ok show ?thesis by (rule conjI)
qed

interpretation grpc: frame_codec grpc_frame grpc_decode1 grpc_ok
  by unfold_locales (simp_all add: grpc_decode1_frame grpc_decode1_shrinks grpc_decode1_Inr)

lemma DecodeGRPCFrames_decode_all: "DecodeGRPCFrames s = decode_all grpc_decode1 s"
proof (induction s rule: DecodeGRPCFrames.induct)
  case (1 s)
  show ?case
  proof (cases "s = [] \<or> (\<exists>e. grpc_decode1 s = Inl e)")
    case True
    then show ?thesis by (subst DecodeGRPCFrames.simps, subst decode_all.simps) auto
  next
    case False
    then obtain m rest where d: "s \<noteq> []" "grpc_decode1 s = Inr (m, rest)" by (cases "grpc_decode1 s") auto
    with 1 [OF d(1,2) refl] grpc_decode1_shrinks [OF d(2)] show ?thesis
      by (subst DecodeGRPCFrames.simps, subst decode_all.simps) simp
  qed
qed

lemma DecodeGRPCFrames_Inr:
  "DecodeGRPCFrames s = Inr ms \<Longrightarrow> (\<forall>m \<in> set ms. grpc_ok m) \<and> s = concat (map grpc_frame ms)"
proof (induction s arbitrary: ms rule: DecodeGRPCFrames.induct)
  case (1 s)
  show ?case
  proof (cases "s = []")
    case True
    with "1.prems" show ?thesis by (simp add: DecodeGRPCFrames.simps)
  next
    case False
    with "1.prems" obtain m rest ms' where
      d: "grpc_decode1 s = Inr (m, rest)" "DecodeGRPCFrames rest = Inr ms'" "ms = m # ms'"
      by (subst (asm) DecodeGRPCFrames.simps) (auto simp: rbind_eq_Inr split: sum.splits)
    from "1.IH" [OF False d(1) refl d(2)] grpc_decode1_Inr [OF d(1)] show ?thesis by (simp add: d(3))
  qed
qed

lemma DecodeGRPCFrames_encode: "EncodeGRPCFrames ms = Inr b \<Longrightarrow> DecodeGRPCFrames b = Inr ms"
  by (auto simp: EncodeGRPCFrames_Inr DecodeGRPCFrames_decode_all grpc.decode_all_encode)

lemma EncodeGRPCFrames_decode: "DecodeGRPCFrames b = Inr ms \<Longrightarrow> EncodeGRPCFrames ms = Inr b"
  using DecodeGRPCFrames_Inr [of b ms] by (simp add: EncodeGRPCFrames_Inr)

text \<open>
  C22: the strict gRPC codec is a bijection: messages encode to bytes exactly when those bytes
  decode to the messages, order, empty messages and compression flags included. So a captured
  call that was decoded is resent byte for byte, and nothing else decodes to it.
\<close>

theorem grpc_codec_bijection: "EncodeGRPCFrames ms = Inr b \<longleftrightarrow> DecodeGRPCFrames b = Inr ms"
proof
  assume "EncodeGRPCFrames ms = Inr b"
  then show "DecodeGRPCFrames b = Inr ms" by (rule DecodeGRPCFrames_encode)
next
  assume "DecodeGRPCFrames b = Inr ms"
  then show "EncodeGRPCFrames ms = Inr b" by (rule EncodeGRPCFrames_decode)
qed

section \<open>Streams cut anywhere\<close>

text \<open>The complete frames of a stream and the incomplete rest.\<close>

function grpc_split :: "bytes \<Rightarrow> grpc_message list \<times> bytes" where
  "grpc_split s = (case grpc_take s of
       None \<Rightarrow> ([], s)
     | Some (fl, d, rest) \<Rightarrow> (observed fl d # fst (grpc_split rest), snd (grpc_split rest)))"
  by pat_completeness auto
termination
  by (relation "measure length") (auto dest: grpc_take_shrinks)

declare grpc_split.simps [simp del]

lemma grpc_take_append: "grpc_take s = Some (fl, d, r) \<Longrightarrow> grpc_take (s @ t) = Some (fl, d, r @ t)"
  by (auto simp: grpc_take_def Let_def nth_append split: if_splits)

lemma grpc_split_append:
  "grpc_split (s @ t) = (fst (grpc_split s) @ fst (grpc_split (snd (grpc_split s) @ t)),
     snd (grpc_split (snd (grpc_split s) @ t)))"
proof (induction s rule: grpc_split.induct)
  case (1 s)
  show ?case
  proof (cases "grpc_take s")
    case None
    then have "grpc_split s = ([], s)" by (subst grpc_split.simps) simp
    then show ?thesis by simp
  next
    case (Some x)
    then obtain fl d r where x: "grpc_take s = Some (fl, d, r)" by (cases x) auto
    have s: "grpc_split s = (observed fl d # fst (grpc_split r), snd (grpc_split r))"
      by (subst grpc_split.simps) (simp add: x)
    have st: "grpc_split (s @ t) = (observed fl d # fst (grpc_split (r @ t)), snd (grpc_split (r @ t)))"
      by (subst grpc_split.simps) (simp add: grpc_take_append [OF x])
    show ?thesis unfolding st s using "1.IH" [OF x refl refl] by simp
  qed
qed

lemma grpc_split_leftover: "grpc_split (snd (grpc_split s)) = ([], snd (grpc_split s))"
  using grpc_split_append [of s "[]"] by (cases "grpc_split s") (auto simp: prod_eq_iff)

lemma framer_drain_split:
  "framer_drain g = g\<lparr>fr_buf := snd (grpc_split (fr_buf g)), fr_seen := fr_seen g @ fst (grpc_split (fr_buf g))\<rparr>"
proof (induction g rule: framer_drain.induct)
  case (1 g)
  show ?case
  proof (cases "grpc_take (fr_buf g)")
    case None
    then show ?thesis by (subst framer_drain.simps, subst (1 2) grpc_split.simps) simp
  next
    case (Some x)
    then obtain fl d r where x: "grpc_take (fr_buf g) = Some (fl, d, r)" by (cases x) auto
    have s: "grpc_split (fr_buf g) = (observed fl d # fst (grpc_split r), snd (grpc_split r))"
      by (subst grpc_split.simps) (simp add: x)
    show ?thesis unfolding s by (subst framer_drain.simps) (simp add: x "1.IH" [OF x refl refl])
  qed
qed

definition new_framer :: framer where "new_framer = \<lparr>fr_buf = [], fr_seen = []\<rparr>"

definition framer_feed :: "bytes list \<Rightarrow> framer \<Rightarrow> framer" where
  "framer_feed cs g = fold (\<lambda>p g. snd (framer_Read p g)) cs g"

lemma framer_Read_split:
  assumes "snd (grpc_split (fr_buf g)) = fr_buf g"
  shows "snd (framer_Read p g) = \<lparr>fr_buf = snd (grpc_split (fr_buf g @ p)),
     fr_seen = fr_seen g @ fst (grpc_split (fr_buf g @ p))\<rparr>"
proof -
  have "fst (grpc_split (fr_buf g)) = []"
    using grpc_split_leftover [of "fr_buf g"] unfolding assms by simp
  with assms show ?thesis by (cases g) (auto simp: framer_Read_def framer_drain_split)
qed

lemma framer_feed_split:
  "framer_feed cs new_framer = \<lparr>fr_buf = snd (grpc_split (concat cs)), fr_seen = fst (grpc_split (concat cs))\<rparr>"
proof (induction cs rule: rev_induct)
  case Nil
  have "grpc_split [] = ([], [])" by (subst grpc_split.simps) (simp add: grpc_take_def)
  then show ?case by (simp add: framer_feed_def new_framer_def)
next
  case (snoc c cs)
  let ?g = "framer_feed cs new_framer"
  have f: "framer_feed (cs @ [c]) new_framer = snd (framer_Read c ?g)" by (simp add: framer_feed_def)
  have "snd (grpc_split (fr_buf ?g)) = fr_buf ?g" by (simp add: snoc grpc_split_leftover)
  from framer_Read_split [OF this, of c] show ?case
    unfolding f by (simp add: snoc grpc_split_append [of "concat cs" c])
qed

lemma grpc_take_frame: "grpc_ok m \<Longrightarrow> grpc_take (grpc_frame m @ rest)
    = Some (if g_Compressed m then 1 else 0, g_Data m, rest)"
  using be_val_be_bytes [of 4 "length (g_Data m)"]
  by (auto simp: grpc_take_def grpc_frame_def Let_def grpc_ok_def drop_header)

lemma grpc_split_frames:
  "\<forall>m \<in> set ms. grpc_ok m \<Longrightarrow> grpc_split (concat (map grpc_frame ms) @ t) = (ms @ fst (grpc_split t), snd (grpc_split t))"
proof (induction ms)
  case Nil
  show ?case by simp
next
  case (Cons m ms)
  then have "grpc_take (grpc_frame m @ concat (map grpc_frame ms) @ t)
      = Some (if g_Compressed m then 1 else 0, g_Data m, concat (map grpc_frame ms) @ t)"
    by (intro grpc_take_frame) simp
  with Cons show ?case by (subst (1) grpc_split.simps) (auto simp: observed_def)
qed

lemma grpc_split_decoded: "DecodeGRPCFrames s = Inr ms \<Longrightarrow> grpc_split s = (ms, [])"
  using DecodeGRPCFrames_Inr [of s ms] grpc_split_frames [of ms "[]"]
  by (auto simp: grpc_split.simps [of "[]"] grpc_take_def)

text \<open>
  C23: the tap on a gRPC stream is transparent and misses nothing. However the network cuts the
  stream into reads, every read passes its bytes on unchanged, the messages reported do not
  depend on the cuts, and if the stream is well formed they are exactly its messages, with no
  byte left over.
\<close>

theorem grpc_framer_cut_independent:
  "map (\<lambda>p. fst (framer_Read p g)) cs = cs \<and>
   (concat cs = concat cs' \<longrightarrow> framer_feed cs new_framer = framer_feed cs' new_framer) \<and>
   (DecodeGRPCFrames (concat cs) = Inr ms \<longrightarrow> framer_feed cs new_framer = \<lparr>fr_buf = [], fr_seen = ms\<rparr>)"
  by (auto simp: framer_feed_split grpc_split_decoded) (simp add: framer_Read_def map_idI)

theorem grpc_framer_cut_independent_witness:
  "framer_feed [[0, 0, 0], [0, 1, 65, 1], [0, 0, 0, 0]] new_framer
    = \<lparr>fr_buf = [], fr_seen = [\<lparr>g_Compressed = False, g_Data = [65]\<rparr>, \<lparr>g_Compressed = True, g_Data = []\<rparr>]\<rparr>"
proof -
  have "EncodeGRPCFrames [\<lparr>g_Compressed = False, g_Data = [65]\<rparr>, \<lparr>g_Compressed = True, g_Data = []\<rparr>]
      = Inr [0, 0, 0, 0, 1, 65, 1, 0, 0, 0, 0]"
    by (simp add: EncodeGRPCFrames_Inr grpc_ok_def grpc_frame_def be_bytes_numeral)
  then have "DecodeGRPCFrames (concat [[0, 0, 0], [0, 1, 65, 1], [0, 0, 0, 0]])
      = Inr [\<lparr>g_Compressed = False, g_Data = [65]\<rparr>, \<lparr>g_Compressed = True, g_Data = []\<rparr>]"
    by (intro DecodeGRPCFrames_encode) simp
  with grpc_framer_cut_independent show ?thesis by blast
qed

section \<open>Rewriting\<close>

fun grpc_emits :: "grpc_transform \<Rightarrow> grpc_message list \<Rightarrow> grpc_message list \<Rightarrow> bytes" where
  "grpc_emits tf seen [] = []"
| "grpc_emits tf seen (m # ms) = grpc_emit tf seen m @ grpc_emits tf (seen @ [m]) ms"

text \<open>What a stream becomes: each message transformed, an incomplete rest unchanged.\<close>

definition grpc_rewrite :: "grpc_transform \<Rightarrow> grpc_message list \<Rightarrow> bytes \<Rightarrow> bytes" where
  "grpc_rewrite tf seen s = grpc_emits tf seen (fst (grpc_split s)) @ snd (grpc_split s)"

lemma grpc_emits_append:
  "grpc_emits tf seen (xs @ ys) = grpc_emits tf seen xs @ grpc_emits tf (seen @ xs) ys"
  by (induction xs arbitrary: seen) auto

lemma tamper_drain_split:
  "tamper_drain tf g = g\<lparr>tr_in := snd (grpc_split (tr_in g)), tr_seen := tr_seen g @ fst (grpc_split (tr_in g)),
     tr_out := tr_out g @ grpc_emits tf (tr_seen g) (fst (grpc_split (tr_in g)))\<rparr>"
proof (induction tf g rule: tamper_drain.induct)
  case (1 tf g)
  show ?case
  proof (cases "grpc_take (tr_in g)")
    case None
    then show ?thesis by (subst tamper_drain.simps, subst (1 2 3) grpc_split.simps) simp
  next
    case (Some x)
    then obtain fl d r where x: "grpc_take (tr_in g) = Some (fl, d, r)" by (cases x) auto
    have s: "grpc_split (tr_in g) = (observed fl d # fst (grpc_split r), snd (grpc_split r))"
      by (subst grpc_split.simps) (simp add: x)
    show ?thesis unfolding s by (subst tamper_drain.simps) (simp add: x Let_def "1.IH" [OF x refl refl refl])
  qed
qed

lemma grpc_rewrite_append:
  "grpc_rewrite tf seen (s @ t) = grpc_emits tf seen (fst (grpc_split s))
     @ grpc_rewrite tf (seen @ fst (grpc_split s)) (snd (grpc_split s) @ t)"
  by (simp add: grpc_rewrite_def grpc_split_append [of s t] grpc_emits_append)

text \<open>What a reader has still to serve.\<close>

definition to_serve :: "grpc_transform \<Rightarrow> tamper_reader \<Rightarrow> bytes" where
  "to_serve tf g = tr_out g @ (case tr_err g of
       Some _ \<Rightarrow> []
     | None \<Rightarrow> grpc_rewrite tf (tr_seen g) (tr_in g @ concat (tr_chunks g) @ fst (tr_last g)))"

definition drained :: "tamper_reader \<Rightarrow> bool" where
  "drained g \<longleftrightarrow> fst (grpc_split (tr_in g)) = []"

lemma grpc_split_nothing: "fst (grpc_split s) = [] \<Longrightarrow> grpc_split s = ([], s)"
  by (subst (asm) grpc_split.simps, subst grpc_split.simps) (auto split: option.splits)

lemma grpc_rewrite_nothing: "fst (grpc_split s) = [] \<Longrightarrow> grpc_rewrite tf seen s = s"
  using grpc_split_nothing [of s] by (simp add: grpc_rewrite_def)

lemma to_serve_fill:
  assumes "tr_err g = None" and "drained g"
  shows "to_serve tf (tamper_fill tf g) = to_serve tf g"
    and "tr_err (tamper_fill tf g) = None \<or> tr_err (tamper_fill tf g) = Some (snd (tr_last g))"
    and "tr_last (tamper_fill tf g) = tr_last g" and "drained (tamper_fill tf g)"
proof -
  obtain c e where l: "tr_last g = (c, e)" by fastforce
  have emp: "grpc_split [] = ([], [])" by (subst grpc_split.simps) (simp add: grpc_take_def)
  have d: "fst (grpc_split (tr_in g)) = []" using assms(2) by (simp add: drained_def)
  show "to_serve tf (tamper_fill tf g) = to_serve tf g"
  proof (cases "tr_chunks g")
    case Nil
    show ?thesis
    proof (cases "c = []")
      case True
      then show ?thesis
        by (simp add: tamper_fill_def to_serve_def Nil l assms(1) grpc_rewrite_nothing [OF d])
    next
      case False
      then show ?thesis
        by (simp add: tamper_fill_def to_serve_def Nil l assms(1) tamper_drain_split grpc_rewrite_def)
    qed
  next
    case (Cons b cs)
    then show ?thesis
      using grpc_rewrite_append [of tf "tr_seen g" "tr_in g @ b" "concat cs @ c"]
      by (cases "b = []")
         (simp_all add: tamper_fill_def to_serve_def tamper_drain_split l assms(1))
  qed
  show "tr_err (tamper_fill tf g) = None \<or> tr_err (tamper_fill tf g) = Some (snd (tr_last g))"
    by (auto simp: tamper_fill_def tamper_drain_split Let_def l assms(1) split: list.split)
  show "tr_last (tamper_fill tf g) = tr_last g"
    by (auto simp: tamper_fill_def tamper_drain_split Let_def l split: list.split)
  show "drained (tamper_fill tf g)"
    by (cases "tr_chunks g") (simp_all add: tamper_fill_def tamper_drain_split Let_def l drained_def d emp grpc_split_leftover)
qed

lemma to_serve_loop:
  "drained g \<Longrightarrow> tr_err g = None \<or> tr_err g = Some (snd (tr_last g)) \<Longrightarrow>
    to_serve tf (fill_loop tf g) = to_serve tf g \<and> drained (fill_loop tf g)
    \<and> tr_last (fill_loop tf g) = tr_last g
    \<and> (tr_err (fill_loop tf g) = None \<or> tr_err (fill_loop tf g) = Some (snd (tr_last g)))
    \<and> (tr_out (fill_loop tf g) = [] \<longrightarrow> tr_err (fill_loop tf g) \<noteq> None)"
proof (induction tf g rule: fill_loop.induct)
  case (1 tf g)
  show ?case
  proof (cases "tr_out g = [] \<and> tr_err g = None")
    case True
    note f = to_serve_fill [OF conjunct2 [OF True] "1.prems"(1), of tf]
    from "1.IH" [OF True f(4)] f(2) have "to_serve tf (fill_loop tf (tamper_fill tf g)) = to_serve tf (tamper_fill tf g)
        \<and> drained (fill_loop tf (tamper_fill tf g))
        \<and> tr_last (fill_loop tf (tamper_fill tf g)) = tr_last (tamper_fill tf g)
        \<and> (tr_err (fill_loop tf (tamper_fill tf g)) = None \<or> tr_err (fill_loop tf (tamper_fill tf g)) = Some (snd (tr_last (tamper_fill tf g))))
        \<and> (tr_out (fill_loop tf (tamper_fill tf g)) = [] \<longrightarrow> tr_err (fill_loop tf (tamper_fill tf g)) \<noteq> None)"
      unfolding f(3) by blast
    with f(1,3) True show ?thesis by (subst (1 2 3 4 5 6 7) fill_loop.simps) simp
  next
    case False
    then have "fill_loop tf g = g" by (subst fill_loop.simps) auto
    with "1.prems" False show ?thesis by auto
  qed
qed

text \<open>A client reading with buffers of the given sizes, until an error is returned.\<close>

fun tamper_run :: "grpc_transform \<Rightarrow> nat list \<Rightarrow> tamper_reader \<Rightarrow> bytes \<times> string option" where
  "tamper_run tf [] g = ([], None)"
| "tamper_run tf (n # ns) g =
     (case tamper_Read tf n g of
        (b, Some e, g') \<Rightarrow> (b, Some e)
      | (b, None, g') \<Rightarrow> (b @ fst (tamper_run tf ns g'), snd (tamper_run tf ns g')))"

definition new_tamper_reader :: "bytes list \<Rightarrow> bytes \<times> string \<Rightarrow> tamper_reader" where
  "new_tamper_reader cs l = \<lparr>tr_chunks = cs, tr_last = l, tr_seen = [], tr_in = [], tr_out = [], tr_err = None\<rparr>"

lemma tamper_run_serves:
  assumes "drained g" and "tr_err g = None \<or> tr_err g = Some (snd (tr_last g))"
  shows "\<exists>rest. to_serve tf g = fst (tamper_run tf ns g) @ rest
    \<and> (\<forall>e. snd (tamper_run tf ns g) = Some e \<longrightarrow> rest = [] \<and> e = snd (tr_last g))"
  using assms
proof (induction ns arbitrary: g)
  case Nil
  show ?case by simp
next
  case (Cons n ns)
  let ?h = "fill_loop tf g"
  note L = to_serve_loop [OF Cons.prems, of tf]
  show ?case
  proof (cases "tr_out ?h = []")
    case True
    with L obtain e where "tr_err ?h = Some e" "e = snd (tr_last g)" by auto
    with True L show ?thesis by (auto simp: tamper_Read_def Let_def to_serve_def)
  next
    case False
    let ?g = "?h\<lparr>tr_out := drop n (tr_out ?h)\<rparr>"
    have "drained ?g" and "tr_err ?g = None \<or> tr_err ?g = Some (snd (tr_last ?g))"
      using L by (auto simp: drained_def)
    from Cons.IH [OF this] obtain rest where
      r: "to_serve tf ?g = fst (tamper_run tf ns ?g) @ rest"
         "\<forall>e. snd (tamper_run tf ns ?g) = Some e \<longrightarrow> rest = [] \<and> e = snd (tr_last g)"
      using L by auto
    have "to_serve tf ?h = take n (tr_out ?h) @ to_serve tf ?g"
      by (simp add: to_serve_def split: option.split)
    then have "to_serve tf g = (take n (tr_out ?h) @ fst (tamper_run tf ns ?g)) @ rest"
      using L r(1) by simp
    moreover have "tamper_run tf (n # ns) g = (take n (tr_out ?h) @ fst (tamper_run tf ns ?g), snd (tamper_run tf ns ?g))"
      using False by (simp add: tamper_Read_def Let_def)
    ultimately show ?thesis using r(2) by (intro exI [of _ rest]) simp
  qed
qed

lemma grpc_rewrite_decoded:
  "DecodeGRPCFrames s = Inr ms \<Longrightarrow> grpc_rewrite tf seen s = grpc_emits tf seen ms"
  by (simp add: grpc_rewrite_def grpc_split_decoded)


text \<open>A transform that drops the first message and rewrites the second.\<close>

definition demo_transform :: grpc_transform where
  "demo_transform seen m = (if seen = [] then (None, True) else (Some [66], False))"


section \<open>The field summary\<close>

lemma uvarint_from_len: "uvarint_from i x bs = (v, m) \<Longrightarrow> i \<le> 10 \<Longrightarrow> 0 < m \<Longrightarrow> m \<le> 10"
  by (induction i x bs rule: uvarint_from.induct) (auto split: if_splits)

lemma Uvarint_len: "Uvarint bs = (v, m) \<Longrightarrow> 0 < m \<Longrightarrow> m \<le> 10"
  by (auto simp: Uvarint_def dest: uvarint_from_len)

lemma proto_walk_total:
  assumes len: "int (length buf) < 2 ^ 61"
    and small: "\<And>k v m. Uvarint (drop k buf) = (v, m) \<Longrightarrow> 0 < m \<Longrightarrow> int v < 2 ^ 61"
  shows "0 \<le> i \<Longrightarrow> i \<le> int (length buf) \<Longrightarrow> proto_walk buf k i fs \<noteq> None"
proof (induction k arbitrary: i fs)
  case 0
  show ?case by simp
next
  case (Suc k)
  show ?case
  proof (cases "i < int (length buf)")
    case False
    then show ?thesis by simp
  next
    case True
    obtain tag n where t: "Uvarint (drop (nat i) buf) = (tag, n)" by fastforce
    show ?thesis
    proof (cases "n \<le> 0")
      case True
      with t Suc.prems show ?thesis by simp
    next
      case False
      then have n: "0 < n" "n \<le> 10" using Uvarint_len [OF t] by auto
      obtain v m where v: "Uvarint (drop (nat (i + n)) buf) = (v, m)" by fastforce
      have m: "0 < m \<Longrightarrow> m \<le> 10 \<and> int v < 2 ^ 61" using Uvarint_len [OF v] small [OF v] by auto
      have rec: "0 \<le> j \<Longrightarrow> j \<le> int (length buf) \<Longrightarrow> proto_walk buf k j fs' \<noteq> None" for j fs'
        by (rule Suc.IH)
      have w1: "0 < m \<Longrightarrow> wrap_int (i + n + m) = i + n + m"
        using Suc.prems len n m by (intro wrap_int_small) auto
      have w2: "0 < m \<Longrightarrow> wrap_int (i + n + wrap_int (m + int_of_u64 (word_of_nat v))) = i + n + (m + int v)"
      proof -
        assume "0 < m"
        with m have mv: "m \<le> 10" "int v < 2 ^ 61" "0 < m" by auto
        then have u: "int_of_u64 (word_of_nat v) = int v"
          using wrap_int_small [of "int v"] by (simp add: int_of_u64_def wrap_int_def)
        have "wrap_int (m + int v) = m + int v" using mv by (intro wrap_int_small) auto
        moreover have "wrap_int (i + n + (m + int v)) = i + n + (m + int v)"
          using mv Suc.prems len n by (intro wrap_int_small) auto
        ultimately show ?thesis by (simp add: u)
      qed
      show ?thesis
        using True False Suc.prems n m rec w1 w2 by (auto simp: t v Let_def)
    qed
  qed
qed

lemma proto_walk_negative: "i < 0 \<Longrightarrow> 0 < k \<Longrightarrow> proto_walk buf k i fs = None"
  by (cases k) auto

lemma proto_panics: "ProtoFieldSummary [0x0A, 0xF4, 0xFF, 0xFF, 0xFF, 0xFF, 0xFF, 0xFF, 0xFF, 0xFF, 0x01] = None"
proof -
  let ?b = "[0x0A, 0xF4, 0xFF, 0xFF, 0xFF, 0xFF, 0xFF, 0xFF, 0xFF, 0xFF, 0x01] :: bytes"
  have u1: "Uvarint ?b = (10, 1)" by (simp add: Uvarint_def)
  have u2: "Uvarint [0xF4, 0xFF, 0xFF, 0xFF, 0xFF, 0xFF, 0xFF, 0xFF, 0xFF, 0x01] = (2 ^ 64 - 12, 10)"
    by (simp add: Uvarint_def)
  have i: "int_of_u64 (word_of_nat (2 ^ 64 - 12)) = - 12"
    using wrap_int_small [of "-12"] by (simp add: int_of_u64_def wrap_int_def)
  have w: "wrap_int (1 + wrap_int (10 + - 12)) = - 1"
    using wrap_int_small [of "-2"] wrap_int_small [of "-1"] by simp
  have "proto_walk ?b (Suc 11) 0 [] = None"
    unfolding proto_walk.simps(2)
    using u1 u2 i w by (simp add: Let_def proto_walk_negative)
  then show ?thesis by (simp add: ProtoFieldSummary_def)
qed

text \<open>
  The field summary returns for every message whose varints stay below 2^61, but a peer can
  make it panic: eleven bytes that declare a field of 2^64 - 12 bytes send the position to
  a negative index.
\<close>

lemma proto_summary_panics_only_on_huge_lengths:
  "(int (length buf) < 2 ^ 61 \<longrightarrow>
     (\<forall>k v m. Uvarint (drop k buf) = (v, m) \<longrightarrow> 0 < m \<longrightarrow> int v < 2 ^ 61) \<longrightarrow>
     ProtoFieldSummary buf \<noteq> None)
   \<and> ProtoFieldSummary [0x0A, 0xF4, 0xFF, 0xFF, 0xFF, 0xFF, 0xFF, 0xFF, 0xFF, 0xFF, 0x01] = None"
  using proto_walk_total [of buf 0 12 "[]"] proto_panics by (simp add: ProtoFieldSummary_def)

lemma proto_summary_panics_only_on_huge_lengths_witness:
  "ProtoFieldSummary [8] \<noteq> None"
proof -
  have "int v < 2 ^ 61" if "Uvarint (drop k [8]) = (v, m)" "0 < m" for k v m
    using that by (cases k) (auto simp: Uvarint_def)
  then show ?thesis using proto_summary_panics_only_on_huge_lengths [of "[8]"] by simp
qed

end
