(* ===== verification/RequestBody.thy ===== *)
theory RequestBody
  imports ContentEncoding Grpc GoHttp
begin

text \<open>
  \<^verbatim>\<open>internal/protocol/request_body.go\<close>: the logical body of a captured request, checked against
  the bytes that were captured, and the conversion back to wire bytes that replay and the
  repeater send. Reading an HTTP/1 message is \<^verbatim>\<open>net/http\<close>: the parameter \<open>read_request\<close> gives what
  the code looks at, the header, the transfer encodings and the outcome of reading the body.
\<close>

record http_request =
  rq_Method :: string
  rq_URI :: string
  rq_Proto :: string
  rq_Host :: string
  rq_Header :: header
  rq_TransferEncoding :: "string list"
  rq_Body :: "string + bytes"

record request_body =
  rb_Body :: bytes
  rb_Messages :: "grpc_message list"

datatype body_error = NoBody | CannotReconstruct string | CannotEncode string | UnexpectedMessages string
  | UnframedBody | BodyUnavailable | ParseRequest string | ReadBody string | EncodingMismatch
  | BadEncoding codec_error | BodyMismatch | AmbiguousBody string | BadFrames grpc_error
  | BadCompressionFlag string | NoGrpcEncoding | BadContentLength string | MissingBody string

definition BodyRepresentationMeta :: string where "BodyRepresentationMeta = ''body-representation''"
definition BodyRepresentationDecoded :: string where "BodyRepresentationDecoded = ''decoded''"
definition BodyRepresentationUnavailable :: string where "BodyRepresentationUnavailable = ''unavailable''"

fun map_error :: "('e \<Rightarrow> 'f) \<Rightarrow> 'e + 'a \<Rightarrow> 'f + 'a" where
  "map_error g (Inl e) = Inl (g e)"
| "map_error g (Inr a) = Inr a"

lemma map_error_Inr [simp]: "map_error g r = Inr a \<longleftrightarrow> r = Inr a"
  by (cases r) auto

section \<open>Headers of a captured message\<close>

definition messageHeader :: "message \<Rightarrow> header" where
  "messageHeader m = m_Headers m"

definition requestContentEncoding :: "header \<Rightarrow> string" where
  "requestContentEncoding h = join '','' (hvalues h ''Content-Encoding'')"

definition canonicalContentEncoding :: "string \<Rightarrow> string" where
  "canonicalContentEncoding h = join '','' (map (\<lambda>p. to_lower (trim_space p)) (split_on '','' h))"

fun hasNonIdentity :: "string list \<Rightarrow> bool" where
  "hasNonIdentity [] = False"
| "hasNonIdentity (part # parts) =
     (let encoding = trim_space part in
      if encoding \<noteq> [] \<and> \<not> equal_fold encoding ''identity'' then True else hasNonIdentity parts)"

definition hasNonIdentityContentEncoding :: "string \<Rightarrow> bool" where
  "hasNonIdentityContentEncoding h = hasNonIdentity (split_on '','' h)"

definition representation :: "message \<Rightarrow> string" where
  "representation m = gget (m_Meta m) BodyRepresentationMeta []"

definition encodedBodyIsAmbiguous :: "message \<Rightarrow> bool" where
  "encodedBodyIsAmbiguous m =
     (if \<not> hasNonIdentityContentEncoding (requestContentEncoding (messageHeader m)) then False
      else representation m \<noteq> BodyRepresentationDecoded)"

definition validateCapturedContentEncoding :: "codecs \<Rightarrow> message \<Rightarrow> body_error + unit" where
  "validateCapturedContentEncoding C m =
     (case EncodeContentEncoding C [] (requestContentEncoding (messageHeader m)) of
        Inl e \<Rightarrow> Inl (BadEncoding e) | Inr _ \<Rightarrow> Inr ())"

definition validateAbsentBody :: "header \<Rightarrow> body_error + unit" where
  "validateAbsentBody h =
     (let cl = trim_space (hget h ''Content-Length'');
          te = trim_space (hget h ''Transfer-Encoding'');
          check_te = (if te \<noteq> [] \<and> \<not> equal_fold te ''identity'' then Inl (MissingBody te) else Inr ())
      in if cl \<noteq> [] then
           (case parse_int cl of
              None \<Rightarrow> Inl (BadContentLength cl)
            | Some n \<Rightarrow> if n < 0 then Inl (BadContentLength cl)
                else if n > 0 then Inl (MissingBody cl) else check_te)
         else check_te)"

section \<open>HTTP/1 and HTTP/2 bodies\<close>

definition capturedBodyWithoutRaw :: "codecs \<Rightarrow> message \<Rightarrow> body_error + bytes" where
  "capturedBodyWithoutRaw C m =
     rbind (validateCapturedContentEncoding C m) (\<lambda>_.
       if encodedBodyIsAmbiguous m then Inl (AmbiguousBody (requestContentEncoding (messageHeader m)))
       else if m_Body m \<noteq> [] then Inr (m_Body m)
       else rbind (validateAbsentBody (messageHeader m)) (\<lambda>_. Inr []))"

fun hasChunkedTransferEncoding :: "string list \<Rightarrow> bool" where
  "hasChunkedTransferEncoding [] = False"
| "hasChunkedTransferEncoding (e # es) = (if equal_fold e ''chunked'' then True else hasChunkedTransferEncoding es)"

definition crlfcrlf :: bytes where "crlfcrlf = [13, 10, 13, 10]"

definition rawHTTP1Entity :: "bytes \<Rightarrow> bytes" where
  "rawHTTP1Entity raw = (case index_of raw crlfcrlf of None \<Rightarrow> [] | Some i \<Rightarrow> drop (i + 4) raw)"

definition capturedHTTP1Body ::
    "codecs \<Rightarrow> (bytes \<Rightarrow> string + http_request) \<Rightarrow> message \<Rightarrow> body_error + bytes" where
  "capturedHTTP1Body C read_request m =
     (if representation m = BodyRepresentationUnavailable then Inl BodyUnavailable
      else if m_Raw m = [] then capturedBodyWithoutRaw C m
      else
        rbind (map_error ParseRequest (read_request (m_Raw m))) (\<lambda>req.
        rbind (map_error ReadBody (rq_Body req)) (\<lambda>wire.
        let encoding = requestContentEncoding (rq_Header req);
            stored = requestContentEncoding (messageHeader m)
        in if canonicalContentEncoding encoding \<noteq> canonicalContentEncoding stored then Inl EncodingMismatch
           else
             rbind (map_error BadEncoding (DecodeContentEncodingStrict C wire encoding)) (\<lambda>logical.
               if hasChunkedTransferEncoding (rq_TransferEncoding req) then
                 (if m_Body m = logical \<or> m_Body m = rawHTTP1Entity (m_Raw m) then Inr logical
                  else Inl BodyMismatch)
               else if logical = [] \<and> m_Body m = wire then Inr logical
               else if m_Body m \<noteq> [] \<and> m_Body m \<noteq> logical then Inl BodyMismatch
               else Inr logical))))"

definition isHTTP2HeaderDump :: "bytes \<Rightarrow> bool" where
  "isHTTP2HeaderDump raw = contains raw (bytes_of ('' HTTP/2'' @ [CHR 0x0D, CHR 0x0A]))"

definition capturedHTTP2Body :: "codecs \<Rightarrow> message \<Rightarrow> body_error + bytes" where
  "capturedHTTP2Body C m =
     (let rep = representation m; encoding = requestContentEncoding (messageHeader m) in
      if rep = BodyRepresentationUnavailable then Inl BodyUnavailable
      else if rep = BodyRepresentationDecoded \<and> m_Raw m \<noteq> [] \<and> \<not> isHTTP2HeaderDump (m_Raw m) then
        rbind (map_error BadEncoding (DecodeContentEncodingStrict C (m_Raw m) encoding)) (\<lambda>logical.
          if logical \<noteq> m_Body m then Inl BodyMismatch else Inr logical)
      else if m_Body m = [] then
        (if rep \<noteq> BodyRepresentationDecoded \<and> isHTTP2HeaderDump (m_Raw m) then Inl BodyUnavailable
         else if rep = [] \<and> m_Raw m = [] then
           rbind (validateCapturedContentEncoding C m) (\<lambda>_.
           rbind (validateAbsentBody (messageHeader m)) (\<lambda>_. Inr []))
         else capturedBodyWithoutRaw C m)
      else if m_Raw m \<noteq> [] \<and> m_Raw m = m_Body m then
        map_error BadEncoding (DecodeContentEncodingStrict C (m_Raw m) encoding)
      else
        rbind (validateCapturedContentEncoding C m) (\<lambda>_.
          if encodedBodyIsAmbiguous m then Inl (AmbiguousBody encoding) else Inr (m_Body m)))"

section \<open>gRPC bodies\<close>

definition capturedCompressionFlag :: "message \<Rightarrow> body_error + bool" where
  "capturedCompressionFlag m =
     (let value = trim_space (gget (m_Meta m) ''compressed'' []); l = to_lower value in
      if l = [] \<or> l = ''false'' then Inr False
      else if l = ''true'' then Inr True
      else Inl (BadCompressionFlag value))"

fun validateGRPCCompression :: "header \<Rightarrow> grpc_message list \<Rightarrow> body_error + unit" where
  "validateGRPCCompression h [] = Inr ()"
| "validateGRPCCompression h (m # ms) =
     (if \<not> g_Compressed m then validateGRPCCompression h ms
      else let encoding = trim_space (hget h ''Grpc-Encoding'') in
        if encoding = [] \<or> equal_fold encoding ''identity'' then Inl NoGrpcEncoding
        else validateGRPCCompression h ms)"

definition decodeCapturedGRPCWire :: "codecs \<Rightarrow> bytes \<Rightarrow> string \<Rightarrow> body_error + grpc_message list" where
  "decodeCapturedGRPCWire C wire enc =
     rbind (map_error BadEncoding (DecodeContentEncodingStrict C wire enc)) (\<lambda>framed.
       map_error BadFrames (DecodeGRPCFrames framed))"

fun grpcMessagesEqual :: "grpc_message list \<Rightarrow> grpc_message list \<Rightarrow> bool" where
  "grpcMessagesEqual [] [] = True"
| "grpcMessagesEqual (l # ls) (r # rs) =
     (if g_Compressed l \<noteq> g_Compressed r \<or> g_Data l \<noteq> g_Data r then False else grpcMessagesEqual ls rs)"
| "grpcMessagesEqual _ _ = False"

fun collect_grpc_messages :: "message list \<Rightarrow> body_error + grpc_message list" where
  "collect_grpc_messages [] = Inr []"
| "collect_grpc_messages (m # ms) =
     (if m_Direction m \<noteq> ClientToServer then collect_grpc_messages ms
      else rbind (capturedCompressionFlag m) (\<lambda>compressed.
        if m_Raw m \<noteq> [] \<and> m_Raw m \<noteq> m_Body m then Inl BodyMismatch
        else rbind (collect_grpc_messages ms) (\<lambda>rest.
          Inr (\<lparr>g_Compressed = compressed, g_Data = m_Body m\<rparr> # rest))))"

definition capturedGRPCBody :: "codecs \<Rightarrow> message \<Rightarrow> message list \<Rightarrow> body_error + request_body" where
  "capturedGRPCBody C req msgs =
     (let h = messageHeader req; outer = requestContentEncoding h; rep = representation req in
      if rep = BodyRepresentationUnavailable then Inl BodyUnavailable
      else
        rbind (collect_grpc_messages msgs) (\<lambda>messages.
        rbind (if rep = BodyRepresentationDecoded \<and> m_Body req \<noteq> [] then
                 (if m_Raw req \<noteq> [] \<and> m_Raw req \<noteq> m_Body req then Inl BodyMismatch
                  else rbind (decodeCapturedGRPCWire C (m_Body req) outer) (\<lambda>parsed.
                    if messages \<noteq> [] \<and> \<not> grpcMessagesEqual messages parsed then Inl BodyMismatch
                    else Inr parsed))
               else if messages = [] \<and> m_Body req \<noteq> [] then decodeCapturedGRPCWire C (m_Body req) outer
               else Inr messages) (\<lambda>messages'.
        rbind (if messages' = [] then
                 (if rep \<noteq> BodyRepresentationDecoded \<and> isHTTP2HeaderDump (m_Raw req) then Inl BodyUnavailable
                  else validateAbsentBody h)
               else Inr ()) (\<lambda>_.
        rbind (validateGRPCCompression h messages') (\<lambda>_.
          Inr \<lparr>rb_Body = [], rb_Messages = messages'\<rparr>)))))"

section \<open>The two directions\<close>

definition CapturedRequestBody ::
    "codecs \<Rightarrow> (bytes \<Rightarrow> string + http_request) \<Rightarrow> flow option \<Rightarrow> body_error + request_body" where
  "CapturedRequestBody C read_request fo =
     (case fo of
        None \<Rightarrow> Inl NoBody
      | Some f \<Rightarrow> (case f_Request f of
            None \<Rightarrow> Inl NoBody
          | Some req \<Rightarrow>
              if f_Protocol f = ProtoHTTP1 then
                rbind (capturedHTTP1Body C read_request req) (\<lambda>b. Inr \<lparr>rb_Body = b, rb_Messages = []\<rparr>)
              else if f_Protocol f = ProtoHTTP2 then
                rbind (capturedHTTP2Body C req) (\<lambda>b. Inr \<lparr>rb_Body = b, rb_Messages = []\<rparr>)
              else if f_Protocol f = ProtoGRPC then capturedGRPCBody C req (f_Messages f)
              else Inl (CannotReconstruct (f_Protocol f))))"

definition EncodeRequestBody :: "codecs \<Rightarrow> string \<Rightarrow> header \<Rightarrow> request_body \<Rightarrow> body_error + bytes" where
  "EncodeRequestBody C proto h rb =
     rbind (if proto = ProtoHTTP1 \<or> proto = ProtoHTTP2 then
              (if rb_Messages rb \<noteq> [] then Inl (UnexpectedMessages proto) else Inr (rb_Body rb))
            else if proto = ProtoGRPC then
              (if rb_Body rb \<noteq> [] then Inl UnframedBody
               else rbind (validateGRPCCompression h (rb_Messages rb)) (\<lambda>_.
                 map_error BadFrames (EncodeGRPCFrames (rb_Messages rb))))
            else Inl (CannotEncode proto)) (\<lambda>logical.
       map_error BadEncoding (EncodeContentEncoding C logical (requestContentEncoding h)))"

section \<open>Properties\<close>



lemma validateGRPCCompression_unit: "validateGRPCCompression h ms = Inr u \<Longrightarrow> validateGRPCCompression h ms = Inr ()"
  by simp

lemma capturedGRPCBody_Inr:
  assumes "capturedGRPCBody C req msgs = Inr rb"
  shows "rb_Body rb = []" and "validateGRPCCompression (messageHeader req) (rb_Messages rb) = Inr ()"
    and "representation req = BodyRepresentationDecoded \<Longrightarrow> m_Body req \<noteq> [] \<Longrightarrow>
      decodeCapturedGRPCWire C (m_Body req) (requestContentEncoding (messageHeader req)) = Inr (rb_Messages rb)"
  using assms by (auto simp: capturedGRPCBody_def Let_def rbind_eq_Inr split: if_splits)

lemma capturedHTTP1Body_Inr:
  assumes "capturedHTTP1Body C rr m = Inr b" and "m_Raw m \<noteq> []"
  shows "\<exists>rq wire. rr (m_Raw m) = Inr rq \<and> rq_Body rq = Inr wire
     \<and> DecodeContentEncodingStrict C wire (requestContentEncoding (rq_Header rq)) = Inr b
     \<and> m_Body m \<in> {[], b, wire, rawHTTP1Entity (m_Raw m)}"
  using assms by (auto simp: capturedHTTP1Body_def Let_def rbind_eq_Inr split: if_splits)


definition demo_request_message :: message where
  "demo_request_message = \<lparr>m_Direction = ClientToServer, m_Summary = [], m_Headers = [], m_Body = [0, 0, 0, 0, 0],
     m_Raw = [], m_Meta = [(BodyRepresentationMeta, BodyRepresentationDecoded)]\<rparr>"

definition demo_grpc_flow :: flow where
  "demo_grpc_flow = (demo_heap 0)\<lparr>f_Protocol := ProtoGRPC, f_Request := Some demo_request_message\<rparr>"


end
