(* ===== verification/Substitute.thy ===== *)
theory Substitute
  imports GoStrings
begin

text \<open>
  \<^verbatim>\<open>internal/repeater/substitute.go\<close>: the \<^verbatim>\<open>{{name}}\<close> markers. The regular expression
  \<^verbatim>\<open>\{\{\s*([A-Za-z0-9_.\-]+)\s*\}\}\<close> has disjoint character classes, so a match at a position is
  unique; \<open>var_at\<close> is that match and \<open>segments\<close> the left to right scan of
  \<^verbatim>\<open>FindAllStringSubmatch\<close> and \<^verbatim>\<open>ReplaceAllStringFunc\<close>.
\<close>

definition re_space :: "char \<Rightarrow> bool" where
  "re_space c \<longleftrightarrow> c \<in> set [CHR 0x09, CHR 0x0A, CHR 0x0C, CHR 0x0D, CHR 0x20]"

definition name_char :: "char \<Rightarrow> bool" where
  "name_char c \<longleftrightarrow> (let n = of_char c :: nat in
     65 \<le> n \<and> n \<le> 90 \<or> 97 \<le> n \<and> n \<le> 122 \<or> 48 \<le> n \<and> n \<le> 57 \<or> n = 95 \<or> n = 46 \<or> n = 45)"

text \<open>A marker at the front of a string: its name and what follows it.\<close>

definition var_at :: "string \<Rightarrow> (string \<times> string) option" where
  "var_at s =
     (if prefix ''{{'' s then
        (let s1 = dropWhile re_space (drop 2 s);
             name = takeWhile name_char s1;
             s2 = dropWhile re_space (dropWhile name_char s1)
         in if name \<noteq> [] \<and> prefix ''}}'' s2 then Some (name, drop 2 s2) else None)
      else None)"

datatype segment = Text char | Marker string string

lemma var_at_shrinks: "var_at s = Some (name, rest) \<Longrightarrow> \<exists>m. s = m @ rest \<and> m \<noteq> []"
proof -
  assume a: "var_at s = Some (name, rest)"
  define s1 where "s1 = dropWhile re_space (drop 2 s)"
  define s2 where "s2 = dropWhile re_space (dropWhile name_char s1)"
  from a have p: "prefix ''{{'' s" and r: "rest = drop 2 s2"
    by (auto simp: var_at_def s1_def s2_def Let_def split: if_splits)
  have suf: "suffix s2 (drop 2 s)"
    unfolding s2_def s1_def by (meson suffix_dropWhile suffix_order.trans)
  have "suffix rest (drop 2 s)" unfolding r using suf suffix_drop suffix_order.trans by blast
  then obtain m where m: "drop 2 s = m @ rest" by (auto simp: suffix_def)
  from p have "s = ''{{'' @ drop 2 s" by (auto simp: prefix_def)
  with m have "s = (''{{'' @ m) @ rest" by simp
  then show ?thesis by blast
qed

lemma var_at_length: "var_at s = Some (name, rest) \<Longrightarrow> length rest < length s"
  using var_at_shrinks [of s name rest] by auto

function segments :: "string \<Rightarrow> segment list" where
  "segments [] = []"
| "segments (c # s) = (case var_at (c # s) of
       None \<Rightarrow> Text c # segments s
     | Some (name, rest) \<Rightarrow> Marker name (take (length (c # s) - length rest) (c # s)) # segments rest)"
  by pat_completeness auto
termination
  by (relation "measure length") (auto dest: var_at_length)

fun new_names :: "string list \<Rightarrow> segment list \<Rightarrow> string list" where
  "new_names seen [] = []"
| "new_names seen (Text c # sg) = new_names seen sg"
| "new_names seen (Marker n t # sg) =
     (if n \<in> set seen then new_names seen sg else n # new_names (n # seen) sg)"

definition Variables :: "string \<Rightarrow> string list" where
  "Variables s = new_names [] (segments s)"

fun fill_segment :: "string gomap \<Rightarrow> segment \<Rightarrow> string" where
  "fill_segment vars (Text c) = [c]"
| "fill_segment vars (Marker name text) = (case map_of vars name of Some v \<Rightarrow> v | None \<Rightarrow> text)"

definition Substitute :: "string \<Rightarrow> string gomap \<Rightarrow> string" where
  "Substitute s vars = concat (map (fill_segment vars) (segments s))"

section \<open>Properties\<close>

lemma new_names_set:
  "set (new_names seen sg) = {n. \<exists>t. Marker n t \<in> set sg} - set seen \<and> distinct (new_names seen sg)"
  by (induction seen sg rule: new_names.induct) auto

lemma segments_text: "concat (map (fill_segment []) (segments s)) = s"
proof (induction s rule: segments.induct)
  case 1
  show ?case by simp
next
  case (2 c s)
  show ?case
  proof (cases "var_at (c # s)")
    case None
    with 2 show ?thesis by simp
  next
    case (Some p)
    then obtain name rest where p: "var_at (c # s) = Some (name, rest)" by (cases p) auto
    obtain m where m: "c # s = m @ rest" using var_at_shrinks [OF p] by blast
    have t: "take (length (c # s) - length rest) (c # s) = m" unfolding m by simp
    have "segments (c # s) = Marker name m # segments rest" by (simp add: p t [simplified])
    with "2.IH"(2) [OF p refl] show ?thesis unfolding m by simp
  qed
qed

lemma fill_cong:
  "(\<And>n t. Marker n t \<in> set sg \<Longrightarrow> map_of vars n = map_of vars' n) \<Longrightarrow>
    concat (map (fill_segment vars) sg) = concat (map (fill_segment vars') sg)"
proof (induction sg)
  case (Cons x sg)
  have "fill_segment vars x = fill_segment vars' x" using Cons.prems by (cases x) force+
  moreover have "concat (map (fill_segment vars) sg) = concat (map (fill_segment vars') sg)"
    by (rule Cons.IH) (use Cons.prems in auto)
  ultimately show ?case by simp
qed simp

lemma segments_append_plain: "CHR ''{'' \<notin> set a \<Longrightarrow> segments (a @ b) = map Text a @ segments b"
proof (induction a)
  case (Cons c a)
  then have "var_at ((c # a) @ b) = None" by (auto simp: var_at_def)
  with Cons show ?case by simp
qed simp

lemma name_char_not_space: "name_char c \<Longrightarrow> \<not> re_space c"
  by (auto simp: name_char_def re_space_def Let_def)

lemma name_char_not_brace: "\<not> name_char (CHR ''}'')" "\<not> re_space (CHR ''}'')"
  by (simp_all add: name_char_def re_space_def)

lemma var_at_marker:
  assumes "name \<noteq> []" and "list_all name_char name"
  shows "var_at (''{{'' @ name @ ''}}'' @ rest) = Some (name, rest)"
proof -
  have ns: "\<not> re_space (hd name)" using assms name_char_not_space by (cases name) auto
  have d: "dropWhile re_space (name @ ''}}'' @ rest) = name @ ''}}'' @ rest"
    using ns assms(1) by (cases name) auto
  have t: "takeWhile name_char (name @ ''}}'' @ rest) = name" "dropWhile name_char (name @ ''}}'' @ rest) = ''}}'' @ rest"
    using assms(2) name_char_not_brace by (auto simp: list_all_iff takeWhile_append2 dropWhile_append2)
  have e: "dropWhile re_space (''}}'' @ rest) = ''}}'' @ rest" using name_char_not_brace by simp
  show ?thesis
    using assms(1) by (simp add: var_at_def Let_def d [simplified] t [simplified] e [simplified])
qed

lemma Substitute_marker:
  assumes "CHR ''{'' \<notin> set a" and "name \<noteq> []" and "list_all name_char name"
  shows "Substitute (a @ ''{{'' @ name @ ''}}'' @ b) vars =
    a @ (case map_of vars name of Some v \<Rightarrow> v | None \<Rightarrow> ''{{'' @ name @ ''}}'') @ Substitute b vars"
proof -
  have v: "var_at (CHR ''{'' # CHR ''{'' # name @ CHR ''}'' # CHR ''}'' # b) = Some (name, b)"
    using var_at_marker [OF assms(2,3), of b] by simp
  have "concat (map (fill_segment vars) (map Text a)) = a" by (induction a) auto
  moreover have "take (length (''{{'' @ name @ ''}}'' @ b) - length b) (''{{'' @ name @ ''}}'' @ b) = ''{{'' @ name @ ''}}''"
    by (simp add: take_Cons')
  ultimately show ?thesis
    using v by (simp add: Substitute_def segments_append_plain [OF assms(1)] split: option.split)
qed

text \<open>
  Substitution touches markers only. The variables reported are distinct and are all that
  matters: two value maps that agree on them give the same request, and with no value for any of
  them the text is unchanged; a marker is replaced by its value verbatim, with no second pass
  over it, or stays visible if it has none.
\<close>

lemma substitution_fills_only_markers:
  "distinct (Variables s) \<and>
   ((\<forall>n \<in> set (Variables s). map_of vars n = map_of vars' n) \<longrightarrow> Substitute s vars = Substitute s vars') \<and>
   ((\<forall>n \<in> set (Variables s). map_of vars n = None) \<longrightarrow> Substitute s vars = s) \<and>
   (CHR ''{'' \<notin> set a \<longrightarrow> name \<noteq> [] \<longrightarrow> list_all name_char name \<longrightarrow>
     Substitute (a @ ''{{'' @ name @ ''}}'' @ b) vars =
       a @ (case map_of vars name of Some v \<Rightarrow> v | None \<Rightarrow> ''{{'' @ name @ ''}}'') @ Substitute b vars)"
proof (intro conjI impI)
  have names: "Marker n t \<in> set (segments s) \<Longrightarrow> n \<in> set (Variables s)" for n t
    using new_names_set [of "[]" "segments s"] by (auto simp: Variables_def)
  show "distinct (Variables s)" using new_names_set by (simp add: Variables_def)
  show "Substitute s vars = Substitute s vars'" if "\<forall>n \<in> set (Variables s). map_of vars n = map_of vars' n"
    unfolding Substitute_def using that names by (intro fill_cong) blast
  show "Substitute s vars = s" if "\<forall>n \<in> set (Variables s). map_of vars n = None"
  proof -
    have "concat (map (fill_segment vars) (segments s)) = concat (map (fill_segment []) (segments s))"
      using that names by (intro fill_cong) simp
    then show ?thesis by (simp add: Substitute_def segments_text)
  qed
qed (rule Substitute_marker)

lemma substitution_fills_only_markers_witness:
  "Substitute (''/u/'' @ ''{{'' @ ''id'' @ ''}}'' @ ''?q={{x}}'') [(''id'', ''{{x}}'')] = ''/u/{{x}}?q={{x}}''"
proof -
  have "list_all name_char ''id''" by code_simp
  moreover have "Substitute ''?q={{x}}'' [(''id'', ''{{x}}'')] = ''?q={{x}}''" by code_simp
  ultimately show ?thesis
    using substitution_fills_only_markers [where a = "''/u/''" and name = "''id''" and b = "''?q={{x}}''"
        and vars = "[(''id'', ''{{x}}'')]"] by simp
qed

end
