(* ===== verification/Attack.thy ===== *)
theory Attack
  imports Prelude
begin

text \<open>
  \<^verbatim>\<open>internal/repeater/attack.go\<close>: the jobs of an intruder run. The iterator reuses one map
  between yields; the model returns the snapshots at the yields, in order, and a caller that
  stops early sees a prefix of them. The counters of the cluster bomb are the code's odometer.
\<close>

datatype attack_mode = SingleMode | Sniper | BatteringRam | Pitchfork | ClusterBomb

fun mode_string :: "attack_mode \<Rightarrow> string" where
  "mode_string Sniper = ''sniper''"
| "mode_string BatteringRam = ''battering-ram''"
| "mode_string Pitchfork = ''pitchfork''"
| "mode_string ClusterBomb = ''cluster-bomb''"
| "mode_string SingleMode = ''single''"

definition Modes :: "attack_mode list" where
  "Modes = [SingleMode, Sniper, BatteringRam, Pitchfork, ClusterBomb]"

record attack =
  a_Mode :: attack_mode
  a_Positions :: "string list"
  a_Lists :: "string list list"
  a_Base :: "string gomap"

type_synonym job = "string gomap"

text \<open>\<^verbatim>\<open>base\<close>: a copy of the baseline.\<close>

definition attack_base :: "attack \<Rightarrow> job" where
  "attack_base a = a_Base a"

text \<open>The sniper: the payloads of one position, then its baseline back; a missing list ends the run.\<close>

fun sniper_payloads :: "string \<Rightarrow> string list \<Rightarrow> job \<Rightarrow> job list \<times> job" where
  "sniper_payloads pos [] job = ([], job)"
| "sniper_payloads pos (p # ps) job =
     (let job1 = gput job pos p; (js, job2) = sniper_payloads pos ps job1 in (job1 # js, job2))"

fun sniper :: "job \<Rightarrow> string list \<Rightarrow> string list list \<Rightarrow> job \<Rightarrow> job list" where
  "sniper bs [] lsts job = []"
| "sniper bs (pos # ps) [] job = []"
| "sniper bs (pos # ps) (l # ls) job =
     (let (js, job1) = sniper_payloads pos l job;
          job2 = (case map_of bs pos of Some baseline \<Rightarrow> gput job1 pos baseline | None \<Rightarrow> gdel job1 pos)
      in js @ sniper bs ps ls job2)"

fun ram :: "string list \<Rightarrow> string list \<Rightarrow> job \<Rightarrow> job list" where
  "ram positions [] job = []"
| "ram positions (p # ps) job =
     (let job1 = fold (\<lambda>pos j. gput j pos p) positions job in job1 # ram positions ps job1)"

text \<open>The least length, -1 before the first list; \<^verbatim>\<open>None\<close> if a position has no list.\<close>

fun pitch_len :: "string list \<Rightarrow> string list list \<Rightarrow> int \<Rightarrow> int option" where
  "pitch_len [] lsts n = Some n"
| "pitch_len (pos # ps) [] n = None"
| "pitch_len (pos # ps) (l # ls) n =
     pitch_len ps ls (if n < 0 \<or> int (length l) < n then int (length l) else n)"

fun pitch_put :: "string list \<Rightarrow> string list list \<Rightarrow> nat \<Rightarrow> job \<Rightarrow> job" where
  "pitch_put (pos # ps) (l # ls) k job = pitch_put ps ls k (gput job pos (l ! k))"
| "pitch_put _ _ k job = job"

fun pitch :: "string list \<Rightarrow> string list list \<Rightarrow> nat list \<Rightarrow> job \<Rightarrow> job list" where
  "pitch positions lsts [] job = []"
| "pitch positions lsts (k # ks) job =
     (let job1 = pitch_put positions lsts k job in job1 # pitch positions lsts ks job1)"

text \<open>One step of the odometer, from the given digit leftwards; \<^verbatim>\<open>None\<close> when it has run over.\<close>

fun bump :: "nat list \<Rightarrow> nat list \<Rightarrow> nat \<Rightarrow> nat list option" where
  "bump lens idx 0 = None"
| "bump lens idx (Suc i) =
     (if idx ! i + 1 < lens ! i then Some (idx[i := idx ! i + 1])
      else if i = 0 then None else bump lens (idx[i := 0]) i)"

definition bomb_put :: "string list \<Rightarrow> string list list \<Rightarrow> nat list \<Rightarrow> job \<Rightarrow> job" where
  "bomb_put positions lsts idx job =
     fold (\<lambda>i j. gput j (positions ! i) (lsts ! i ! (idx ! i))) [0..<length idx] job"

text \<open>The loop of the cluster bomb, with the number of turns that are enough as fuel.\<close>

fun bomb :: "nat \<Rightarrow> string list \<Rightarrow> string list list \<Rightarrow> nat list \<Rightarrow> job \<Rightarrow> job list option" where
  "bomb 0 positions lsts idx job = None"
| "bomb (Suc fuel) positions lsts idx job =
     (let job1 = bomb_put positions lsts idx job in
      case bump (map length lsts) idx (length idx) of
        None \<Rightarrow> Some [job1]
      | Some idx' \<Rightarrow> map_option ((#) job1) (bomb fuel positions lsts idx' job1))"

definition clusterBomb :: "attack \<Rightarrow> job \<Rightarrow> job list option" where
  "clusterBomb a job =
     (let n = min (length (a_Lists a)) (length (a_Positions a)); lsts = take n (a_Lists a) in
      if n = 0 then Some [job]
      else if list_ex (\<lambda>l. l = []) lsts then Some []
      else bomb (prod_list (map length lsts)) (a_Positions a) lsts (replicate n 0) job)"

definition Jobs :: "attack \<Rightarrow> job list option" where
  "Jobs a =
     (let job = attack_base a in
      case a_Mode a of
        Sniper \<Rightarrow> Some (sniper (a_Base a) (a_Positions a) (a_Lists a) job)
      | BatteringRam \<Rightarrow> (case a_Lists a of [] \<Rightarrow> Some [] | l # _ \<Rightarrow> Some (ram (a_Positions a) l job))
      | Pitchfork \<Rightarrow> (case pitch_len (a_Positions a) (a_Lists a) (- 1) of
            None \<Rightarrow> Some []
          | Some n \<Rightarrow> Some (pitch (a_Positions a) (a_Lists a) [0..<nat n] job))
      | ClusterBomb \<Rightarrow> clusterBomb a job
      | SingleMode \<Rightarrow> Some [job])"

section \<open>What each mode sends\<close>

text \<open>Values at positions, over the baseline.\<close>

definition put :: "string \<times> 'v \<Rightarrow> (string \<Rightarrow> 'v option) \<Rightarrow> string \<Rightarrow> 'v option" where
  "put kv m = m(fst kv \<mapsto> snd kv)"

definition assign :: "job \<Rightarrow> string list \<Rightarrow> string list \<Rightarrow> string \<Rightarrow> string option" where
  "assign bs ps vs = fold put (zip ps vs) (map_of bs)"

definition attack_spec :: "attack \<Rightarrow> (string \<Rightarrow> string option) list" where
  "attack_spec a = (let ps = a_Positions a; ls = a_Lists a; bs = a_Base a in
     case a_Mode a of
       SingleMode \<Rightarrow> [map_of bs]
     | Sniper \<Rightarrow> concat (map (\<lambda>(p, l). map (\<lambda>v. put (p, v) (map_of bs)) l) (zip ps ls))
     | BatteringRam \<Rightarrow> (if ls = [] then [] else map (\<lambda>v. assign bs ps (map (\<lambda>_. v) ps)) (hd ls))
     | Pitchfork \<Rightarrow> (if ps = [] \<or> length ls < length ps then []
         else map (\<lambda>k. assign bs ps (map (\<lambda>l. l ! k) ls)) [0..<Min (set (map length (take (length ps) ls)))])
     | ClusterBomb \<Rightarrow> map (assign bs ps) (product_lists (take (length ps) ls)))"

text \<open>Putting all positions hides what an earlier job put there.\<close>

lemma fold_put_cong:
  "\<forall>k. k \<notin> fst ` set kvs \<longrightarrow> m k = m' k \<Longrightarrow> fold put kvs m = fold put kvs m'"
proof (induction kvs arbitrary: m m')
  case (Cons kv kvs)
  have "fold put kvs (put kv m) = fold put kvs (put kv m')"
    using Cons.prems by (intro Cons.IH) (auto simp: put_def)
  then show ?case by simp
qed auto

lemma fold_put_other:
  "k \<notin> fst ` set kvs \<Longrightarrow> fold put kvs m k = m k"
  by (induction kvs arbitrary: m) (auto simp: put_def)

lemma map_of_fold_gput:
  "map_of (fold (\<lambda>(p, v) j. gput j p v) kvs job) = fold put kvs (map_of job)"
  by (induction kvs arbitrary: job) (auto simp: put_def simp del: fun_upd_apply)

section \<open>Sniper\<close>

lemma put_put [simp]: "put (p, v) (put (p, w) m) = put (p, v) m"
  by (simp add: put_def)

lemma map_of_gput_put: "map_of (gput m p v) = put (p, v) (map_of m)"
  by (simp add: put_def)

lemma put_same [simp]: "put (p, v) m p = Some v"
  by (simp add: put_def)

lemma put_other [simp]: "k \<noteq> p \<Longrightarrow> put (p, v) m k = m k"
  by (simp add: put_def)

lemma sniper_payloads_spec:
  "map map_of (fst (sniper_payloads p l job)) = map (\<lambda>v. put (p, v) (map_of job)) l"
proof (induction p l job rule: sniper_payloads.induct)
  case (2 p v vs job)
  then show ?case by (simp add: Let_def map_of_gput_put split_beta del: map_of_gput)
qed simp

lemma sniper_payloads_rest:
  "k \<noteq> p \<Longrightarrow> map_of (snd (sniper_payloads p l job)) k = map_of job k"
  by (induction p l job rule: sniper_payloads.induct)
     (simp_all add: Let_def split_beta)

lemma sniper_spec:
  "map_of job = map_of bs \<Longrightarrow> map map_of (sniper bs ps ls job)
    = concat (map (\<lambda>(p, l). map (\<lambda>v. put (p, v) (map_of bs)) l) (zip ps ls))"
proof (induction bs ps ls job rule: sniper.induct)
  case (3 bs p ps l ls job)
  let ?sp = "sniper_payloads p l job"
  define job2 where "job2 = (case map_of bs p of Some v \<Rightarrow> gput (snd ?sp) p v | None \<Rightarrow> gdel (snd ?sp) p)"
  have "map_of job2 k = map_of bs k" for k
    using sniper_payloads_rest [of k p l job] "3.prems"
    by (cases "k = p") (auto simp: job2_def split: option.split)
  then have e: "map_of job2 = map_of bs" by blast
  have "sniper bs (p # ps) (l # ls) job = fst ?sp @ sniper bs ps ls job2"
    by (simp add: split_beta Let_def job2_def)
  moreover have "map map_of (sniper bs ps ls job2)
      = concat (map (\<lambda>(p, l). map (\<lambda>v. put (p, v) (map_of bs)) l) (zip ps ls))"
    using "3.IH" [of ?sp "fst ?sp" "snd ?sp" job2] e by (simp add: job2_def)
  ultimately show ?case
    using sniper_payloads_spec [of p l job] "3.prems" by simp
qed simp_all

section \<open>Battering ram and pitchfork\<close>

lemma ram_spec:
  "(\<forall>k. k \<notin> set ps \<longrightarrow> map_of job k = map_of bs k) \<Longrightarrow>
    map map_of (ram ps l job) = map (\<lambda>v. assign bs ps (map (\<lambda>_. v) ps)) l"
proof (induction ps l job rule: ram.induct)
  case (2 ps v l job)
  let ?job = "fold (\<lambda>pos j. gput j pos v) ps job"
  have z: "fold (\<lambda>pos j. gput j pos v) ps job = fold (\<lambda>(p, v) j. gput j p v) (zip ps (map (\<lambda>_. v) ps)) job"
    by (induction ps arbitrary: job) auto
  have keys: "fst ` set (zip ps (map (\<lambda>_. v) ps)) = set ps" by (induction ps) auto
  have "map_of ?job = assign bs ps (map (\<lambda>_. v) ps)"
    unfolding z map_of_fold_gput assign_def using "2.prems" keys by (intro fold_put_cong) auto
  moreover have "\<forall>k. k \<notin> set ps \<longrightarrow> map_of ?job k = map_of bs k"
    unfolding z map_of_fold_gput using "2.prems" keys by (auto simp: fold_put_other)
  ultimately show ?case using "2.IH" [OF refl] by (simp add: Let_def)
qed simp

lemma pitch_len_spec:
  "pitch_len ps ls n =
    (if length ls < length ps then None
     else if ps = [] then Some n
     else Some (if n < 0 then int (Min (set (map length (take (length ps) ls))))
                else min n (int (Min (set (map length (take (length ps) ls)))))))"
proof (induction ps ls n rule: pitch_len.induct)
  case (3 p ps l ls n)
  have mi: "Min (set (map length (take (length (p # ps)) (l # ls))))
      = (if ps = [] \<or> ls = [] then length l else min (length l) (Min (set (map length (take (length ps) ls)))))"
    by (cases "take (length ps) ls") auto
  from 3 show ?case unfolding mi by (auto simp: min_def)
qed simp_all

lemma pitch_put_zip:
  "length ps \<le> length ls \<Longrightarrow> map_of (pitch_put ps ls k job)
    = fold put (zip ps (map (\<lambda>l. l ! k) ls)) (map_of job)"
  by (induction ps ls k job rule: pitch_put.induct) (auto simp: put_def)

lemma pitch_spec:
  assumes "length ps \<le> length ls"
  shows "(\<forall>k. k \<notin> set ps \<longrightarrow> map_of job k = map_of bs k) \<Longrightarrow>
    map map_of (pitch ps ls ks job) = map (\<lambda>k. assign bs ps (map (\<lambda>l. l ! k) ls)) ks"
proof (induction ks arbitrary: job)
  case (Cons k ks)
  have keys: "fst ` set (zip ps (map (\<lambda>l. l ! k) ls)) = set ps"
    using assms by (metis length_map map_fst_zip_take min_absorb1 set_map take_all order_refl)
  have e: "map_of (pitch_put ps ls k job) = assign bs ps (map (\<lambda>l. l ! k) ls)"
    unfolding pitch_put_zip [OF assms] assign_def using Cons.prems keys by (intro fold_put_cong) auto
  moreover have "\<forall>x. x \<notin> set ps \<longrightarrow> map_of (pitch_put ps ls k job) x = map_of bs x"
    unfolding pitch_put_zip [OF assms] using Cons.prems keys by (auto simp: fold_put_other)
  ultimately show ?case using Cons.IH by (simp add: Let_def)
qed simp

section \<open>Cluster bomb\<close>

text \<open>The index vectors from one on, in the order the odometer passes them.\<close>

fun idx_from :: "nat list \<Rightarrow> nat list \<Rightarrow> nat list list" where
  "idx_from (l # lens) (i # idx) = map ((#) i) (idx_from lens idx)
     @ concat (map (\<lambda>j. map ((#) j) (product_lists (map (\<lambda>n. [0..<n]) lens))) [Suc i..<l])"
| "idx_from _ _ = [[]]"

lemma bump_Cons:
  "n \<le> length idx \<Longrightarrow> bump (l # lens) (i # idx) (Suc n)
    = (case bump lens idx n of Some r \<Rightarrow> Some (i # r)
       | None \<Rightarrow> if Suc i < l then Some (Suc i # replicate n 0 @ drop n idx) else None)"
proof (induction n arbitrary: idx)
  case (Suc m)
  have "drop m (idx[m := 0]) = 0 # drop (Suc m) idx"
    using Suc.prems by (simp add: Cons_nth_drop_Suc [symmetric])
  then have d: "replicate m 0 @ drop m (idx[m := 0]) = replicate (Suc m) 0 @ drop (Suc m) idx"
    by (simp add: replicate_app_Cons_same)
  have "bump lens idx (Suc m) = (if idx ! m + 1 < lens ! m then Some (idx[m := idx ! m + 1])
      else bump lens (idx[m := 0]) m)"
    by (cases m) auto
  moreover have "bump (l # lens) (i # idx) (Suc (Suc m))
      = (if idx ! m + 1 < lens ! m then Some (i # idx[m := idx ! m + 1])
         else bump (l # lens) (i # idx[m := 0]) (Suc m))"
    by simp
  moreover note Suc.IH [of "idx[m := 0]", unfolded d]
  ultimately show ?case using Suc.prems by (simp del: bump.simps replicate_Suc)
qed simp

lemma idx_from_zero:
  "\<forall>l\<in>set lens. 0 < l \<Longrightarrow> idx_from lens (replicate (length lens) 0) = product_lists (map (\<lambda>n. [0..<n]) lens)"
  by (induction lens) (auto simp: upt_conv_Cons)

lemma idx_from_bump:
  "list_all2 (<) idx lens \<Longrightarrow>
    idx_from lens idx = idx # (case bump lens idx (length idx) of None \<Rightarrow> [] | Some idx' \<Rightarrow> idx_from lens idx')"
proof (induction lens idx rule: idx_from.induct)
  case (1 l lens i idx)
  then have v: "list_all2 (<) idx lens" and len: "length idx = length lens"
    by (auto dest: list_all2_lengthD)
  have pos: "\<forall>l\<in>set lens. 0 < l" using v by (fastforce simp: list_all2_conv_all_nth in_set_conv_nth)
  note IH = "1.IH" [OF v]
  show ?case
  proof (cases "bump lens idx (length idx)")
    case None
    have "[Suc i..<l] = Suc i # [Suc (Suc i)..<l]" if "Suc i < l" using that by (simp add: upt_conv_Cons)
    then show ?thesis using IH None idx_from_zero [OF pos] len
      by (simp add: bump_Cons del: bump.simps upt_Suc)
  next
    case (Some r)
    then show ?thesis using IH by (simp add: bump_Cons del: bump.simps)
  qed
qed auto

lemma bump_valid:
  "list_all2 (<) idx lens \<Longrightarrow> bump lens idx (length idx) = Some idx' \<Longrightarrow> list_all2 (<) idx' lens"
proof (induction lens idx arbitrary: idx' rule: idx_from.induct)
  case (1 l lens i idx)
  have v: "list_all2 (<) idx lens" using "1.prems"(1) by simp
  then have "list_all2 (<) (replicate (length idx) 0) lens"
    by (fastforce simp: list_all2_conv_all_nth)
  with 1 show ?case by (auto simp: bump_Cons simp del: bump.simps split: option.splits if_splits)
qed auto

text \<open>The values an index vector picks.\<close>

abbreviation picks :: "'a list list \<Rightarrow> nat list \<Rightarrow> 'a list" where
  "picks ls idx \<equiv> map2 (!) ls idx"

lemma picks_product:
  "map (picks ls) (product_lists (map (\<lambda>l. [0..<length l]) ls)) = product_lists ls"
proof (induction ls)
  case (Cons l ls)
  have "map (picks (l # ls)) (product_lists (map (\<lambda>l. [0..<length l]) (l # ls)))
      = concat (map (\<lambda>i. map ((#) (l ! i)) (map (picks ls) (product_lists (map (\<lambda>l. [0..<length l]) ls)))) [0..<length l])"
    by (simp add: map_concat comp_def)
  also have "\<dots> = concat (map (\<lambda>x. map ((#) x) (product_lists ls)) (map ((!) l) [0..<length l]))"
    unfolding Cons.IH by (simp add: comp_def)
  also have "\<dots> = product_lists (l # ls)" by (simp add: map_nth)
  finally show ?case .
qed simp

lemma bomb_put_assign:
  assumes "length idx = length ls" "length ls \<le> length ps"
    and "\<forall>k. k \<notin> set (take (length ls) ps) \<longrightarrow> map_of job k = map_of bs k"
  shows "map_of (bomb_put ps ls idx job) = assign bs ps (picks ls idx)"
    and "\<forall>k. k \<notin> set (take (length ls) ps) \<longrightarrow> map_of (bomb_put ps ls idx job) k = map_of bs k"
proof -
  let ?kvs = "zip ps (picks ls idx)"
  have z: "?kvs = map (\<lambda>i. (ps ! i, ls ! i ! (idx ! i))) [0..<length idx]"
    using assms(1,2) by (intro nth_equalityI) auto
  have b: "bomb_put ps ls idx job = fold (\<lambda>(p, v) j. gput j p v) ?kvs job"
    unfolding z bomb_put_def fold_map by (simp add: comp_def)
  have "fst ` set ?kvs = set (map fst ?kvs)" by simp
  also have "\<dots> = set (take (length ls) ps)" using assms(1,2) by (simp add: map_fst_zip_take)
  finally have keys: "fst ` set ?kvs = set (take (length ls) ps)" .
  show "map_of (bomb_put ps ls idx job) = assign bs ps (picks ls idx)"
    unfolding b map_of_fold_gput assign_def using assms(3) keys by (intro fold_put_cong) auto
  show "\<forall>k. k \<notin> set (take (length ls) ps) \<longrightarrow> map_of (bomb_put ps ls idx job) k = map_of bs k"
    unfolding b map_of_fold_gput using assms(3) keys by (auto simp: fold_put_other)
qed

lemma bomb_spec:
  assumes "length ls \<le> length ps"
  shows "list_all2 (<) idx (map length ls) \<Longrightarrow> length (idx_from (map length ls) idx) \<le> fuel \<Longrightarrow>
    (\<forall>k. k \<notin> set (take (length ls) ps) \<longrightarrow> map_of job k = map_of bs k) \<Longrightarrow>
    \<exists>js. bomb fuel ps ls idx job = Some js
       \<and> map map_of js = map (\<lambda>idx. assign bs ps (picks ls idx)) (idx_from (map length ls) idx)"
proof (induction fuel arbitrary: idx job)
  case 0
  then show ?case by (simp add: idx_from_bump)
next
  case (Suc fuel)
  let ?job = "bomb_put ps ls idx job"
  have len: "length idx = length ls" using Suc.prems(1) by (auto dest: list_all2_lengthD)
  note put = bomb_put_assign [OF len assms Suc.prems(3)]
  note from_eq = idx_from_bump [OF Suc.prems(1)]
  show ?case
  proof (cases "bump (map length ls) idx (length idx)")
    case None
    then show ?thesis using put(1) from_eq by (simp add: Let_def)
  next
    case (Some idx')
    have "\<exists>js. bomb fuel ps ls idx' ?job = Some js
       \<and> map map_of js = map (\<lambda>idx. assign bs ps (picks ls idx)) (idx_from (map length ls) idx')"
      using Suc.prems(2) from_eq Some
      by (intro Suc.IH bump_valid [OF Suc.prems(1) Some] put(2)) simp
    then show ?thesis using put(1) from_eq Some by (auto simp: Let_def)
  qed
qed

lemma length_product_lists_idx: "length (product_lists (map (\<lambda>n. [0..<n]) lens)) = prod_list lens"
  by (induction lens) (simp_all add: length_concat comp_def sum_list_triv)

lemma product_lists_empty: "[] \<in> set ls \<Longrightarrow> product_lists ls = []"
  by (induction ls) auto

lemma clusterBomb_spec:
  "\<exists>js. clusterBomb a (a_Base a) = Some js \<and> map map_of js
    = map (assign (a_Base a) (a_Positions a)) (product_lists (take (length (a_Positions a)) (a_Lists a)))"
proof -
  let ?ps = "a_Positions a"
  define ls where "ls = take (length ?ps) (a_Lists a)"
  have t: "take (length ls) (a_Lists a) = ls" by (simp add: ls_def min_def)
  have n: "min (length (a_Lists a)) (length ?ps) = length ls" and le: "length ls \<le> length ?ps"
    by (simp_all add: ls_def)
  consider "ls = []" | "ls \<noteq> []" "[] \<in> set ls" | "ls \<noteq> []" "[] \<notin> set ls" by blast
  then have "\<exists>js. clusterBomb a (a_Base a) = Some js
      \<and> map map_of js = map (assign (a_Base a) ?ps) (product_lists ls)"
  proof cases
    case 1
    then show ?thesis by (simp add: clusterBomb_def n t Let_def assign_def)
  next
    case 2
    then show ?thesis by (simp add: clusterBomb_def n t Let_def product_lists_empty list_ex_iff)
  next
    case 3
    let ?lens = "map length ls"
    have "\<forall>l\<in>set ?lens. 0 < l" using 3 by auto
    from idx_from_zero [OF this] have z: "idx_from ?lens (replicate (length ls) 0)
        = product_lists (map (\<lambda>l. [0..<length l]) ls)" by (simp add: comp_def)
    have "\<exists>js. bomb (prod_list ?lens) ?ps ls (replicate (length ls) 0) (a_Base a) = Some js
        \<and> map map_of js = map (\<lambda>idx. assign (a_Base a) ?ps (picks ls idx))
            (idx_from ?lens (replicate (length ls) 0))"
    proof (rule bomb_spec [OF le])
      show "list_all2 (<) (replicate (length ls) 0) ?lens"
        using 3 by (auto simp: list_all2_conv_all_nth in_set_conv_nth)
      show "length (idx_from ?lens (replicate (length ls) 0)) \<le> prod_list ?lens"
        unfolding z using length_product_lists_idx [of ?lens] by (simp add: comp_def)
    qed simp
    then show ?thesis using 3 unfolding z picks_product [of ls, symmetric]
      by (simp add: clusterBomb_def n t Let_def list_ex_iff comp_def)
  qed
  then show ?thesis unfolding ls_def .
qed

section \<open>The property\<close>

text \<open>
  C36: the jobs of an attack are, in order, what its mode promises: the baseline alone; the
  baseline with one position replaced at a time; one payload at every position; the k-th
  payloads side by side up to the shortest list; every combination of the payloads. The
  odometer of the cluster bomb ends within the number of combinations, and all positions
  outside the attack keep their baseline.
\<close>

theorem attack_jobs_meet_their_mode:
  "\<exists>js. Jobs a = Some js \<and> map map_of js = attack_spec a"
proof (cases "a_Mode a")
  case Sniper
  then show ?thesis using sniper_spec [OF refl] by (simp add: Jobs_def attack_spec_def attack_base_def Let_def)
next
  case BatteringRam
  then show ?thesis using ram_spec [of "a_Positions a" "a_Base a" "a_Base a"]
    by (cases "a_Lists a") (simp_all add: Jobs_def attack_spec_def attack_base_def Let_def)
next
  case Pitchfork
  then show ?thesis using pitch_spec [of "a_Positions a" "a_Lists a" "a_Base a" "a_Base a"]
    by (simp add: Jobs_def attack_spec_def attack_base_def Let_def pitch_len_spec)
next
  case ClusterBomb
  then show ?thesis using clusterBomb_spec by (simp add: Jobs_def attack_spec_def attack_base_def Let_def)
qed (simp add: Jobs_def attack_spec_def attack_base_def Let_def)

end
