(* ===== verification/HttpClient.thy ===== *)
theory HttpClient
  imports RequestBody
begin

text \<open>
  The \<^verbatim>\<open>net/http\<close> client as the repeater and replay use it. \<^verbatim>\<open>url.Parse\<close> is the parameter
  \<open>parse_url\<close>, which gives the parts the program reads; \<^verbatim>\<open>http.NewRequest\<close> is modelled over it; the
  exchange with the server is the parameter \<open>exchange\<close>, from the request to the response or the error
  of \<^verbatim>\<open>client.Do\<close>, with the outcome of reading the response body.
\<close>

record url =
  u_Scheme :: string
  u_Host :: string
  u_RequestURI :: string

definition IsAbs :: "url \<Rightarrow> bool" where
  "IsAbs u = (u_Scheme u \<noteq> [])"

type_synonym url_parser = "string \<Rightarrow> string + url"

record client_request =
  cr_Method :: string
  cr_URL :: url
  cr_Header :: header
  cr_Body :: bytes

record response =
  rs_Status :: string
  rs_Header :: header
  rs_Body :: "string + bytes"

type_synonym client = "client_request \<Rightarrow> string + response"

text \<open>\<^verbatim>\<open>removeEmptyPort\<close>: a host that ends in a colon behind any bracket loses it.\<close>

definition remove_empty_port :: "string \<Rightarrow> string" where
  "remove_empty_port host = (case rev host of
       c # r \<Rightarrow> if c = CHR '':'' then rev r else host
     | [] \<Rightarrow> host)"

definition NewRequest :: "url_parser \<Rightarrow> string \<Rightarrow> string \<Rightarrow> bytes \<Rightarrow> string + client_request" where
  "NewRequest parse_url meth url body =
     (let meth' = (if meth = [] then ''GET'' else meth) in
      if \<not> list_all is_token_char meth' then Inl (''net/http: invalid method '' @ meth')
      else rbind (parse_url url) (\<lambda>u.
        Inr \<lparr>cr_Method = meth', cr_URL = u\<lparr>u_Host := remove_empty_port (u_Host u)\<rparr>, cr_Header = [], cr_Body = body\<rparr>))"

section \<open>Copying headers\<close>

fun add_values :: "string \<Rightarrow> string list \<Rightarrow> header \<Rightarrow> header" where
  "add_values k [] h = h"
| "add_values k (v # vs) h = add_values k vs (hadd h k v)"

text \<open>The client owns \<^verbatim>\<open>Host\<close> and \<^verbatim>\<open>Content-Length\<close>; every other header is added.\<close>

definition client_owned :: "string \<Rightarrow> bool" where
  "client_owned k \<longleftrightarrow> equal_fold k ''Host'' \<or> equal_fold k ''Content-Length''"

fun copy_headers :: "header \<Rightarrow> header \<Rightarrow> header" where
  "copy_headers [] out = out"
| "copy_headers ((k, vs) # h) out = copy_headers h (if client_owned k then out else add_values k vs out)"

text \<open>A header map as \<^verbatim>\<open>net/http\<close> builds it: canonical names, each once.\<close>

definition header_ok :: "header \<Rightarrow> bool" where
  "header_ok h \<longleftrightarrow> gmap_ok h \<and> (\<forall>k \<in> set (gkeys h). canonical_key k = k)"

lemma hvalues_add_values:
  "hvalues (add_values k vs h) k' = (if canonical_key k' = canonical_key k then hvalues h k' @ vs else hvalues h k')"
proof (induction k vs h rule: add_values.induct)
  case (2 k v vs h)
  then show ?case by (auto simp: hvalues_def [of h k] hvalues_def [of h k'])
qed simp

lemma hvalues_copy_headers:
  "hvalues (copy_headers h out) k' = hvalues out k'
    @ concat (map (\<lambda>(k, vs). if canonical_key k = canonical_key k' \<and> \<not> client_owned k then vs else []) h)"
  by (induction h out rule: copy_headers.induct) (auto simp: hvalues_add_values)

lemma header_ok_Cons:
  "header_ok ((k, vs) # h) \<longleftrightarrow> header_ok h \<and> canonical_key k = k \<and> k \<notin> set (gkeys h)"
  by (auto simp: header_ok_def gmap_ok_def gkeys_def)

lemma concat_select:
  "header_ok h \<Longrightarrow> concat (map (\<lambda>(k, vs). if canonical_key k = c \<and> P k then vs else []) h)
    = (if P c then case map_of h c of None \<Rightarrow> [] | Some vs \<Rightarrow> vs else [])"
proof (induction h)
  case (Cons e h)
  obtain k vs where e: "e = (k, vs)" by fastforce
  have "map_of h k = None" if "k \<notin> set (gkeys h)" for k using that by (simp add: gkeys_def map_of_eq_None_iff)
  with Cons show ?case by (auto simp: e header_ok_Cons)
qed simp

lemma hvalues_copy_ok:
  "header_ok h \<Longrightarrow> hvalues (copy_headers h []) k = (if client_owned (canonical_key k) then [] else hvalues h k)"
  using concat_select [of h "canonical_key k" "\<lambda>k. \<not> client_owned k"]
  by (simp add: hvalues_copy_headers) (simp add: hvalues_def)

lemma length_canon_from [simp]: "length (canon_from up s) = length s"
  by (induction up s rule: canon_from.induct) auto

lemma token_letter:
  "65 \<le> (of_char c :: nat) \<and> (of_char c :: nat) \<le> 90 \<or> 97 \<le> (of_char c :: nat) \<and> (of_char c :: nat) \<le> 122
    \<Longrightarrow> is_token_char c"
  by (elim disjE) (simp_all add: is_token_char_def Let_def)

lemma token_upper [simp]: "is_token_char (upper_char c) = is_token_char c"
proof (cases "97 \<le> (of_char c :: nat) \<and> (of_char c :: nat) \<le> 122")
  case True
  then have "is_token_char c" by (simp add: token_letter)
  moreover have "65 \<le> (of_char (upper_char c) :: nat) \<and> (of_char (upper_char c) :: nat) \<le> 90"
    using True unfolding of_char_upper by (cases "97 \<le> (of_char c :: nat)"; cases "(of_char c :: nat) \<le> 122") arith+
  ultimately have "is_token_char c" "is_token_char (upper_char c)" by (blast intro: token_letter)+
  then show ?thesis by simp
next
  case False
  then have "upper_char c = c" by (auto simp: upper_char_def)
  then show ?thesis by simp
qed

lemma token_lower [simp]: "is_token_char (lower_char c) = is_token_char c"
proof (cases "65 \<le> (of_char c :: nat) \<and> (of_char c :: nat) \<le> 90")
  case True
  then have "is_token_char c" by (simp add: token_letter)
  moreover have "97 \<le> (of_char (lower_char c) :: nat) \<and> (of_char (lower_char c) :: nat) \<le> 122"
    using True by simp
  ultimately have "is_token_char c" "is_token_char (lower_char c)" by (blast intro: token_letter)+
  then show ?thesis by simp
next
  case False
  then have "lower_char c = c" by (auto simp: lower_char_def)
  then show ?thesis by simp
qed

lemma list_all_token_canon [simp]: "list_all is_token_char (canon_from up s) = list_all is_token_char s"
  by (induction up s rule: canon_from.induct) auto

lemma upper_char_dash [simp]: "upper_char c = CHR ''-'' \<longleftrightarrow> c = CHR ''-''"
  and lower_char_dash [simp]: "lower_char c = CHR ''-'' \<longleftrightarrow> c = CHR ''-''"
proof -
  have "(of_char (upper_char c) :: nat) = of_char CHR ''-'' \<longleftrightarrow> (of_char c :: nat) = of_char CHR ''-''" by auto
  then show "upper_char c = CHR ''-'' \<longleftrightarrow> c = CHR ''-''" by (simp only: of_char_eq_iff)
  have "(of_char (lower_char c) :: nat) = of_char CHR ''-'' \<longleftrightarrow> (of_char c :: nat) = of_char CHR ''-''" by auto
  then show "lower_char c = CHR ''-'' \<longleftrightarrow> c = CHR ''-''" by (simp only: of_char_eq_iff)
qed

lemma upper_upper_char [simp]: "upper_char (upper_char c) = upper_char c"
proof -
  have "(of_char (upper_char (upper_char c)) :: nat) = of_char (upper_char c)"
    by (simp only: of_char_upper split: if_split) linarith
  then show ?thesis by (simp only: of_char_eq_iff)
qed

lemma canon_from_idem [simp]: "canon_from up (canon_from up s) = canon_from up s"
  by (induction up s rule: canon_from.induct) auto

lemma canonical_key_idem [simp]: "canonical_key (canonical_key k) = canonical_key k"
  by (simp add: canonical_key_def)

lemma header_ok_gput: "header_ok h \<Longrightarrow> canonical_key k = k \<Longrightarrow> header_ok (gput h k vs)"
  by (simp add: header_ok_def)

lemma header_ok_Nil [simp]: "header_ok []"
  by (simp add: header_ok_def gkeys_def)

lemma header_ok_hadd [simp]: "header_ok h \<Longrightarrow> header_ok (hadd h k v)"
  by (simp add: hadd_def header_ok_gput)

lemma header_ok_add_values [simp]: "header_ok h \<Longrightarrow> header_ok (add_values k vs h)"
  by (induction k vs h rule: add_values.induct) auto

lemma header_ok_copy [simp]: "header_ok out \<Longrightarrow> header_ok (copy_headers h out)"
  by (induction h out rule: copy_headers.induct) auto

text \<open>Two headers that answer every lookup alike encode a body alike.\<close>

lemma requestContentEncoding_cong:
  "hvalues h ''Content-Encoding'' = hvalues h' ''Content-Encoding'' \<Longrightarrow>
    requestContentEncoding h = requestContentEncoding h'"
  by (simp add: requestContentEncoding_def)

lemma validateGRPCCompression_cong:
  "hget h ''Grpc-Encoding'' = hget h' ''Grpc-Encoding'' \<Longrightarrow>
    validateGRPCCompression h ms = validateGRPCCompression h' ms"
  by (induction h ms rule: validateGRPCCompression.induct) (auto simp: Let_def)

lemma EncodeRequestBody_cong:
  assumes "hvalues h ''Content-Encoding'' = hvalues h' ''Content-Encoding''"
    and "hvalues h ''Grpc-Encoding'' = hvalues h' ''Grpc-Encoding''"
  shows "EncodeRequestBody C proto h rb = EncodeRequestBody C proto h' rb"
  using assms requestContentEncoding_cong [OF assms(1)] validateGRPCCompression_cong [of h h']
  by (simp add: EncodeRequestBody_def hget_def)

lemma not_client_owned [simp]:
  "\<not> client_owned ''Content-Encoding''" "\<not> client_owned ''Grpc-Encoding''" "\<not> client_owned ''Transfer-Encoding''"
  "client_owned ''Host''" "client_owned ''Content-Length''"
  by code_simp+

end
