(* ===== verification/Repeater.thy ===== *)
theory Repeater
  imports HttpClient Substitute
begin

text \<open>
  \<^verbatim>\<open>internal/repeater\<close>: request templates (\<^verbatim>\<open>template.go\<close>), their editable raw form (\<^verbatim>\<open>raw.go\<close>) and
  sending them (\<^verbatim>\<open>send.go\<close>). A body is a byte slice; markers are substituted in its bytes.
\<close>

record template =
  tp_Method :: string
  tp_URL :: string
  tp_Header :: header
  tp_Body :: bytes
  tp_Messages :: "grpc_message list"
  tp_Protocol :: string
  tp_Secure :: bool

datatype repeater_error = FlowHasNoRequest | NotRepeatable string | CannotReconstructBody body_error
  | RequestError string | EmptyRequest | MalformedRequestLine string | CompressedPayloadEdited
  | AmbiguousEdit nat | SendError string | ResponseReadError string

section \<open>Templates\<close>

definition cloneHeader :: "header \<Rightarrow> header" where
  "cloneHeader h = h"

definition FromFlow ::
    "codecs \<Rightarrow> (bytes \<Rightarrow> string + http_request) \<Rightarrow> flow \<Rightarrow> repeater_error + template" where
  "FromFlow C read_request f =
     (case f_Request f of
        None \<Rightarrow> Inl FlowHasNoRequest
      | Some req \<Rightarrow>
          if f_Protocol f \<noteq> ProtoHTTP1 \<and> f_Protocol f \<noteq> ProtoHTTP2 \<and> f_Protocol f \<noteq> ProtoGRPC
          then Inl (NotRepeatable (f_Protocol f))
          else rbind (map_error CannotReconstructBody (CapturedRequestBody C read_request (Some f))) (\<lambda>body.
            let scheme = (if f_Secure f then ''https'' else ''http'');
                meth = gget (m_Meta req) ''method'' []
            in Inr \<lparr>tp_Method = (if meth = [] then ''GET'' else meth),
                    tp_URL = scheme @ ''://'' @ f_ServerAddr f @ gget (m_Meta req) ''path'' [],
                    tp_Header = cloneHeader (m_Headers req),
                    tp_Body = rb_Body body, tp_Messages = rb_Messages body,
                    tp_Protocol = f_Protocol f, tp_Secure = f_Secure f\<rparr>))"

fun add_names :: "string list \<Rightarrow> string list \<Rightarrow> string list" where
  "add_names [] out = out"
| "add_names (v # vs) out = add_names vs (if v \<in> set out then out else out @ [v])"

definition template_texts :: "template \<Rightarrow> string list" where
  "template_texts t = tp_URL t # concat (map snd (tp_Header t)) @ [str_of (tp_Body t)]
     @ map (\<lambda>m. str_of (g_Data m)) (filter (\<lambda>m. \<not> g_Compressed m) (tp_Messages t))"

definition template_Variables :: "template \<Rightarrow> string list" where
  "template_Variables t = fold (\<lambda>s. add_names (Variables s)) (template_texts t) []"

fun render_header :: "string gomap \<Rightarrow> header \<Rightarrow> header \<Rightarrow> header" where
  "render_header vars [] out = out"
| "render_header vars ((k, vs) # h) out = render_header vars h (add_values k (map (\<lambda>v. Substitute v vars) vs) out)"

definition substitute_bytes :: "bytes \<Rightarrow> string gomap \<Rightarrow> bytes" where
  "substitute_bytes b vars = bytes_of (Substitute (str_of b) vars)"

definition render_message :: "string gomap \<Rightarrow> grpc_message \<Rightarrow> grpc_message" where
  "render_message vars m =
     (if g_Compressed m then m else m\<lparr>g_Data := substitute_bytes (g_Data m) vars\<rparr>)"

definition render ::
    "codecs \<Rightarrow> url_parser \<Rightarrow> template \<Rightarrow> string gomap \<Rightarrow> repeater_error + client_request \<times> request_body \<times> string" where
  "render C parse_url t vars =
     (let proto = (if tp_Protocol t = [] then ProtoHTTP1 else tp_Protocol t);
          hdr = render_header vars (tp_Header t) [];
          logical = \<lparr>rb_Body = substitute_bytes (tp_Body t) vars,
                     rb_Messages = map (render_message vars) (tp_Messages t)\<rparr>
      in rbind (map_error CannotReconstructBody (EncodeRequestBody C proto hdr logical)) (\<lambda>wire.
         rbind (map_error RequestError
           (NewRequest parse_url (tp_Method t) (Substitute (tp_URL t) vars) wire)) (\<lambda>req.
         Inr (req\<lparr>cr_Header := copy_headers hdr (cr_Header req)\<rparr>, logical, proto))))"

definition Render :: "codecs \<Rightarrow> url_parser \<Rightarrow> template \<Rightarrow> string gomap \<Rightarrow> repeater_error + client_request" where
  "Render C parse_url t vars = rbind (render C parse_url t vars) (\<lambda>(req, _, _). Inr req)"

section \<open>The raw form\<close>

definition crlf :: string where "crlf = [CHR 0x0D, CHR 0x0A]"
definition nl :: string where "nl = [CHR 0x0A]"

definition requestURI :: "url_parser \<Rightarrow> string \<Rightarrow> string" where
  "requestURI parse_url raw = (case parse_url raw of
       Inr u \<Rightarrow> if u_Host u \<noteq> [] then u_RequestURI u else raw
     | Inl _ \<Rightarrow> raw)"

definition hostOf :: "url_parser \<Rightarrow> string \<Rightarrow> string" where
  "hostOf parse_url raw = (case parse_url raw of Inr u \<Rightarrow> u_Host u | Inl _ \<Rightarrow> [])"

definition editableBody :: "template \<Rightarrow> bytes" where
  "editableBody t = (case tp_Messages t of
       [m] \<Rightarrow> if tp_Protocol t = ProtoGRPC \<and> \<not> g_Compressed m then g_Data m else tp_Body t
     | _ \<Rightarrow> tp_Body t)"

definition raw_head :: "url_parser \<Rightarrow> template \<Rightarrow> string list" where
  "raw_head parse_url t =
     (tp_Method t @ '' '' @ requestURI parse_url (tp_URL t) @ '' HTTP/1.1'')
     # (let host = hostOf parse_url (tp_URL t) in
        if host \<noteq> [] \<and> hget (tp_Header t) ''Host'' = [] then [''Host: '' @ host] else [])
     @ concat (map (\<lambda>k. map (\<lambda>v. k @ '': '' @ v) (gget (tp_Header t) k [])) (sorted_gkeys (tp_Header t)))"

definition Raw :: "url_parser \<Rightarrow> template \<Rightarrow> string" where
  "Raw parse_url t =
     concat (map (\<lambda>l. l @ crlf) (raw_head parse_url t)) @ crlf @ str_of (editableBody t)"

definition splitHeadBody :: "string \<Rightarrow> string \<times> string" where
  "splitHeadBody raw =
     (case (index_of raw (crlf @ crlf), index_of raw (nl @ nl)) of
        (None, None) \<Rightarrow> (raw, [])
      | (Some c, None) \<Rightarrow> (take c raw, drop (c + 4) raw)
      | (None, Some l) \<Rightarrow> (take l raw, drop (l + 2) raw)
      | (Some c, Some l) \<Rightarrow> if c \<le> l then (take c raw, drop (c + 4) raw) else (take l raw, drop (l + 2) raw))"

definition cloneGRPCMessages :: "grpc_message list \<Rightarrow> grpc_message list" where
  "cloneGRPCMessages ms = map (\<lambda>m. \<lparr>g_Compressed = g_Compressed m, g_Data = g_Data m\<rparr>) ms"

fun parse_header_lines :: "string list \<Rightarrow> header \<Rightarrow> header" where
  "parse_header_lines [] h = h"
| "parse_header_lines (ln # lns) h =
     (if trim_space ln = [] then parse_header_lines lns h
      else let (k, v, ok) = cut ln '':'' in
        if \<not> ok then parse_header_lines lns h
        else parse_header_lines lns (hadd h (trim_space k) (trim_space v)))"

definition edited_messages ::
    "template option \<Rightarrow> string \<Rightarrow> grpc_message list \<Rightarrow> repeater_error + grpc_message list" where
  "edited_messages bs body messages =
     (let original = (case bs of None \<Rightarrow> [] | Some b \<Rightarrow> str_of (editableBody b)) in
      if body = original then Inr messages
      else case messages of
          [] \<Rightarrow> Inr [\<lparr>g_Compressed = False, g_Data = bytes_of body\<rparr>]
        | [m] \<Rightarrow> if g_Compressed m then Inl CompressedPayloadEdited
                 else Inr [m\<lparr>g_Data := bytes_of body\<rparr>]
        | _ \<Rightarrow> Inl (AmbiguousEdit (length messages)))"

definition ParseRaw :: "url_parser \<Rightarrow> string \<Rightarrow> template option \<Rightarrow> repeater_error + template" where
  "ParseRaw parse_url raw bs =
     (let (head, body) = splitHeadBody raw;
          lns = split_on nl (replace_all crlf nl head)
      in if trim_space (hd lns) = [] then Inl EmptyRequest
      else case GoStrings.fields (hd lns) of
        meth # target # _ \<Rightarrow>
          (let hdr = hdel (parse_header_lines (tl lns) []) ''Host'';
               u = (case bs of None \<Rightarrow> Inl [] | Some b \<Rightarrow> parse_url (tp_URL b));
               scheme = (case u of Inr u \<Rightarrow> if u_Scheme u \<noteq> [] then u_Scheme u else ''http'' | Inl _ \<Rightarrow> ''http'');
               host = (case u of Inr u \<Rightarrow> u_Host u | Inl _ \<Rightarrow> []);
               secure = (case bs of None \<Rightarrow> False | Some b \<Rightarrow> tp_Secure b);
               proto = (case bs of None \<Rightarrow> [] | Some b \<Rightarrow> tp_Protocol b);
               messages = (case bs of None \<Rightarrow> [] | Some b \<Rightarrow> cloneGRPCMessages (tp_Messages b));
               target' = (case parse_url target of
                   Inr u \<Rightarrow> if IsAbs u then u_RequestURI u else target | Inl _ \<Rightarrow> target)
           in rbind (if proto = ProtoGRPC then edited_messages bs body messages else Inr messages) (\<lambda>messages'.
              Inr \<lparr>tp_Method = meth, tp_URL = scheme @ ''://'' @ host @ target', tp_Header = hdr,
                   tp_Body = (if proto = ProtoGRPC then [] else bytes_of body),
                   tp_Messages = messages', tp_Protocol = proto, tp_Secure = secure\<rparr>))
      | _ \<Rightarrow> Inl (MalformedRequestLine (hd lns)))"

fun parse_payload_lines :: "string list \<Rightarrow> string list gomap \<Rightarrow> string list gomap" where
  "parse_payload_lines [] out = out"
| "parse_payload_lines (l # ls) out =
     (let line = trim_space l in
      if line = [] \<or> prefix ''#'' line then parse_payload_lines ls out
      else let (name, rest, ok) = cut line ''='' in
        if \<not> ok \<or> trim_space name = [] then parse_payload_lines ls out
        else parse_payload_lines ls (gput out (trim_space name) (map trim_space (split_on '','' rest))))"

definition ParsePayloads :: "string \<Rightarrow> string list gomap" where
  "ParsePayloads txt = parse_payload_lines (split_on nl txt) []"

section \<open>Sending\<close>

text \<open>The messages of a repeated or replayed flow.\<close>

definition repeatedGRPCMessages :: "request_body \<Rightarrow> message list" where
  "repeatedGRPCMessages rb = map (\<lambda>m.
     \<lparr>m_Direction = ClientToServer, m_Summary = [], m_Headers = [], m_Body = g_Data m, m_Raw = g_Data m,
      m_Meta = (if g_Compressed m then [(''compressed'', ''true'')] else [])\<rparr>) (rb_Messages rb)"

definition repeated_request :: "string \<Rightarrow> client_request \<Rightarrow> request_body \<Rightarrow> message" where
  "repeated_request tag req rb =
     \<lparr>m_Direction = ClientToServer,
      m_Summary = cr_Method req @ '' '' @ u_RequestURI (cr_URL req) @ '' ('' @ tag @ '')'',
      m_Headers = cr_Header req, m_Body = rb_Body rb, m_Raw = [],
      m_Meta = [(''method'', cr_Method req), (''path'', u_RequestURI (cr_URL req)),
                (BodyRepresentationMeta, BodyRepresentationDecoded)]\<rparr>"

definition repeated_response :: "codecs \<Rightarrow> response \<Rightarrow> bytes \<Rightarrow> message" where
  "repeated_response C resp body =
     \<lparr>m_Direction = ServerToClient,
      m_Summary = rs_Status resp @ '' ('' @ show_nat (length body) @ '' bytes, repeat)'',
      m_Headers = rs_Header resp,
      m_Body = DecodeContentEncoding C body (hget (rs_Header resp) ''Content-Encoding''),
      m_Raw = body, m_Meta = [(''status'', rs_Status resp)]\<rparr>"

definition Send ::
    "codecs \<Rightarrow> url_parser \<Rightarrow> client \<Rightarrow> bytes \<Rightarrow> template \<Rightarrow> string gomap \<Rightarrow> flow option \<times> repeater_error option" where
  "Send C parse_url exchange rand t vars =
     (case render C parse_url t vars of
        Inl e \<Rightarrow> (None, Some e)
      | Inr (req, logical, proto) \<Rightarrow>
          (let nf = (NewFlow rand ''repeater'' (u_Host (cr_URL req)))\<lparr>f_Secure := tp_Secure t,
                 f_Protocol := proto, f_Request := Some (repeated_request ''repeat'' req logical),
                 f_Messages := repeatedGRPCMessages logical\<rparr>
           in case exchange req of
                Inl e \<Rightarrow> (Some (nf\<lparr>f_Status := StatusError, f_Err := Some e\<rparr>), Some (SendError e))
              | Inr resp \<Rightarrow> (case rs_Body resp of
                  Inl e \<Rightarrow> (Some (nf\<lparr>f_Status := StatusError,
                       f_Err := Some (''repeater: read response body: '' @ e)\<rparr>), Some (ResponseReadError e))
                | Inr body \<Rightarrow> (Some (nf\<lparr>f_Response := Some (repeated_response C resp body),
                       f_Status := StatusComplete\<rparr>), None))))"

end
