(* ===== verification/RawForm.thy ===== *)
theory RawForm
  imports Repeater
begin

text \<open>
  The editor's round trip over \<^verbatim>\<open>repeater/raw.go\<close>: a template written out with \<^verbatim>\<open>Raw\<close> and read back
  with \<^verbatim>\<open>ParseRaw\<close> against itself is the same request.
\<close>

section \<open>Splitting the text\<close>

abbreviation (input) cr :: char where "cr \<equiv> CHR 0x0D"
abbreviation (input) lf :: char where "lf \<equiv> CHR 0x0A"

lemma index_of_skip:
  "p \<noteq> [] \<Longrightarrow> hd p \<notin> set a \<Longrightarrow> index_of (a @ s) p = map_option ((+) (length a)) (index_of s p)"
proof (induction a)
  case Nil
  then show ?case by (cases "index_of s p") auto
next
  case (Cons c a)
  then have "\<not> prefix p (c # a @ s)" by (cases p) auto
  with Cons show ?case by (cases "index_of s p") auto
qed

definition plain_line :: "string \<Rightarrow> bool" where
  "plain_line l \<longleftrightarrow> l \<noteq> [] \<and> cr \<notin> set l \<and> lf \<notin> set l"

lemma head_ends:
  "\<forall>l \<in> set ls. plain_line l \<Longrightarrow> ls \<noteq> [] \<Longrightarrow>
    index_of (join crlf ls @ crlf @ crlf @ b) (crlf @ crlf) = Some (length (join crlf ls))"
proof (induction crlf ls rule: join.induct)
  case (2 x)
  then have "cr \<notin> set x" by (simp add: plain_line_def)
  then have "index_of (x @ (crlf @ crlf @ b)) (crlf @ crlf)
      = map_option ((+) (length x)) (index_of (crlf @ crlf @ b) (crlf @ crlf))"
    by (intro index_of_skip) (simp_all add: crlf_def)
  then show ?case by (simp add: crlf_def)
next
  case (3 x y ys)
  then have x: "cr \<notin> set x" and y: "plain_line y" by (simp_all add: plain_line_def)
  let ?rest = "join crlf (y # ys) @ crlf @ crlf @ b"
  obtain c cs where j: "?rest = c # cs" and c: "c \<noteq> cr" "c \<noteq> lf"
    using y by (cases y; cases ys) (auto simp: plain_line_def)
  have "index_of (crlf @ ?rest) (crlf @ crlf) = map_option ((+) 2) (index_of ?rest (crlf @ crlf))"
    unfolding j using c by (simp add: crlf_def option.map_comp comp_def)
  moreover have "index_of (x @ (crlf @ ?rest)) (crlf @ crlf)
      = map_option ((+) (length x)) (index_of (crlf @ ?rest) (crlf @ crlf))"
    using x by (intro index_of_skip) (simp_all add: crlf_def)
  ultimately show ?case using 3 by (simp add: crlf_def)
qed simp

lemma no_blank_lf:
  "\<forall>l \<in> set ls. plain_line l \<Longrightarrow> ls \<noteq> [] \<Longrightarrow>
    index_of (join crlf ls @ crlf @ crlf @ b) (nl @ nl) = Some i \<Longrightarrow> length (join crlf ls) \<le> i"
proof (induction crlf ls arbitrary: i rule: join.induct)
  case (2 x)
  then have "lf \<notin> set x" by (simp add: plain_line_def)
  then have "index_of (x @ (crlf @ crlf @ b)) (nl @ nl)
      = map_option ((+) (length x)) (index_of (crlf @ crlf @ b) (nl @ nl))"
    by (intro index_of_skip) (simp_all add: nl_def)
  with "2.prems" show ?case by auto
next
  case (3 x y ys)
  then have x: "lf \<notin> set x" and y: "plain_line y" by (simp_all add: plain_line_def)
  let ?rest = "join crlf (y # ys) @ crlf @ crlf @ b"
  obtain c cs where j: "?rest = c # cs" and c: "c \<noteq> cr" "c \<noteq> lf"
    using y by (cases y; cases ys) (auto simp: plain_line_def)
  have "index_of (crlf @ ?rest) (nl @ nl) = map_option ((+) 2) (index_of ?rest (nl @ nl))"
    unfolding j using c by (simp add: crlf_def nl_def option.map_comp comp_def)
  moreover have "index_of (x @ (crlf @ ?rest)) (nl @ nl)
      = map_option ((+) (length x)) (index_of (crlf @ ?rest) (nl @ nl))"
    using x by (intro index_of_skip) (simp_all add: nl_def)
  ultimately show ?case using 3 by (auto simp: crlf_def)
qed simp

lemma splitHeadBody_join:
  assumes "\<forall>l \<in> set ls. plain_line l" and "ls \<noteq> []"
  shows "splitHeadBody (join crlf ls @ crlf @ crlf @ b) = (join crlf ls, b)"
  using head_ends [OF assms] no_blank_lf [OF assms]
  by (auto simp: splitHeadBody_def crlf_def split: option.split)

lemma split_crlf_join:
  "\<forall>l \<in> set ls. plain_line l \<Longrightarrow> ls \<noteq> [] \<Longrightarrow> split_on crlf (join crlf ls) = ls"
proof (induction crlf ls rule: join.induct)
  case (2 x)
  have "cr \<notin> set x \<Longrightarrow> split_on crlf x = [x]" for x
    by (induction x) (auto simp: crlf_def)
  with 2 show ?case by (simp add: plain_line_def)
next
  case (3 x y ys)
  have app: "cr \<notin> set a \<Longrightarrow> split_on crlf (a @ crlf @ s) = a # split_on crlf s" for a s
    by (induction a) (auto simp: crlf_def)
  from 3 show ?case by (simp add: app plain_line_def)
qed simp

lemma head_lines:
  "\<forall>l \<in> set ls. plain_line l \<Longrightarrow> ls \<noteq> [] \<Longrightarrow> split_on nl (replace_all crlf nl (join crlf ls)) = ls"
proof -
  assume a: "\<forall>l \<in> set ls. plain_line l" "ls \<noteq> []"
  have "crlf \<noteq> []" by (simp add: crlf_def)
  then have "replace_all crlf nl (join crlf ls) = join nl ls"
    using a by (simp add: replace_all_join split_crlf_join)
  then show ?thesis using a by (simp add: nl_def split_on_join plain_line_def)
qed

section \<open>The request line\<close>

definition graphic :: "char \<Rightarrow> bool" where
  "graphic c \<longleftrightarrow> 33 \<le> (of_char c :: nat) \<and> (of_char c :: nat) < 127"

lemma graphic_not_space: "graphic c \<Longrightarrow> lead_space (c # s) = 0"
  by (cases s; cases "tl s") (auto simp: graphic_def space1_def space2_def space3_def)

lemma nonspace_span_graphic:
  "list_all graphic w \<Longrightarrow> nonspace_span (w @ s) = (w @ fst (nonspace_span s), snd (nonspace_span s))"
  by (induction w) (auto simp: graphic_not_space)

lemma fields_graphic:
  assumes "list_all graphic w" "w \<noteq> []"
  shows "GoStrings.fields (w @ '' '' @ s) = w # GoStrings.fields s"
proof -
  obtain c cs where w: "w = c # cs" using assms(2) by (cases w) auto
  have sp: "lead_space (CHR '' '' # s) = 1" by (cases s; cases "tl s") (auto simp: space1_def)
  have "trim_left (w @ '' '' @ s) = w @ '' '' @ s"
    unfolding w using assms(1) w by (intro trim_left_id) (simp add: graphic_not_space)
  moreover have "nonspace_span (w @ '' '' @ s) = (w, '' '' @ s)"
    using assms(1) sp by (simp add: nonspace_span_graphic)
  moreover have "GoStrings.fields (CHR '' '' # s) = GoStrings.fields s"
  proof -
    have "trim_left (CHR '' '' # s) = trim_left s" by (subst trim_left.simps) (simp add: sp)
    then show ?thesis by (subst (1 2) fields.simps) simp
  qed
  ultimately show ?thesis using assms(2) by (subst fields.simps) simp
qed

section \<open>Header lines\<close>

lemma space1_low: "space1 n \<Longrightarrow> n < 33"
  by (auto simp: space1_def)

lemma space2_high: "space2 m n \<Longrightarrow> 127 \<le> m \<and> 127 \<le> n"
  by (auto simp: space2_def)

lemma space3_high: "space3 l m n \<Longrightarrow> 127 \<le> l \<and> 127 \<le> m \<and> 127 \<le> n"
  by (auto simp: space3_def)

lemma graphic_spaces:
  "graphic c \<Longrightarrow> \<not> space1 (of_char c)" "graphic c \<Longrightarrow> \<not> space2 (of_char c) n" "graphic c \<Longrightarrow> \<not> space2 n (of_char c)"
  "graphic c \<Longrightarrow> \<not> space3 (of_char c) m n" "graphic c \<Longrightarrow> \<not> space3 m (of_char c) n" "graphic c \<Longrightarrow> \<not> space3 m n (of_char c)"
  by (auto simp: graphic_def dest!: space1_low space2_high space3_high)

lemma lead_space_head: "graphic x \<Longrightarrow> x \<notin> set (take (lead_space s) s)"
  by (induction s rule: lead_space.induct) (auto simp: graphic_spaces)

lemma trail_space_head: "graphic x \<Longrightarrow> x \<notin> set (take (trail_space s) s)"
  by (induction s rule: trail_space.induct) (auto simp: graphic_spaces)

lemma set_take_drop: "x \<in> set s \<Longrightarrow> x \<notin> set (take n s) \<Longrightarrow> x \<in> set (drop n s)"
  by (metis append_take_drop_id Un_iff set_append)

lemma trim_left_keeps: "graphic x \<Longrightarrow> x \<in> set s \<Longrightarrow> x \<in> set (trim_left s)"
proof (induction s rule: trim_left.induct)
  case (1 s)
  show ?case
  proof (cases "lead_space s = 0")
    case True
    then show ?thesis using 1 by (simp add: trim_left.simps)
  next
    case False
    have "x \<in> set (drop (lead_space s) s)"
      using 1(2,3) lead_space_head by (intro set_take_drop)
    then show ?thesis using 1 False by (subst trim_left.simps) simp
  qed
qed

lemma trim_right_rev_keeps: "graphic x \<Longrightarrow> x \<in> set s \<Longrightarrow> x \<in> set (trim_right_rev s)"
proof (induction s rule: trim_right_rev.induct)
  case (1 s)
  show ?case
  proof (cases "trail_space s = 0")
    case True
    then show ?thesis using 1 by (simp add: trim_right_rev.simps)
  next
    case False
    have "x \<in> set (drop (trail_space s) s)"
      using 1(2,3) trail_space_head by (intro set_take_drop)
    then show ?thesis using 1 False by (subst trim_right_rev.simps) simp
  qed
qed

lemma trim_space_keeps: "graphic x \<Longrightarrow> x \<in> set s \<Longrightarrow> trim_space s \<noteq> []"
  using trim_right_rev_keeps [of x "rev (trim_left s)"] trim_left_keeps [of x s]
  by (auto simp: trim_space_def)

lemma graphic_no_trail: "graphic c \<Longrightarrow> trail_space (c # s) = 0"
  by (cases s; cases "tl s") (auto simp: graphic_def space1_def space2_def space3_def)

lemma trim_graphic:
  assumes "list_all graphic w"
  shows "trim_space w = w"
proof (rule trim_space_id)
  show "lead_space w = 0" using assms by (cases w) (simp_all add: graphic_not_space)
  show "trail_space (rev w) = 0"
  proof (cases "rev w")
    case (Cons c s)
    then have "c \<in> set w" by (metis list.set_intros(1) set_rev)
    then show ?thesis using assms Cons by (simp add: graphic_no_trail list_all_iff)
  qed simp
qed

lemma trim_space_pad: "trim_space (CHR '' '' # s) = trim_space s"
proof -
  have sp: "lead_space (CHR '' '' # s) = 1" by (cases s; cases "tl s") (auto simp: space1_def)
  have "trim_left (CHR '' '' # s) = trim_left s" by (subst trim_left.simps) (simp add: sp)
  then show ?thesis by (simp add: trim_space_def)
qed

lemma token_graphic: "is_token_char c \<Longrightarrow> graphic c"
  by (auto simp: is_token_char_def graphic_def Let_def)

lemma token_no_colon: "list_all is_token_char k \<Longrightarrow> CHR '':'' \<notin> set k"
  by (auto simp: list_all_iff is_token_char_def)

lemma parse_header_line:
  assumes "list_all is_token_char k" and "trim_space v = v"
  shows "parse_header_lines ((k @ CHR '':'' # CHR '' '' # v) # lns) h = parse_header_lines lns (hadd h k v)"
proof -
  have "cut (k @ CHR '':'' # CHR '' '' # v) '':'' = (k, CHR '' '' # v, True)"
    using index_of_char [OF token_no_colon [OF assms(1)]] by (simp add: cut_def)
  moreover have "graphic CHR '':''" by (simp add: graphic_def)
  then have "trim_space (k @ CHR '':'' # CHR '' '' # v) \<noteq> []" by (rule trim_space_keeps) simp
  moreover have "trim_space k = k"
    using assms(1) token_graphic by (intro trim_graphic) (auto simp: list_all_iff)
  ultimately show ?thesis using assms(2) by (simp add: trim_space_pad)
qed

lemma parse_header_values:
  "list_all is_token_char k \<Longrightarrow> \<forall>v \<in> set vs. trim_space v = v \<Longrightarrow>
    parse_header_lines (map (\<lambda>v. k @ CHR '':'' # CHR '' '' # v) vs @ lns) h = parse_header_lines lns (add_values k vs h)"
  by (induction vs arbitrary: h) (simp_all add: parse_header_line del: parse_header_lines.simps(2))

lemma parse_header_keys:
  "\<forall>k \<in> set ks. list_all is_token_char k \<and> (\<forall>v \<in> set (f k). trim_space v = v) \<Longrightarrow>
    parse_header_lines (concat (map (\<lambda>k. map (\<lambda>v. k @ CHR '':'' # CHR '' '' # v) (f k)) ks)) h
      = fold (\<lambda>k. add_values k (f k)) ks h"
  by (induction ks arbitrary: h) (simp_all add: parse_header_values del: parse_header_lines.simps(2))

lemma hvalues_fold_add:
  "hvalues (fold (\<lambda>k. add_values k (f k)) ks h) c = hvalues h c
    @ concat (map (\<lambda>k. if canonical_key k = canonical_key c then f k else []) ks)"
  by (induction ks arbitrary: h) (simp_all add: hvalues_add_values)

lemma concat_pick:
  "distinct ks \<Longrightarrow> concat (map (\<lambda>k. if k = c then f k else []) ks) = (if c \<in> set ks then f c else [])"
  by (induction ks) auto

section \<open>The property\<close>

text \<open>A template whose parts fit on their lines; \<^verbatim>\<open>http.Header\<close> and \<^verbatim>\<open>FromFlow\<close> build such templates.\<close>

definition line_text :: "string \<Rightarrow> bool" where
  "line_text v \<longleftrightarrow> trim_space v = v \<and> cr \<notin> set v \<and> lf \<notin> set v"

definition template_ok :: "url_parser \<Rightarrow> template \<Rightarrow> bool" where
  "template_ok parse_url t \<longleftrightarrow>
     tp_Method t \<noteq> [] \<and> list_all graphic (tp_Method t) \<and>
     (case parse_url (tp_URL t) of
        Inl _ \<Rightarrow> False
      | Inr u \<Rightarrow> u_Scheme u \<noteq> [] \<and> u_Host u \<noteq> [] \<and> u_RequestURI u \<noteq> []
          \<and> tp_URL t = u_Scheme u @ ''://'' @ u_Host u @ u_RequestURI u
          \<and> line_text (u_Host u) \<and> list_all graphic (u_RequestURI u)
          \<and> (case parse_url (u_RequestURI u) of Inl _ \<Rightarrow> True | Inr v \<Rightarrow> \<not> IsAbs v)) \<and>
     header_ok (tp_Header t) \<and>
     list_all (\<lambda>(k, vs). k \<noteq> [] \<and> list_all is_token_char k \<and> list_all line_text vs) (tp_Header t) \<and>
     (tp_Protocol t = ProtoGRPC \<longrightarrow> tp_Body t = [])"

lemma concat_crlf_join: "ls \<noteq> [] \<Longrightarrow> concat (map (\<lambda>l. l @ crlf) ls) = join crlf ls @ crlf"
  by (induction crlf ls rule: join.induct) auto

lemma clone_id [simp]: "cloneGRPCMessages ms = ms"
  by (simp add: cloneGRPCMessages_def map_idI)

lemma graphic_plain: "list_all graphic w \<Longrightarrow> cr \<notin> set w \<and> lf \<notin> set w"
  by (auto simp: list_all_iff graphic_def)

lemma header_entry:
  assumes "template_ok p t" and "k \<in> set (gkeys (tp_Header t))"
  shows "canonical_key k = k \<and> k \<noteq> [] \<and> list_all is_token_char k \<and> (\<forall>v \<in> set (gget (tp_Header t) k []). line_text v)"
proof -
  from assms(2) obtain vs where vs: "map_of (tp_Header t) k = Some vs"
    by (metis ghas_def ghas_keys not_None_eq)
  then have "(k, vs) \<in> set (tp_Header t)" by (rule map_of_SomeD)
  then show ?thesis using assms vs
    by (auto simp: template_ok_def header_ok_def gget_def list_all_iff)
qed

lemma raw_head_plain:
  assumes "template_ok p t"
  shows "\<forall>l \<in> set (raw_head p t). plain_line l"
proof -
  from assms obtain u where u: "p (tp_URL t) = Inr u" "u_Host u \<noteq> []" "line_text (u_Host u)"
    "list_all graphic (u_RequestURI u)" "list_all graphic (tp_Method t)"
    by (auto simp: template_ok_def split: sum.splits)
  have "plain_line (k @ '': '' @ v)" if "k \<in> set (gkeys (tp_Header t))" "v \<in> set (gget (tp_Header t) k [])" for k v
    using header_entry [OF assms that(1)] that(2) graphic_plain [of k] token_graphic
    by (auto simp: plain_line_def line_text_def list_all_iff)
  moreover have "plain_line (''Host: '' @ u_Host u)" using u(3) by (simp add: plain_line_def line_text_def)
  moreover have "plain_line (tp_Method t @ '' '' @ u_RequestURI u @ '' HTTP/1.1'')"
    using graphic_plain [OF u(4)] graphic_plain [OF u(5)] by (simp add: plain_line_def)
  ultimately show ?thesis
    using u(1,2) by (auto simp: raw_head_def requestURI_def hostOf_def Let_def)
qed

lemma Raw_join:
  "Raw p t = join crlf (raw_head p t) @ crlf @ crlf @ str_of (editableBody t)"
proof -
  have "raw_head p t \<noteq> []" by (simp add: raw_head_def)
  then show ?thesis by (simp add: Raw_def concat_crlf_join)
qed

lemma parsed_headers:
  assumes "template_ok p t"
  shows "hvalues (hdel (parse_header_lines (tl (raw_head p t)) []) ''Host'') k
    = (if canonical_key k = ''Host'' then [] else hvalues (tp_Header t) k)"
proof -
  let ?h = "tp_Header t" and ?c = "canonical_key k"
  let ?ks = "sorted_gkeys ?h" and ?f = "\<lambda>k. gget ?h k []"
  have host: "canonical_key ''Host'' = ''Host''" "list_all is_token_char ''Host''" by code_simp+
  from assms obtain u where u: "p (tp_URL t) = Inr u" "line_text (u_Host u)"
    by (auto simp: template_ok_def split: sum.splits)
  have ok: "\<forall>k \<in> set ?ks. list_all is_token_char k \<and> (\<forall>v \<in> set (?f k). trim_space v = v)"
    using header_entry [OF assms] by (auto simp: line_text_def)
  define h0 where "h0 = (if u_Host u \<noteq> [] \<and> hget ?h ''Host'' = [] then hadd [] ''Host'' (u_Host u) else [])"
  have "parse_header_lines (tl (raw_head p t)) [] = fold (\<lambda>k. add_values k (?f k)) ?ks h0"
    using u parse_header_line [of "''Host''" "u_Host u"] host(2) parse_header_keys [OF ok]
    by (simp add: raw_head_def hostOf_def Let_def h0_def line_text_def del: parse_header_lines.simps(2))
  moreover have "hvalues h0 k = []" if "?c \<noteq> ''Host''" using that host by (simp add: h0_def)
  moreover have "concat (map (\<lambda>k. if canonical_key k = ?c then ?f k else []) ?ks) = hvalues ?h k"
  proof -
    have m: "map (\<lambda>k. if canonical_key k = ?c then ?f k else []) ?ks = map (\<lambda>k. if k = ?c then ?f k else []) ?ks"
      using header_entry [OF assms] by (intro map_cong) auto
    have "distinct ?ks" using assms by (simp add: sorted_gkeys_def template_ok_def header_ok_def gmap_ok_def)
    then show ?thesis unfolding m
      by (subst concat_pick) (auto simp: hvalues_def gget_def ghas_keys [symmetric] ghas_def)
  qed
  ultimately show ?thesis using host(1) by (simp add: hvalues_fold_add)
qed

text \<open>
  C25: the editor is faithful. A template written out as raw text and read back unedited is the
  same request: method, URL, protocol, messages and the body byte for byte, and the same values
  under every header name (\<^verbatim>\<open>Host\<close> excepted, which the target decides), whatever bytes the body
  holds, blank lines included.
\<close>

theorem raw_text_round_trip:
  assumes "template_ok parse_url t"
  shows "\<exists>h. ParseRaw parse_url (Raw parse_url t) (Some t) = Inr (t\<lparr>tp_Header := h\<rparr>)
    \<and> (\<forall>k. hvalues h k = (if canonical_key k = ''Host'' then [] else hvalues (tp_Header t) k))"
proof -
  let ?L = "raw_head parse_url t" and ?body = "str_of (editableBody t)"
  from assms obtain u where u: "parse_url (tp_URL t) = Inr u" "u_Scheme u \<noteq> []" "u_Host u \<noteq> []"
    "list_all graphic (u_RequestURI u)" "u_RequestURI u \<noteq> []" "tp_URL t = u_Scheme u @ ''://'' @ u_Host u @ u_RequestURI u"
    and m: "tp_Method t \<noteq> []" "list_all graphic (tp_Method t)"
    and rel: "case parse_url (u_RequestURI u) of Inl _ \<Rightarrow> True | Inr v \<Rightarrow> \<not> IsAbs v"
    and g: "tp_Protocol t = ProtoGRPC \<Longrightarrow> tp_Body t = []"
    by (auto simp: template_ok_def split: sum.splits)
  have L: "?L \<noteq> []" by (simp add: raw_head_def)
  have hd: "hd ?L = tp_Method t @ '' '' @ u_RequestURI u @ '' '' @ ''HTTP/1.1''"
    using u(1,3) by (simp add: raw_head_def requestURI_def)
  obtain c cs where c: "tp_Method t = c # cs" using m(1) by (cases "tp_Method t") auto
  have ne: "trim_space (hd ?L) \<noteq> []"
    unfolding hd using m(2) by (intro trim_space_keeps [of c]) (simp_all add: c)
  have fields: "GoStrings.fields (hd ?L) = tp_Method t # u_RequestURI u # GoStrings.fields ''HTTP/1.1''"
    unfolding hd fields_graphic [OF m(2,1)] fields_graphic [OF u(4,5)] ..
  have target: "(case parse_url (u_RequestURI u) of
      Inr v \<Rightarrow> if IsAbs v then u_RequestURI v else u_RequestURI u | Inl _ \<Rightarrow> u_RequestURI u) = u_RequestURI u"
    using rel by (auto split: sum.splits)
  have split: "splitHeadBody (Raw parse_url t) = (join crlf ?L, ?body)"
    unfolding Raw_join by (rule splitHeadBody_join [OF raw_head_plain [OF assms] L])
  have lines: "split_on nl (replace_all crlf nl (join crlf ?L)) = ?L"
    by (rule head_lines [OF raw_head_plain [OF assms] L])
  have body: "tp_Protocol t \<noteq> ProtoGRPC \<Longrightarrow> editableBody t = tp_Body t"
    by (auto simp: editableBody_def split: list.split)
  define h where "h = hdel (parse_header_lines (tl ?L) []) ''Host''"
  have "ParseRaw parse_url (Raw parse_url t) (Some t) = Inr (t\<lparr>tp_Header := h\<rparr>)"
    using u(1,2) u(6) [symmetric] ne g body
    by (cases "tp_Protocol t = ProtoGRPC")
       (simp_all add: ParseRaw_def split lines fields target h_def edited_messages_def Let_def)
  moreover have "\<forall>k. hvalues h k = (if canonical_key k = ''Host'' then [] else hvalues (tp_Header t) k)"
    unfolding h_def using parsed_headers [OF assms] by blast
  ultimately show ?thesis by blast
qed

definition demo_parse :: url_parser where
  "demo_parse s = (if s = ''http://h/p?q={{id}}''
     then Inr \<lparr>u_Scheme = ''http'', u_Host = ''h'', u_RequestURI = ''/p?q={{id}}''\<rparr> else Inl ''parse'')"

definition demo_template :: template where
  "demo_template = \<lparr>tp_Method = ''POST'', tp_URL = ''http://h/p?q={{id}}'',
     tp_Header = [(''X-B'', [''2'']), (''Accept'', [''*/*'', ''text/html''])], tp_Body = [97, 13, 10, 13, 10, 98],
     tp_Messages = [], tp_Protocol = ProtoHTTP1, tp_Secure = False\<rparr>"

theorem raw_text_round_trip_witness:
  "\<exists>h. ParseRaw demo_parse (Raw demo_parse demo_template) (Some demo_template) = Inr (demo_template\<lparr>tp_Header := h\<rparr>)
    \<and> hvalues h ''accept'' = [''*/*'', ''text/html'']"
proof -
  have ok: "template_ok demo_parse demo_template" by code_simp
  have "canonical_key ''accept'' \<noteq> ''Host''" "hvalues (tp_Header demo_template) ''accept'' = [''*/*'', ''text/html'']"
    by code_simp+
  with raw_text_round_trip [OF ok] show ?thesis by auto
qed

end
