(* ===== verification/Replay.thy ===== *)
theory Replay
  imports Repeater
begin

text \<open>
  \<^verbatim>\<open>internal/replay/replay.go\<close>: a captured request sent again to its server, recorded as a new flow.
  The message constructors of \<^verbatim>\<open>replay.go\<close> and \<^verbatim>\<open>send.go\<close> differ in the tag of the summary only.
\<close>

datatype replay_error = ReplayNoRequest | NotResendable string | ReplayBody body_error
  | ReplayRequest string | ReplaySend string | ReplayRead string

definition replayedRequest :: "client_request \<Rightarrow> request_body \<Rightarrow> message" where
  "replayedRequest req rb = repeated_request ''replay'' req rb"

definition replayedGRPCMessages :: "request_body \<Rightarrow> message list" where
  "replayedGRPCMessages rb = repeatedGRPCMessages rb"

definition replayed_response :: "response \<Rightarrow> bytes \<Rightarrow> message" where
  "replayed_response resp body =
     \<lparr>m_Direction = ServerToClient,
      m_Summary = rs_Status resp @ '' ('' @ show_nat (length body) @ '' bytes, replay)'',
      m_Headers = rs_Header resp, m_Body = body, m_Raw = body, m_Meta = [(''status'', rs_Status resp)]\<rparr>"

text \<open>The request sent: the first half of \<^verbatim>\<open>Resend\<close>.\<close>

definition replay_request ::
    "codecs \<Rightarrow> (bytes \<Rightarrow> string + http_request) \<Rightarrow> url_parser \<Rightarrow> flow \<Rightarrow> replay_error + client_request \<times> request_body" where
  "replay_request C read_request parse_url f =
     (case f_Request f of
        None \<Rightarrow> Inl ReplayNoRequest
      | Some rq \<Rightarrow>
          if f_Protocol f \<noteq> ProtoHTTP1 \<and> f_Protocol f \<noteq> ProtoHTTP2 \<and> f_Protocol f \<noteq> ProtoGRPC
          then Inl (NotResendable (f_Protocol f))
          else
            rbind (map_error ReplayBody (CapturedRequestBody C read_request (Some f))) (\<lambda>logical.
            rbind (map_error ReplayBody (EncodeRequestBody C (f_Protocol f) (m_Headers rq) logical)) (\<lambda>wire.
            let scheme = (if f_Secure f then ''https'' else ''http'');
                meth = gget (m_Meta rq) ''method'' [];
                url = scheme @ ''://'' @ f_ServerAddr f @ gget (m_Meta rq) ''path'' []
            in rbind (map_error ReplayRequest
                 (NewRequest parse_url (if meth = [] then ''GET'' else meth) url wire)) (\<lambda>req.
               Inr (req\<lparr>cr_Header := copy_headers (m_Headers rq) (cr_Header req)\<rparr>, logical)))))"

definition Resend ::
    "codecs \<Rightarrow> (bytes \<Rightarrow> string + http_request) \<Rightarrow> url_parser \<Rightarrow> client \<Rightarrow> bytes \<Rightarrow> flow
      \<Rightarrow> flow option \<times> replay_error option" where
  "Resend C read_request parse_url exchange rand f =
     (case replay_request C read_request parse_url f of
        Inl e \<Rightarrow> (None, Some e)
      | Inr (req, logical) \<Rightarrow>
          (let nf = (NewFlow rand ''replay'' (f_ServerAddr f))\<lparr>f_Protocol := f_Protocol f, f_SNI := f_SNI f,
                 f_Secure := f_Secure f, f_Request := Some (replayedRequest req logical),
                 f_Messages := replayedGRPCMessages logical\<rparr>
           in case exchange req of
                Inl e \<Rightarrow> (Some (nf\<lparr>f_Status := StatusError, f_Err := Some e\<rparr>), Some (ReplaySend e))
              | Inr resp \<Rightarrow> (case rs_Body resp of
                  Inl e \<Rightarrow> (Some (nf\<lparr>f_Status := StatusError,
                       f_Err := Some (''replay: read response body: '' @ e)\<rparr>), Some (ReplayRead e))
                | Inr body \<Rightarrow> (Some (nf\<lparr>f_Response := Some (replayed_response resp body),
                       f_Status := StatusComplete\<rparr>), None))))"

section \<open>Lemmas\<close>

lemma Substitute_Nil [simp]: "Substitute s [] = s"
  by (simp add: Substitute_def segments_text)

lemma substitute_bytes_Nil [simp]: "substitute_bytes b [] = b"
  by (simp add: substitute_bytes_def)

lemma render_message_Nil [simp]: "render_message [] m = m"
  by (simp add: render_message_def)

lemma map_render_message_Nil [simp]: "map (render_message []) ms = ms"
  by (simp add: map_idI)

lemma request_body_eta [simp]: "\<lparr>rb_Body = rb_Body rb, rb_Messages = rb_Messages rb\<rparr> = rb"
  by simp

lemma hvalues_render_header:
  "hvalues (render_header [] h out) k = hvalues out k
    @ concat (map (\<lambda>(k', vs). if canonical_key k' = canonical_key k \<and> True then vs else []) h)"
  by (induction "[] :: string gomap" h out rule: render_header.induct) (auto simp: hvalues_add_values)

lemma hvalues_render_ok: "header_ok h \<Longrightarrow> hvalues (render_header [] h []) k = hvalues h k"
  using concat_select [of h "canonical_key k" "\<lambda>_. True"]
  by (simp add: hvalues_render_header) (simp add: hvalues_def)

lemma header_ok_render [simp]: "header_ok out \<Longrightarrow> header_ok (render_header vars h out)"
  by (induction vars h out rule: render_header.induct) auto

lemma NewRequest_Inr_body: "NewRequest p m u b = Inr r \<Longrightarrow> cr_Body r = b \<and> cr_Header r = []"
  by (auto simp: NewRequest_def Let_def rbind_eq_Inr split: if_splits)

definition no_transfer_coding :: "header \<Rightarrow> bool" where
  "no_transfer_coding h \<longleftrightarrow> trim_space (hget h ''Transfer-Encoding'') = []"

definition demo_get_flow :: flow where
  "demo_get_flow = (demo_heap 0)\<lparr>f_Protocol := ProtoHTTP1, f_ServerAddr := ''h:80'',
     f_Request := Some \<lparr>m_Direction = ClientToServer, m_Summary = [],
       m_Headers = [(''Accept'', [''*/*'']), (''Host'', [''x''])], m_Body = [], m_Raw = [],
       m_Meta = [(''method'', ''GET''), (''path'', ''/'')]\<rparr>\<rparr>"

definition demo_url :: url_parser where
  "demo_url s = Inr \<lparr>u_Scheme = ''http'', u_Host = ''h:80'', u_RequestURI = ''/''\<rparr>"

definition demo_exchange :: client where
  "demo_exchange r = Inr \<lparr>rs_Status = ''200 OK'', rs_Header = [], rs_Body = Inr [65]\<rparr>"

lemma demo_get_flow_ok:
  "f_Request demo_get_flow = Some (the (f_Request demo_get_flow))"
  "header_ok (m_Headers (the (f_Request demo_get_flow)))"
  "no_transfer_coding (m_Headers (the (f_Request demo_get_flow)))"
  by code_simp+

text \<open>
  C26: repeating a captured request unedited is replaying it. The template of a flow, rendered
  with no values, gives exactly the request replay sends: the same method, URL and body bytes,
  and the same values under every header name; if one of them refuses the flow, so does the other.
\<close>

theorem unedited_repeat_is_replay:
  assumes "f_Request f = Some rq" and "header_ok (m_Headers rq)"
  shows "case rbind (FromFlow C rr f) (\<lambda>t. Render C parse_url t []) of
      Inr req \<Rightarrow> (\<exists>req' rb. replay_request C rr parse_url f = Inr (req', rb)
          \<and> cr_Method req' = cr_Method req \<and> cr_URL req' = cr_URL req \<and> cr_Body req' = cr_Body req
          \<and> (\<forall>k. hvalues (cr_Header req') k = hvalues (cr_Header req) k))
    | Inl _ \<Rightarrow> (\<exists>e. replay_request C rr parse_url f = Inl e)"
proof -
  let ?h = "m_Headers rq" and ?meth = "gget (m_Meta rq) ''method'' []"
  let ?h' = "render_header [] ?h []"
  let ?url = "(if f_Secure f then ''https'' else ''http'') @ ''://'' @ f_ServerAddr f @ gget (m_Meta rq) ''path'' []"
  have ne: "ProtoHTTP1 \<noteq> []" "ProtoHTTP2 \<noteq> []" "ProtoGRPC \<noteq> []"
    by (simp_all add: ProtoHTTP1_def ProtoHTTP2_def ProtoGRPC_def)
  have enc: "EncodeRequestBody C p ?h' rb = EncodeRequestBody C p ?h rb" for p rb
    by (rule EncodeRequestBody_cong) (simp_all only: hvalues_render_ok [OF assms(2)])
  have hdr: "hvalues (copy_headers ?h []) k = hvalues (copy_headers ?h' []) k" for k
    by (simp add: hvalues_copy_ok assms(2) hvalues_render_ok)
  note step = FromFlow_def replay_request_def Render_def render_def Let_def cloneHeader_def assms(1) enc
  let ?proto = "f_Protocol f = ProtoHTTP1 \<or> f_Protocol f = ProtoHTTP2 \<or> f_Protocol f = ProtoGRPC"
  have pne: "f_Protocol f \<noteq> []" if ?proto using ne that by auto
  consider "\<not> ?proto" | e where ?proto "CapturedRequestBody C rr (Some f) = Inl e"
    | rb e where ?proto "CapturedRequestBody C rr (Some f) = Inr rb" "EncodeRequestBody C (f_Protocol f) ?h rb = Inl e"
    | rb wire where ?proto "CapturedRequestBody C rr (Some f) = Inr rb" "EncodeRequestBody C (f_Protocol f) ?h rb = Inr wire"
    by (meson sumE)
  then show ?thesis
  proof cases
    case 3
    with pne show ?thesis by (auto simp: step)
  next
    case 4
    show ?thesis
    proof (cases "NewRequest parse_url (if ?meth = [] then ''GET'' else ?meth) ?url wire")
      case (Inr req)
      with 4 pne show ?thesis using hdr NewRequest_Inr_body [OF Inr] by (auto simp: step)
    qed (use 4 pne in \<open>auto simp: step\<close>)
  qed (auto simp: step)
qed

theorem unedited_repeat_is_replay_witness:
  "\<exists>req rb. replay_request demo_codecs (\<lambda>_. Inl []) demo_url demo_get_flow = Inr (req, rb)
     \<and> hvalues (cr_Header req) ''accept'' = [''*/*''] \<and> hvalues (cr_Header req) ''host'' = []"
proof -
  have "case rbind (FromFlow demo_codecs (\<lambda>_. Inl []) demo_get_flow) (\<lambda>t. Render demo_codecs demo_url t []) of
      Inr req \<Rightarrow> hvalues (cr_Header req) ''accept'' = [''*/*''] \<and> hvalues (cr_Header req) ''host'' = []
    | Inl _ \<Rightarrow> False" by code_simp
  with unedited_repeat_is_replay [OF demo_get_flow_ok(1,2), of demo_codecs "\<lambda>_. Inl []" demo_url]
  show ?thesis by (auto split: sum.splits)
qed

section \<open>A new flow can be repeated again\<close>

lemma compression_flag:
  "capturedCompressionFlag \<lparr>m_Direction = d, m_Summary = s, m_Headers = h, m_Body = b, m_Raw = r,
     m_Meta = (if c then [(''compressed'', ''true'')] else [])\<rparr> = Inr c"
proof -
  have "to_lower (trim_space ''true'') = ''true''" "to_lower (trim_space []) = []" by code_simp+
  then show ?thesis by (cases c) (simp_all add: capturedCompressionFlag_def gget_def)
qed

lemma collect_repeated: "collect_grpc_messages (repeatedGRPCMessages rb) = Inr (rb_Messages rb)"
proof -
  have "collect_grpc_messages (map (\<lambda>m. \<lparr>m_Direction = ClientToServer, m_Summary = [], m_Headers = [],
      m_Body = g_Data m, m_Raw = g_Data m,
      m_Meta = (if g_Compressed m then [(''compressed'', ''true'')] else [])\<rparr>) ms) = Inr ms" for ms
    by (induction ms) (simp_all add: compression_flag)
  then show ?thesis by (simp add: repeatedGRPCMessages_def)
qed

lemma validateAbsentBody_copy:
  assumes "header_ok h" and "no_transfer_coding h"
  shows "validateAbsentBody (copy_headers h []) = Inr ()"
proof -
  have "hget (copy_headers h []) ''Content-Length'' = []"
    and "hget (copy_headers h []) ''Transfer-Encoding'' = hget h ''Transfer-Encoding''"
    by (simp_all add: hget_def hvalues_copy_ok [OF assms(1)])
  moreover have "trim_space [] = []" by code_simp
  ultimately show ?thesis using assms(2) by (simp add: validateAbsentBody_def no_transfer_coding_def)
qed

lemma EncodeContentEncoding_valid:
  "EncodeContentEncoding C b enc = Inr w \<Longrightarrow> EncodeContentEncoding C [] enc = Inr []"
  by (auto simp: EncodeContentEncoding_def rbind_eq_Inr)

lemma representation_repeated [simp]: "representation (repeated_request tag req rb) = BodyRepresentationDecoded"
  by (simp add: representation_def repeated_request_def gget_def BodyRepresentationMeta_def)

lemma repeated_request_fields [simp]:
  "m_Body (repeated_request tag req rb) = rb_Body rb" "m_Raw (repeated_request tag req rb) = []"
  "m_Headers (repeated_request tag req rb) = cr_Header req"
  by (simp_all add: repeated_request_def)

lemma representation_names [simp]: "BodyRepresentationDecoded \<noteq> BodyRepresentationUnavailable"
    "BodyRepresentationDecoded \<noteq> []"
  by (simp_all add: BodyRepresentationDecoded_def BodyRepresentationUnavailable_def)

lemma repeated_flow_body:
  assumes ok: "header_ok h" and enc: "EncodeRequestBody C proto h rb = Inr wire"
    and nf: "f_Protocol nf = proto" "f_Request nf = Some (repeated_request tag req rb)"
      "f_Messages nf = repeatedGRPCMessages rb" "cr_Header req = copy_headers h []"
    and te: "rb_Body rb = [] \<Longrightarrow> rb_Messages rb = [] \<Longrightarrow> no_transfer_coding h"
  shows "CapturedRequestBody C rr (Some nf) = Inr rb"
proof -
  let ?m = "repeated_request tag req rb"
  have ne: "ProtoHTTP1 \<noteq> ProtoGRPC" "ProtoHTTP2 \<noteq> ProtoGRPC" "ProtoHTTP1 \<noteq> ProtoHTTP2"
    by (simp_all add: ProtoHTTP1_def ProtoHTTP2_def ProtoGRPC_def)
  have ce: "requestContentEncoding (messageHeader ?m) = requestContentEncoding h"
    unfolding messageHeader_def using ok nf(4) by (intro requestContentEncoding_cong) (simp add: hvalues_copy_ok)
  from enc obtain logical where "EncodeContentEncoding C logical (requestContentEncoding h) = Inr wire"
    by (auto simp: EncodeRequestBody_def rbind_eq_Inr)
  then have valid: "validateCapturedContentEncoding C ?m = Inr ()"
    by (simp add: validateCapturedContentEncoding_def ce EncodeContentEncoding_valid)
  have amb: "\<not> encodedBodyIsAmbiguous ?m" by (simp add: encodedBodyIsAmbiguous_def)
  have absent: "validateAbsentBody (messageHeader ?m) = Inr ()" if "rb_Body rb = []" "rb_Messages rb = []"
    using validateAbsentBody_copy [OF ok te [OF that]] nf(4) by (simp add: messageHeader_def)
  consider (h) "proto = ProtoHTTP1 \<or> proto = ProtoHTTP2" "rb_Messages rb = []"
    | (g) "proto = ProtoGRPC" "rb_Body rb = []" "validateGRPCCompression h (rb_Messages rb) = Inr ()"
    using enc by (auto simp: EncodeRequestBody_def rbind_eq_Inr dest: validateGRPCCompression_unit split: if_splits)
  then show ?thesis
  proof cases
    case h
    then have "capturedBodyWithoutRaw C ?m = Inr (rb_Body rb)"
      using valid amb absent by (simp add: capturedBodyWithoutRaw_def)
    then have "capturedHTTP1Body C rr ?m = Inr (rb_Body rb)" and "capturedHTTP2Body C ?m = Inr (rb_Body rb)"
      using valid amb by (simp_all add: capturedHTTP1Body_def capturedHTTP2Body_def Let_def)
    then show ?thesis using h ne nf(1,2) by (auto simp: CapturedRequestBody_def)
  next
    case g
    have "validateGRPCCompression (messageHeader ?m) (rb_Messages rb) = Inr ()"
      using g(3) validateGRPCCompression_cong [of "messageHeader ?m" h] ok nf(4)
      by (simp add: messageHeader_def hget_def hvalues_copy_ok)
    then have "capturedGRPCBody C ?m (f_Messages nf) = Inr \<lparr>rb_Body = [], rb_Messages = rb_Messages rb\<rparr>"
      using absent g(2) nf(3) by (simp add: capturedGRPCBody_def Let_def collect_repeated)
    then show ?thesis using g ne nf(1,2) by (simp add: CapturedRequestBody_def)
  qed
qed

lemma replay_request_Inr:
  assumes "replay_request C rr parse_url f = Inr (req, rb)" and "f_Request f = Some rq"
  shows "CapturedRequestBody C rr (Some f) = Inr rb"
    and "EncodeRequestBody C (f_Protocol f) (m_Headers rq) rb = Inr (cr_Body req)"
    and "cr_Header req = copy_headers (m_Headers rq) []"
  using assms by (auto simp: replay_request_def Let_def rbind_eq_Inr dest: NewRequest_Inr_body split: if_splits)

text \<open>
  Every replay is recorded, and can be replayed. If the flow's request could be built, \<^verbatim>\<open>Resend\<close>
  returns a new flow for the same protocol, peer and TLS state, complete with a response or
  failed with its error and no response; and the body that would be replayed from the new flow is
  the one the original had, so that replaying is idempotent (an empty body wants a header without
  transfer coding).
\<close>

lemma replayed_flow_is_replayable:
  assumes "Resend C rr parse_url exchange rand f = (Some nf, err)"
    and "f_Request f = Some rq" and "header_ok (m_Headers rq)" and "no_transfer_coding (m_Headers rq)"
  shows "f_Protocol nf = f_Protocol f \<and> f_SNI nf = f_SNI f \<and> f_Secure nf = f_Secure f \<and> f_ServerAddr nf = f_ServerAddr f
    \<and> (if err = None then f_Status nf = StatusComplete \<and> f_Response nf \<noteq> None \<and> f_Err nf = None
       else f_Status nf = StatusError \<and> f_Response nf = None \<and> f_Err nf \<noteq> None)
    \<and> CapturedRequestBody C rr (Some nf) = CapturedRequestBody C rr (Some f)"
proof -
  obtain req rb where r: "replay_request C rr parse_url f = Inr (req, rb)"
    using assms(1) by (cases "replay_request C rr parse_url f") (auto simp: Resend_def)
  note rr = replay_request_Inr [OF r assms(2)]
  have parts: "f_Protocol nf = f_Protocol f" "f_SNI nf = f_SNI f" "f_Secure nf = f_Secure f"
    "f_ServerAddr nf = f_ServerAddr f" "f_Request nf = Some (repeated_request ''replay'' req rb)"
    "f_Messages nf = repeatedGRPCMessages rb"
    "if err = None then f_Status nf = StatusComplete \<and> f_Response nf \<noteq> None \<and> f_Err nf = None
     else f_Status nf = StatusError \<and> f_Response nf = None \<and> f_Err nf \<noteq> None"
    using assms(1) r by (auto simp: Resend_def Let_def NewFlow_def replayedRequest_def replayedGRPCMessages_def split: sum.splits)
  have "CapturedRequestBody C rr (Some nf) = Inr rb"
    by (rule repeated_flow_body [OF assms(3) rr(2) parts(1,5,6) rr(3) assms(4)])
  with parts rr(1) show ?thesis by simp
qed

lemma replayed_flow_is_replayable_witness:
  "\<exists>nf. Resend demo_codecs (\<lambda>_. Inl []) demo_url demo_exchange [1, 2, 3, 4, 5, 6] demo_get_flow = (Some nf, None)
     \<and> CapturedRequestBody demo_codecs (\<lambda>_. Inl []) (Some nf)
       = CapturedRequestBody demo_codecs (\<lambda>_. Inl []) (Some demo_get_flow)"
proof -
  have "case Resend demo_codecs (\<lambda>_. Inl []) demo_url demo_exchange [1, 2, 3, 4, 5, 6] demo_get_flow of
      (Some nf, None) \<Rightarrow> True | _ \<Rightarrow> False" by code_simp
  then obtain nf where "Resend demo_codecs (\<lambda>_. Inl []) demo_url demo_exchange [1, 2, 3, 4, 5, 6] demo_get_flow
      = (Some nf, None)" by (auto split: prod.splits option.splits)
  with replayed_flow_is_replayable [OF this demo_get_flow_ok] show ?thesis by blast
qed

end
