(* ===== verification/Export.thy ===== *)
theory Export
  imports ShellQuote Capture GoUtf8
begin

text \<open>
  \<^verbatim>\<open>internal/export\<close>: the curl command of a request (\<^verbatim>\<open>export.go\<close>), the plain text of a flow
  (\<^verbatim>\<open>flowtext.go\<close>) and the HAR archive of a session (\<^verbatim>\<open>har.go\<close>). \<^verbatim>\<open>encoding/json\<close> is a parameter:
  \<open>json_indent\<close> gives the indented text of valid JSON, \<open>marshal\<close> the text of an archive; the time stamp
  of an entry is given by \<open>started\<close>.
\<close>

section \<open>curl\<close>

definition exportable :: "flow \<Rightarrow> bool" where
  "exportable f =
     (if f_Protocol f = ProtoHTTP1 \<or> f_Protocol f = ProtoHTTP2 \<or> f_Protocol f = ProtoGRPC
      then f_Request f \<noteq> None else False)"

definition flowURL :: "flow \<Rightarrow> message \<Rightarrow> string" where
  "flowURL f req =
     (let scheme = (if f_Secure f then ''https'' else ''http'');
          host = (case SplitHostPort (f_ServerAddr f) of
              Inl _ \<Rightarrow> f_ServerAddr f
            | Inr (h, p) \<Rightarrow> if scheme = ''https'' \<and> p = ''443'' \<or> scheme = ''http'' \<and> p = ''80'' then h else f_ServerAddr f)
      in scheme @ ''://'' @ host @ gget (m_Meta req) ''path'' [])"

definition request_method :: "message \<Rightarrow> string" where
  "request_method req = (let m = gget (m_Meta req) ''method'' [] in if m \<noteq> [] then m else ''GET'')"

definition sortedKeys :: "header \<Rightarrow> string list" where
  "sortedKeys h = sorted_gkeys h"

definition continued :: string where "continued = '' '' @ [backslash, newline] @ ''  ''"

definition Curl :: "flow \<Rightarrow> string + string" where
  "Curl f = (case (exportable f, f_Request f) of
       (True, Some req) \<Rightarrow> Inr (''curl -X '' @ request_method req @ '' '' @ Single (flowURL f req)
         @ concat (map (\<lambda>k. if equal_fold k ''Host'' then []
             else concat (map (\<lambda>v. continued @ ''-H '' @ Single (k @ '': '' @ v)) (gget (m_Headers req) k [])))
             (sortedKeys (m_Headers req)))
         @ (if m_Body req \<noteq> [] then continued @ ''--data-binary '' @ Single (str_of (m_Body req)) else []))
     | _ \<Rightarrow> Inl (''export: '' @ f_Protocol f @ '' flows can't be exported as curl''))"

text \<open>The arguments meant.\<close>

definition curl_args :: "flow \<Rightarrow> message \<Rightarrow> string list" where
  "curl_args f req = [''curl'', ''-X'', request_method req, flowURL f req]
     @ concat (map (\<lambda>k. if equal_fold k ''Host'' then []
         else concat (map (\<lambda>v. [''-H'', k @ '': '' @ v]) (gget (m_Headers req) k [])))
         (sortedKeys (m_Headers req)))
     @ (if m_Body req \<noteq> [] then [''--data-binary'', str_of (m_Body req)] else [])"

lemma split_continued: "sh_split (continued @ s) = sh_split s"
proof -
  have "skip_blanks (continued @ s) = skip_blanks s"
    by (simp add: continued_def blank_def)
  then show ?thesis by (subst (1 2) sh_split.simps) simp
qed

lemma at_delimiter_continued [simp]: "at_delimiter (continued @ s)" "at_delimiter []" "at_delimiter (CHR '' '' # s)"
  by (simp_all add: continued_def at_delimiter_def word_end_def blank_def)

abbreviation plain_word :: "string \<Rightarrow> bool" where
  "plain_word w \<equiv> w \<noteq> [] \<and> list_all sh_plain w"

lemma split_word_blank: "plain_word w \<Longrightarrow> sh_split (w @ '' '' @ s) = map_option ((#) w) (sh_split s)"
  using split_blank [of "CHR '' ''" s] by (simp add: split_plain_then blank_def)

lemma split_option_arg:
  assumes "plain_word w" "at_delimiter rest" "sh_split rest = Some ws"
  shows "sh_split (continued @ w @ '' '' @ Single a @ rest) = Some (w # a # ws)"
proof -
  show ?thesis
    unfolding split_continued split_word_blank [OF assms(1)] single.split_quoted_then [OF assms(2)] assms(3)
    by simp
qed

text \<open>An option list as text and as arguments, with what follows.\<close>

definition opts_text :: "(string \<times> string) list \<Rightarrow> string" where
  "opts_text os = concat (map (\<lambda>(w, a). continued @ w @ '' '' @ Single a) os)"

lemma split_opts:
  "\<forall>(w, a) \<in> set os. plain_word w \<Longrightarrow>
    at_delimiter (opts_text os) \<and> sh_split (opts_text os) = Some (concat (map (\<lambda>(w, a). [w, a]) os))"
proof (induction os)
  case Nil
  show ?case by (simp add: opts_text_def sh_split.simps)
next
  case (Cons p os)
  then show ?case
    using split_option_arg [of "fst p" "opts_text os" _ "snd p"]
    by (auto simp: opts_text_def split_beta)
qed

definition curl_opts :: "message \<Rightarrow> (string \<times> string) list" where
  "curl_opts req = concat (map (\<lambda>k. if equal_fold k ''Host'' then []
       else map (\<lambda>v. (''-H'', k @ '': '' @ v)) (gget (m_Headers req) k [])) (sortedKeys (m_Headers req)))
     @ (if m_Body req \<noteq> [] then [(''--data-binary'', str_of (m_Body req))] else [])"

lemma concat_concat: "concat (map f (concat xss)) = concat (map (\<lambda>xs. concat (map f xs)) xss)"
  by (induction xss) auto

lemma Curl_opts:
  assumes "exportable f" and "f_Request f = Some req"
  shows "Curl f = Inr (''curl -X '' @ request_method req @ '' '' @ Single (flowURL f req) @ opts_text (curl_opts req))"
    and "curl_args f req = [''curl'', ''-X'', request_method req, flowURL f req]
      @ concat (map (\<lambda>(w, a). [w, a]) (curl_opts req))"
proof -
  have "opts_text (if b then [] else map g vs) = (if b then [] else opts_text (map g vs))" for b g and vs :: "string list"
    by (simp add: opts_text_def)
  then show "Curl f = Inr (''curl -X '' @ request_method req @ '' '' @ Single (flowURL f req) @ opts_text (curl_opts req))"
    using assms by (simp add: Curl_def curl_opts_def opts_text_def concat_concat comp_def if_distrib [of "map _"]
        if_distrib [of concat] cong: if_cong)
  show "curl_args f req = [''curl'', ''-X'', request_method req, flowURL f req]
      @ concat (map (\<lambda>(w, a). [w, a]) (curl_opts req))"
    by (simp add: curl_args_def curl_opts_def concat_concat comp_def if_distrib [of "map _"]
        if_distrib [of concat] cong: if_cong)
qed


definition demo_curl_request :: "string \<Rightarrow> message" where
  "demo_curl_request meth = \<lparr>m_Direction = ClientToServer, m_Summary = [],
     m_Headers = [(''X-A'', [''it's $HOME'']), (''Host'', [''h''])], m_Body = [10, 39], m_Raw = [],
     m_Meta = [(''method'', meth), (''path'', ''/a b'')]\<rparr>"

definition demo_curl_flow :: "string \<Rightarrow> flow" where
  "demo_curl_flow meth = (demo_heap 0)\<lparr>f_Protocol := ProtoHTTP1, f_ServerAddr := ''h:80'',
     f_Request := Some (demo_curl_request meth)\<rparr>"


text \<open>A method that is not plain, which HTTP allows, is not one word of the command.\<close>

lemma curl_method_unquoted:
  "\<exists>cmd. Curl (demo_curl_flow ''A&B'') = Inr cmd \<and> sh_split cmd = None"
proof -
  have "case Curl (demo_curl_flow ''A&B'') of Inr cmd \<Rightarrow> sh_split cmd = None | Inl _ \<Rightarrow> False" by code_simp
  then show ?thesis by (auto split: sum.splits)
qed

end
