(* ===== verification/FlowText.thy ===== *)
theory FlowText
  imports Export Protocols
begin

text \<open>
  \<^verbatim>\<open>internal/export/flowtext.go\<close>: the plain text dump of a flow. \<open>json_indent\<close> is \<^verbatim>\<open>json.Indent\<close> with two
  blanks, \<^verbatim>\<open>None\<close> if the text is not JSON.
\<close>

definition printable_byte :: "byte \<Rightarrow> bool" where
  "printable_byte c \<longleftrightarrow> c = 10 \<or> c = 13 \<or> c = 9 \<or> (32 \<le> c \<and> c < 127)"

definition isTextual :: "bytes \<Rightarrow> bool" where
  "isTextual b =
     (if b = [] then True
      else length (filter printable_byte b) * 100 div length b \<ge> 85)"

definition bodyText :: "(string \<Rightarrow> string option) \<Rightarrow> bytes \<Rightarrow> string" where
  "bodyText json_indent body =
     (let trimmed = trim_space (str_of body);
          plain = (if isTextual body then str_of body else ''['' @ show_nat (length body) @ '' bytes binary]'')
      in case trimmed of
           [] \<Rightarrow> plain
         | c # _ \<Rightarrow> if c = CHR ''{'' \<or> c = CHR ''['' then
               (case json_indent trimmed of Some out \<Rightarrow> out | None \<Rightarrow> plain)
             else plain)"

definition text_lines :: "string list \<Rightarrow> string" where
  "text_lines ls = concat (map (\<lambda>l. l @ [newline]) ls)"

definition indentText :: "string \<Rightarrow> string \<Rightarrow> string" where
  "indentText s pre = join [newline] (map (\<lambda>ln. pre @ ln) (split_on [newline] (trim_right_set [newline] s)))"

definition dash :: "string \<Rightarrow> string" where
  "dash s = (if s = [] then ''-'' else s)"

definition requestLine :: "message \<Rightarrow> string" where
  "requestLine req = trim_space (gget (m_Meta req) ''method'' [] @ '' '' @ gget (m_Meta req) ''path'' [])"

definition writeMessageText :: "(string \<Rightarrow> string option) \<Rightarrow> message \<Rightarrow> string" where
  "writeMessageText json_indent m =
     concat (map (\<lambda>k. concat (map (\<lambda>v. k @ '': '' @ v @ [newline]) (gget (m_Headers m) k []))) (sortedKeys (m_Headers m)))
     @ (if m_Body m \<noteq> [] then [newline] @ bodyText json_indent (m_Body m) @ [newline] else [])"

definition show_bool :: "bool \<Rightarrow> string" where
  "show_bool b = (if b then ''true'' else ''false'')"

definition message_text :: "(string \<Rightarrow> string option) \<Rightarrow> message \<Rightarrow> string" where
  "message_text json_indent m = direction_string (m_Direction m) @ '' '' @ m_Summary m @ [newline]
     @ (if m_Body m \<noteq> [] then indentText (bodyText json_indent (m_Body m)) ''  '' @ [newline] else [])"

definition FlowText :: "(string \<Rightarrow> string option) \<Rightarrow> flow \<Rightarrow> string" where
  "FlowText json_indent f =
     f_Protocol f @ '' '' @ Title f @ [newline]
     @ ''server='' @ f_ServerAddr f @ '' sni='' @ dash (f_SNI f) @ '' secure='' @ show_bool (f_Secure f)
       @ '' status='' @ status_string (f_Status f) @ [newline]
     @ (case f_Request f of None \<Rightarrow> []
        | Some r \<Rightarrow> [newline] @ ''--- REQUEST ---'' @ [newline]
            @ (let line = requestLine r in if line \<noteq> [] then line @ [newline] else [])
            @ writeMessageText json_indent r)
     @ (case f_Response f of None \<Rightarrow> []
        | Some r \<Rightarrow> [newline] @ ''--- RESPONSE ---'' @ [newline]
            @ (let st = gget (m_Meta r) ''status'' [] in if st \<noteq> [] then ''HTTP '' @ st @ [newline] else [])
            @ writeMessageText json_indent r)
     @ (if f_Messages f = [] then []
        else [newline] @ ''--- MESSAGES ('' @ show_nat (length (f_Messages f)) @ '') ---'' @ [newline]
          @ concat (map (message_text json_indent) (f_Messages f)))"

definition rule72 :: string where "rule72 = replicate 72 (CHR ''='')"

fun FlowsText_from :: "(string \<Rightarrow> string option) \<Rightarrow> nat \<Rightarrow> flow list \<Rightarrow> string" where
  "FlowsText_from json_indent i [] = []"
| "FlowsText_from json_indent i (f # fs) =
     (if i > 0 then [newline] @ rule72 @ [newline, newline] else [])
     @ FlowText json_indent f @ FlowsText_from json_indent (Suc i) fs"

definition FlowsText :: "(string \<Rightarrow> string option) \<Rightarrow> flow list \<Rightarrow> string" where
  "FlowsText json_indent flows = FlowsText_from json_indent 0 flows"

section \<open>Properties\<close>

text \<open>
  No body that is mostly binary reaches a text file. A body of which less than 85 percent of the
  bytes are printable and that does not start like JSON is shown as its size only; a textual body that
  does not start like JSON is shown byte for byte. The export of several flows is their
  texts, in order, with a rule between two.
\<close>

lemma flow_text_bodies_bounded:
  assumes "\<And>s. trim_space (str_of b) = CHR ''{'' # s \<Longrightarrow> json_indent (CHR ''{'' # s) = None"
    and "\<And>s. trim_space (str_of b) = CHR ''['' # s \<Longrightarrow> json_indent (CHR ''['' # s) = None"
  shows "(20 * length (filter printable_byte b) < 17 * length b
      \<longrightarrow> bodyText json_indent b = ''['' @ show_nat (length b) @ '' bytes binary]'')
    \<and> (17 * length b \<le> 20 * length (filter printable_byte b) \<longrightarrow> bodyText json_indent b = str_of b)
    \<and> FlowsText json_indent fs = join ([newline] @ rule72 @ [newline, newline]) (map (FlowText json_indent) fs)"
proof -
  let ?n = "length (filter printable_byte b)"
  have plain: "bodyText json_indent b = (if isTextual b then str_of b else ''['' @ show_nat (length b) @ '' bytes binary]'')"
    using assms by (auto simp: bodyText_def Let_def split: list.split)
  have textual: "isTextual b \<longleftrightarrow> 17 * length b \<le> 20 * ?n"
  proof (cases "b = []")
    case False
    then have "85 \<le> ?n * 100 div length b \<longleftrightarrow> 85 * length b \<le> ?n * 100"
      by (simp add: less_eq_div_iff_mult_less_eq)
    with False show ?thesis by (auto simp: isTextual_def)
  qed (simp add: isTextual_def)
  have "FlowsText_from json_indent i fs = (if i > 0 \<and> fs \<noteq> [] then [newline] @ rule72 @ [newline, newline] else [])
      @ join ([newline] @ rule72 @ [newline, newline]) (map (FlowText json_indent) fs)" for i
  proof (induction fs arbitrary: i)
    case (Cons f fs)
    then show ?case by (cases fs) auto
  qed simp
  with plain textual show ?thesis by (auto simp: FlowsText_def)
qed

definition demo_binary :: bytes where
  "demo_binary = [0x89, 0x50, 0x4E, 0x47]"

lemma flow_text_bodies_bounded_witness:
  "bodyText (\<lambda>_. None) demo_binary = ''[4 bytes binary]''"
proof -
  have "20 * length (filter printable_byte demo_binary) < 17 * length demo_binary" by code_simp
  moreover have "''['' @ show_nat (length demo_binary) @ '' bytes binary]'' = ''[4 bytes binary]''" by code_simp
  ultimately show ?thesis using flow_text_bodies_bounded [of demo_binary "\<lambda>_. None" "[]"] by simp
qed

end
