(* ===== verification/Har.thy ===== *)
theory Har
  imports Export WebSocket
begin

text \<open>
  \<^verbatim>\<open>internal/export/har.go\<close>: the HAR 1.2 archive of a session. The records are those that
  \<^verbatim>\<open>encoding/json\<close> is given; \<open>marshal\<close> is \<^verbatim>\<open>json.MarshalIndent\<close>.
\<close>

record har_nvp =
  nv_Name :: string
  nv_Value :: string

record har_post =
  hp_MimeType :: string
  hp_Text :: string

record har_content =
  hc_Size :: nat
  hc_MimeType :: string
  hc_Text :: string
  hc_Encoding :: string

record har_request =
  hq_Method :: string
  hq_URL :: string
  hq_HTTPVersion :: string
  hq_Headers :: "har_nvp list"
  hq_QueryString :: "har_nvp list"
  hq_PostData :: "har_post option"
  hq_HeadersSize :: int
  hq_BodySize :: int

record har_response =
  hr_Status :: int
  hr_StatusText :: string
  hr_HTTPVersion :: string
  hr_Headers :: "har_nvp list"
  hr_Content :: har_content
  hr_HeadersSize :: int
  hr_BodySize :: int

record har_entry =
  he_StartedDateTime :: string
  he_Request :: har_request
  he_Response :: har_response

record har_log =
  hl_Version :: string
  hl_CreatorName :: string
  hl_CreatorVersion :: string
  hl_Entries :: "har_entry list"

section \<open>base64\<close>

text \<open>\<^verbatim>\<open>base64.StdEncoding\<close>.\<close>

definition b64_alphabet :: string where
  "b64_alphabet = ''ABCDEFGHIJKLMNOPQRSTUVWXYZabcdefghijklmnopqrstuvwxyz0123456789+/''"

definition b64_char :: "nat \<Rightarrow> char" where
  "b64_char d = b64_alphabet ! d"

fun base64_codes :: "nat list \<Rightarrow> string" where
  "base64_codes [] = []"
| "base64_codes [a] = [b64_char (a div 4), b64_char (a mod 4 * 16), CHR ''='', CHR ''='']"
| "base64_codes [a, b] =
     [b64_char (a div 4), b64_char (a mod 4 * 16 + b div 16), b64_char (b mod 16 * 4), CHR ''='']"
| "base64_codes (a # b # c # s) =
     [b64_char (a div 4), b64_char (a mod 4 * 16 + b div 16), b64_char (b mod 16 * 4 + c div 64), b64_char (c mod 64)]
     @ base64_codes s"

definition base64_encode :: "bytes \<Rightarrow> string" where
  "base64_encode b = base64_codes (map unat b)"

text \<open>The reader of a consumer of the archive.\<close>

fun index_in :: "string \<Rightarrow> char \<Rightarrow> nat" where
  "index_in [] c = 0"
| "index_in (x # xs) c = (if x = c then 0 else Suc (index_in xs c))"

definition b64_val :: "char \<Rightarrow> nat" where
  "b64_val c = index_in b64_alphabet c"

fun unbase64 :: "string \<Rightarrow> nat list" where
  "unbase64 (w # x # y # z # s) =
     (if y = CHR ''='' then [b64_val w * 4 + b64_val x div 16]
      else if z = CHR ''='' then [b64_val w * 4 + b64_val x div 16, b64_val x mod 16 * 16 + b64_val y div 4]
      else [b64_val w * 4 + b64_val x div 16, b64_val x mod 16 * 16 + b64_val y div 4,
            b64_val y mod 4 * 64 + b64_val z] @ unbase64 s)"
| "unbase64 _ = []"

definition base64_decode :: "string \<Rightarrow> bytes" where
  "base64_decode s = map word_of_nat (unbase64 s)"

section \<open>The archive\<close>

definition headerValue :: "message \<Rightarrow> string \<Rightarrow> string" where
  "headerValue m key = (case gget (m_Headers m) key [] of v # _ \<Rightarrow> v | [] \<Rightarrow> [])"

text \<open>The leading digits, accumulated in a 64-bit \<^verbatim>\<open>int\<close>, as in \<^verbatim>\<open>parseStatusCode\<close>.\<close>

definition statusCode :: "message \<Rightarrow> int" where
  "statusCode m = status_digits 0 (runes (gget (m_Meta m) ''status'' []))"

definition harHeaders :: "message \<Rightarrow> har_nvp list" where
  "harHeaders m = concat (map (\<lambda>k. map (\<lambda>v. \<lparr>nv_Name = k, nv_Value = v\<rparr>) (gget (m_Headers m) k []))
     (sortedKeys (m_Headers m)))"

definition responseContent :: "bytes \<Rightarrow> string \<Rightarrow> har_content" where
  "responseContent body mime =
     (if utf8_valid body
      then \<lparr>hc_Size = length body, hc_MimeType = mime, hc_Text = str_of body, hc_Encoding = []\<rparr>
      else \<lparr>hc_Size = length body, hc_MimeType = mime, hc_Text = base64_encode body, hc_Encoding = ''base64''\<rparr>)"

definition no_content :: har_content where
  "no_content = \<lparr>hc_Size = 0, hc_MimeType = [], hc_Text = [], hc_Encoding = []\<rparr>"

definition entryFor :: "(flow \<Rightarrow> string) \<Rightarrow> flow \<Rightarrow> message \<Rightarrow> har_entry" where
  "entryFor started f req =
     \<lparr>he_StartedDateTime = started f,
      he_Request = \<lparr>hq_Method = request_method req, hq_URL = flowURL f req, hq_HTTPVersion = f_Protocol f,
        hq_Headers = harHeaders req, hq_QueryString = [],
        hq_PostData = (if m_Body req \<noteq> [] then Some \<lparr>hp_MimeType = headerValue req ''Content-Type'',
            hp_Text = str_of (m_Body req)\<rparr> else None),
        hq_HeadersSize = - 1, hq_BodySize = int (length (m_Body req))\<rparr>,
      he_Response = (case f_Response f of
          None \<Rightarrow> \<lparr>hr_Status = 0, hr_StatusText = [], hr_HTTPVersion = f_Protocol f, hr_Headers = [],
            hr_Content = no_content, hr_HeadersSize = - 1, hr_BodySize = - 1\<rparr>
        | Some r \<Rightarrow> \<lparr>hr_Status = statusCode r, hr_StatusText = gget (m_Meta r) ''status'' [],
            hr_HTTPVersion = f_Protocol f, hr_Headers = harHeaders r,
            hr_Content = responseContent (m_Body r) (headerValue r ''Content-Type''),
            hr_HeadersSize = - 1, hr_BodySize = int (length (m_Body r))\<rparr>)\<rparr>"

fun har_entries :: "(flow \<Rightarrow> string) \<Rightarrow> flow list \<Rightarrow> har_entry list" where
  "har_entries started [] = []"
| "har_entries started (f # fs) =
     (case (exportable f, f_Request f) of
        (True, Some req) \<Rightarrow> entryFor started f req # har_entries started fs
      | _ \<Rightarrow> har_entries started fs)"

definition HAR :: "(flow \<Rightarrow> string) \<Rightarrow> (har_log \<Rightarrow> string + bytes) \<Rightarrow> flow list \<Rightarrow> string + bytes" where
  "HAR started marshal flows =
     marshal \<lparr>hl_Version = ''1.2'', hl_CreatorName = ''cli-capture'', hl_CreatorVersion = ''0.1'',
       hl_Entries = har_entries started flows\<rparr>"

section \<open>Properties\<close>

lemma b64_char_val:
  assumes "d < 64"
  shows "b64_val (b64_char d) = d \<and> b64_char d \<noteq> CHR ''=''"
proof -
  have "list_all (\<lambda>d. b64_val (b64_char d) = d \<and> b64_char d \<noteq> CHR ''='') [0..<64]" by code_simp
  then show ?thesis using assms by (simp add: list_all_iff)
qed

lemma digit_sum: "x < 16 \<Longrightarrow> (a * 16 + x) div 16 = a" "x < 16 \<Longrightarrow> (a * 16 + x) mod 16 = x"
    "x < 4 \<Longrightarrow> (a * 4 + x) div 4 = a" "x < 4 \<Longrightarrow> (a * 4 + x) mod 4 = (x :: nat)"
  by auto

lemma unbase64_codes: "\<forall>x \<in> set s. x < 256 \<Longrightarrow> unbase64 (base64_codes s) = s"
proof (induction s rule: base64_codes.induct)
  case (2 a)
  then show ?case by (simp add: b64_char_val)
next
  case (3 a b)
  have "b div 16 < 16" "a div 4 < 64" "a mod 4 * 16 + b div 16 < 64" "b mod 16 * 4 < 64" using 3 by auto
  then show ?case by (simp add: b64_char_val digit_sum)
next
  case (4 a b c s)
  have "b div 16 < 16" "c div 64 < 4" "a div 4 < 64" "a mod 4 * 16 + b div 16 < 64" "b mod 16 * 4 + c div 64 < 64" "c mod 64 < 64"
    using 4 by auto
  then show ?case using 4 by (simp add: b64_char_val digit_sum)
qed simp

lemma base64_decode_encode: "base64_decode (base64_encode b) = b"
proof -
  have "\<forall>x \<in> set (map unat b). x < 256"
    by (auto simp: unat_byte_less)
  then show ?thesis
    by (simp add: base64_decode_def base64_encode_def unbase64_codes) (simp add: comp_def map_idI)
qed

definition content_bytes :: "har_content \<Rightarrow> bytes" where
  "content_bytes c = (if hc_Encoding c = ''base64'' then base64_decode (hc_Text c) else bytes_of (hc_Text c))"

lemma wrap_int_nat: "n < 2 ^ 63 \<Longrightarrow> wrap_int (int n) = int n"
  by (rule wrap_int_small) (simp_all add: of_nat_less_numeral_power_cancel_iff)

lemma digits_val_mono: "digits_val ds \<le> digits_val (ds @ es)"
proof (induction es rule: rev_induct)
  case (snoc e es)
  then show ?case by (simp add: digits_val_snoc append_assoc [symmetric] del: append_assoc)
qed simp

lemma status_digits_run:
  "list_all is_digit es \<Longrightarrow> digits_val (ds @ es) < 2 ^ 63 \<Longrightarrow>
    status_digits (int (digits_val ds)) (map of_char es @ rs) = status_digits (int (digits_val (ds @ es))) rs"
proof (induction es arbitrary: ds)
  case (Cons e es)
  have d: "48 \<le> (of_char e :: nat)" "(of_char e :: nat) \<le> 57" and v: "digit_val e = of_char e - 48"
    using Cons.prems(1) by (auto simp: is_digit_def digit_val_def)
  have "digits_val (ds @ [e]) < 2 ^ 63"
    using digits_val_mono [of "ds @ [e]" es] Cons.prems(2) by simp
  then have "wrap_int (int (digits_val ds) * 10 + int (of_char e - 48)) = int (digits_val (ds @ [e]))"
    using wrap_int_nat [of "digits_val (ds @ [e])"] v by (simp add: digits_val_snoc)
  then show ?case using Cons.IH [of "ds @ [e]"] Cons.prems d by (simp add: linorder_not_less)
qed simp

lemma runes_digits: "list_all is_digit ds \<Longrightarrow> runes (ds @ s) = map of_char ds @ runes s"
  by (induction ds) (simp_all add: is_digit_def runes_ascii)

lemma statusCode_number:
  assumes "gget (m_Meta m) ''status'' [] = show_nat n @ '' '' @ t" and "n < 2 ^ 63"
  shows "statusCode m = int n"
  using status_digits_run [of "show_nat n" "[]" "32 # runes t"] assms
  by (simp add: statusCode_def runes_digits show_nat_digits runes_ascii) (simp add: digits_val_def)

lemma utf8_valid_ascii: "\<forall>c \<in> set s. (of_char c :: nat) < 128 \<Longrightarrow> utf8_valid (bytes_of s)"
proof -
  have "utf8_valid_codes ns" if "\<forall>n \<in> set ns. n < 128" for ns
    using that by (induction ns) auto
  then show "\<forall>c \<in> set s. (of_char c :: nat) < 128 \<Longrightarrow> utf8_valid (bytes_of s)"
    by (simp add: utf8_valid_def bytes_of_def comp_def)
qed

lemma b64_char_ascii:
  assumes "d < 64"
  shows "(of_char (b64_char d) :: nat) < 128"
proof -
  have "list_all (\<lambda>c. (of_char c :: nat) < 128) b64_alphabet" "length b64_alphabet = 64"
    by (simp_all add: b64_alphabet_def)
  then show ?thesis using assms by (simp add: b64_char_def list_all_length)
qed

lemma base64_ascii: "\<forall>x \<in> set s. x < 256 \<Longrightarrow> \<forall>c \<in> set (base64_codes s). (of_char c :: nat) < 128"
proof (induction s rule: base64_codes.induct)
  case (2 a)
  then show ?case by (auto simp: b64_char_ascii)
next
  case (3 a b)
  have "b div 16 < 16" "a div 4 < 64" "a mod 4 * 16 + b div 16 < 64" "b mod 16 * 4 < 64" using 3 by auto
  then show ?case by (simp add: b64_char_ascii)
next
  case (4 a b c s)
  have "b div 16 < 16" "c div 64 < 4" "a div 4 < 64" "a mod 4 * 16 + b div 16 < 64" "b mod 16 * 4 + c div 64 < 64" "c mod 64 < 64"
    using 4 by auto
  then show ?case using 4 by (simp add: b64_char_ascii)
qed simp

lemma responseContent_text: "utf8_valid (bytes_of (hc_Text (responseContent b mime)))"
  and responseContent_bytes: "content_bytes (responseContent b mime) = b"
proof -
  have "\<forall>x \<in> set (map unat b). x < 256" by (auto simp: unat_byte_less)
  from base64_ascii [OF this] have "utf8_valid (bytes_of (base64_encode b))"
    unfolding base64_encode_def by (rule utf8_valid_ascii)
  then show "utf8_valid (bytes_of (hc_Text (responseContent b mime)))" by (simp add: responseContent_def)
  show "content_bytes (responseContent b mime) = b"
    by (simp add: responseContent_def content_bytes_def base64_decode_encode)
qed

lemma har_entries_filter:
  "har_entries started fs = map (\<lambda>f. entryFor started f (the (f_Request f))) (filter exportable fs)"
  by (induction fs) (auto simp: exportable_def split: option.split)

text \<open>
  The archive keeps the exchanges. It has one entry per exportable flow, in order. The bytes of a
  response come back from its content, text or base64, and the text written is always valid
  UTF-8, which JSON needs; the size, the headers (every value, sorted by name) and the numeric status are
  those of the response.
\<close>

lemma har_keeps_exchanges:
  assumes "f_Response f = Some r"
  shows "har_entries started fs = map (\<lambda>f. entryFor started f (the (f_Request f))) (filter exportable fs)
    \<and> (let c = hr_Content (he_Response (entryFor started f req)) in
        content_bytes c = m_Body r \<and> hc_Size c = length (m_Body r) \<and> utf8_valid (bytes_of (hc_Text c)))
    \<and> map (\<lambda>n. (nv_Name n, nv_Value n)) (hr_Headers (he_Response (entryFor started f req)))
      = concat (map (\<lambda>k. map (Pair k) (gget (m_Headers r) k [])) (sort (gkeys (m_Headers r))))
    \<and> (gget (m_Meta r) ''status'' [] = show_nat n @ '' '' @ t \<longrightarrow> n < 2 ^ 63 \<longrightarrow>
        hr_Status (he_Response (entryFor started f req)) = int n)"
  using responseContent_text responseContent_bytes assms
  by (simp add: har_entries_filter entryFor_def Let_def statusCode_number)
     (simp add: responseContent_def harHeaders_def sortedKeys_def sorted_gkeys_def map_concat comp_def)

definition demo_har_response :: message where
  "demo_har_response = \<lparr>m_Direction = ServerToClient, m_Summary = [], m_Headers = [(''B'', [''1'']), (''A'', [''2''])],
     m_Body = [0xFF, 0x00], m_Raw = [], m_Meta = [(''status'', ''404 Not Found'')]\<rparr>"

lemma har_keeps_exchanges_witness:
  "hr_Status (he_Response (entryFor (\<lambda>_. []) ((demo_curl_flow ''GET'')\<lparr>f_Response := Some demo_har_response\<rparr>)
      (demo_curl_request ''GET''))) = 404
   \<and> content_bytes (hr_Content (he_Response (entryFor (\<lambda>_. []) ((demo_curl_flow ''GET'')\<lparr>f_Response := Some demo_har_response\<rparr>)
      (demo_curl_request ''GET'')))) = [0xFF, 0x00]"
proof -
  have "gget (m_Meta demo_har_response) ''status'' [] = show_nat 404 @ '' '' @ ''Not Found''" by code_simp
  moreover have "m_Body demo_har_response = [0xFF, 0x00]" by (simp add: demo_har_response_def)
  ultimately show ?thesis
    using har_keeps_exchanges [of "(demo_curl_flow ''GET'')\<lparr>f_Response := Some demo_har_response\<rparr>" demo_har_response
        "\<lambda>_. []" "[]" "demo_curl_request ''GET''" 404 "''Not Found''"]
    by (simp add: Let_def)
qed

end
