(* ===== verification/Config.thy ===== *)
theory Config
  imports GoStrings
begin

text \<open>
  \<^verbatim>\<open>internal/config/config.go\<close>: the layered configuration. The file system and the JSON decoder are
  parameters: \<open>open_file\<close> gives the contents of a path or the error, \<open>decode\<close> is \<^verbatim>\<open>json.Decoder\<close> with unknown
  fields refused. Paths are those of a POSIX system.
\<close>

record theme_section =
  th_Base :: string
  th_Colors :: "string gomap"
  th_Glyphs :: "string gomap"
  th_Border :: string

record keys_section =
  ks_Leader :: string
  ks_Bindings :: "string gomap gomap"

record config =
  cf_Theme :: theme_section
  cf_Keys :: keys_section

record loaded =
  ld_Config :: config
  ld_Files :: "string list"

record environment =
  en_Getenv :: "string \<Rightarrow> string"
  en_Home :: "string option"

datatype open_error = NotExist | OpenFailed string
datatype config_error = FileError open_error | DecodeError string string | NoSuchFile string string

section \<open>Paths\<close>

text \<open>\<^verbatim>\<open>filepath.Clean\<close> and \<^verbatim>\<open>filepath.Join\<close>: the components kept so far, the last one first.\<close>

fun clean_parts :: "bool \<Rightarrow> string list \<Rightarrow> string list \<Rightarrow> string list" where
  "clean_parts rooted [] st = rev st"
| "clean_parts rooted (p # ps) st =
     (if p = [] \<or> p = ''.'' then clean_parts rooted ps st
      else if p = ''..'' then
        (case st of
           q # st' \<Rightarrow> if q \<noteq> ''..'' then clean_parts rooted ps st' else clean_parts rooted ps (''..'' # st)
         | [] \<Rightarrow> if rooted then clean_parts rooted ps [] else clean_parts rooted ps [''..''])
      else clean_parts rooted ps (p # st))"

definition path_clean :: "string \<Rightarrow> string" where
  "path_clean s =
     (let rooted = prefix ''/'' s; body = join ''/'' (clean_parts rooted (split_on ''/'' s) []) in
      if rooted then ''/'' @ body else if body = [] then ''.'' else body)"

definition path_join :: "string list \<Rightarrow> string" where
  "path_join elems = (let es = filter (\<lambda>e. e \<noteq> []) elems in if es = [] then [] else path_clean (join ''/'' es))"

definition Dir :: "environment \<Rightarrow> string" where
  "Dir env =
     (let x = en_Getenv env ''XDG_CONFIG_HOME'' in
      if x \<noteq> [] then path_join [x, ''cli-capture'']
      else case en_Home env of
          None \<Rightarrow> path_join [''.config'', ''cli-capture'']
        | Some home \<Rightarrow> path_join [home, ''.config'', ''cli-capture''])"

definition DefaultPath :: "environment \<Rightarrow> string" where
  "DefaultPath env = path_join [Dir env, ''config.json'']"

definition LegacyPath :: "string \<Rightarrow> string" where
  "LegacyPath dataDir = path_join [dataDir, ''config.json'']"

definition Resolve_path :: "environment \<Rightarrow> string \<Rightarrow> string" where
  "Resolve_path env spec0 =
     (let spec = trim_space spec0;
          named = (if CHR ''/'' \<in> set spec \<or> prefix ''.'' spec \<or> suffix ''.json'' spec then spec
                   else path_join [Dir env, spec @ ''.json''])
      in if spec = [] then []
         else if prefix ''~/'' spec then
           (case en_Home env of Some home \<Rightarrow> path_join [home, drop 2 spec] | None \<Rightarrow> named)
         else named)"

definition Split_specs :: "string \<Rightarrow> string list" where
  "Split_specs v = filter (\<lambda>p. p \<noteq> []) (map trim_space (split_on '','' v))"

definition Paths_Set :: "string list \<Rightarrow> string \<Rightarrow> string list" where
  "Paths_Set p v = p @ Split_specs v"

definition Paths_String :: "string list \<Rightarrow> string" where
  "Paths_String p = join '','' p"

section \<open>Merging\<close>

fun put_all :: "'v gomap \<Rightarrow> 'v gomap \<Rightarrow> 'v gomap" where
  "put_all m [] = m"
| "put_all m ((k, v) # kvs) = put_all (gput m k v) kvs"

fun merge_bindings :: "string gomap gomap \<Rightarrow> string gomap gomap \<Rightarrow> string gomap gomap" where
  "merge_bindings m [] = m"
| "merge_bindings m ((ctx, binds) # other) =
     merge_bindings (gput m ctx (put_all (gget m ctx []) binds)) other"

definition Merge :: "config \<Rightarrow> config \<Rightarrow> config" where
  "Merge c other =
     (let t = cf_Theme c; ot = cf_Theme other; k = cf_Keys c; ok = cf_Keys other in
      \<lparr>cf_Theme = \<lparr>th_Base = (if th_Base ot \<noteq> [] then th_Base ot else th_Base t),
                   th_Colors = put_all (th_Colors t) (th_Colors ot),
                   th_Glyphs = put_all (th_Glyphs t) (th_Glyphs ot),
                   th_Border = (if th_Border ot \<noteq> [] then th_Border ot else th_Border t)\<rparr>,
       cf_Keys = \<lparr>ks_Leader = (if ks_Leader ok \<noteq> [] then ks_Leader ok else ks_Leader k),
                  ks_Bindings = merge_bindings (ks_Bindings k) (ks_Bindings ok)\<rparr>\<rparr>)"

definition empty_config :: config where
  "empty_config = \<lparr>cf_Theme = \<lparr>th_Base = [], th_Colors = [], th_Glyphs = [], th_Border = []\<rparr>,
     cf_Keys = \<lparr>ks_Leader = [], ks_Bindings = []\<rparr>\<rparr>"

section \<open>Loading\<close>

type_synonym files = "string \<Rightarrow> open_error + bytes"
type_synonym decoder = "bytes \<Rightarrow> string + config"

definition ReadFile :: "files \<Rightarrow> decoder \<Rightarrow> string \<Rightarrow> config_error + config" where
  "ReadFile open_file decode path =
     (case open_file path of
        Inl e \<Rightarrow> Inl (FileError e)
      | Inr b \<Rightarrow> (case decode b of Inl e \<Rightarrow> Inl (DecodeError path e) | Inr c \<Rightarrow> Inr c))"

definition layer :: "loaded \<Rightarrow> config \<Rightarrow> string \<Rightarrow> loaded" where
  "layer out cfg path = \<lparr>ld_Config = Merge (ld_Config out) cfg, ld_Files = ld_Files out @ [path]\<rparr>"

fun load_specs :: "files \<Rightarrow> decoder \<Rightarrow> environment \<Rightarrow> string list \<Rightarrow> loaded \<Rightarrow> config_error + loaded" where
  "load_specs open_file decode env [] out = Inr out"
| "load_specs open_file decode env (spec # specs) out =
     (let path = Resolve_path env spec in
      case ReadFile open_file decode path of
        Inl e \<Rightarrow> if e = FileError NotExist then Inl (NoSuchFile path spec) else Inl e
      | Inr cfg \<Rightarrow> load_specs open_file decode env specs (layer out cfg path))"

definition Load :: "files \<Rightarrow> decoder \<Rightarrow> environment \<Rightarrow> string list \<Rightarrow> string \<Rightarrow> config_error + loaded" where
  "Load open_file decode env specs dataDir =
     (let out = \<lparr>ld_Config = empty_config, ld_Files = []\<rparr>; bs = DefaultPath env in
      rbind (case ReadFile open_file decode bs of
          Inr cfg \<Rightarrow> Inr (layer out cfg bs)
        | Inl e \<Rightarrow>
            if e \<noteq> FileError NotExist then Inl e
            else if dataDir \<noteq> [] then
              (case ReadFile open_file decode (LegacyPath dataDir) of
                 Inr cfg \<Rightarrow> Inr (layer out cfg (LegacyPath dataDir))
               | Inl e \<Rightarrow> if e \<noteq> FileError NotExist then Inl e else Inr out)
            else Inr out)
        (load_specs open_file decode env specs))"

definition Describe_loaded :: "loaded \<Rightarrow> string" where
  "Describe_loaded l =
     (if ld_Files l = [] then ''built-in defaults (no config file)'' else join '' + '' (ld_Files l))"

section \<open>The layers\<close>

text \<open>What a stack of files means: the last file that sets a scalar, a color, a glyph or a binding wins.\<close>

definition last_set :: "string list \<Rightarrow> string" where
  "last_set vs = (case filter (\<lambda>v. v \<noteq> []) vs of [] \<Rightarrow> [] | us \<Rightarrow> last us)"

definition config_binding :: "config \<Rightarrow> string \<Rightarrow> string \<Rightarrow> string option" where
  "config_binding c ctx key = (case map_of (ks_Bindings (cf_Keys c)) ctx of None \<Rightarrow> None | Some m \<Rightarrow> map_of m key)"

fun overlay :: "('a \<Rightarrow> 'b option) list \<Rightarrow> 'a \<Rightarrow> 'b option" where
  "overlay [] = Map.empty"
| "overlay (m # ms) = m ++ overlay ms"

definition config_maps_ok :: "config \<Rightarrow> bool" where
  "config_maps_ok c \<longleftrightarrow> gmap_ok (th_Colors (cf_Theme c)) \<and> gmap_ok (th_Glyphs (cf_Theme c))
     \<and> gmap_ok (ks_Bindings (cf_Keys c)) \<and> (\<forall>(ctx, m) \<in> set (ks_Bindings (cf_Keys c)). gmap_ok m)"

lemma map_of_put_all: "gmap_ok kvs \<Longrightarrow> map_of (put_all m kvs) = map_of m ++ map_of kvs"
proof (induction m kvs rule: put_all.induct)
  case (2 m k v kvs)
  then have "gmap_ok kvs" "map_of kvs k = None"
    by (auto simp: gmap_ok_def gkeys_def map_of_eq_None_iff)
  with 2 show ?case by (auto simp: map_add_def fun_eq_iff split: option.split)
qed simp

lemma merge_bindings_lookup:
  "gmap_ok other \<Longrightarrow> \<forall>(ctx, m) \<in> set other. gmap_ok m \<Longrightarrow>
    (case map_of (merge_bindings m other) ctx of None \<Rightarrow> Map.empty | Some b \<Rightarrow> map_of b)
      = (case map_of m ctx of None \<Rightarrow> Map.empty | Some b \<Rightarrow> map_of b)
        ++ (case map_of other ctx of None \<Rightarrow> Map.empty | Some b \<Rightarrow> map_of b)"
proof (induction m other rule: merge_bindings.induct)
  case (2 m c binds other)
  then have "gmap_ok other" "map_of other c = None" "gmap_ok binds"
    by (auto simp: gmap_ok_def gkeys_def map_of_eq_None_iff)
  with 2 show ?case by (auto simp: map_of_put_all gget_def split: option.split)
qed simp

text \<open>The components of a configuration as functions, and how \<^verbatim>\<open>Merge\<close> acts on them.\<close>

lemma Merge_scalars [simp]:
  "th_Base (cf_Theme (Merge c d)) = (if th_Base (cf_Theme d) \<noteq> [] then th_Base (cf_Theme d) else th_Base (cf_Theme c))"
  "th_Border (cf_Theme (Merge c d)) = (if th_Border (cf_Theme d) \<noteq> [] then th_Border (cf_Theme d) else th_Border (cf_Theme c))"
  "ks_Leader (cf_Keys (Merge c d)) = (if ks_Leader (cf_Keys d) \<noteq> [] then ks_Leader (cf_Keys d) else ks_Leader (cf_Keys c))"
  by (simp_all add: Merge_def Let_def)

lemma Merge_maps:
  assumes "config_maps_ok d"
  shows "map_of (th_Colors (cf_Theme (Merge c d))) = map_of (th_Colors (cf_Theme c)) ++ map_of (th_Colors (cf_Theme d))"
    and "map_of (th_Glyphs (cf_Theme (Merge c d))) = map_of (th_Glyphs (cf_Theme c)) ++ map_of (th_Glyphs (cf_Theme d))"
    and "config_binding (Merge c d) ctx = config_binding c ctx ++ config_binding d ctx"
proof -
  have b: "config_binding c ctx = (case map_of (ks_Bindings (cf_Keys c)) ctx of None \<Rightarrow> Map.empty | Some b \<Rightarrow> map_of b)" for c
    by (auto simp: config_binding_def fun_eq_iff split: option.split)
  show "config_binding (Merge c d) ctx = config_binding c ctx ++ config_binding d ctx"
    unfolding b using assms merge_bindings_lookup [of "ks_Bindings (cf_Keys d)" "ks_Bindings (cf_Keys c)" ctx]
    by (simp add: Merge_def Let_def config_maps_ok_def)
qed (use assms in \<open>simp_all add: Merge_def Let_def config_maps_ok_def map_of_put_all\<close>)

lemma last_set_snoc: "last_set (vs @ [v]) = (if v \<noteq> [] then v else last_set vs)"
  by (cases "filter (\<lambda>v. v \<noteq> []) vs") (auto simp: last_set_def split: list.split)

lemma overlay_snoc: "overlay (ms @ [m]) = overlay ms ++ m"
  by (induction ms) auto

definition merged :: "config list \<Rightarrow> config" where
  "merged cs = foldl Merge empty_config cs"

lemma merged_scalars:
  "th_Base (cf_Theme (merged cs)) = last_set (map (\<lambda>c. th_Base (cf_Theme c)) cs)"
  "th_Border (cf_Theme (merged cs)) = last_set (map (\<lambda>c. th_Border (cf_Theme c)) cs)"
  "ks_Leader (cf_Keys (merged cs)) = last_set (map (\<lambda>c. ks_Leader (cf_Keys c)) cs)"
proof (induction cs rule: rev_induct)
  case Nil
  {
    case 1
    show ?case by (simp add: merged_def empty_config_def last_set_def)
  next
    case 2
    show ?case by (simp add: merged_def empty_config_def last_set_def)
  next
    case 3
    show ?case by (simp add: merged_def empty_config_def last_set_def)
  }
qed (simp_all add: merged_def last_set_snoc)

lemma merged_maps:
  "\<forall>c \<in> set cs. config_maps_ok c \<Longrightarrow>
    map_of (th_Colors (cf_Theme (merged cs))) = overlay (map (\<lambda>c. map_of (th_Colors (cf_Theme c))) cs)
    \<and> map_of (th_Glyphs (cf_Theme (merged cs))) = overlay (map (\<lambda>c. map_of (th_Glyphs (cf_Theme c))) cs)
    \<and> config_binding (merged cs) ctx = overlay (map (\<lambda>c. config_binding c ctx) cs)"
proof (induction cs rule: rev_induct)
  case Nil
  show ?case by (auto simp: merged_def empty_config_def config_binding_def)
next
  case (snoc c cs)
  then have IH: "map_of (th_Colors (cf_Theme (foldl Merge empty_config cs))) = overlay (map (\<lambda>c. map_of (th_Colors (cf_Theme c))) cs)"
    "map_of (th_Glyphs (cf_Theme (foldl Merge empty_config cs))) = overlay (map (\<lambda>c. map_of (th_Glyphs (cf_Theme c))) cs)"
    "config_binding (foldl Merge empty_config cs) ctx = overlay (map (\<lambda>c. config_binding c ctx) cs)" and ok: "config_maps_ok c"
    by (simp_all add: merged_def)
  show ?case
    by (simp add: merged_def Merge_maps [OF ok] IH overlay_snoc)
qed

lemma load_specs_layers:
  "load_specs open_file decode env specs \<lparr>ld_Config = merged cs, ld_Files = fs\<rparr> = Inr out \<Longrightarrow>
    \<exists>ds. out = \<lparr>ld_Config = merged (cs @ ds), ld_Files = fs @ map (Resolve_path env) specs\<rparr>
      \<and> list_all2 (\<lambda>p c. ReadFile open_file decode p = Inr c) (map (Resolve_path env) specs) ds"
proof (induction specs arbitrary: cs fs)
  case (Cons spec specs)
  then obtain c where c: "ReadFile open_file decode (Resolve_path env spec) = Inr c"
    by (auto simp: Let_def split: sum.splits if_splits)
  have "layer \<lparr>ld_Config = merged cs, ld_Files = fs\<rparr> c (Resolve_path env spec)
      = \<lparr>ld_Config = merged (cs @ [c]), ld_Files = fs @ [Resolve_path env spec]\<rparr>"
    by (simp add: layer_def merged_def)
  with Cons.prems c have "load_specs open_file decode env specs
      \<lparr>ld_Config = merged (cs @ [c]), ld_Files = fs @ [Resolve_path env spec]\<rparr> = Inr out"
    by (simp add: Let_def)
  from Cons.IH [OF this] obtain ds where
    "out = \<lparr>ld_Config = merged ((cs @ [c]) @ ds), ld_Files = (fs @ [Resolve_path env spec]) @ map (Resolve_path env) specs\<rparr>"
    "list_all2 (\<lambda>p c. ReadFile open_file decode p = Inr c) (map (Resolve_path env) specs) ds" by blast
  with c show ?case by (intro exI [of _ "c # ds"]) simp
qed simp

lemma list_all2_right: "list_all2 P xs ys \<Longrightarrow> \<forall>y \<in> set ys. \<exists>x. P x y"
  by (induction rule: list_all2_induct) auto

text \<open>
  Configuration files are layers. What is loaded comes from the files listed, in this order: the
  default file or, where it is missing, the legacy one, then one file per \<^verbatim>\<open>-config\<close> value; each of them
  was read, and for every scalar, color, glyph and key binding the last file that sets it decides, so
  that a file changes nothing but what it states.
\<close>

lemma load_layers_files:
  assumes "Load open_file decode env specs dataDir = Inr out"
    and "\<forall>p c. ReadFile open_file decode p = Inr c \<longrightarrow> config_maps_ok c"
  shows "\<exists>bs cs. ld_Files out = bs @ map (Resolve_path env) specs
    \<and> bs \<in> {[], [DefaultPath env], [LegacyPath dataDir]}
    \<and> list_all2 (\<lambda>p c. ReadFile open_file decode p = Inr c) (ld_Files out) cs
    \<and> th_Base (cf_Theme (ld_Config out)) = last_set (map (\<lambda>c. th_Base (cf_Theme c)) cs)
    \<and> th_Border (cf_Theme (ld_Config out)) = last_set (map (\<lambda>c. th_Border (cf_Theme c)) cs)
    \<and> ks_Leader (cf_Keys (ld_Config out)) = last_set (map (\<lambda>c. ks_Leader (cf_Keys c)) cs)
    \<and> map_of (th_Colors (cf_Theme (ld_Config out))) = overlay (map (\<lambda>c. map_of (th_Colors (cf_Theme c))) cs)
    \<and> map_of (th_Glyphs (cf_Theme (ld_Config out))) = overlay (map (\<lambda>c. map_of (th_Glyphs (cf_Theme c))) cs)
    \<and> (\<forall>ctx. config_binding (ld_Config out) ctx = overlay (map (\<lambda>c. config_binding c ctx) cs))"
proof -
  have m: "merged [] = empty_config" by (simp add: merged_def)
  have one: "layer \<lparr>ld_Config = empty_config, ld_Files = []\<rparr> c p = \<lparr>ld_Config = merged [c], ld_Files = [p]\<rparr>" for c p
    by (simp add: layer_def merged_def)
  obtain bs cs where bs: "bs \<in> {[], [DefaultPath env], [LegacyPath dataDir]}"
      "list_all2 (\<lambda>p c. ReadFile open_file decode p = Inr c) bs cs"
    and l: "load_specs open_file decode env specs \<lparr>ld_Config = merged cs, ld_Files = bs\<rparr> = Inr out"
  proof (cases "ReadFile open_file decode (DefaultPath env)")
    case (Inr c)
    then show thesis using assms(1) that [of "[DefaultPath env]" "[c]"] by (simp add: Load_def Let_def one)
  next
    case (Inl e)
    show thesis
    proof (cases "\<exists>c. dataDir \<noteq> [] \<and> ReadFile open_file decode (LegacyPath dataDir) = Inr c")
      case True
      then show thesis using Inl assms(1) that [of "[LegacyPath dataDir]"]
        by (auto simp: Load_def Let_def one split: if_splits)
    next
      case False
      then have "load_specs open_file decode env specs \<lparr>ld_Config = merged [], ld_Files = []\<rparr> = Inr out"
        using Inl assms(1) by (auto simp: Load_def Let_def m split: if_splits sum.splits)
      then show thesis using that [of "[]" "[]"] by simp
    qed
  qed
  from load_specs_layers [OF l] obtain ds where
    out: "out = \<lparr>ld_Config = merged (cs @ ds), ld_Files = bs @ map (Resolve_path env) specs\<rparr>"
    and ds: "list_all2 (\<lambda>p c. ReadFile open_file decode p = Inr c) (map (Resolve_path env) specs) ds" by blast
  have all: "list_all2 (\<lambda>p c. ReadFile open_file decode p = Inr c) (ld_Files out) (cs @ ds)"
    unfolding out using bs(2) ds by (simp add: list_all2_appendI)
  have "\<forall>c \<in> set (cs @ ds). config_maps_ok c"
    using list_all2_right [OF all] assms(2) by blast
  from merged_maps [OF this] bs(1) all show ?thesis
    by (intro exI [of _ bs] exI [of _ "cs @ ds"]) (simp add: out merged_scalars)
qed

definition demo_files :: files where
  "demo_files p = (if p = ''/c/cli-capture/config.json'' then Inr [1]
     else if p = ''/c/cli-capture/work.json'' then Inr [2] else Inl NotExist)"

definition demo_base_config :: config where
  "demo_base_config = empty_config\<lparr>cf_Theme := \<lparr>th_Base = ''light'',
     th_Colors = [(''dim'', ''7''), (''title'', ''1'')], th_Glyphs = [], th_Border = []\<rparr>\<rparr>"

definition demo_work_config :: config where
  "demo_work_config = empty_config\<lparr>cf_Theme := \<lparr>th_Base = [], th_Colors = [(''title'', ''9'')],
     th_Glyphs = [], th_Border = ''thick''\<rparr>\<rparr>"

definition demo_decode :: decoder where
  "demo_decode b = (if b = [1] then Inr demo_base_config else Inr demo_work_config)"

definition demo_env :: environment where
  "demo_env = \<lparr>en_Getenv = (\<lambda>k. if k = ''XDG_CONFIG_HOME'' then ''/c'' else []), en_Home = None\<rparr>"

lemma demo_paths: "DefaultPath demo_env = ''/c/cli-capture/config.json''"
    "Resolve_path demo_env '' work '' = ''/c/cli-capture/work.json''"
proof -
  have j: "path_join [''/c'', ''cli-capture''] = ''/c/cli-capture''"
    "path_join [''/c/cli-capture'', ''config.json''] = ''/c/cli-capture/config.json''"
    "path_join [''/c/cli-capture'', ''work.json''] = ''/c/cli-capture/work.json''"
    by code_simp+
  have t: "trim_space '' work '' = ''work''" by code_simp
  have n: "\<not> suffix ''.json'' ''work''" using suffix_length_le [of "''.json''" "''work''"] by auto
  have d: "Dir demo_env = ''/c/cli-capture''" by (simp add: Dir_def demo_env_def j)
  show "DefaultPath demo_env = ''/c/cli-capture/config.json''" by (simp add: DefaultPath_def d j)
  show "Resolve_path demo_env '' work '' = ''/c/cli-capture/work.json''"
    using n by (simp add: Resolve_path_def d j t Let_def)
qed

lemma load_layers_files_witness:
  "\<exists>out cs. Load demo_files demo_decode demo_env ['' work ''] [] = Inr out
    \<and> list_all2 (\<lambda>p c. ReadFile demo_files demo_decode p = Inr c) (ld_Files out) cs
    \<and> map_of (th_Colors (cf_Theme (ld_Config out))) = overlay (map (\<lambda>c. map_of (th_Colors (cf_Theme c))) cs)"
proof -
  have "ReadFile demo_files demo_decode (DefaultPath demo_env) = Inr demo_base_config"
    "ReadFile demo_files demo_decode (Resolve_path demo_env '' work '') = Inr demo_work_config"
    by (simp_all add: ReadFile_def demo_paths demo_files_def demo_decode_def)
  then obtain out where l: "Load demo_files demo_decode demo_env ['' work ''] [] = Inr out"
    by (simp add: Load_def Let_def)
  have ok: "config_maps_ok c" if "ReadFile demo_files demo_decode p = Inr c" for p c
  proof -
    have "config_maps_ok demo_base_config" "config_maps_ok demo_work_config" by code_simp+
    moreover have "c = demo_base_config \<or> c = demo_work_config"
      using that unfolding ReadFile_def demo_decode_def by (auto split: sum.splits if_splits)
    ultimately show ?thesis by blast
  qed
  then have "\<forall>p c. ReadFile demo_files demo_decode p = Inr c \<longrightarrow> config_maps_ok c" by blast
  from load_layers_files [OF l this] l show ?thesis by blast
qed

end
