(* ===== verification/Theme.thy ===== *)
theory Theme
  imports GoStrings
begin

text \<open>
  \<^verbatim>\<open>internal/theme/theme.go\<close>: the palette. A pointer to a color or glyph of a theme, which the code
  gets from its name, is the name of the record field.
\<close>

record theme =
  tm_Name :: string
  tm_Focused :: string
  tm_Unfocused :: string
  tm_Title :: string
  tm_Pending :: string
  tm_Flag :: string
  tm_KeyCap :: string
  tm_Dim :: string
  tm_Section :: string
  tm_Status2xx :: string
  tm_Status3xx :: string
  tm_Status4xx :: string
  tm_Status5xx :: string
  tm_JSONKey :: string
  tm_JSONString :: string
  tm_JSONNumber :: string
  tm_JSONLiteral :: string
  tm_JSONPunct :: string
  tm_StatusMode :: string
  tm_StatusText :: string
  tm_FlagGlyph :: string
  tm_PointerGlyph :: string
  tm_ArrowGlyph :: string
  tm_Border :: string

datatype color_field = Focused | Unfocused | TitleColor | Pending | Flag | KeyCap | Dim
  | Section | Status2xx | Status3xx | Status4xx | Status5xx | JSONKey | JSONString
  | JSONNumber | JSONLiteral | JSONPunct | StatusMode | StatusText

datatype glyph_field = FlagGlyph | PointerGlyph | ArrowGlyph

fun get_color :: "color_field \<Rightarrow> theme \<Rightarrow> string" where
  "get_color Focused t = tm_Focused t"
| "get_color Unfocused t = tm_Unfocused t"
| "get_color TitleColor t = tm_Title t"
| "get_color Pending t = tm_Pending t"
| "get_color Flag t = tm_Flag t"
| "get_color KeyCap t = tm_KeyCap t"
| "get_color Dim t = tm_Dim t"
| "get_color Section t = tm_Section t"
| "get_color Status2xx t = tm_Status2xx t"
| "get_color Status3xx t = tm_Status3xx t"
| "get_color Status4xx t = tm_Status4xx t"
| "get_color Status5xx t = tm_Status5xx t"
| "get_color JSONKey t = tm_JSONKey t"
| "get_color JSONString t = tm_JSONString t"
| "get_color JSONNumber t = tm_JSONNumber t"
| "get_color JSONLiteral t = tm_JSONLiteral t"
| "get_color JSONPunct t = tm_JSONPunct t"
| "get_color StatusMode t = tm_StatusMode t"
| "get_color StatusText t = tm_StatusText t"

fun set_color :: "color_field \<Rightarrow> string \<Rightarrow> theme \<Rightarrow> theme" where
  "set_color Focused v t = t\<lparr>tm_Focused := v\<rparr>"
| "set_color Unfocused v t = t\<lparr>tm_Unfocused := v\<rparr>"
| "set_color TitleColor v t = t\<lparr>tm_Title := v\<rparr>"
| "set_color Pending v t = t\<lparr>tm_Pending := v\<rparr>"
| "set_color Flag v t = t\<lparr>tm_Flag := v\<rparr>"
| "set_color KeyCap v t = t\<lparr>tm_KeyCap := v\<rparr>"
| "set_color Dim v t = t\<lparr>tm_Dim := v\<rparr>"
| "set_color Section v t = t\<lparr>tm_Section := v\<rparr>"
| "set_color Status2xx v t = t\<lparr>tm_Status2xx := v\<rparr>"
| "set_color Status3xx v t = t\<lparr>tm_Status3xx := v\<rparr>"
| "set_color Status4xx v t = t\<lparr>tm_Status4xx := v\<rparr>"
| "set_color Status5xx v t = t\<lparr>tm_Status5xx := v\<rparr>"
| "set_color JSONKey v t = t\<lparr>tm_JSONKey := v\<rparr>"
| "set_color JSONString v t = t\<lparr>tm_JSONString := v\<rparr>"
| "set_color JSONNumber v t = t\<lparr>tm_JSONNumber := v\<rparr>"
| "set_color JSONLiteral v t = t\<lparr>tm_JSONLiteral := v\<rparr>"
| "set_color JSONPunct v t = t\<lparr>tm_JSONPunct := v\<rparr>"
| "set_color StatusMode v t = t\<lparr>tm_StatusMode := v\<rparr>"
| "set_color StatusText v t = t\<lparr>tm_StatusText := v\<rparr>"

fun get_glyph :: "glyph_field \<Rightarrow> theme \<Rightarrow> string" where
  "get_glyph FlagGlyph t = tm_FlagGlyph t"
| "get_glyph PointerGlyph t = tm_PointerGlyph t"
| "get_glyph ArrowGlyph t = tm_ArrowGlyph t"

fun set_glyph :: "glyph_field \<Rightarrow> string \<Rightarrow> theme \<Rightarrow> theme" where
  "set_glyph FlagGlyph v t = t\<lparr>tm_FlagGlyph := v\<rparr>"
| "set_glyph PointerGlyph v t = t\<lparr>tm_PointerGlyph := v\<rparr>"
| "set_glyph ArrowGlyph v t = t\<lparr>tm_ArrowGlyph := v\<rparr>"

definition theme_field :: "string \<Rightarrow> color_field option" where
  "theme_field name =
     (if name = ''focused'' then Some Focused else
      if name = ''unfocused'' then Some Unfocused else
      if name = ''title'' then Some TitleColor else
      if name = ''pending'' then Some Pending else
      if name = ''flag'' then Some Flag else
      if name = ''keycap'' then Some KeyCap else
      if name = ''dim'' then Some Dim else
      if name = ''section'' then Some Section else
      if name = ''status2xx'' then Some Status2xx else
      if name = ''status3xx'' then Some Status3xx else
      if name = ''status4xx'' then Some Status4xx else
      if name = ''status5xx'' then Some Status5xx else
      if name = ''json.key'' then Some JSONKey else
      if name = ''json.string'' then Some JSONString else
      if name = ''json.number'' then Some JSONNumber else
      if name = ''json.literal'' then Some JSONLiteral else
      if name = ''json.punct'' then Some JSONPunct else
      if name = ''statusbar.mode'' then Some StatusMode else
      if name = ''statusbar.text'' then Some StatusText else
      None)"

definition Fields :: "string list" where
  "Fields = sort [''focused'', ''unfocused'', ''title'', ''pending'', ''flag'', ''keycap'',
     ''dim'', ''section'', ''status2xx'', ''status3xx'', ''status4xx'', ''status5xx'',
     ''json.key'', ''json.string'', ''json.number'', ''json.literal'', ''json.punct'', ''statusbar.mode'',
     ''statusbar.text'']"

definition glyph_field_of :: "string \<Rightarrow> glyph_field option" where
  "glyph_field_of name =
     (if name = ''flag'' then Some FlagGlyph else
      if name = ''pointer'' then Some PointerGlyph else
      if name = ''arrow'' then Some ArrowGlyph else
      None)"

definition GlyphFields :: "string list" where
  "GlyphFields = [''arrow'', ''flag'', ''pointer'']"

definition borders :: "string list" where
  "borders = [[], ''rounded'', ''normal'', ''thick'', ''double'', ''hidden'']"

definition Borders :: "string list" where
  "Borders = [''double'', ''hidden'', ''normal'', ''rounded'', ''thick'']"

definition builtins :: "theme gomap" where
  "builtins = [(''dark'', \<lparr>tm_Name = ''dark'', tm_Focused = ''13'', tm_Unfocused = ''240'', tm_Title = ''14'', tm_Pending = ''11'', tm_Flag = ''208'', tm_KeyCap = ''14''
      , tm_Dim = ''245'', tm_Section = ''12'', tm_Status2xx = ''10'', tm_Status3xx = ''14'', tm_Status4xx = ''11'', tm_Status5xx = ''9''
      , tm_JSONKey = ''12'', tm_JSONString = ''10'', tm_JSONNumber = ''11'', tm_JSONLiteral = ''13'', tm_JSONPunct = ''240'', tm_StatusMode = ''10'', tm_StatusText = ''245'',
       tm_FlagGlyph = [], tm_PointerGlyph = [], tm_ArrowGlyph = [], tm_Border = []\<rparr>),
    (''light'', \<lparr>tm_Name = ''light'', tm_Focused = ''5'', tm_Unfocused = ''250'', tm_Title = ''6'', tm_Pending = ''3'', tm_Flag = ''166'', tm_KeyCap = ''6''
      , tm_Dim = ''243'', tm_Section = ''4'', tm_Status2xx = ''2'', tm_Status3xx = ''6'', tm_Status4xx = ''3'', tm_Status5xx = ''1''
      , tm_JSONKey = ''4'', tm_JSONString = ''2'', tm_JSONNumber = ''3'', tm_JSONLiteral = ''5'', tm_JSONPunct = ''243'', tm_StatusMode = ''2'', tm_StatusText = ''243'',
       tm_FlagGlyph = [], tm_PointerGlyph = [], tm_ArrowGlyph = [], tm_Border = []\<rparr>),
    (''high-contrast'', \<lparr>tm_Name = ''high-contrast'', tm_Focused = ''15'', tm_Unfocused = ''8'', tm_Title = ''15'', tm_Pending = ''11'', tm_Flag = ''9'', tm_KeyCap = ''15''
      , tm_Dim = ''7'', tm_Section = ''14'', tm_Status2xx = ''10'', tm_Status3xx = ''14'', tm_Status4xx = ''11'', tm_Status5xx = ''9''
      , tm_JSONKey = ''14'', tm_JSONString = ''10'', tm_JSONNumber = ''11'', tm_JSONLiteral = ''13'', tm_JSONPunct = ''7'', tm_StatusMode = ''10'', tm_StatusText = ''15'',
       tm_FlagGlyph = [], tm_PointerGlyph = [], tm_ArrowGlyph = [], tm_Border = []\<rparr>),
    (''none'', \<lparr>tm_Name = ''none'', tm_Focused = [], tm_Unfocused = [], tm_Title = [], tm_Pending = [], tm_Flag = [], tm_KeyCap = []
      , tm_Dim = [], tm_Section = [], tm_Status2xx = [], tm_Status3xx = [], tm_Status4xx = [], tm_Status5xx = []
      , tm_JSONKey = [], tm_JSONString = [], tm_JSONNumber = [], tm_JSONLiteral = [], tm_JSONPunct = [], tm_StatusMode = [], tm_StatusText = [],
       tm_FlagGlyph = [], tm_PointerGlyph = [], tm_ArrowGlyph = [], tm_Border = []\<rparr>)]"

definition Default_theme :: string where "Default_theme = ''dark''"

definition Names :: "string list" where
  "Names = sort (gkeys builtins)"

definition Builtin :: "string \<Rightarrow> theme option" where
  "Builtin name = map_of builtins name"

definition hex_char :: "char \<Rightarrow> bool" where
  "hex_char c \<longleftrightarrow> (let n = of_char c :: nat in 48 \<le> n \<and> n \<le> 57 \<or> 97 \<le> n \<and> n \<le> 102 \<or> 65 \<le> n \<and> n \<le> 70)"

text \<open>\<^verbatim>\<open>^#[0-9a-fA-F]{6}$\<close>\<close>

definition hex_color :: "string \<Rightarrow> bool" where
  "hex_color v = (case v of [] \<Rightarrow> False | c # h \<Rightarrow> c = CHR ''#'' \<and> length h = 6 \<and> list_all hex_char h)"

definition validColor :: "string \<Rightarrow> bool" where
  "validColor v =
     (if v = [] \<or> hex_color v then True
      else case parse_int v of None \<Rightarrow> False | Some n \<Rightarrow> 0 \<le> n \<and> n \<le> 255)"

datatype theme_error = UnknownTheme string | UnknownColor string | InvalidColor string string
  | UnknownGlyph string | UnknownBorder string

fun apply_colors :: "string gomap \<Rightarrow> string list \<Rightarrow> theme \<Rightarrow> theme_error + theme" where
  "apply_colors colors [] t = Inr t"
| "apply_colors colors (name # names) t =
     (case theme_field name of
        None \<Rightarrow> Inl (UnknownColor name)
      | Some p \<Rightarrow> let v = gget colors name [] in
          if \<not> validColor v then Inl (InvalidColor name v)
          else apply_colors colors names (set_color p v t))"

fun apply_glyphs :: "string gomap \<Rightarrow> string list \<Rightarrow> theme \<Rightarrow> theme_error + theme" where
  "apply_glyphs glyphs [] t = Inr t"
| "apply_glyphs glyphs (name # names) t =
     (case glyph_field_of name of
        None \<Rightarrow> Inl (UnknownGlyph name)
      | Some p \<Rightarrow> apply_glyphs glyphs names (set_glyph p (gget glyphs name []) t))"

definition theme_sortedKeys :: "string gomap \<Rightarrow> string list" where
  "theme_sortedKeys m = sorted_gkeys m"

definition Resolve :: "string \<Rightarrow> string gomap \<Rightarrow> string gomap \<Rightarrow> string \<Rightarrow> theme_error + theme" where
  "Resolve base0 colors glyphs border =
     (let base = (if base0 = [] then Default_theme else base0) in
      case Builtin base of
        None \<Rightarrow> Inl (UnknownTheme base)
      | Some t0 \<Rightarrow>
          rbind (apply_colors colors (theme_sortedKeys colors) t0) (\<lambda>t1.
          rbind (apply_glyphs glyphs (theme_sortedKeys glyphs) t1) (\<lambda>t2.
          rbind (if border \<noteq> [] then
                   (if border \<notin> set borders then Inl (UnknownBorder border) else Inr (t2\<lparr>tm_Border := border\<rparr>))
                 else Inr t2) (\<lambda>t3.
          Inr (if base \<noteq> Default_theme \<or> colors \<noteq> [] \<or> glyphs \<noteq> [] \<or> border \<noteq> []
               then t3\<lparr>tm_Name := base\<rparr> else t3)))))"

definition Colorless :: "theme \<Rightarrow> theme" where
  "Colorless t = \<lparr>tm_Name = tm_Name t, tm_Focused = [], tm_Unfocused = [], tm_Title = [], tm_Pending = [], tm_Flag = [], tm_KeyCap = [], tm_Dim = [], tm_Section = [], tm_Status2xx = [], tm_Status3xx = [], tm_Status4xx = [], tm_Status5xx = [], tm_JSONKey = [], tm_JSONString = [], tm_JSONNumber = [], tm_JSONLiteral = [], tm_JSONPunct = [], tm_StatusMode = [], tm_StatusText = [],
     tm_FlagGlyph = tm_FlagGlyph t, tm_PointerGlyph = tm_PointerGlyph t, tm_ArrowGlyph = tm_ArrowGlyph t,
     tm_Border = tm_Border t\<rparr>"

section \<open>Well-formed themes\<close>

definition theme_ok :: "theme \<Rightarrow> bool" where
  "theme_ok t \<longleftrightarrow> (\<forall>p. validColor (get_color p t)) \<and> tm_Border t \<in> set borders"

lemma get_set_color [simp]: "get_color p (set_color q v t) = (if p = q then v else get_color p t)"
  by (cases p; cases q; simp)

lemma get_set_glyph [simp]: "get_glyph p (set_glyph q v t) = (if p = q then v else get_glyph p t)"
  by (cases p; cases q; simp)

lemma set_color_keeps [simp]: "get_glyph g (set_color q v t) = get_glyph g t" "tm_Border (set_color q v t) = tm_Border t"
    "tm_Name (set_color q v t) = tm_Name t"
  by (cases q; cases g; simp)+

lemma set_glyph_keeps [simp]: "get_color p (set_glyph g v t) = get_color p t" "tm_Border (set_glyph g v t) = tm_Border t"
    "tm_Name (set_glyph g v t) = tm_Name t"
  by (cases g; cases p; simp)+

lemma set_other_keeps [simp]:
  "get_color p (t\<lparr>tm_Border := b\<rparr>) = get_color p t" "get_color p (t\<lparr>tm_Name := b\<rparr>) = get_color p t"
  "get_glyph g (t\<lparr>tm_Border := b\<rparr>) = get_glyph g t" "get_glyph g (t\<lparr>tm_Name := b\<rparr>) = get_glyph g t"
proof -
  show "get_color p (t\<lparr>tm_Border := b\<rparr>) = get_color p t" "get_color p (t\<lparr>tm_Name := b\<rparr>) = get_color p t"
    by (cases p; simp)+
  show "get_glyph g (t\<lparr>tm_Border := b\<rparr>) = get_glyph g t" "get_glyph g (t\<lparr>tm_Name := b\<rparr>) = get_glyph g t"
    by (cases g; simp)+
qed

text \<open>A name stands for one field.\<close>

fun color_name :: "color_field \<Rightarrow> string" where
  "color_name Focused = ''focused''"
| "color_name Unfocused = ''unfocused''"
| "color_name TitleColor = ''title''"
| "color_name Pending = ''pending''"
| "color_name Flag = ''flag''"
| "color_name KeyCap = ''keycap''"
| "color_name Dim = ''dim''"
| "color_name Section = ''section''"
| "color_name Status2xx = ''status2xx''"
| "color_name Status3xx = ''status3xx''"
| "color_name Status4xx = ''status4xx''"
| "color_name Status5xx = ''status5xx''"
| "color_name JSONKey = ''json.key''"
| "color_name JSONString = ''json.string''"
| "color_name JSONNumber = ''json.number''"
| "color_name JSONLiteral = ''json.literal''"
| "color_name JSONPunct = ''json.punct''"
| "color_name StatusMode = ''statusbar.mode''"
| "color_name StatusText = ''statusbar.text''"

lemma theme_field_name: "theme_field n = Some p \<Longrightarrow> n = color_name p"
  unfolding theme_field_def by (auto split: if_split_asm)

lemma theme_field_inj: "theme_field m = Some p \<Longrightarrow> theme_field n = Some p \<Longrightarrow> m = n"
  by (auto dest: theme_field_name)

lemma glyph_field_inj: "glyph_field_of m = Some p \<Longrightarrow> glyph_field_of n = Some p \<Longrightarrow> m = n"
  by (auto simp: glyph_field_of_def split: if_splits)

lemma apply_colors_get:
  "apply_colors colors names t = Inr t' \<Longrightarrow> distinct names \<Longrightarrow> theme_field n = Some p \<Longrightarrow>
    get_color p t' = (if n \<in> set names then gget colors n [] else get_color p t)"
proof (induction colors names t rule: apply_colors.induct)
  case (2 colors name names t)
  then obtain q where q: "theme_field name = Some q" "validColor (gget colors name [])"
    "apply_colors colors names (set_color q (gget colors name []) t) = Inr t'"
    by (auto simp: Let_def split: option.splits if_splits)
  with 2 have "get_color p t' = (if n \<in> set names then gget colors n [] else get_color p (set_color q (gget colors name []) t))"
    by simp
  then show ?case using q(1) "2.prems"(2,3) theme_field_inj by auto
qed simp

lemma apply_colors_keeps:
  "apply_colors colors names t = Inr t' \<Longrightarrow> tm_Border t' = tm_Border t \<and> tm_Name t' = tm_Name t \<and> (\<forall>g. get_glyph g t' = get_glyph g t)"
  by (induction colors names t rule: apply_colors.induct) (auto simp: Let_def split: option.splits if_splits)

lemma apply_colors_valid:
  "apply_colors colors names t = Inr t' \<Longrightarrow> \<forall>p. validColor (get_color p t) \<Longrightarrow> \<forall>p. validColor (get_color p t')"
  by (induction colors names t rule: apply_colors.induct) (auto simp: Let_def split: option.splits if_splits)

lemma apply_glyphs_get:
  "apply_glyphs glyphs names t = Inr t' \<Longrightarrow> distinct names \<Longrightarrow> glyph_field_of n = Some p \<Longrightarrow>
    get_glyph p t' = (if n \<in> set names then gget glyphs n [] else get_glyph p t)"
proof (induction glyphs names t rule: apply_glyphs.induct)
  case (2 glyphs name names t)
  then obtain q where q: "glyph_field_of name = Some q"
    "apply_glyphs glyphs names (set_glyph q (gget glyphs name []) t) = Inr t'"
    by (auto split: option.splits)
  with 2 have "get_glyph p t' = (if n \<in> set names then gget glyphs n [] else get_glyph p (set_glyph q (gget glyphs name []) t))"
    by simp
  then show ?case using q(1) "2.prems"(2,3) glyph_field_inj by auto
qed simp

lemma apply_glyphs_keeps:
  "apply_glyphs glyphs names t = Inr t' \<Longrightarrow> tm_Border t' = tm_Border t \<and> tm_Name t' = tm_Name t \<and> (\<forall>p. get_color p t' = get_color p t)"
  by (induction glyphs names t rule: apply_glyphs.induct) (auto split: option.splits)

lemma apply_colors_Inr:
  "(\<exists>t'. apply_colors colors names t = Inr t') \<longleftrightarrow>
    (\<forall>n \<in> set names. theme_field n \<noteq> None \<and> validColor (gget colors n []))"
  by (induction colors names t rule: apply_colors.induct) (auto simp: Let_def split: option.splits)

lemma apply_glyphs_Inr:
  "(\<exists>t'. apply_glyphs glyphs names t = Inr t') \<longleftrightarrow> (\<forall>n \<in> set names. glyph_field_of n \<noteq> None)"
  by (induction glyphs names t rule: apply_glyphs.induct) (auto split: option.splits)

lemma builtin_ok: "Builtin b = Some t \<Longrightarrow> theme_ok t"
proof -
  have all: "(\<forall>p. P p) \<longleftrightarrow> P Focused \<and> P Unfocused \<and> P TitleColor \<and> P Pending \<and> P Flag \<and> P KeyCap \<and> P Dim \<and> P Section \<and> P Status2xx \<and> P Status3xx \<and> P Status4xx \<and> P Status5xx \<and> P JSONKey \<and> P JSONString \<and> P JSONNumber \<and> P JSONLiteral \<and> P JSONPunct \<and> P StatusMode \<and> P StatusText" for P
  proof (intro iffI allI)
    fix p
    assume "P Focused \<and> P Unfocused \<and> P TitleColor \<and> P Pending \<and> P Flag \<and> P KeyCap \<and> P Dim \<and> P Section \<and> P Status2xx \<and> P Status3xx \<and> P Status4xx \<and> P Status5xx \<and> P JSONKey \<and> P JSONString \<and> P JSONNumber \<and> P JSONLiteral \<and> P JSONPunct \<and> P StatusMode \<and> P StatusText"
    then show "P p" by (cases p) simp_all
  qed simp
  have valid: "list_all validColor [[], ''13'', ''240'', ''14'', ''11'', ''208'', ''245'', ''12'', ''10'', ''9'', ''5'', ''250'', ''6'', ''3'', ''166'',
      ''243'', ''4'', ''2'', ''1'', ''15'', ''8'', ''7'']"
    by (simp add: validColor_def hex_color_def parse_digits_def digits_val_def is_digit_def digit_val_def)
  assume "Builtin b = Some t"
  then have "t \<in> set (map snd builtins)" unfolding Builtin_def by (force dest: map_of_SomeD)
  moreover have "\<forall>t \<in> set (map snd builtins). theme_ok t"
    using valid by (simp add: builtins_def theme_ok_def all borders_def)
  ultimately show "theme_ok t" by blast
qed

lemma gget_keys: "n \<in> set (gkeys m) \<Longrightarrow> gget m n d = gget m n e" "n \<notin> set (gkeys m) \<Longrightarrow> gget m n d = d"
  by (auto simp: ghas_keys [symmetric] ghas_def gget_def)

lemma gget_or: "gmap_ok m \<Longrightarrow> (if n \<in> set (theme_sortedKeys m) then gget m n [] else v) = gget m n v"
  using gget_keys [of n m] by (auto simp: theme_sortedKeys_def)

lemma distinct_sortedKeys: "gmap_ok m \<Longrightarrow> distinct (theme_sortedKeys m)"
  by (simp add: theme_sortedKeys_def sorted_gkeys_def gmap_ok_def)

lemma Resolve_Inr:
  assumes "Resolve base colors glyphs border = Inr t" "gmap_ok colors" "gmap_ok glyphs"
  shows "theme_ok t \<and> (\<exists>t0. Builtin (if base = [] then Default_theme else base) = Some t0
    \<and> (\<forall>n p. theme_field n = Some p \<longrightarrow> get_color p t = gget colors n (get_color p t0))
    \<and> (\<forall>n p. glyph_field_of n = Some p \<longrightarrow> get_glyph p t = gget glyphs n (get_glyph p t0))
    \<and> tm_Border t = (if border \<noteq> [] then border else tm_Border t0))"
proof -
  from assms(1) obtain t0 t1 t2 where t0: "Builtin (if base = [] then Default_theme else base) = Some t0"
    and t1: "apply_colors colors (theme_sortedKeys colors) t0 = Inr t1"
    and t2: "apply_glyphs glyphs (theme_sortedKeys glyphs) t1 = Inr t2"
    and b: "border = [] \<or> border \<in> set borders"
    and c: "\<And>p. get_color p t = get_color p t2" and g: "\<And>p. get_glyph p t = get_glyph p t2"
    and bo: "tm_Border t = (if border \<noteq> [] then border else tm_Border t2)"
    by (auto simp: Resolve_def Let_def rbind_eq_Inr split: option.splits if_splits)
  note keeps = apply_colors_keeps [OF t1] apply_glyphs_keeps [OF t2]
  have ok: "theme_ok t0" by (rule builtin_ok [OF t0])
  then have "\<forall>p. validColor (get_color p t1)" using apply_colors_valid [OF t1] by (simp add: theme_ok_def)
  then have "theme_ok t" using keeps ok b c bo by (auto simp: theme_ok_def)
  moreover have "get_color p t = gget colors n (get_color p t0)" if "theme_field n = Some p" for n p
    using apply_colors_get [OF t1 distinct_sortedKeys [OF assms(2)] that] keeps c gget_or [OF assms(2)] by simp
  moreover have "get_glyph p t = gget glyphs n (get_glyph p t0)" if "glyph_field_of n = Some p" for n p
    using apply_glyphs_get [OF t2 distinct_sortedKeys [OF assms(3)] that] keeps g gget_or [OF assms(3)] by simp
  ultimately show ?thesis using t0 bo keeps by simp
qed

lemma get_color_Colorless [simp]: "get_color p (Colorless t) = []"
  by (cases p; simp add: Colorless_def)

lemma Colorless_keeps [simp]: "get_glyph g (Colorless t) = get_glyph g t" "tm_Border (Colorless t) = tm_Border t"
  by (cases g; simp add: Colorless_def) (simp add: Colorless_def)

text \<open>
  C38: a theme that resolves is well formed: every color is empty, an index up to 255 or a hex
  triplet and the border is one that can be drawn, so the renderer never meets a value it cannot use.
  Each field is the user's value where one is given and the base's otherwise; stripping the colors keeps the
  theme well formed, with its glyphs and its border.
\<close>

theorem resolved_theme_well_formed:
  assumes "Resolve base colors glyphs border = Inr t" and "gmap_ok colors" and "gmap_ok glyphs"
  shows "theme_ok t \<and> theme_ok (Colorless t)
    \<and> (\<forall>g. get_glyph g (Colorless t) = get_glyph g t) \<and> (\<forall>p. get_color p (Colorless t) = [])
    \<and> (\<exists>t0. Builtin (if base = [] then Default_theme else base) = Some t0
        \<and> (\<forall>n p. theme_field n = Some p \<longrightarrow> get_color p t = gget colors n (get_color p t0))
        \<and> (\<forall>n p. glyph_field_of n = Some p \<longrightarrow> get_glyph p t = gget glyphs n (get_glyph p t0))
        \<and> tm_Border t = (if border \<noteq> [] then border else tm_Border t0))"
proof -
  have "validColor []" by (simp add: validColor_def)
  with Resolve_Inr [OF assms] show ?thesis by (simp add: theme_ok_def)
qed

lemma ex_rbind: "(\<exists>b. rbind r f = Inr b) \<longleftrightarrow> (\<exists>a. r = Inr a \<and> (\<exists>b. f a = Inr b))"
  by (cases r) auto

text \<open>
  What \<^verbatim>\<open>Resolve\<close> refuses: exactly an unknown base, an unknown color or glyph name, a malformed
  color and an unknown border; and its answer, error included, does not depend on the order in which
  the maps are visited.
\<close>

lemma resolve_refuses_exactly:
  assumes "gmap_ok colors" and "gmap_ok glyphs"
  shows "((\<exists>t. Resolve base colors glyphs border = Inr t) \<longleftrightarrow>
      Builtin (if base = [] then Default_theme else base) \<noteq> None
      \<and> (\<forall>n \<in> set (gkeys colors). theme_field n \<noteq> None \<and> validColor (gget colors n []))
      \<and> (\<forall>n \<in> set (gkeys glyphs). glyph_field_of n \<noteq> None)
      \<and> (border = [] \<or> border \<in> set borders))
    \<and> (gmap_ok colors' \<longrightarrow> gmap_ok glyphs' \<longrightarrow> map_of colors' = map_of colors \<longrightarrow> map_of glyphs' = map_of glyphs \<longrightarrow>
      Resolve base colors' glyphs' border = Resolve base colors glyphs border)"
proof (intro conjI impI)
  show "(\<exists>t. Resolve base colors glyphs border = Inr t) \<longleftrightarrow>
      Builtin (if base = [] then Default_theme else base) \<noteq> None
      \<and> (\<forall>n \<in> set (gkeys colors). theme_field n \<noteq> None \<and> validColor (gget colors n []))
      \<and> (\<forall>n \<in> set (gkeys glyphs). glyph_field_of n \<noteq> None)
      \<and> (border = [] \<or> border \<in> set borders)"
  proof (cases "Builtin (if base = [] then Default_theme else base)")
    case (Some t0)
    have c: "(\<exists>t1. apply_colors colors (theme_sortedKeys colors) t0 = Inr t1) \<longleftrightarrow>
        (\<forall>n \<in> set (gkeys colors). theme_field n \<noteq> None \<and> validColor (gget colors n []))"
      by (simp add: apply_colors_Inr theme_sortedKeys_def)
    have g: "(\<exists>t2. apply_glyphs glyphs (theme_sortedKeys glyphs) t1 = Inr t2) \<longleftrightarrow>
        (\<forall>n \<in> set (gkeys glyphs). glyph_field_of n \<noteq> None)" for t1
      by (simp add: apply_glyphs_Inr theme_sortedKeys_def)
    have "(\<exists>t. Resolve base colors glyphs border = Inr t) \<longleftrightarrow>
        (\<exists>t1. apply_colors colors (theme_sortedKeys colors) t0 = Inr t1
          \<and> (\<exists>t2. apply_glyphs glyphs (theme_sortedKeys glyphs) t1 = Inr t2)) \<and> (border = [] \<or> border \<in> set borders)"
      using Some by (auto simp: Resolve_def Let_def ex_rbind)
    then show ?thesis unfolding g using Some c by auto
  qed (simp add: Resolve_def Let_def)
next
  assume a: "gmap_ok colors'" "gmap_ok glyphs'" "map_of colors' = map_of colors" "map_of glyphs' = map_of glyphs"
  have k: "theme_sortedKeys colors' = theme_sortedKeys colors" "theme_sortedKeys glyphs' = theme_sortedKeys glyphs"
    unfolding theme_sortedKeys_def using sorted_gkeys_perm a assms by blast+
  have gg: "gget colors' = gget colors" "gget glyphs' = gget glyphs" using a(3,4) by (auto simp: gget_def fun_eq_iff)
  have "apply_colors colors' ns t = apply_colors colors ns t" for ns t
    by (induction ns arbitrary: t) (auto simp: gg Let_def split: option.split)
  then have c: "apply_colors colors' = apply_colors colors" by blast
  have "apply_glyphs glyphs' ns t = apply_glyphs glyphs ns t" for ns t
    by (induction ns arbitrary: t) (auto simp: gg split: option.split)
  then have g: "apply_glyphs glyphs' = apply_glyphs glyphs" by blast
  have "(m' = []) = (m = [])" if "map_of m' = map_of m" for m m' :: "string gomap"
    using that by (cases m; cases m') (auto simp: fun_eq_iff split: if_splits)
  with a(3,4) have n: "(colors' = []) = (colors = [])" "(glyphs' = []) = (glyphs = [])" by blast+
  show "Resolve base colors' glyphs' border = Resolve base colors glyphs border"
    unfolding Resolve_def c g k n ..
qed

definition demo_colors :: "string gomap" where
  "demo_colors = [(''json.key'', ''#Ff8800''), (''dim'', ''7'')]"

definition demo_glyphs :: "string gomap" where
  "demo_glyphs = [(''flag'', ''*'')]"

lemma demo_theme_ok: "gmap_ok demo_colors" "gmap_ok demo_glyphs"
  by (simp_all add: demo_colors_def demo_glyphs_def gmap_ok_def gkeys_def)

lemma demo_theme_parts:
  "Builtin Default_theme \<noteq> None" "''thick'' \<in> set borders"
  "\<forall>n \<in> set (gkeys demo_colors). theme_field n \<noteq> None \<and> validColor (gget demo_colors n [])"
  "\<forall>n \<in> set (gkeys demo_glyphs). glyph_field_of n \<noteq> None"
  by (simp_all add: Builtin_def builtins_def Default_theme_def borders_def demo_colors_def demo_glyphs_def gkeys_def gget_def
      theme_field_def glyph_field_of_def validColor_def hex_color_def hex_char_def parse_digits_def digits_val_def
      is_digit_def digit_val_def Let_def)

lemma resolve_refuses_exactly_witness:
  "(\<exists>t. Resolve [] demo_colors demo_glyphs ''thick'' = Inr t)
   \<and> Resolve [] (rev demo_colors) demo_glyphs ''thick'' = Resolve [] demo_colors demo_glyphs ''thick''"
proof -
  have "gmap_ok (rev demo_colors)" "map_of (rev demo_colors) = map_of demo_colors"
    by (auto simp: demo_colors_def gmap_ok_def gkeys_def)
  with resolve_refuses_exactly [OF demo_theme_ok, of "[]" "''thick''" "rev demo_colors" demo_glyphs] demo_theme_ok demo_theme_parts
  show ?thesis by simp
qed

theorem resolved_theme_well_formed_witness:
  "\<exists>t. Resolve [] demo_colors demo_glyphs ''thick'' = Inr t \<and> theme_ok t \<and> tm_JSONKey t = ''#Ff8800'' \<and> tm_Border t = ''thick''"
proof -
  have "\<exists>t2. apply_glyphs demo_glyphs (theme_sortedKeys demo_glyphs) t1 = Inr t2" for t1
    using demo_theme_parts(4) by (simp add: apply_glyphs_Inr theme_sortedKeys_def)
  moreover have "\<exists>t1. apply_colors demo_colors (theme_sortedKeys demo_colors) t0 = Inr t1" for t0
    using demo_theme_parts(3) by (simp add: apply_colors_Inr theme_sortedKeys_def)
  ultimately have "\<exists>t. Resolve [] demo_colors demo_glyphs ''thick'' = Inr t"
    using demo_theme_parts(1,2) by (auto simp: Resolve_def Let_def ex_rbind)
  then obtain t where t: "Resolve [] demo_colors demo_glyphs ''thick'' = Inr t" ..
  have "theme_field ''json.key'' = Some JSONKey" by (simp add: theme_field_def)
  moreover have "gget demo_colors ''json.key'' v = ''#Ff8800''" for v by (simp add: demo_colors_def gget_def)
  ultimately have "get_color JSONKey t = ''#Ff8800''"
    using resolved_theme_well_formed [OF t demo_theme_ok] by metis
  with t resolved_theme_well_formed [OF t demo_theme_ok] show ?thesis by auto
qed

end
