(* ===== verification/Runner.thy ===== *)
theory Runner
  imports ShellQuote
begin

text \<open>
  \<^verbatim>\<open>internal/runner\<close>: the environment and the command line of the target (\<^verbatim>\<open>runner.go\<close>) and the user
  it runs as (\<^verbatim>\<open>credentials_linux.go\<close>). \<open>look_path\<close> is \<^verbatim>\<open>exec.LookPath\<close>, \<open>start_pty\<close> starts a command
  under a pseudo-terminal, \<open>lookup\<close> and \<open>group_ids\<close> are the user database.
\<close>

section \<open>The environment\<close>

definition envKey :: "string \<Rightarrow> string" where
  "envKey kv = takeWhile (\<lambda>c. c \<noteq> CHR ''='') kv"

definition inject_env :: "string \<Rightarrow> string \<Rightarrow> string gomap" where
  "inject_env proxyAddr caFile =
     (let proxyURL = ''http://'' @ proxyAddr in
      [(''HTTP_PROXY'', proxyURL), (''HTTPS_PROXY'', proxyURL), (''http_proxy'', proxyURL),
       (''https_proxy'', proxyURL), (''ALL_PROXY'', proxyURL), (''all_proxy'', proxyURL), (''NO_PROXY'', []),
       (''SSL_CERT_FILE'', caFile), (''CURL_CA_BUNDLE'', caFile), (''REQUESTS_CA_BUNDLE'', caFile),
       (''NODE_EXTRA_CA_CERTS'', caFile), (''GIT_SSL_CAINFO'', caFile), (''CLI_CAPTURE_ACTIVE'', ''1'')])"

text \<open>The order in which \<^verbatim>\<open>range\<close> visits the map is the argument \<open>visit\<close>.\<close>

definition ProxyEnv :: "(string gomap \<Rightarrow> string gomap) \<Rightarrow> string list \<Rightarrow> string \<Rightarrow> string \<Rightarrow> string list" where
  "ProxyEnv visit env proxyAddr caFile =
     (let inject = inject_env proxyAddr caFile in
      filter (\<lambda>kv. \<not> ghas inject (envKey kv)) env @ map (\<lambda>(k, v). k @ ''='' @ v) (visit inject))"

section \<open>The command line\<close>

definition LoginShell :: "(string \<Rightarrow> string) \<Rightarrow> string list" where
  "LoginShell getenv = (let sh = getenv ''SHELL'' in [if sh = [] then ''/bin/sh'' else sh])"

definition plain_char :: "char \<Rightarrow> bool" where
  "plain_char c \<longleftrightarrow> (let n = of_char c :: nat in
     65 \<le> n \<and> n \<le> 90 \<or> 97 \<le> n \<and> n \<le> 122 \<or> 48 \<le> n \<and> n \<le> 57 \<or> c \<in> set ''_.:@%+=/-'')"

definition plainWord :: "string \<Rightarrow> bool" where
  "plainWord w \<longleftrightarrow> w \<noteq> [] \<and> list_all plain_char w"

definition command_word :: "string \<Rightarrow> string" where
  "command_word w = (if plainWord w then w else Single w)"

definition ShellCommand :: "(string \<Rightarrow> string) \<Rightarrow> string list \<Rightarrow> string list" where
  "ShellCommand getenv argv =
     (case argv of
        [] \<Rightarrow> LoginShell getenv
      | a # as \<Rightarrow> LoginShell getenv @ [''-i'', ''-c'', join '' '' (command_word a # map Single as)])"

section \<open>The target's user\<close>

record user_credentials =
  uc_uid :: "32 word"
  uc_gid :: "32 word"
  uc_groups :: "32 word list"

record os_user =
  us_Uid :: string
  us_Gid :: string

datatype credential_error = NegativeUid | UidOutOfRange int | UserLookup string | BadCredential string string
  | UidMismatch string | GroupLookup string | NoGroups | NilCredentials

definition parseCredentialID :: "string \<Rightarrow> string \<Rightarrow> credential_error + 32 word" where
  "parseCredentialID kind v = (case parse_uint 32 v of None \<Rightarrow> Inl (BadCredential kind v) | Some n \<Rightarrow> Inr (of_nat n))"

fun collect_groups :: "32 word list \<Rightarrow> string list \<Rightarrow> credential_error + 32 word list" where
  "collect_groups groups [] = Inr groups"
| "collect_groups groups (t # ts) =
     rbind (parseCredentialID ''supplementary gid'' t) (\<lambda>g.
       collect_groups (if g \<in> set groups then groups else groups @ [g]) ts)"

definition lookupUserCredentialsWith ::
    "int \<Rightarrow> (string \<Rightarrow> string + os_user) \<Rightarrow> (os_user \<Rightarrow> string + string list) \<Rightarrow> credential_error + user_credentials" where
  "lookupUserCredentialsWith uid lookup groupIDs =
     (if uid < 0 then Inl NegativeUid
      else if uid > 4294967295 then Inl (UidOutOfRange uid)
      else let uidText = show_int uid in
        case lookup uidText of
          Inl e \<Rightarrow> Inl (UserLookup e)
        | Inr u \<Rightarrow>
            rbind (parseCredentialID ''uid'' (us_Uid u)) (\<lambda>resolvedUID.
            if resolvedUID \<noteq> word_of_int uid then Inl (UidMismatch uidText)
            else rbind (parseCredentialID ''primary gid'' (us_Gid u)) (\<lambda>gid.
              case groupIDs u of
                Inl e \<Rightarrow> Inl (GroupLookup e)
              | Inr groupTexts \<Rightarrow>
                  rbind (collect_groups [gid] groupTexts) (\<lambda>groups.
                  Inr \<lparr>uc_uid = resolvedUID, uc_gid = gid, uc_groups = groups\<rparr>))))"

section \<open>Starting the target\<close>

record exec_cmd =
  ec_Args :: "string list"
  ec_Env :: "string list"
  ec_Credential :: "user_credentials option"

datatype start_error = EmptyCommand | TargetNotFound string | CredentialError credential_error | PtyError string

definition configureUserCredentials :: "exec_cmd \<Rightarrow> user_credentials option \<Rightarrow> credential_error + exec_cmd" where
  "configureUserCredentials cmd credentials =
     (case credentials of
        None \<Rightarrow> Inr cmd
      | Some c \<Rightarrow> if uc_groups c = [] then Inl NoGroups
          else Inr (cmd\<lparr>ec_Credential := Some \<lparr>uc_uid = uc_uid c, uc_gid = uc_gid c, uc_groups = uc_groups c\<rparr>\<rparr>))"

definition runner_command ::
    "(string \<Rightarrow> bool) \<Rightarrow> string list \<Rightarrow> string list \<Rightarrow> user_credentials option \<Rightarrow> start_error + exec_cmd" where
  "runner_command look_path argv env credentials =
     (case argv of
        [] \<Rightarrow> Inl EmptyCommand
      | a # _ \<Rightarrow> if \<not> look_path a then Inl (TargetNotFound a)
          else case configureUserCredentials \<lparr>ec_Args = argv, ec_Env = env, ec_Credential = None\<rparr> credentials of
            Inl e \<Rightarrow> Inl (CredentialError e) | Inr cmd \<Rightarrow> Inr cmd)"

definition startWithPTY ::
    "(string \<Rightarrow> bool) \<Rightarrow> (exec_cmd \<Rightarrow> string + 'pty) \<Rightarrow> string list \<Rightarrow> string list \<Rightarrow> user_credentials option
      \<Rightarrow> start_error + exec_cmd \<times> 'pty" where
  "startWithPTY look_path start_pty argv env credentials =
     rbind (runner_command look_path argv env credentials) (\<lambda>cmd.
       case start_pty cmd of Inl e \<Rightarrow> Inl (PtyError e) | Inr p \<Rightarrow> Inr (cmd, p))"

definition Start where
  "Start look_path start_pty argv env = startWithPTY look_path start_pty argv env None"

definition StartWithCredentials where
  "StartWithCredentials look_path start_pty argv env credentials =
     (case credentials of
        None \<Rightarrow> Inl (CredentialError NilCredentials)
      | Some _ \<Rightarrow> startWithPTY look_path start_pty argv env credentials)"

section \<open>Properties\<close>

lemma plain_char_sh_plain: "plain_char c \<Longrightarrow> sh_plain c"
proof (rule ccontr)
  assume p: "plain_char c" and "\<not> sh_plain c"
  then have "c \<in> set [CHR 0x27, CHR 0x5C, CHR 0x20, CHR 0x09, CHR 0x0A, CHR 0x26, CHR 0x28, CHR 0x29, CHR 0x3B,
      CHR 0x3C, CHR 0x3E, CHR 0x7C, CHR 0x21, CHR 0x22, CHR 0x23, CHR 0x24, CHR 0x2A, CHR 0x3F, CHR 0x5B, CHR 0x5D,
      CHR 0x5E, CHR 0x60, CHR 0x7B, CHR 0x7D, CHR 0x7E]"
    unfolding sh_plain_def word_end_def blank_def expands_def by simp
  moreover have "list_all (\<lambda>c. \<not> plain_char c) [CHR 0x27, CHR 0x5C, CHR 0x20, CHR 0x09, CHR 0x0A, CHR 0x26, CHR 0x28,
      CHR 0x29, CHR 0x3B, CHR 0x3C, CHR 0x3E, CHR 0x7C, CHR 0x21, CHR 0x22, CHR 0x23, CHR 0x24, CHR 0x2A, CHR 0x3F,
      CHR 0x5B, CHR 0x5D, CHR 0x5E, CHR 0x60, CHR 0x7B, CHR 0x7D, CHR 0x7E]" by code_simp
  ultimately show False using p unfolding list_all_iff by blast
qed

lemma plainWord_sh: "plainWord w \<Longrightarrow> w \<noteq> [] \<and> list_all sh_plain w"
  by (auto simp: plainWord_def list_all_iff plain_char_sh_plain)

lemma command_word_reads:
  "at_delimiter rest \<Longrightarrow> sh_word (command_word s @ rest) = Some (s, rest)"
  using plainWord_sh [of s] by (auto simp: command_word_def sh_word_plain single.quote_reads)

lemma command_word_starts:
  "command_word s \<noteq> [] \<and> \<not> blank (hd (command_word s)) \<and> hd (command_word s) \<noteq> backslash"
  using plainWord_sh [of s] Single_starts [of s] sh_plain_not_blank [of "hd s"]
  by (cases s) (auto simp: command_word_def)

text \<open>The first word's quoting meets the same interface as \<^verbatim>\<open>shellquote.Single\<close>.\<close>

interpretation command_name: word_quoting command_word
  by unfold_locales (simp_all add: command_word_reads command_word_starts)

text \<open>
  \<^verbatim>\<open>-shell\<close> runs the command that was typed. The login shell is started with \<^verbatim>\<open>-i -c\<close> and one line that
  it reads as exactly the given words, whatever they hold; with no command it is started alone.
\<close>

lemma shell_command_keeps_argv:
  "ShellCommand getenv [] = LoginShell getenv
   \<and> (\<exists>line. ShellCommand getenv (a # as) = LoginShell getenv @ [''-i'', ''-c'', line] \<and> sh_split line = Some (a # as))
   \<and> (\<exists>sh. LoginShell getenv = [sh] \<and> sh \<noteq> [])"
proof -
  have "sh_split (join '' '' (command_word a # map Single as)) = Some (a # as)"
  proof (cases as)
    case Nil
    have "sh_split (command_word a @ []) = Some [a]"
      by (subst command_name.split_quoted_then) (simp_all add: at_delimiter_def sh_split.simps)
    with Nil show ?thesis by simp
  next
    case (Cons b bs)
    have "at_delimiter ('' '' @ s)" "blank (CHR '' '')" for s by (simp_all add: at_delimiter_def word_end_def blank_def)
    then have "sh_split (command_word a @ '' '' @ join '' '' (map Single as)) = Some (a # as)"
      using single.split_quoted_words [of as] by (simp add: command_name.split_quoted_then split_blank)
    with Cons show ?thesis by simp
  qed
  then show ?thesis by (simp add: ShellCommand_def LoginShell_def Let_def)
qed

lemma envKey_binding: "CHR ''='' \<notin> set k \<Longrightarrow> envKey (k @ CHR ''='' # v) = k"
  by (induction k) (auto simp: envKey_def)

lemma inject_keys: "k \<in> set (gkeys (inject_env p c)) \<Longrightarrow> CHR ''='' \<notin> set k"
proof -
  have "list_all (\<lambda>k. CHR ''='' \<notin> set k) (gkeys (inject_env p c))"
    by (simp add: inject_env_def Let_def gkeys_def)
  then show "k \<in> set (gkeys (inject_env p c)) \<Longrightarrow> CHR ''='' \<notin> set k" by (simp add: list_all_iff)
qed

lemma inject_ok: "gmap_ok (inject_env p c)"
  by (simp add: inject_env_def Let_def gmap_ok_def gkeys_def)

text \<open>
  The target is routed through the proxy and nothing else of its environment changes. In the
  environment given to it every variable of the proxy set (which no inherited value can override, in
  whatever order the map is visited) occurs exactly once, with the value meant; the bindings of
  every other variable are those inherited, in their order.
\<close>

lemma proxy_environment:
  assumes "\<And>m. mset (visit m) = mset m"
  shows "(map_of (inject_env addr ca) k = Some v \<longrightarrow>
      filter (\<lambda>kv. envKey kv = k) (ProxyEnv visit env addr ca) = [k @ ''='' @ v])
    \<and> (map_of (inject_env addr ca) k = None \<longrightarrow>
      filter (\<lambda>kv. envKey kv = k) (ProxyEnv visit env addr ca) = filter (\<lambda>kv. envKey kv = k) env)"
proof -
  let ?inj = "inject_env addr ca" and ?b = "\<lambda>(k, v). k @ ''='' @ v :: string"
  have vset: "set (visit ?inj) = set ?inj" using assms by (metis set_mset_mset)
  have vdist: "distinct (map fst (visit ?inj))"
    using assms [of ?inj] inject_ok [of addr ca]
    by (metis gkeys_def gmap_ok_def mset_map mset_eq_imp_distinct_iff)
  have key: "envKey (?b kv) = fst kv" if "kv \<in> set (visit ?inj)" for kv
    using that vset inject_keys [of "fst kv" addr ca] by (auto simp: gkeys_def envKey_binding split: prod.split)
  have tail: "filter (\<lambda>kv. envKey kv = k) (map ?b (visit ?inj)) = map ?b (filter (\<lambda>kv. fst kv = k) (visit ?inj))"
    unfolding filter_map comp_def using key by (intro arg_cong [of _ _ "map ?b"] filter_cong) auto
  have one: "filter (\<lambda>kv. fst kv = k) m = (case map_of m k of None \<Rightarrow> [] | Some v \<Rightarrow> [(k, v)])"
    if "distinct (map fst m)" for m :: "string gomap"
    using that
  proof (induction m)
    case (Cons kv m)
    have "filter (\<lambda>kv. fst kv = k) m = []" if "fst kv = k"
    proof -
      have "fst kv \<notin> fst ` set m" using Cons.prems by simp
      then have "\<forall>x \<in> set m. fst x \<noteq> k" unfolding that by (metis imageI)
      then show ?thesis by (simp add: filter_empty_conv)
    qed
    with Cons show ?case by (cases kv) (simp split: option.split)
  qed simp
  have "map_of (visit ?inj) = map_of ?inj"
    using vdist vset inject_ok [of addr ca] by (metis gkeys_def gmap_ok_def map_of_inject_set)
  then have "filter (\<lambda>kv. envKey kv = k) (map ?b (visit ?inj))
      = (case map_of ?inj k of None \<Rightarrow> [] | Some v \<Rightarrow> [k @ ''='' @ v])"
    unfolding tail one [OF vdist] by (auto split: option.split)
  moreover have "filter (\<lambda>kv. envKey kv = k) (filter (\<lambda>kv. \<not> ghas ?inj (envKey kv)) env)
      = (if map_of ?inj k = None then filter (\<lambda>kv. envKey kv = k) env else [])"
    by (induction env) (auto simp: ghas_def)
  ultimately show ?thesis by (simp add: ProxyEnv_def Let_def)
qed

lemma proxy_environment_witness:
  "filter (\<lambda>kv. envKey kv = ''HTTPS_PROXY'') (ProxyEnv rev [''HTTPS_PROXY=x'', ''HOME=/''] ''h:1'' ''ca'')
     = [''HTTPS_PROXY=http://h:1'']
   \<and> filter (\<lambda>kv. envKey kv = ''HOME'') (ProxyEnv rev [''HTTPS_PROXY=x'', ''HOME=/''] ''h:1'' ''ca'') = [''HOME=/'']"
proof -
  let ?env = "[''HTTPS_PROXY=x'', ''HOME=/'']"
  have "map_of (inject_env ''h:1'' ''ca'') ''HTTPS_PROXY'' = Some ''http://h:1''" "map_of (inject_env ''h:1'' ''ca'') ''HOME'' = None"
    by (simp_all add: inject_env_def Let_def)
  moreover have "filter (\<lambda>kv. envKey kv = ''HOME'') ?env = [''HOME=/'']" by code_simp
  ultimately show ?thesis
    using proxy_environment [of rev "''h:1''" "''ca''" "''HTTPS_PROXY''" "''http://h:1''" ?env]
      proxy_environment [of rev "''h:1''" "''ca''" "''HOME''" _ ?env] by simp
qed

lemma parseCredentialID_Inr: "parseCredentialID kind s = Inr w \<Longrightarrow> \<exists>n. parse_uint 32 s = Some n \<and> w = of_nat n"
  by (auto simp: parseCredentialID_def split: option.splits)

lemma collect_groups_Inr:
  "collect_groups gs ts = Inr out \<Longrightarrow> distinct gs \<Longrightarrow>
    distinct out \<and> prefix gs out
    \<and> set out = set gs \<union> {w. \<exists>t \<in> set ts. parseCredentialID ''supplementary gid'' t = Inr w}"
proof (induction gs ts rule: collect_groups.induct)
  case (2 gs t ts)
  from "2.prems"(1) obtain g where g: "parseCredentialID ''supplementary gid'' t = Inr g"
    "collect_groups (if g \<in> set gs then gs else gs @ [g]) ts = Inr out"
    by (auto simp: rbind_eq_Inr)
  have "prefix gs (if g \<in> set gs then gs else gs @ [g])" by simp
  with "2.IH" [OF g] g "2.prems"(2) show ?case
    by (auto dest: append_prefixD split: if_splits)
qed simp

text \<open>
  The target runs as the user asked for and nobody else. If it starts with looked-up
  credentials, then its uid is the one requested (which lies in the 32-bit range), its primary
  group is the user's, and its group list is not empty, begins with the primary group, has no duplicates and
  holds exactly the user's groups, so that no group of the privileged parent is kept.
\<close>

lemma target_runs_as_user:
  assumes "lookupUserCredentialsWith uid lookup groupIDs = Inr c"
    and "StartWithCredentials look_path start_pty argv env (Some c) = Inr (cmd, p)"
  shows "0 \<le> uid \<and> uid < 2 ^ 32 \<and> ec_Args cmd = argv \<and> argv \<noteq> [] \<and> ec_Env cmd = env
    \<and> (\<exists>u ts g. lookup (show_int uid) = Inr u \<and> groupIDs u = Inr ts \<and> parse_uint 32 (us_Gid u) = Some g
        \<and> (\<exists>gs. ec_Credential cmd = Some \<lparr>uc_uid = word_of_int uid, uc_gid = of_nat g, uc_groups = of_nat g # gs\<rparr>
          \<and> distinct (of_nat g # gs)
          \<and> set (of_nat g # gs) = insert (of_nat g) {w. \<exists>t \<in> set ts. parseCredentialID ''supplementary gid'' t = Inr w}))"
proof -
  from assms(1) obtain u gid ts groups where u: "0 \<le> uid" "uid \<le> 4294967295" "lookup (show_int uid) = Inr u"
    "parseCredentialID ''primary gid'' (us_Gid u) = Inr gid" "groupIDs u = Inr ts"
    "collect_groups [gid] ts = Inr groups" "c = \<lparr>uc_uid = word_of_int uid, uc_gid = gid, uc_groups = groups\<rparr>"
  proof (cases "lookup (show_int uid)")
    case Inl
    then show thesis using assms(1) by (auto simp: lookupUserCredentialsWith_def split: if_splits)
  next
    case (Inr u)
    then show thesis using assms(1) that [of u]
      by (cases "groupIDs u") (auto simp: lookupUserCredentialsWith_def rbind_eq_Inr split: if_splits)
  qed
  from collect_groups_Inr [OF u(6)] obtain gs where gs: "groups = gid # gs" "distinct (gid # gs)"
    "set (gid # gs) = insert gid {w. \<exists>t \<in> set ts. parseCredentialID ''supplementary gid'' t = Inr w}"
    by (auto simp: prefix_def)
  from assms(2) have "argv \<noteq> []" "ec_Args cmd = argv" "ec_Env cmd = env" "ec_Credential cmd = Some c"
    by (auto simp: StartWithCredentials_def startWithPTY_def runner_command_def configureUserCredentials_def rbind_eq_Inr
        u(7) split: list.splits if_splits sum.splits)
  with u gs parseCredentialID_Inr [OF u(4)] show ?thesis by auto
qed

definition demo_lookup :: "string \<Rightarrow> string + os_user" where
  "demo_lookup s = (if s = ''1500'' then Inr \<lparr>us_Uid = ''1500'', us_Gid = ''100''\<rparr> else Inl ''unknown'')"

definition demo_groups :: "os_user \<Rightarrow> string + string list" where
  "demo_groups u = Inr [''100'', ''27'', ''100'']"

lemma show_1500: "show_int 1500 = ''1500''"
  by code_simp

lemma parse_uint_numerals: "parse_uint 32 ''1500'' = Some 1500" "parse_uint 32 ''100'' = Some 100" "parse_uint 32 ''27'' = Some 27"
  by (simp_all add: parse_uint_def parse_digits_def digits_val_def is_digit_def digit_val_def)

lemma target_runs_as_user_witness:
  "\<exists>c cmd. lookupUserCredentialsWith 1500 demo_lookup demo_groups = Inr c
    \<and> StartWithCredentials (\<lambda>_. True) (\<lambda>_. Inr ()) [''id''] [] (Some c) = Inr (cmd, ())
    \<and> ec_Args cmd = [''id''] \<and> ec_Credential cmd \<noteq> None"
proof -
  obtain c where c: "lookupUserCredentialsWith 1500 demo_lookup demo_groups = Inr c" and g: "uc_groups c \<noteq> []"
    by (simp add: lookupUserCredentialsWith_def demo_lookup_def demo_groups_def parseCredentialID_def parse_uint_numerals show_1500)
  then obtain cmd where s: "StartWithCredentials (\<lambda>_. True) (\<lambda>_. Inr ()) [''id''] [] (Some c) = Inr (cmd, ())"
    by (simp add: StartWithCredentials_def startWithPTY_def runner_command_def configureUserCredentials_def)
  from target_runs_as_user [OF c s] c s show ?thesis by auto
qed

end
