(* ===== verification/Keymap.thy ===== *)
theory Keymap
  imports GoStrings
begin

text \<open>
  \<^verbatim>\<open>internal/tui/keymap.go\<close>: actions, the stock bindings and the keymap built from them and the
  user's overrides. \<^verbatim>\<open>tea.KeyType\<close> and its names belong to Bubble Tea: \<open>key_name i\<close> is the name of the
  control key with code \<open>i\<close>.
\<close>

type_synonym action = string

definition Unbind :: action where "Unbind = ''none''"
definition ActPaneSwitch :: action where "ActPaneSwitch = ''pane.switch''"
definition ActSplitShrink :: action where "ActSplitShrink = ''split.shrink''"
definition ActSplitGrow :: action where "ActSplitGrow = ''split.grow''"
definition ActInterceptRequests :: action where "ActInterceptRequests = ''intercept.requests''"
definition ActInterceptResponses :: action where "ActInterceptResponses = ''intercept.responses''"
definition ActSessionSave :: action where "ActSessionSave = ''session.save''"
definition ActExportHAR :: action where "ActExportHAR = ''export.har''"
definition ActExportFlagged :: action where "ActExportFlagged = ''export.flagged''"
definition ActMouseCapture :: action where "ActMouseCapture = ''mouse.capture''"
definition ActExportCurl :: action where "ActExportCurl = ''export.curl''"
definition ActHelpToggle :: action where "ActHelpToggle = ''help.toggle''"
definition ActQuit :: action where "ActQuit = ''app.quit''"
definition ActFlowNext :: action where "ActFlowNext = ''flow.next''"
definition ActFlowPrev :: action where "ActFlowPrev = ''flow.prev''"
definition ActHostNext :: action where "ActHostNext = ''flow.host-next''"
definition ActHostPrev :: action where "ActHostPrev = ''flow.host-prev''"
definition ActFlowFlag :: action where "ActFlowFlag = ''flow.flag''"
definition ActFlaggedOnly :: action where "ActFlaggedOnly = ''flow.flagged-only''"
definition ActSortCycle :: action where "ActSortCycle = ''flow.sort''"
definition ActFilterOpen :: action where "ActFilterOpen = ''flow.filter''"
definition ActCommand :: action where "ActCommand = ''flow.command''"
definition ActFlowResend :: action where "ActFlowResend = ''flow.resend''"
definition ActDetailOpen :: action where "ActDetailOpen = ''flow.detail''"
definition ActRepeaterNew :: action where "ActRepeaterNew = ''repeater.open''"
definition ActPausedEdit :: action where "ActPausedEdit = ''paused.edit''"
definition ActPausedFwd :: action where "ActPausedFwd = ''paused.forward''"
definition ActPausedDrop :: action where "ActPausedDrop = ''paused.drop''"
definition ActInjectOut :: action where "ActInjectOut = ''ws.inject.client''"
definition ActInjectIn :: action where "ActInjectIn = ''ws.inject.server''"
definition ActDetailSave :: action where "ActDetailSave = ''detail.save''"
definition ActDetailClose :: action where "ActDetailClose = ''detail.close''"
definition ActEditorSend :: action where "ActEditorSend = ''editor.send''"
definition ActEditorFixLen :: action where "ActEditorFixLen = ''editor.fix-length''"
definition ActEditorCancel :: action where "ActEditorCancel = ''editor.cancel''"
definition ActRepeaterCycle :: action where "ActRepeaterCycle = ''repeater.cycle-focus''"
definition ActRepeaterMode :: action where "ActRepeaterMode = ''repeater.cycle-mode''"
definition ActRepeaterSend :: action where "ActRepeaterSend = ''repeater.send''"
definition ActRepeaterClose :: action where "ActRepeaterClose = ''repeater.close''"

definition ctxLeader :: string where "ctxLeader = ''leader''"
definition ctxTraffic :: string where "ctxTraffic = ''traffic''"
definition ctxDetail :: string where "ctxDetail = ''detail''"
definition ctxEditor :: string where "ctxEditor = ''editor''"
definition ctxRepeater :: string where "ctxRepeater = ''repeater''"

record binding =
  bn_action :: action
  bn_keys :: "string list"
  bn_desc :: string

definition contexts :: "string list" where
  "contexts = [ctxLeader, ctxTraffic, ctxDetail, ctxEditor, ctxRepeater]"

abbreviation bind :: "action \<Rightarrow> string list \<Rightarrow> string \<Rightarrow> binding" where
  "bind a ks d \<equiv> \<lparr>bn_action = a, bn_keys = ks, bn_desc = d\<rparr>"

definition contextTitle :: "string gomap" where
  "contextTitle =
    [(ctxLeader, ''Global '' @ [CHR 0xE2, CHR 0x80, CHR 0x94] @ '' press the leader, then:''),
     (ctxTraffic, ''Traffic pane (right)''),
     (ctxDetail, ''Detail view (enter)''),
     (ctxEditor, ''Editor (while intercepting)''),
     (ctxRepeater, ''Repeater (R)'')]"

definition leader_defaults :: "binding list" where
  "leader_defaults =
    [bind ActPaneSwitch [''w''] (''switch pane (terminal '' @ [CHR 0xE2, CHR 0x87, CHR 0x84] @ '' traffic)''),
     bind ActSplitShrink [''<'', '',''] (''resize split: shrink the left pane''),
     bind ActSplitGrow [''>'', ''.''] (''resize split: grow the left pane''),
     bind ActInterceptRequests [''i''] (''toggle intercept: requests''),
     bind ActInterceptResponses [''r''] (''toggle intercept: responses''),
     bind ActSessionSave [''s''] (''save session to JSON''),
     bind ActExportHAR [''h''] (''export session as HAR''),
     bind ActExportFlagged [''f''] (''export flagged flows '' @ [CHR 0xE2, CHR 0x86, CHR 0x92] @ '' flagged.txt''),
     bind ActMouseCapture [''m''] (''toggle mouse capture (off restores native text selection)''),
     bind ActHelpToggle [''?''] (''toggle this help''),
     bind ActQuit [''q''] (''quit'')]"

definition traffic_defaults :: "binding list" where
  "traffic_defaults =
    [bind ActFlowPrev [''k'', ''up''] (''move selection up''),
     bind ActFlowNext [''j'', ''down''] (''move selection down''),
     bind ActFlowFlag ['' ''] (''flag / unflag the selected flow''),
     bind ActFlaggedOnly [''F''] (''show flagged only''),
     bind ActSortCycle [''o''] (''cycle sort: none / status / size''),
     bind ActFilterOpen [''/''] (''filter by host / method / path / status''),
     bind ActCommand ['':''] (''command line '' @ [CHR 0xE2, CHR 0x80, CHR 0x94] @ '' run :help for the full list''),
     bind ActHostNext [''}''] (''jump to the next flow from a different host''),
     bind ActHostPrev [''{''] (''jump back to the previous host''),
     bind ActDetailOpen [''enter''] (''open detail view''),
     bind ActInterceptRequests [''i''] (''toggle intercept: requests''),
     bind ActInterceptResponses [''r''] (''toggle intercept: responses''),
     bind ActPausedEdit [''e''] (''PAUSED flow: edit''),
     bind ActPausedFwd [''f''] (''PAUSED flow: forward''),
     bind ActPausedDrop [''d''] (''PAUSED flow: drop''),
     bind ActFlowResend [''x''] (''resend the selected flow to its origin''),
     bind ActRepeaterNew [''R''] (''open in Repeater '' @ [CHR 0xE2, CHR 0x80, CHR 0x94] @ '' edit, set {{variables}}, resend or attack''),
     bind ActExportCurl [''c''] (''export the selected flow as a curl command''),
     bind ActInjectOut [''n''] (''inject a WebSocket frame (client'' @ [CHR 0xE2, CHR 0x86, CHR 0x92] @ ''server)''),
     bind ActInjectIn [''N''] (''inject a WebSocket frame (server'' @ [CHR 0xE2, CHR 0x86, CHR 0x92] @ ''client)''),
     bind ActHelpToggle [''?''] (''toggle this help'')]"

definition detail_defaults :: "binding list" where
  "detail_defaults =
    [bind ActDetailSave [''s''] (''save this flow to a .txt file''),
     bind ActDetailClose [''esc'', ''q''] (''back to the list'')]"

definition editor_defaults :: "binding list" where
  "editor_defaults =
    [bind ActEditorSend [''ctrl+s''] (''forward / send the edited bytes''),
     bind ActEditorFixLen [''ctrl+l''] (''fix Content-Length to match the body''),
     bind ActEditorCancel [''esc''] (''cancel''),
     bind ActQuit [''ctrl+q''] (''quit'')]"

definition repeater_defaults :: "binding list" where
  "repeater_defaults =
    [bind ActRepeaterCycle [''tab''] (''cycle focus: request '' @ [CHR 0xE2, CHR 0x86, CHR 0x92] @ '' payloads '' @ [CHR 0xE2, CHR 0x86, CHR 0x92] @ '' response''),
     bind ActRepeaterMode [''ctrl+o''] (''cycle attack mode: single / sniper / battering-ram / pitchfork / cluster-bomb''),
     bind ActRepeaterSend [''ctrl+s''] (''send (single) or run the attack; results stream into the traffic list''),
     bind ActRepeaterClose [''esc''] (''close''),
     bind ActQuit [''ctrl+q''] (''quit'')]"

definition defaults :: "binding list gomap" where
  "defaults = [(ctxLeader, leader_defaults), (ctxTraffic, traffic_defaults), (ctxDetail, detail_defaults),
     (ctxEditor, editor_defaults), (ctxRepeater, repeater_defaults)]"

definition knownActions :: "action list" where
  "knownActions = sort (remdups (Unbind # concat (map (\<lambda>(ctx, binds). map bn_action binds) defaults)))"

definition actionInContext :: "string \<Rightarrow> action \<Rightarrow> bool" where
  "actionInContext ctx a = list_ex (\<lambda>b. bn_action b = a) (gget defaults ctx [])"

fun first_actions :: "action list \<Rightarrow> binding list \<Rightarrow> action list" where
  "first_actions seen [] = []"
| "first_actions seen (b # bs) =
     (if bn_action b \<in> set seen then first_actions seen bs
      else bn_action b # first_actions (bn_action b # seen) bs)"

definition contextActions :: "string \<Rightarrow> action list" where
  "contextActions ctx = sort (first_actions [] (gget defaults ctx []))"

definition DefaultLeader :: string where "DefaultLeader = ''ctrl+a''"

record keymap =
  km_Leader :: nat
  km_LeaderName :: string
  km_binds :: "action gomap gomap option"

text \<open>The search over the codes 0 to 26; \<^verbatim>\<open>tea.KeyCtrlAt\<close> is 0.\<close>

fun find_control :: "(nat \<Rightarrow> string) \<Rightarrow> string \<Rightarrow> nat list \<Rightarrow> nat option" where
  "find_control key_name name [] = None"
| "find_control key_name name (i # is) =
     (if key_name i = name \<and> prefix ''ctrl+'' name then Some i else find_control key_name name is)"

definition controlKeyType :: "(nat \<Rightarrow> string) \<Rightarrow> string \<Rightarrow> nat option" where
  "controlKeyType key_name name =
     (if name = ''ctrl+space'' then Some 0 else find_control key_name name [0..<27])"

datatype keymap_error = BadLeader string | UnknownContext string | ActionUnavailable string action
  | ShadowedByLeader string string

text \<open>The default bindings of a context.\<close>

fun bind_keys :: "action \<Rightarrow> string list \<Rightarrow> action gomap \<Rightarrow> action gomap" where
  "bind_keys a [] m = m"
| "bind_keys a (k # ks) m = bind_keys a ks (gput m k a)"

fun bind_all :: "binding list \<Rightarrow> action gomap \<Rightarrow> action gomap" where
  "bind_all [] m = m"
| "bind_all (b # bs) m = bind_all bs (bind_keys (bn_action b) (bn_keys b) m)"

fun default_binds :: "binding list gomap \<Rightarrow> action gomap gomap \<Rightarrow> action gomap gomap" where
  "default_binds [] m = m"
| "default_binds ((ctx, binds) # ds) m = default_binds ds (gput m ctx (bind_all binds []))"

definition sortedMapKeys :: "'v gomap \<Rightarrow> string list" where
  "sortedMapKeys m = sorted_gkeys m"

text \<open>One override: the checks, then the binding; \<^verbatim>\<open>none\<close> is kept as a tombstone.\<close>

definition override_key ::
    "(nat \<Rightarrow> string) \<Rightarrow> nat \<Rightarrow> string \<Rightarrow> string \<Rightarrow> string \<Rightarrow> action \<Rightarrow> keymap_error + unit" where
  "override_key key_name kt leader ctx key action =
     (if action \<noteq> Unbind \<and> \<not> actionInContext ctx action then Inl (ActionUnavailable ctx action)
      else if (ctx = ctxLeader \<or> ctx = ctxTraffic) \<and> controlKeyType key_name key = Some kt
      then Inl (ShadowedByLeader ctx key)
      else Inr ())"

fun override_keys ::
    "(nat \<Rightarrow> string) \<Rightarrow> nat \<Rightarrow> string \<Rightarrow> string \<Rightarrow> string gomap \<Rightarrow> string list \<Rightarrow> action gomap
      \<Rightarrow> keymap_error + action gomap" where
  "override_keys key_name kt leader ctx binds [] m = Inr m"
| "override_keys key_name kt leader ctx binds (key # keys) m =
     (let action = gget binds key [] in
      rbind (override_key key_name kt leader ctx key action) (\<lambda>_.
        override_keys key_name kt leader ctx binds keys (gput m key action)))"

fun override_contexts ::
    "(nat \<Rightarrow> string) \<Rightarrow> nat \<Rightarrow> string \<Rightarrow> string gomap gomap \<Rightarrow> string list \<Rightarrow> action gomap gomap
      \<Rightarrow> keymap_error + action gomap gomap" where
  "override_contexts key_name kt leader overrides [] m = Inr m"
| "override_contexts key_name kt leader overrides (ctx # ctxs) m =
     (case map_of m ctx of
        None \<Rightarrow> Inl (UnknownContext ctx)
      | Some bound \<Rightarrow>
          let binds = gget overrides ctx [] in
          rbind (override_keys key_name kt leader ctx binds (sortedMapKeys binds) bound) (\<lambda>bound'.
            override_contexts key_name kt leader overrides ctxs (gput m ctx bound')))"

definition NewKeyMap :: "(nat \<Rightarrow> string) \<Rightarrow> string \<Rightarrow> string gomap gomap \<Rightarrow> keymap_error + keymap" where
  "NewKeyMap key_name leader0 overrides =
     (let leader = (if leader0 = [] then DefaultLeader else leader0) in
      case controlKeyType key_name leader of
        None \<Rightarrow> Inl (BadLeader leader)
      | Some kt \<Rightarrow>
          rbind (override_contexts key_name kt leader overrides (sortedMapKeys overrides) (default_binds defaults [])) (\<lambda>m.
            Inr \<lparr>km_Leader = kt, km_LeaderName = leader, km_binds = Some m\<rparr>))"

text \<open>A zero keymap answers as the default one; a missing entry or a tombstone reads as the empty action.\<close>

definition binds_or_default :: "keymap \<Rightarrow> action gomap gomap" where
  "binds_or_default k = (case km_binds k of Some m \<Rightarrow> m | None \<Rightarrow> default_binds defaults [])"

definition Action :: "keymap \<Rightarrow> string \<Rightarrow> string \<Rightarrow> action" where
  "Action k ctx key = (let a = gget (gget (binds_or_default k) ctx []) key [] in if a = Unbind then [] else a)"

definition claims :: "keymap \<Rightarrow> string \<Rightarrow> string \<Rightarrow> bool" where
  "claims k ctx key = ghas (gget (binds_or_default k) ctx []) key"

fun default_keys :: "action gomap \<Rightarrow> action \<Rightarrow> string list \<Rightarrow> string list \<Rightarrow> string list" where
  "default_keys bound a [] out = out"
| "default_keys bound a (key # keys) out =
     default_keys bound a keys (if gget bound key [] = a \<and> key \<notin> set out then out @ [key] else out)"

definition keysFor :: "keymap \<Rightarrow> string \<Rightarrow> action \<Rightarrow> string list" where
  "keysFor k ctx a =
     (case (case km_binds k of None \<Rightarrow> None | Some m \<Rightarrow> map_of m ctx) of
        None \<Rightarrow> []
      | Some bound \<Rightarrow>
          let out = default_keys bound a
                (concat (map bn_keys (filter (\<lambda>b. bn_action b = a) (gget defaults ctx [])))) []
          in out @ sort (map fst (filter (\<lambda>(key, act). act = a \<and> key \<notin> set out) bound)))"

section \<open>Looking up a binding\<close>

definition lookup :: "action gomap gomap \<Rightarrow> string \<Rightarrow> string \<Rightarrow> action option" where
  "lookup m ctx key = map_of (gget m ctx []) key"

lemma set_bind_keys: "set (bind_keys a ks m) \<subseteq> set m \<union> {(k, a) | k. k \<in> set ks}"
proof (induction a ks m rule: bind_keys.induct)
  case (2 a k ks m)
  have "set (gput m k a) \<subseteq> insert (k, a) (set m)" by (induction m k a rule: gput.induct) auto
  with 2 show ?case by auto
qed simp

lemma set_bind_all: "set (bind_all bs m) \<subseteq> set m \<union> {(k, bn_action b) | k b. b \<in> set bs \<and> k \<in> set (bn_keys b)}"
proof (induction bs m rule: bind_all.induct)
  case (2 b bs m)
  then show ?case using set_bind_keys [of "bn_action b" "bn_keys b" m] by fastforce
qed simp

lemma gmap_ok_bind_keys [simp]: "gmap_ok m \<Longrightarrow> gmap_ok (bind_keys a ks m)"
  by (induction a ks m rule: bind_keys.induct) simp_all

lemma gmap_ok_bind_all [simp]: "gmap_ok m \<Longrightarrow> gmap_ok (bind_all bs m)"
  by (induction bs m rule: bind_all.induct) simp_all

lemma default_binds_get:
  "gmap_ok ds \<Longrightarrow> map_of (default_binds ds m) ctx
    = (case map_of ds ctx of None \<Rightarrow> map_of m ctx | Some bs \<Rightarrow> Some (bind_all bs []))"
proof (induction ds m rule: default_binds.induct)
  case (2 c bs ds m)
  then have "gmap_ok ds" "map_of ds c = None" by (auto simp: gmap_ok_def gkeys_def map_of_eq_None_iff)
  with 2 show ?case by (auto split: option.split)
qed simp

lemma defaults_ok: "gmap_ok defaults"
  by code_simp

lemma default_lookup: "lookup (default_binds defaults []) ctx key = map_of (bind_all (gget defaults ctx []) []) key"
  by (simp add: lookup_def gget_def default_binds_get [OF defaults_ok] split: option.split)

text \<open>The stock bindings: every action has a name, and no global or traffic key is a control key.\<close>

lemma default_entries:
  "list_all (\<lambda>(ctx, bs). list_all (\<lambda>b. bn_action b \<noteq> [] \<and> bn_action b \<noteq> Unbind
     \<and> (ctx = ctxLeader \<or> ctx = ctxTraffic \<longrightarrow> list_all (\<lambda>k. \<not> prefix ''ctrl+'' k) (bn_keys b))) bs) defaults"
  by code_simp

lemma default_lookup_known:
  assumes "lookup (default_binds defaults []) ctx key = Some a"
  shows "actionInContext ctx a \<and> a \<noteq> [] \<and> a \<noteq> Unbind
    \<and> (ctx = ctxLeader \<or> ctx = ctxTraffic \<longrightarrow> \<not> prefix ''ctrl+'' key)"
proof -
  from assms have "(key, a) \<in> set (bind_all (gget defaults ctx []) [])"
    unfolding default_lookup by (rule map_of_SomeD)
  with set_bind_all [of "gget defaults ctx []" "[]"] obtain b where
    b: "b \<in> set (gget defaults ctx [])" "key \<in> set (bn_keys b)" "a = bn_action b" by auto
  then obtain bs where bs: "map_of defaults ctx = Some bs" "b \<in> set bs"
    by (cases "map_of defaults ctx") (auto simp: gget_def)
  then have "(ctx, bs) \<in> set defaults" by (simp add: map_of_SomeD)
  with default_entries bs b show ?thesis
    by (fastforce simp: actionInContext_def list_all_iff list_ex_iff)
qed

lemma override_keys_Inr:
  "override_keys kn kt leader ctx binds keys m = Inr m' \<Longrightarrow> distinct keys \<Longrightarrow>
    map_of m' key = (if key \<in> set keys then Some (gget binds key []) else map_of m key)
    \<and> (\<forall>k \<in> set keys. override_key kn kt leader ctx k (gget binds k []) = Inr ())
    \<and> (gmap_ok m \<longrightarrow> gmap_ok m')"
  by (induction kn kt leader ctx binds keys m rule: override_keys.induct) (auto simp: rbind_eq_Inr Let_def)

lemma override_contexts_step:
  assumes "override_contexts kn kt leader ov (c # ctxs) m = Inr m'" and "gmap_ok (gget ov c [])"
  obtains bound bound' where "map_of m c = Some bound"
    and "override_contexts kn kt leader ov ctxs (gput m c bound') = Inr m'"
    and "\<And>key. map_of bound' key = (if ghas (gget ov c []) key then Some (gget (gget ov c []) key []) else map_of bound key)"
    and "\<forall>k \<in> set (gkeys (gget ov c [])). override_key kn kt leader c k (gget (gget ov c []) k []) = Inr ()"
    and "gmap_ok bound \<Longrightarrow> gmap_ok bound'"
proof -
  let ?b = "gget ov c []"
  from assms(1) obtain bound bound' where b: "map_of m c = Some bound"
    "override_keys kn kt leader c ?b (sortedMapKeys ?b) bound = Inr bound'"
    "override_contexts kn kt leader ov ctxs (gput m c bound') = Inr m'"
    by (auto simp: Let_def rbind_eq_Inr split: option.splits)
  have "distinct (sortedMapKeys ?b)"
    using assms(2) by (simp add: sortedMapKeys_def sorted_gkeys_def gmap_ok_def)
  from that [OF b(1,3)] override_keys_Inr [OF b(2) this] show thesis
    by (simp add: sortedMapKeys_def ghas_keys)
qed

lemma override_contexts_lookup:
  "override_contexts kn kt leader ov ctxs m = Inr m' \<Longrightarrow> distinct ctxs \<Longrightarrow> \<forall>c \<in> set ctxs. gmap_ok (gget ov c []) \<Longrightarrow>
    lookup m' ctx key = (if ctx \<in> set ctxs \<and> ghas (gget ov ctx []) key then Some (gget (gget ov ctx []) key [])
      else lookup m ctx key)"
proof (induction ctxs arbitrary: m)
  case (Cons c ctxs)
  from Cons.prems have "gmap_ok (gget ov c [])" by simp
  then obtain bound bound' where b: "map_of m c = Some bound"
    "override_contexts kn kt leader ov ctxs (gput m c bound') = Inr m'"
    "map_of bound' key = (if ghas (gget ov c []) key then Some (gget (gget ov c []) key []) else map_of bound key)"
    by (metis override_contexts_step [OF Cons.prems(1)])
  have "lookup (gput m c bound') ctx key = (if ctx = c then map_of bound' key else lookup m ctx key)"
    by (simp add: lookup_def)
  moreover have "lookup m c key = map_of bound key" using b(1) by (simp add: lookup_def gget_def)
  ultimately show ?case using Cons.IH [OF b(2)] Cons.prems(2,3) b(3) by auto
qed simp

lemma override_contexts_checked:
  "override_contexts kn kt leader ov ctxs m = Inr m' \<Longrightarrow> \<forall>c \<in> set ctxs. gmap_ok (gget ov c []) \<Longrightarrow>
    \<forall>c \<in> set ctxs. \<forall>k \<in> set (gkeys (gget ov c [])). override_key kn kt leader c k (gget (gget ov c []) k []) = Inr ()"
proof (induction ctxs arbitrary: m)
  case (Cons c ctxs)
  from Cons.prems have "gmap_ok (gget ov c [])" by simp
  from override_contexts_step [OF Cons.prems(1) this] Cons show ?case by auto
qed simp

lemma override_contexts_ok:
  "override_contexts kn kt leader ov ctxs m = Inr m' \<Longrightarrow> \<forall>c \<in> set ctxs. gmap_ok (gget ov c []) \<Longrightarrow>
    \<forall>c b. map_of m c = Some b \<longrightarrow> gmap_ok b \<Longrightarrow> \<forall>c b. map_of m' c = Some b \<longrightarrow> gmap_ok b"
proof (induction ctxs arbitrary: m)
  case (Cons c ctxs)
  from Cons.prems have "gmap_ok (gget ov c [])" by simp
  then obtain bound bound' where b: "map_of m c = Some bound"
    "override_contexts kn kt leader ov ctxs (gput m c bound') = Inr m'" "gmap_ok bound \<Longrightarrow> gmap_ok bound'"
    using override_contexts_step [OF Cons.prems(1)] by metis
  then have "\<forall>c' b. map_of (gput m c bound') c' = Some b \<longrightarrow> gmap_ok b" using Cons.prems(3) by auto
  with Cons.IH [OF b(2)] Cons.prems(2) show ?case by simp
qed simp

section \<open>Properties\<close>

text \<open>The user's bindings, and what a key should do: the override if there is one, the stock binding otherwise.\<close>

definition overrides_ok :: "string gomap gomap \<Rightarrow> bool" where
  "overrides_ok ov \<longleftrightarrow> gmap_ok ov \<and> (\<forall>ctx. gmap_ok (gget ov ctx []))"

definition wanted :: "string gomap gomap \<Rightarrow> string \<Rightarrow> string \<Rightarrow> action option" where
  "wanted ov ctx key = (case map_of (gget ov ctx []) key of
       Some a \<Rightarrow> Some a
     | None \<Rightarrow> map_of (bind_all (gget defaults ctx []) []) key)"

lemma find_control_Some: "find_control kn name is = Some i \<Longrightarrow> prefix ''ctrl+'' name"
  by (induction kn name "is" rule: find_control.induct) (auto split: if_splits)

lemma controlKeyType_prefix: "controlKeyType kn name = Some i \<Longrightarrow> prefix ''ctrl+'' name"
  by (auto simp: controlKeyType_def dest: find_control_Some split: if_splits)

lemma NewKeyMap_Inr:
  assumes "NewKeyMap kn leader ov = Inr km" and "overrides_ok ov"
  obtains m where "km_binds km = Some m" and "controlKeyType kn (km_LeaderName km) = Some (km_Leader km)"
    and "\<And>ctx key. lookup m ctx key = wanted ov ctx key"
    and "\<And>ctx key a. map_of (gget ov ctx []) key = Some a \<Longrightarrow>
      override_key kn (km_Leader km) (km_LeaderName km) ctx key a = Inr ()"
    and "\<And>ctx b. map_of m ctx = Some b \<Longrightarrow> gmap_ok b"
proof -
  from assms(1) obtain m where m: "km_binds km = Some m" "controlKeyType kn (km_LeaderName km) = Some (km_Leader km)"
    "override_contexts kn (km_Leader km) (km_LeaderName km) ov (sortedMapKeys ov) (default_binds defaults []) = Inr m"
    by (auto simp: NewKeyMap_def Let_def rbind_eq_Inr split: option.splits)
  have d: "distinct (sortedMapKeys ov)" "\<forall>c \<in> set (sortedMapKeys ov). gmap_ok (gget ov c [])"
    using assms(2) by (simp_all add: overrides_ok_def sortedMapKeys_def sorted_gkeys_def gmap_ok_def)
  have mem: "ctx \<in> set (sortedMapKeys ov)" if "map_of (gget ov ctx []) key = Some a" for ctx key a
    using that by (auto simp: sortedMapKeys_def ghas_keys [symmetric] ghas_def gget_def split: option.splits)
  have "lookup m ctx key = wanted ov ctx key" for ctx key
    unfolding override_contexts_lookup [OF m(3) d] default_lookup wanted_def
    using mem [of ctx key] by (auto simp: ghas_def gget_def split: option.splits)
  moreover have "override_key kn (km_Leader km) (km_LeaderName km) ctx key a = Inr ()"
    if "map_of (gget ov ctx []) key = Some a" for ctx key a
  proof -
    have "key \<in> set (gkeys (gget ov ctx []))" "gget (gget ov ctx []) key [] = a"
      using that by (simp_all add: ghas_keys [symmetric] ghas_def gget_def)
    with override_contexts_checked [OF m(3) d(2)] mem [OF that] show ?thesis by blast
  qed
  moreover have "\<forall>c b. map_of (default_binds defaults []) c = Some b \<longrightarrow> gmap_ok b"
    by (simp add: default_binds_get [OF defaults_ok] split: option.split)
  then have "\<And>ctx b. map_of m ctx = Some b \<Longrightarrow> gmap_ok b"
    using override_contexts_ok [OF m(3) d(2)] by blast
  ultimately show thesis using m(1,2) that by blast
qed

lemma Action_wanted:
  assumes "km_binds km = Some m" and "\<And>ctx key. lookup m ctx key = wanted ov ctx key"
  shows "Action km ctx key = (case wanted ov ctx key of None \<Rightarrow> [] | Some a \<Rightarrow> if a = Unbind then [] else a)"
  using assms(2) [of ctx key]
  by (simp add: Action_def binds_or_default_def assms(1) lookup_def gget_def [of _ key] Unbind_def split: option.split)

text \<open>
  The keymap does what the user's file says. A key means its override where one is given, with
  \<^verbatim>\<open>none\<close> for no action, and its stock binding otherwise; every action a key can fire is one its context
  handles, so no accepted binding is dead; the leader is a control key, and no key bound in the global or the
  traffic context is the leader under another name.
\<close>

lemma keymap_honours_overrides:
  assumes "NewKeyMap kn leader ov = Inr km" and "overrides_ok ov"
  shows "Action km ctx key = (case wanted ov ctx key of None \<Rightarrow> [] | Some a \<Rightarrow> if a = Unbind then [] else a)
    \<and> (Action km ctx key \<noteq> [] \<longrightarrow> actionInContext ctx (Action km ctx key)
        \<and> (ctx = ctxLeader \<or> ctx = ctxTraffic \<longrightarrow> controlKeyType kn key \<noteq> Some (km_Leader km)))
    \<and> controlKeyType kn (km_LeaderName km) = Some (km_Leader km)"
proof -
  obtain m where m: "km_binds km = Some m" "controlKeyType kn (km_LeaderName km) = Some (km_Leader km)"
    "\<And>ctx key. lookup m ctx key = wanted ov ctx key"
    "\<And>ctx key a. map_of (gget ov ctx []) key = Some a \<Longrightarrow>
      override_key kn (km_Leader km) (km_LeaderName km) ctx key a = Inr ()"
    using NewKeyMap_Inr [OF assms] by metis
  note act = Action_wanted [OF m(1,3), of ctx key]
  have "actionInContext ctx a \<and> (ctx = ctxLeader \<or> ctx = ctxTraffic \<longrightarrow> controlKeyType kn key \<noteq> Some (km_Leader km))"
    if w: "wanted ov ctx key = Some a" and u: "a \<noteq> Unbind" for a
  proof (cases "map_of (gget ov ctx []) key")
    case None
    then have "lookup (default_binds defaults []) ctx key = Some a"
      using w by (simp add: wanted_def default_lookup)
    from default_lookup_known [OF this] controlKeyType_prefix show ?thesis by blast
  next
    case (Some b)
    with w have "b = a" by (simp add: wanted_def)
    with m(4) [OF Some] u show ?thesis by (auto simp: override_key_def split: if_splits)
  qed
  with act m(2) show ?thesis by (auto split: option.splits if_splits)
qed

definition demo_key_name :: "nat \<Rightarrow> string" where
  "demo_key_name i = (if i = 0 then ''ctrl+@'' else if i = 1 then ''ctrl+a'' else if i = 2 then ''ctrl+b'' else [])"

definition demo_overrides :: "string gomap gomap" where
  "demo_overrides = [(ctxTraffic, [(''x'', ''none''), (''ctrl+a'', ''flow.next'')])]"

lemma demo_overrides_ok: "overrides_ok demo_overrides"
  by (simp add: overrides_ok_def demo_overrides_def gmap_ok_def gkeys_def gget_def)

lemma demo_keymap: "\<exists>km. NewKeyMap demo_key_name ''ctrl+b'' demo_overrides = Inr km"
proof -
  have "case NewKeyMap demo_key_name ''ctrl+b'' demo_overrides of Inr km \<Rightarrow> True | Inl _ \<Rightarrow> False" by code_simp
  then show ?thesis by (auto split: sum.splits)
qed

lemma keymap_honours_overrides_witness:
  "\<exists>km. NewKeyMap demo_key_name ''ctrl+b'' demo_overrides = Inr km
    \<and> Action km ctxTraffic ''x'' = [] \<and> Action km ctxTraffic ''ctrl+a'' = ''flow.next'' \<and> Action km ctxTraffic ''q'' = []"
proof -
  obtain km where km: "NewKeyMap demo_key_name ''ctrl+b'' demo_overrides = Inr km" using demo_keymap ..
  have "wanted demo_overrides ctxTraffic ''x'' = Some Unbind" "wanted demo_overrides ctxTraffic ''ctrl+a'' = Some ''flow.next''"
    "wanted demo_overrides ctxTraffic ''q'' = None" "Unbind \<noteq> ''flow.next''" by code_simp+
  with km keymap_honours_overrides [OF km demo_overrides_ok, of ctxTraffic] show ?thesis by (intro exI [of _ km]) simp
qed

lemma default_keys_set:
  "set (default_keys bound a keys out) = set out \<union> {k \<in> set keys. gget bound k [] = a}"
  and default_keys_distinct: "distinct out \<Longrightarrow> distinct (default_keys bound a keys out)"
  by (induction bound a keys out rule: default_keys.induct) auto

text \<open>
  The help overlay shows what the dispatcher does. The keys listed for an action are, each once,
  exactly the keys that fire it in that context.
\<close>

lemma help_lists_firing_keys:
  assumes "NewKeyMap kn leader ov = Inr km" and "overrides_ok ov" and "a \<noteq> []" and "a \<noteq> Unbind"
  shows "set (keysFor km ctx a) = {key. Action km ctx key = a} \<and> distinct (keysFor km ctx a)"
proof -
  obtain m where m: "km_binds km = Some m" "\<And>ctx b. map_of m ctx = Some b \<Longrightarrow> gmap_ok b"
    using NewKeyMap_Inr [OF assms(1,2)] by metis
  have act: "Action km ctx key = a \<longleftrightarrow> map_of (gget m ctx []) key = Some a" for key
    using assms(3,4) by (auto simp: Action_def binds_or_default_def m(1) Let_def gget_def [of _ key] split: option.splits)
  show ?thesis
  proof (cases "map_of m ctx")
    case None
    then show ?thesis unfolding act by (simp add: keysFor_def m(1) gget_def)
  next
    case (Some bound)
    define ks where "ks = concat (map bn_keys (filter (\<lambda>b. bn_action b = a) (gget defaults ctx [])))"
    define out where "out = default_keys bound a ks []"
    have ok: "gmap_ok bound" by (rule m(2) [OF Some])
    have g: "gget bound k [] = a \<longleftrightarrow> map_of bound k = Some a" for k
      using assms(3) by (auto simp: gget_def split: option.split)
    have k: "keysFor km ctx a = out @ sort (map fst (filter (\<lambda>(key, act). act = a \<and> key \<notin> set out) bound))"
      using Some by (simp add: keysFor_def m(1) out_def ks_def Let_def)
    have so: "set out \<subseteq> {key. map_of bound key = Some a}" "distinct out"
      unfolding out_def default_keys_set using g by (auto simp: default_keys_distinct)
    have "map_of bound key = Some act \<longleftrightarrow> (key, act) \<in> set bound" for key act
      using ok by (simp add: gmap_ok_def gkeys_def)
    then have "set (keysFor km ctx a) = {key. map_of bound key = Some a}"
      unfolding k using so(1) by (force simp: image_iff)
    moreover have "distinct (keysFor km ctx a)"
      unfolding k using so(2) ok by (auto simp: gmap_ok_def gkeys_def distinct_map_filter)
    ultimately show ?thesis unfolding act using Some by (simp add: gget_def)
  qed
qed

lemma help_lists_firing_keys_witness:
  "\<exists>km. NewKeyMap demo_key_name ''ctrl+b'' demo_overrides = Inr km
    \<and> {key. Action km ctxTraffic key = ActFlowNext} = set (keysFor km ctxTraffic ActFlowNext)"
proof -
  obtain km where km: "NewKeyMap demo_key_name ''ctrl+b'' demo_overrides = Inr km" using demo_keymap ..
  have "ActFlowNext \<noteq> []" "ActFlowNext \<noteq> Unbind" by code_simp+
  with help_lists_firing_keys [OF km demo_overrides_ok] km show ?thesis by metis
qed

end
