(* ===== verification/Keys.thy ===== *)
theory Keys
  imports GoUtf8
begin

text \<open>
  \<^verbatim>\<open>internal/tui/keys.go\<close>: the bytes of a key event for the target's terminal. \<^verbatim>\<open>tea.KeyType\<close> is Bubble
  Tea's; the model names the types the code distinguishes: the C0 controls by their byte, the named keys, and
  any other.
\<close>

abbreviation esc :: char where "esc \<equiv> CHR 0x1B"

datatype key_type = KeyC0 byte | KeyRunes | KeyBackspace | KeySpace
  | KeyUp | KeyDown | KeyRight | KeyLeft | KeyShiftTab | KeyHome | KeyEnd | KeyPgUp | KeyPgDown | KeyCtrlPgUp | KeyCtrlPgDown
  | KeyDelete | KeyInsert | KeyCtrlUp | KeyCtrlDown | KeyCtrlRight | KeyCtrlLeft | KeyCtrlHome | KeyCtrlEnd | KeyShiftUp
  | KeyShiftDown | KeyShiftRight | KeyShiftLeft | KeyShiftHome | KeyShiftEnd | KeyCtrlShiftUp | KeyCtrlShiftDown
  | KeyCtrlShiftRight | KeyCtrlShiftLeft | KeyCtrlShiftHome | KeyCtrlShiftEnd | KeyF1 | KeyF2 | KeyF3 | KeyF4 | KeyF5
  | KeyF6 | KeyF7 | KeyF8 | KeyF9 | KeyF10 | KeyF11 | KeyF12 | KeyF13 | KeyF14 | KeyF15 | KeyF16 | KeyF17 | KeyF18
  | KeyF19 | KeyF20 | KeyOther

record key_msg =
  kg_Type :: key_type
  kg_Runes :: "nat list"
  kg_Alt :: bool

definition altPrefix :: "bool \<Rightarrow> bytes \<Rightarrow> bytes" where
  "altPrefix alt b = (if \<not> alt then b else 0x1B # b)"

definition xtermSequence :: "bool \<Rightarrow> string \<Rightarrow> string \<Rightarrow> bytes" where
  "xtermSequence alt plain altModified = (if alt then bytes_of altModified else bytes_of plain)"

text \<open>The pair of sequences of a named key; the switch of \<^verbatim>\<open>keyBytes\<close>.\<close>

fun sequences :: "key_type \<Rightarrow> (string \<times> string) option" where
  "sequences KeyUp = Some ([esc] @ ''[A'', [esc] @ ''[1;3A'')"
| "sequences KeyDown = Some ([esc] @ ''[B'', [esc] @ ''[1;3B'')"
| "sequences KeyRight = Some ([esc] @ ''[C'', [esc] @ ''[1;3C'')"
| "sequences KeyLeft = Some ([esc] @ ''[D'', [esc] @ ''[1;3D'')"
| "sequences KeyShiftTab = Some ([esc] @ ''[Z'', [esc] @ [esc] @ ''[Z'')"
| "sequences KeyHome = Some ([esc] @ ''[H'', [esc] @ ''[1;3H'')"
| "sequences KeyEnd = Some ([esc] @ ''[F'', [esc] @ ''[1;3F'')"
| "sequences KeyPgUp = Some ([esc] @ ''[5~'', [esc] @ ''[5;3~'')"
| "sequences KeyPgDown = Some ([esc] @ ''[6~'', [esc] @ ''[6;3~'')"
| "sequences KeyCtrlPgUp = Some ([esc] @ ''[5;5~'', [esc] @ ''[5;7~'')"
| "sequences KeyCtrlPgDown = Some ([esc] @ ''[6;5~'', [esc] @ ''[6;7~'')"
| "sequences KeyDelete = Some ([esc] @ ''[3~'', [esc] @ ''[3;3~'')"
| "sequences KeyInsert = Some ([esc] @ ''[2~'', [esc] @ ''[2;3~'')"
| "sequences KeyCtrlUp = Some ([esc] @ ''[1;5A'', [esc] @ ''[1;7A'')"
| "sequences KeyCtrlDown = Some ([esc] @ ''[1;5B'', [esc] @ ''[1;7B'')"
| "sequences KeyCtrlRight = Some ([esc] @ ''[1;5C'', [esc] @ ''[1;7C'')"
| "sequences KeyCtrlLeft = Some ([esc] @ ''[1;5D'', [esc] @ ''[1;7D'')"
| "sequences KeyCtrlHome = Some ([esc] @ ''[1;5H'', [esc] @ ''[1;7H'')"
| "sequences KeyCtrlEnd = Some ([esc] @ ''[1;5F'', [esc] @ ''[1;7F'')"
| "sequences KeyShiftUp = Some ([esc] @ ''[1;2A'', [esc] @ ''[1;4A'')"
| "sequences KeyShiftDown = Some ([esc] @ ''[1;2B'', [esc] @ ''[1;4B'')"
| "sequences KeyShiftRight = Some ([esc] @ ''[1;2C'', [esc] @ ''[1;4C'')"
| "sequences KeyShiftLeft = Some ([esc] @ ''[1;2D'', [esc] @ ''[1;4D'')"
| "sequences KeyShiftHome = Some ([esc] @ ''[1;2H'', [esc] @ ''[1;4H'')"
| "sequences KeyShiftEnd = Some ([esc] @ ''[1;2F'', [esc] @ ''[1;4F'')"
| "sequences KeyCtrlShiftUp = Some ([esc] @ ''[1;6A'', [esc] @ ''[1;8A'')"
| "sequences KeyCtrlShiftDown = Some ([esc] @ ''[1;6B'', [esc] @ ''[1;8B'')"
| "sequences KeyCtrlShiftRight = Some ([esc] @ ''[1;6C'', [esc] @ ''[1;8C'')"
| "sequences KeyCtrlShiftLeft = Some ([esc] @ ''[1;6D'', [esc] @ ''[1;8D'')"
| "sequences KeyCtrlShiftHome = Some ([esc] @ ''[1;6H'', [esc] @ ''[1;8H'')"
| "sequences KeyCtrlShiftEnd = Some ([esc] @ ''[1;6F'', [esc] @ ''[1;8F'')"
| "sequences KeyF1 = Some ([esc] @ ''OP'', [esc] @ ''[1;3P'')"
| "sequences KeyF2 = Some ([esc] @ ''OQ'', [esc] @ ''[1;3Q'')"
| "sequences KeyF3 = Some ([esc] @ ''OR'', [esc] @ ''[1;3R'')"
| "sequences KeyF4 = Some ([esc] @ ''OS'', [esc] @ ''[1;3S'')"
| "sequences KeyF5 = Some ([esc] @ ''[15~'', [esc] @ ''[15;3~'')"
| "sequences KeyF6 = Some ([esc] @ ''[17~'', [esc] @ ''[17;3~'')"
| "sequences KeyF7 = Some ([esc] @ ''[18~'', [esc] @ ''[18;3~'')"
| "sequences KeyF8 = Some ([esc] @ ''[19~'', [esc] @ ''[19;3~'')"
| "sequences KeyF9 = Some ([esc] @ ''[20~'', [esc] @ ''[20;3~'')"
| "sequences KeyF10 = Some ([esc] @ ''[21~'', [esc] @ ''[21;3~'')"
| "sequences KeyF11 = Some ([esc] @ ''[23~'', [esc] @ ''[23;3~'')"
| "sequences KeyF12 = Some ([esc] @ ''[24~'', [esc] @ ''[24;3~'')"
| "sequences KeyF13 = Some ([esc] @ ''[1;2P'', [esc] @ ''[1;4P'')"
| "sequences KeyF14 = Some ([esc] @ ''[1;2Q'', [esc] @ ''[1;4Q'')"
| "sequences KeyF15 = Some ([esc] @ ''[1;2R'', [esc] @ ''[1;4R'')"
| "sequences KeyF16 = Some ([esc] @ ''[1;2S'', [esc] @ ''[1;4S'')"
| "sequences KeyF17 = Some ([esc] @ ''[15;2~'', [esc] @ ''[15;4~'')"
| "sequences KeyF18 = Some ([esc] @ ''[17;2~'', [esc] @ ''[17;4~'')"
| "sequences KeyF19 = Some ([esc] @ ''[18;2~'', [esc] @ ''[18;4~'')"
| "sequences KeyF20 = Some ([esc] @ ''[19;2~'', [esc] @ ''[19;4~'')"
| "sequences _ = None"

definition keyBytes :: "key_msg \<Rightarrow> bytes" where
  "keyBytes k =
     (case kg_Type k of
        KeyC0 b \<Rightarrow> altPrefix (kg_Alt k) [b]
      | KeyRunes \<Rightarrow> if kg_Runes k = [] then [] else altPrefix (kg_Alt k) (bytes_of (string_of_runes (kg_Runes k)))
      | KeyBackspace \<Rightarrow> altPrefix (kg_Alt k) [0x7F]
      | KeySpace \<Rightarrow> altPrefix (kg_Alt k) [0x20]
      | t \<Rightarrow> (case sequences t of Some (plain, alt) \<Rightarrow> xtermSequence (kg_Alt k) plain alt | None \<Rightarrow> []))"

definition named_keys :: "key_type list" where
  "named_keys = [KeyUp, KeyDown, KeyRight, KeyLeft, KeyShiftTab, KeyHome, KeyEnd, KeyPgUp, KeyPgDown, KeyCtrlPgUp, KeyCtrlPgDown, 
     KeyDelete, KeyInsert, KeyCtrlUp, KeyCtrlDown, KeyCtrlRight, KeyCtrlLeft, KeyCtrlHome, KeyCtrlEnd, KeyShiftUp, 
     KeyShiftDown, KeyShiftRight, KeyShiftLeft, KeyShiftHome, KeyShiftEnd, KeyCtrlShiftUp, KeyCtrlShiftDown, 
     KeyCtrlShiftRight, KeyCtrlShiftLeft, KeyCtrlShiftHome, KeyCtrlShiftEnd, KeyF1, KeyF2, KeyF3, KeyF4, KeyF5, 
     KeyF6, KeyF7, KeyF8, KeyF9, KeyF10, KeyF11, KeyF12, KeyF13, KeyF14, KeyF15, KeyF16, KeyF17, KeyF18, KeyF19, 
     KeyF20]"

section \<open>No two keys look alike\<close>

definition key_events :: "(key_type \<times> bool) list" where
  "key_events = concat (map (\<lambda>t. [(t, False), (t, True)]) named_keys)"

fun event_sequence :: "key_type \<times> bool \<Rightarrow> string" where
  "event_sequence (t, alt) = (case sequences t of None \<Rightarrow> [] | Some (p, a) \<Rightarrow> if alt then a else p)"

lemma sequences_distinct: "distinct (map event_sequence key_events)"
  by code_simp

lemma sequences_long: "list_all (\<lambda>e. 2 < length (event_sequence e)) key_events"
  by code_simp

lemma named_keys_all: "sequences t \<noteq> None \<Longrightarrow> (t, alt) \<in> set key_events"
  by (cases t; cases alt; simp add: key_events_def named_keys_def)

definition plain_key :: "key_type \<Rightarrow> bool" where
  "plain_key t \<longleftrightarrow> t = KeyBackspace \<or> t = KeySpace \<or> (\<exists>b. t = KeyC0 b \<and> b < 32)"

lemma keyBytes_named:
  "sequences (kg_Type k) \<noteq> None \<Longrightarrow> keyBytes k = bytes_of (event_sequence (kg_Type k, kg_Alt k))"
  by (cases "kg_Type k") (auto simp: keyBytes_def xtermSequence_def)

lemma keyBytes_plain:
  "plain_key (kg_Type k) \<Longrightarrow> keyBytes k = altPrefix (kg_Alt k)
     [case kg_Type k of KeyC0 b \<Rightarrow> b | KeyBackspace \<Rightarrow> 0x7F | _ \<Rightarrow> 0x20]"
  by (auto simp: plain_key_def keyBytes_def)

text \<open>
  The target can tell the keys apart. Two key events other than typed text that are sent as the same
  bytes are the same key with the same Alt state: every named key and every control has its own sequence,
  and none of them is sent as nothing.
\<close>

lemma key_bytes_unambiguous:
  assumes "plain_key (kg_Type k) \<or> sequences (kg_Type k) \<noteq> None"
    and "plain_key (kg_Type k') \<or> sequences (kg_Type k') \<noteq> None"
  shows "keyBytes k \<noteq> [] \<and> (keyBytes k = keyBytes k' \<longrightarrow> kg_Type k = kg_Type k' \<and> kg_Alt k = kg_Alt k')"
proof -
  have long: "2 < length (keyBytes k)" if "sequences (kg_Type k) \<noteq> None" for k
    using keyBytes_named [OF that] named_keys_all [OF that] sequences_long unfolding list_all_iff by (metis length_bytes_of)
  have short: "length (keyBytes k) = (if kg_Alt k then 2 else 1)" if "plain_key (kg_Type k)" for k
    using keyBytes_plain [OF that] by (simp add: altPrefix_def)
  have eq: "kg_Type k = kg_Type k' \<and> kg_Alt k = kg_Alt k'" if e: "keyBytes k = keyBytes k'"
  proof (cases "plain_key (kg_Type k)")
    case True
    have p: "plain_key (kg_Type k')"
    proof (rule ccontr)
      assume "\<not> plain_key (kg_Type k')"
      then have "2 < length (keyBytes k')" using assms(2) long by blast
      then show False using short [OF True] e by (simp split: if_splits)
    qed
    have "(if kg_Alt k then 2 else 1) = (if kg_Alt k' then 2 else (1 :: nat))"
      using short [OF True] short [OF p] e by metis
    then have alt: "kg_Alt k = kg_Alt k'" by (cases "kg_Alt k"; cases "kg_Alt k'") simp_all
    then have "(case kg_Type k of KeyC0 b \<Rightarrow> b | KeyBackspace \<Rightarrow> 0x7F | _ \<Rightarrow> 0x20)
        = (case kg_Type k' of KeyC0 b \<Rightarrow> b | KeyBackspace \<Rightarrow> 0x7F | _ \<Rightarrow> (0x20 :: byte))"
      using e unfolding keyBytes_plain [OF True] keyBytes_plain [OF p] by (simp add: altPrefix_def split: if_splits)
    with True p alt show ?thesis unfolding plain_key_def by auto
  next
    case False
    then have s: "sequences (kg_Type k) \<noteq> None" using assms(1) by simp
    have s': "sequences (kg_Type k') \<noteq> None"
    proof (rule ccontr)
      assume "\<not> sequences (kg_Type k') \<noteq> None"
      then have "plain_key (kg_Type k')" using assms(2) by blast
      from short [OF this] show False using long [OF s] e by (simp split: if_splits)
    qed
    have "event_sequence (kg_Type k, kg_Alt k) = event_sequence (kg_Type k', kg_Alt k')"
      using e unfolding keyBytes_named [OF s] keyBytes_named [OF s'] by simp
    with sequences_distinct named_keys_all [OF s] named_keys_all [OF s'] show ?thesis
      unfolding distinct_map inj_on_def by blast
  qed
  have "0 < length (keyBytes k)" using assms(1) long [of k] short [of k] by (metis gr_zeroI less_zeroE zero_less_numeral one_neq_zero zero_neq_numeral)
  with eq show ?thesis by blast
qed

lemma key_bytes_unambiguous_witness:
  "keyBytes \<lparr>kg_Type = KeyF1, kg_Runes = [], kg_Alt = True\<rparr> \<noteq> keyBytes \<lparr>kg_Type = KeyF13, kg_Runes = [], kg_Alt = False\<rparr>"
  using key_bytes_unambiguous [of "\<lparr>kg_Type = KeyF1, kg_Runes = [], kg_Alt = True\<rparr>"
      "\<lparr>kg_Type = KeyF13, kg_Runes = [], kg_Alt = False\<rparr>"] by auto

end
