(* ===== verification/Transparent.thy ===== *)
theory Transparent
  imports GoNet
begin

text \<open>
  \<^verbatim>\<open>internal/transparent\<close>: the socket address the kernel kept (\<^verbatim>\<open>parse.go\<close>), the redirect rules
  (\<^verbatim>\<open>rules.go\<close>), their installation with roll-back (\<^verbatim>\<open>apply_linux.go\<close>) and the dispatch of accepted
  connections (\<^verbatim>\<open>listener.go\<close>). Running a firewall command is the parameter \<open>run\<close> on the state of the
  firewall; \<open>look_path\<close> is \<^verbatim>\<open>exec.LookPath\<close>.
\<close>

section \<open>Socket addresses\<close>

definition itoa_byte :: "byte \<Rightarrow> string" where
  "itoa_byte b = show_nat (unat b)"

definition ipv4_string :: "bytes \<Rightarrow> string" where
  "ipv4_string b = join ''.'' (map itoa_byte b)"

definition be_port :: "byte \<Rightarrow> byte \<Rightarrow> nat" where
  "be_port hi lo = unat hi * 256 + unat lo"

definition parseSockaddrIn :: "bytes \<Rightarrow> string + string" where
  "parseSockaddrIn b =
     (if length b < 8 then Inl (''transparent: short sockaddr ('' @ show_nat (length b) @ '' bytes)'')
      else Inr (ipv4_string (take 4 (drop 4 b)) @ '':'' @ show_nat (be_port (b ! 2) (b ! 3))))"

text \<open>
  \<^verbatim>\<open>net.IP.String\<close> for 16 bytes: a v4-mapped address in dotted form, any other in hexadecimal groups
  with the first longest run of two or more zero groups shortened.
\<close>

definition hex_nibble :: "nat \<Rightarrow> char" where
  "hex_nibble n = (if n < 10 then char_of (48 + n) else char_of (87 + n))"

fun show_hex :: "nat \<Rightarrow> string" where
  "show_hex n = (if n < 16 then [hex_nibble n] else show_hex (n div 16) @ [hex_nibble (n mod 16)])"

declare show_hex.simps [simp del]

fun ip_groups :: "bytes \<Rightarrow> nat list" where
  "ip_groups (a # b # s) = (unat a * 256 + unat b) # ip_groups s"
| "ip_groups _ = []"

fun zero_run :: "nat list \<Rightarrow> nat" where
  "zero_run (g # gs) = (if g = 0 then Suc (zero_run gs) else 0)"
| "zero_run [] = 0"

text \<open>Start and length of the best run, scanning from left to right.\<close>

fun best_run :: "nat \<Rightarrow> nat list \<Rightarrow> nat \<times> nat \<Rightarrow> nat \<times> nat" where
  "best_run i [] best = best"
| "best_run i (g # gs) (st, len) =
     (let l = zero_run (g # gs) in best_run (Suc i) gs (if 2 \<le> l \<and> len < l then (i, l) else (st, len)))"

definition ipv6_hex :: "nat list \<Rightarrow> string" where
  "ipv6_hex gs = (let (st, len) = best_run 0 gs (0, 0) in
     if len = 0 then join '':'' (map show_hex gs)
     else join '':'' (map show_hex (take st gs)) @ ''::'' @ join '':'' (map show_hex (drop (st + len) gs)))"

definition v4_mapped :: "bytes \<Rightarrow> bool" where
  "v4_mapped b \<longleftrightarrow> take 12 b = replicate 10 0 @ [0xFF, 0xFF]"

definition ip16_string :: "bytes \<Rightarrow> string" where
  "ip16_string b = (if v4_mapped b then ipv4_string (drop 12 b) else ipv6_hex (ip_groups b))"

definition parseSockaddrIn6 :: "bytes \<Rightarrow> string + string" where
  "parseSockaddrIn6 b =
     (if length b < 24 then Inl (''transparent: short sockaddr6 ('' @ show_nat (length b) @ '' bytes)'')
      else Inr (''['' @ ip16_string (take 16 (drop 8 b)) @ '']:'' @ show_nat (be_port (b ! 2) (b ! 3))))"

section \<open>Rules\<close>

definition NFTRedirect :: "int \<Rightarrow> int \<Rightarrow> string list list" where
  "NFTRedirect proxyPort uid =
     [[''add'', ''table'', ''ip'', ''cli_capture''],
      [''add'', ''chain'', ''ip'', ''cli_capture'', ''output'', ''{'', ''type'', ''nat'', ''hook'', ''output'', ''priority'', ''-100'', '';'', ''}''],
      [''add'', ''rule'', ''ip'', ''cli_capture'', ''output'', ''meta'', ''skuid'', show_int uid,
       ''tcp'', ''dport'', ''{'', ''80'', '','', ''443'', ''}'', ''redirect'', ''to'', '':'' @ show_int proxyPort]]"

definition NFTFlush :: "string list list" where
  "NFTFlush = [[''delete'', ''table'', ''ip'', ''cli_capture'']]"

definition IPTablesRedirect :: "int \<Rightarrow> int \<Rightarrow> string list list" where
  "IPTablesRedirect proxyPort uid =
     [[''-t'', ''nat'', ''-N'', ''cli_capture''],
      [''-t'', ''nat'', ''-A'', ''cli_capture'', ''-p'', ''tcp'', ''-m'', ''owner'', ''--uid-owner'', show_int uid,
       ''-m'', ''multiport'', ''--dports'', ''80,443'', ''-j'', ''REDIRECT'', ''--to-ports'', show_int proxyPort],
      [''-t'', ''nat'', ''-A'', ''OUTPUT'', ''-j'', ''cli_capture'']]"

definition IPTablesFlush :: "string list list" where
  "IPTablesFlush =
     [[''-t'', ''nat'', ''-D'', ''OUTPUT'', ''-j'', ''cli_capture''],
      [''-t'', ''nat'', ''-F'', ''cli_capture''],
      [''-t'', ''nat'', ''-X'', ''cli_capture'']]"

record backend =
  be_Bin :: string
  be_Redirect :: "int \<Rightarrow> int \<Rightarrow> string list list"
  be_Flush :: "string list list"

definition DetectBackend :: "(string \<Rightarrow> bool) \<Rightarrow> backend option" where
  "DetectBackend look_path =
     (if look_path ''nft'' then Some \<lparr>be_Bin = ''nft'', be_Redirect = NFTRedirect, be_Flush = NFTFlush\<rparr>
      else if look_path ''iptables''
      then Some \<lparr>be_Bin = ''iptables'', be_Redirect = IPTablesRedirect, be_Flush = IPTablesFlush\<rparr>
      else None)"

definition Shell :: "string \<Rightarrow> string list list \<Rightarrow> string list" where
  "Shell bin cmds = map (\<lambda>c. bin @ '' '' @ join '' '' c) cmds"

section \<open>Installing the rules\<close>

type_synonym 's runner = "string \<Rightarrow> string list \<Rightarrow> 's \<Rightarrow> string option \<times> 's"

text \<open>\<^verbatim>\<open>runAll\<close> goes on after a failure and reports the first one.\<close>

fun runAll :: "'s runner \<Rightarrow> string \<Rightarrow> string list list \<Rightarrow> 's \<Rightarrow> string option \<times> 's" where
  "runAll run bin [] s = (None, s)"
| "runAll run bin (argv # cmds) s =
     (let (e, s1) = run bin argv s; (e', s2) = runAll run bin cmds s1 in (case e of Some _ \<Rightarrow> e | None \<Rightarrow> e', s2))"

datatype apply_error = NeedsRoot | NoBackend | CommandFailed string

fun install_rules :: "'s runner \<Rightarrow> backend \<Rightarrow> string list list \<Rightarrow> 's \<Rightarrow> apply_error option \<times> 's" where
  "install_rules run be [] s = (None, s)"
| "install_rules run be (argv # cmds) s =
     (case run (be_Bin be) argv s of
        (Some e, s1) \<Rightarrow> (Some (CommandFailed e), snd (runAll run (be_Bin be) (be_Flush be) s1))
      | (None, s1) \<Rightarrow> install_rules run be cmds s1)"

text \<open>The teardown function is the flush of the backend.\<close>

definition ApplyRedirect ::
    "'s runner \<Rightarrow> nat \<Rightarrow> (string \<Rightarrow> bool) \<Rightarrow> int \<Rightarrow> int \<Rightarrow> 's \<Rightarrow> (apply_error + string list list) \<times> string \<times> 's" where
  "ApplyRedirect run euid look_path proxyPort uid s =
     (if euid \<noteq> 0 then (Inl NeedsRoot, [], s)
      else case DetectBackend look_path of
          None \<Rightarrow> (Inl NoBackend, [], s)
        | Some be \<Rightarrow>
            (let s1 = snd (runAll run (be_Bin be) (be_Flush be) s) in
             case install_rules run be (be_Redirect be proxyPort uid) s1 of
               (Some e, s2) \<Rightarrow> (Inl e, be_Bin be, s2)
             | (None, s2) \<Rightarrow> (Inr (be_Flush be), be_Bin be, s2)))"

text \<open>The goroutine of an accepted connection: dropped unless it is TCP and was redirected.\<close>

definition dispatch :: "('c \<Rightarrow> bool) \<Rightarrow> ('c \<Rightarrow> string + string) \<Rightarrow> 'c \<Rightarrow> ('c \<times> string) option" where
  "dispatch is_tcp original_dst c =
     (if \<not> is_tcp c then None
      else case original_dst c of Inl _ \<Rightarrow> None | Inr dst \<Rightarrow> Some (c, dst))"

fun Serve :: "('c \<Rightarrow> bool) \<Rightarrow> ('c \<Rightarrow> string + string) \<Rightarrow> (string + 'c) list \<Rightarrow> ('c \<times> string) list" where
  "Serve is_tcp original_dst [] = []"
| "Serve is_tcp original_dst (Inl e # accepts) = []"
| "Serve is_tcp original_dst (Inr c # accepts) =
     (case dispatch is_tcp original_dst c of
        None \<Rightarrow> Serve is_tcp original_dst accepts
      | Some h \<Rightarrow> h # Serve is_tcp original_dst accepts)"

section \<open>Addresses are dialable\<close>

definition addr_char :: "char \<Rightarrow> bool" where
  "addr_char c \<longleftrightarrow> c \<noteq> CHR ''['' \<and> c \<noteq> CHR '']''"

lemma digit_addr_char: "is_digit c \<Longrightarrow> addr_char c \<and> c \<noteq> CHR '':''"
  by (auto simp: is_digit_def addr_char_def)

lemma show_nat_addr: "list_all (\<lambda>c. addr_char c \<and> c \<noteq> CHR '':'') (show_nat n)"
  using show_nat_digits [of n] digit_addr_char by (auto simp: list_all_iff)

lemma show_hex_addr: "list_all addr_char (show_hex n)"
proof (induction n rule: show_hex.induct)
  case (1 n)
  have h: "addr_char (hex_nibble k)" if "k < 16" for k
  proof -
    have "list_all (\<lambda>k. addr_char (hex_nibble k)) [0..<16]" by code_simp
    with that show ?thesis by (simp add: list_all_iff)
  qed
  show ?case using 1 h by (subst show_hex.simps) (simp add: list_all_append)
qed

lemma join_all: "list_all P sep \<Longrightarrow> \<forall>x \<in> set xs. list_all P x \<Longrightarrow> list_all P (join sep xs)"
  by (induction sep xs rule: join.induct) auto

lemma ipv4_addr: "list_all (\<lambda>c. addr_char c \<and> c \<noteq> CHR '':'') (ipv4_string b)"
  unfolding ipv4_string_def by (rule join_all) (auto simp: itoa_byte_def show_nat_addr, simp add: addr_char_def)

lemma ip16_addr: "list_all addr_char (ip16_string b)"
proof -
  have c: "list_all addr_char '':''" "list_all addr_char ''::''" by (simp_all add: addr_char_def)
  have j: "list_all addr_char (join '':'' (map show_hex gs))" for gs
    by (rule join_all [OF c(1)]) (auto simp: show_hex_addr)
  have "list_all addr_char (ipv6_hex gs)" for gs
    using c j by (simp add: ipv6_hex_def Let_def split: prod.split)
  moreover have "list_all addr_char (ipv4_string b)" for b
    using ipv4_addr [of b] by (auto simp: list_all_iff)
  ultimately show ?thesis by (simp add: ip16_string_def)
qed

lemma be_port_bound: "be_port hi lo < 65536"
proof -
  have "unat hi < 2 ^ LENGTH(8)" "unat lo < 2 ^ LENGTH(8)" by (rule unsigned_less)+
  then show ?thesis by (simp add: be_port_def)
qed

text \<open>
  The original destination is always an address that can be dialed. A socket address is refused exactly
  when it is too short; otherwise the text splits into the address and the port the kernel stored,
  and the port is its two bytes in network order, below 65536.
\<close>

lemma original_destination_dialable:
  "(length b < 8 \<longleftrightarrow> (\<exists>e. parseSockaddrIn b = Inl e)) \<and> (length b < 24 \<longleftrightarrow> (\<exists>e. parseSockaddrIn6 b = Inl e))
   \<and> (\<forall>hp. parseSockaddrIn b = Inr hp \<or> parseSockaddrIn6 b = Inr hp \<longrightarrow>
       (\<exists>host. SplitHostPort hp = Inr (host, show_nat (be_port (b ! 2) (b ! 3)))
         \<and> host \<in> {ipv4_string (take 4 (drop 4 b)), ip16_string (take 16 (drop 8 b))})
       \<and> be_port (b ! 2) (b ! 3) < 65536)"
proof -
  let ?p = "show_nat (be_port (b ! 2) (b ! 3))"
  have p: "CHR '':'' \<notin> set ?p" "CHR ''['' \<notin> set ?p" "CHR '']'' \<notin> set ?p"
    using show_nat_addr by (auto simp: list_all_iff addr_char_def)
  have v4: "SplitHostPort (ipv4_string a @ '':'' @ ?p) = Inr (ipv4_string a, ?p)" for a
  proof -
    have n: "CHR '':'' \<notin> set (ipv4_string a)" "CHR ''['' \<notin> set (ipv4_string a)" "CHR '']'' \<notin> set (ipv4_string a)"
      using ipv4_addr [of a] by (auto simp: list_all_iff addr_char_def)
    from Split_Join [OF p n(2,3)] n(1) show ?thesis by (simp add: JoinHostPort_def)
  qed
  have v6: "SplitHostPort (''['' @ ip16_string a @ '']:'' @ ?p) = Inr (ip16_string a, ?p)" for a
  proof -
    have n: "CHR ''['' \<notin> set (ip16_string a)" "CHR '']'' \<notin> set (ip16_string a)"
      using ip16_addr [of a] by (auto simp: list_all_iff addr_char_def)
    from Split_bracketed [OF p n] show ?thesis .
  qed
  show ?thesis using v4 v6 be_port_bound
    by (auto simp: parseSockaddrIn_def parseSockaddrIn6_def split: if_splits)
qed

text \<open>A connection to port 8080 of 10.0.0.1: the two bytes of the port come in network order.\<close>

lemma original_destination_dialable_witness:
  "\<exists>host. SplitHostPort ''10.0.0.1:8080'' = Inr (host, ''8080'')"
proof -
  let ?b = "[2, 0, 31, 144, 10, 0, 0, 1] :: 8 word list"
  have d: "digit_char 0 = CHR ''0''" "digit_char (Suc 0) = CHR ''1''" "digit_char 8 = CHR ''8''" by code_simp+
  have a: "parseSockaddrIn ?b = Inr ''10.0.0.1:8080''"
    by (simp add: parseSockaddrIn_def ipv4_string_def itoa_byte_def be_port_def show_nat.simps d)
  have p: "show_nat (be_port (?b ! 2) (?b ! 3)) = ''8080''"
    by (simp add: be_port_def show_nat.simps d)
  have "\<exists>host. SplitHostPort ''10.0.0.1:8080'' = Inr (host, show_nat (be_port (?b ! 2) (?b ! 3)))"
    using original_destination_dialable [of ?b] a by blast
  then show ?thesis unfolding p .
qed

section \<open>All or nothing\<close>

lemma install_rules_failed:
  "install_rules run be cmds s = (Some e, s') \<Longrightarrow> \<exists>s1. s' = snd (runAll run (be_Bin be) (be_Flush be) s1)"
  by (induction run be cmds s rule: install_rules.induct) (auto split: prod.splits option.splits)

text \<open>Every command of a list succeeds, one after the other.\<close>

fun all_succeed :: "'s runner \<Rightarrow> string \<Rightarrow> string list list \<Rightarrow> 's \<Rightarrow> 's \<Rightarrow> bool" where
  "all_succeed run bin [] s s' \<longleftrightarrow> s' = s"
| "all_succeed run bin (argv # cmds) s s' \<longleftrightarrow>
     fst (run bin argv s) = None \<and> all_succeed run bin cmds (snd (run bin argv s)) s'"

lemma install_rules_done:
  "install_rules run be cmds s = (None, s') \<longleftrightarrow> all_succeed run (be_Bin be) cmds s s'"
  by (induction run be cmds s rule: install_rules.induct) (auto split: prod.splits option.splits)


text \<open>A firewall of rule lists in which the third command fails.\<close>

definition demo_run :: "string list list runner" where
  "demo_run bin argv s = (if hd argv = ''delete'' then (None, [])
     else if length s = 2 then (Some ''no such hook'', s) else (None, s @ [argv]))"


end
