(* ===== verification/Http1.thy ===== *)
theory Http1
  imports RequestBody WebSocket
begin

text \<open>
  \<^verbatim>\<open>internal/protocol/http.go\<close>: one HTTP/1 exchange through the proxy, from the request the client
  sent to the response it is given, with the switch to another protocol after a 101 response, and
  the WebSocket upgrade (\<^verbatim>\<open>handleWebSocket\<close>) it hands over to. \<^verbatim>\<open>net/http\<close> is the parameter
  record \<open>net_http\<close>: reading and writing messages on bytes. Each peer is the bytes not yet read from it and the
  bytes written to it; \<open>peers\<close> says which writes fail. Every \<^verbatim>\<open>touch()\<close> publishes the flow as it is.
\<close>

record http_response =
  rp_StatusCode :: int
  rp_Status :: string
  rp_Header :: header
  rp_Body :: "string + bytes"

record net_http =
  nh_ReadRequest :: "bytes \<Rightarrow> string + http_request \<times> bytes"
  nh_DumpRequest :: "http_request \<Rightarrow> string + bytes"
  nh_Write :: "http_request \<Rightarrow> string + bytes"
  nh_ReadResponse :: "bytes \<Rightarrow> http_request \<Rightarrow> string + http_response \<times> bytes"
  nh_DumpResponse :: "http_response \<Rightarrow> string + bytes"

record tamperer =
  tm_BeforeForward :: "flow \<Rightarrow> message \<Rightarrow> bytes option \<times> bool"
  tm_BeforeDeliver :: "flow \<Rightarrow> message \<Rightarrow> bytes option \<times> bool"

text \<open>The error, if any, of a write after the bytes written so far.\<close>

record peers =
  pw_server :: "bytes \<Rightarrow> bytes \<Rightarrow> string option"
  pw_client :: "bytes \<Rightarrow> bytes \<Rightarrow> string option"

record exchange =
  x_flow :: flow
  x_client_in :: bytes
  x_server_in :: bytes
  x_to_server :: bytes
  x_to_client :: bytes
  x_seen :: "flow list"

definition touch :: "exchange \<Rightarrow> exchange" where
  "touch s = s\<lparr>x_seen := x_seen s @ [x_flow s]\<rparr>"

definition set_flow :: "(flow \<Rightarrow> flow) \<Rightarrow> exchange \<Rightarrow> exchange" where
  "set_flow g s = s\<lparr>x_flow := g (x_flow s)\<rparr>"

text \<open>A buffered write and its flush.\<close>

definition write_server :: "peers \<Rightarrow> bytes \<Rightarrow> exchange \<Rightarrow> string option \<times> exchange" where
  "write_server W b s = (case pw_server W (x_to_server s) b of
     Some e \<Rightarrow> (Some e, s) | None \<Rightarrow> (None, s\<lparr>x_to_server := x_to_server s @ b\<rparr>))"

definition write_client :: "peers \<Rightarrow> bytes \<Rightarrow> exchange \<Rightarrow> string option \<times> exchange" where
  "write_client W b s = (case pw_client W (x_to_client s) b of
     Some e \<Rightarrow> (Some e, s) | None \<Rightarrow> (None, s\<lparr>x_to_client := x_to_client s @ b\<rparr>))"

text \<open>How a handler ends: it returns its error, or its goroutines are still running.\<close>

datatype outcome = Returned "string option" | Running | Panicked

type_synonym handled = "outcome \<times> exchange"

definition failHTTP1Response :: "string \<Rightarrow> exchange \<Rightarrow> handled" where
  "failHTTP1Response e s =
     (Returned (Some e), touch (set_flow (\<lambda>f. f\<lparr>f_Status := StatusError, f_Err := Some e\<rparr>) s))"

definition complete :: "exchange \<Rightarrow> handled" where
  "complete s = (Returned None, touch (set_flow (\<lambda>f. f\<lparr>f_Status := StatusComplete\<rparr>) s))"

section \<open>Messages\<close>

definition bodyOf :: "bytes \<Rightarrow> bytes" where
  "bodyOf raw = (case index_of raw crlfcrlf of Some i \<Rightarrow> drop (i + 4) raw | None \<Rightarrow> [])"

definition request_summary :: "http_request \<Rightarrow> string" where
  "request_summary req = rq_Method req @ '' '' @ rq_URI req @ '' '' @ rq_Proto req"

definition request_meta :: "http_request \<Rightarrow> string gomap" where
  "request_meta req = [(''method'', rq_Method req), (''path'', rq_URI req), (''host'', rq_Host req)]"

definition http1_request_message :: "codecs \<Rightarrow> http_request \<Rightarrow> bytes \<Rightarrow> message" where
  "http1_request_message C req raw =
     \<lparr>m_Direction = ClientToServer, m_Summary = request_summary req, m_Headers = rq_Header req,
      m_Body = DecodeContentEncoding C (bodyOf raw) (join '','' (hvalues (rq_Header req) ''Content-Encoding'')),
      m_Raw = raw, m_Meta = request_meta req\<rparr>"

definition http1_response_message :: "codecs \<Rightarrow> http_response \<Rightarrow> bytes \<Rightarrow> bytes \<Rightarrow> message" where
  "http1_response_message C resp raw deChunked =
     (let body = DecodeContentEncoding C deChunked (join '','' (hvalues (rp_Header resp) ''Content-Encoding'')) in
      \<lparr>m_Direction = ServerToClient,
       m_Summary = rp_Status resp @ '' ('' @ show_nat (length body) @ '' bytes)'',
       m_Headers = rp_Header resp, m_Body = body, m_Raw = raw, m_Meta = [(''status'', rp_Status resp)]\<rparr>)"

definition captureForwardedHTTP1 ::
    "net_http \<Rightarrow> codecs \<Rightarrow> message \<Rightarrow> bytes \<Rightarrow> string + http_request \<times> message" where
  "captureForwardedHTTP1 H C m raw =
     (case nh_ReadRequest H raw of
        Inl e \<Rightarrow> Inl e
      | Inr (req, rest) \<Rightarrow> (case rq_Body req of
          Inl e \<Rightarrow> Inl e
        | Inr body \<Rightarrow>
            if rest \<noteq> [] then Inl ''edited HTTP/1 request has trailing bytes''
            else Inr (req, m\<lparr>m_Summary := request_summary req, m_Headers := rq_Header req,
              m_Body := DecodeContentEncoding C body (join '','' (hvalues (rq_Header req) ''Content-Encoding'')),
              m_Raw := raw,
              m_Meta := request_meta req @ [(BodyRepresentationMeta, BodyRepresentationDecoded)]\<rparr>)))"

section \<open>After the switch of protocols\<close>

text \<open>
  The two copies of \<^verbatim>\<open>relayHTTP1Upgrade\<close>. A step lets one direction read: up to \<open>n\<close> bytes (at least one), or the
  end of its stream, or an error of its connection.
\<close>

datatype copy_step = Move direction nat | ReadFails direction string

fun step_dir :: "copy_step \<Rightarrow> direction" where
  "step_dir (Move d n) = d"
| "step_dir (ReadFails d e) = d"

fun copy_once :: "peers \<Rightarrow> copy_step \<Rightarrow> exchange \<Rightarrow> string option option \<times> exchange" where
  "copy_once W (ReadFails d e) s = (Some (Some e), s)"
| "copy_once W (Move ClientToServer n) s =
     (if x_client_in s = [] then (Some None, s)
      else
        (let k = max 1 n; (e, s1) = write_server W (take k (x_client_in s)) s;
             s2 = s1\<lparr>x_client_in := drop k (x_client_in s)\<rparr>
         in case e of None \<Rightarrow> (None, s2) | Some e \<Rightarrow> (Some (Some e), s2)))"
| "copy_once W (Move ServerToClient n) s =
     (if x_server_in s = [] then (Some None, s)
      else
        (let k = max 1 n; (e, s1) = write_client W (take k (x_server_in s)) s;
             s2 = s1\<lparr>x_server_in := drop k (x_server_in s)\<rparr>
         in case e of None \<Rightarrow> (None, s2) | Some e \<Rightarrow> (Some (Some e), s2)))"

text \<open>\<open>first\<close> is the direction that has ended, with its error; \<open>closes\<close> that the connections are owned.\<close>

fun relayHTTP1Upgrade ::
    "peers \<Rightarrow> bool \<Rightarrow> (direction \<times> string option) option \<Rightarrow> copy_step list \<Rightarrow> exchange \<Rightarrow> string option option \<times> exchange" where
  "relayHTTP1Upgrade W closes first [] s = (None, s)"
| "relayHTTP1Upgrade W closes first (st # steps) s =
     (if map_option fst first = Some (step_dir st) then relayHTTP1Upgrade W closes first steps s
      else case copy_once W st s of
          (None, s1) \<Rightarrow> relayHTTP1Upgrade W closes first steps s1
        | (Some e, s1) \<Rightarrow> (case first of
            Some (d, e1) \<Rightarrow> (Some (if e1 \<noteq> None then e1 else e), s1)
          | None \<Rightarrow> if closes then (Some e, s1) else relayHTTP1Upgrade W closes (Some (step_dir st, e)) steps s1))"

section \<open>The WebSocket upgrade\<close>

definition relayWebSocketRejection ::
    "net_http \<Rightarrow> codecs \<Rightarrow> peers \<Rightarrow> http_request \<Rightarrow> bytes \<Rightarrow> exchange \<Rightarrow> handled" where
  "relayWebSocketRejection H C W req statusLine s =
     (case nh_ReadResponse H (statusLine @ x_server_in s) req of
        Inl e \<Rightarrow> failHTTP1Response e s
      | Inr (resp, rest) \<Rightarrow>
          (let s1 = s\<lparr>x_server_in := rest\<rparr> in
           case nh_DumpResponse H resp of
             Inl e \<Rightarrow> failHTTP1Response e s1
           | Inr raw \<Rightarrow> (case rp_Body resp of
               Inl e \<Rightarrow> failHTTP1Response e s1
             | Inr body \<Rightarrow>
                 (let s2 = touch (set_flow (\<lambda>f. f\<lparr>f_Response := Some (http1_response_message C resp raw body)\<rparr>) s1);
                      (we, s3) = write_client W raw s2
                  in case we of Some e \<Rightarrow> failHTTP1Response e s3 | None \<Rightarrow> complete s3))))"

text \<open>One round of the loop of a pump: whether the pump goes on.\<close>

datatype pump_round = Goes | Stops | Panics

definition pump_out :: "peers \<Rightarrow> direction \<Rightarrow> ws_frame \<Rightarrow> exchange \<Rightarrow> pump_round \<times> exchange" where
  "pump_out W dir fr s =
     (let (e, s1) = (if dir = ClientToServer then write_server W (ws_encode fr) s else write_client W (ws_encode fr) s)
      in if e \<noteq> None then (Stops, s1) else if w_Opcode fr = opClose then (Stops, s1) else (Goes, s1))"

definition pump_round :: "peers \<Rightarrow> tamperer \<Rightarrow> direction \<Rightarrow> exchange \<Rightarrow> pump_round \<times> exchange" where
  "pump_round W tm dir s =
     (case readWSFrame (if dir = ClientToServer then x_client_in s else x_server_in s) of
        Inl WsPanic \<Rightarrow> (Panics, s)
      | Inl (WsIO e) \<Rightarrow> (Stops, s)
      | Inr (fr, rest) \<Rightarrow>
          (let s1 = (if dir = ClientToServer then s\<lparr>x_client_in := rest\<rparr> else s\<lparr>x_server_in := rest\<rparr>) in
           if isWSData (w_Opcode fr) then
             (let msg = ws_message dir fr; s2 = set_flow (AddMessage msg) s1 in
              if dir = ServerToClient then pump_out W dir fr (touch s2)
              else case tm_BeforeForward tm (x_flow s2) msg of
                  (_, True) \<Rightarrow> (Goes, touch s2)
                | (None, False) \<Rightarrow> pump_out W dir fr (touch s2)
                | (Some p, False) \<Rightarrow> pump_out W dir (fr\<lparr>w_Payload := p\<rparr>) (touch s2))
           else pump_out W dir fr s1))"

text \<open>Rounds of the two pumps until both have stopped; owned connections are closed after the first stop.\<close>

datatype pump_step = Round direction | Interrupted direction

fun pump_dir :: "pump_step \<Rightarrow> direction" where
  "pump_dir (Round d) = d"
| "pump_dir (Interrupted d) = d"

definition closed_peers :: peers where
  "closed_peers = \<lparr>pw_server = (\<lambda>_ _. Some ''use of closed network connection''),
     pw_client = (\<lambda>_ _. Some ''use of closed network connection'')\<rparr>"

fun pumps :: "peers \<Rightarrow> tamperer \<Rightarrow> bool \<Rightarrow> direction option \<Rightarrow> pump_step list \<Rightarrow> exchange \<Rightarrow> pump_round \<times> exchange" where
  "pumps W tm closes first [] s = (Goes, s)"
| "pumps W tm closes first (st # steps) s =
     (if first = Some (pump_dir st) then pumps W tm closes first steps s
      else case (case st of Round d \<Rightarrow> pump_round W tm d s | Interrupted d \<Rightarrow> (Stops, s)) of
          (Goes, s1) \<Rightarrow> pumps W tm closes first steps s1
        | (Panics, s1) \<Rightarrow> (Panics, s1)
        | (Stops, s1) \<Rightarrow>
            if first \<noteq> None then (Stops, s1)
            else pumps (if closes then closed_peers else W) tm closes (Some (pump_dir st)) steps s1)"

definition handleWebSocket ::
    "net_http \<Rightarrow> codecs \<Rightarrow> peers \<Rightarrow> tamperer \<Rightarrow> bool \<Rightarrow> pump_step list \<Rightarrow> http_request \<Rightarrow> exchange \<Rightarrow> handled" where
  "handleWebSocket H C W tm closes steps req s =
     (let s1 = touch (set_flow (\<lambda>f. f\<lparr>f_Protocol := ProtoWebSocket\<rparr>) s);
          req1 = req\<lparr>rq_Header := hdel (rq_Header req) ''Sec-WebSocket-Extensions''\<rparr>
      in case nh_Write H req1 of
        Inl e \<Rightarrow> (Returned (Some e), s1)
      | Inr b \<Rightarrow> (case write_server W b s1 of
          (Some e, s2) \<Rightarrow> (Returned (Some e), s2)
        | (None, s2) \<Rightarrow> (case read_until 10 (x_server_in s2) of
            None \<Rightarrow> failHTTP1Response ''EOF'' (s2\<lparr>x_server_in := []\<rparr>)
          | Some (line, rest) \<Rightarrow>
              (let s3 = s2\<lparr>x_server_in := rest\<rparr> in
               if parseStatusCode (str_of line) \<noteq> 101 then relayWebSocketRejection H C W req1 line s3
               else case relaySwitchingProtocols (str_of line) rest of
                   None \<Rightarrow> failHTTP1Response ''EOF'' (s3\<lparr>x_server_in := []\<rparr>)
                 | Some (out, rest1) \<Rightarrow> (case write_client W out (s3\<lparr>x_server_in := rest1\<rparr>) of
                     (Some e, s4) \<Rightarrow> failHTTP1Response e s4
                   | (None, s4) \<Rightarrow> (case pumps W tm closes None steps s4 of
                       (Goes, s5) \<Rightarrow> (Running, s5)
                     | (Panics, s5) \<Rightarrow> (Panicked, s5)
                     | (Stops, s5) \<Rightarrow>
                         (Returned None, touch (set_flow (\<lambda>f. if f_Status f = StatusActive \<or> f_Status f = StatusPending
                            then f\<lparr>f_Status := StatusComplete\<rparr> else f) s5))))))))"

section \<open>The exchange\<close>

text \<open>\<^verbatim>\<open>resp.StatusCode == 101 || resp.StatusCode < 100 || resp.StatusCode >= 200\<close>\<close>

definition terminal :: "http_response \<Rightarrow> bool" where
  "terminal resp \<longleftrightarrow> rp_StatusCode resp = 101 \<or> rp_StatusCode resp < 100 \<or> rp_StatusCode resp \<ge> 200"

text \<open>The loop over informational responses, each relayed at once; it ends with the response that counts.\<close>

partial_function (option) final_response ::
    "net_http \<Rightarrow> peers \<Rightarrow> http_request \<Rightarrow> exchange \<Rightarrow> ((string + http_response) \<times> exchange) option" where
  "final_response H W req s =
     (case nh_ReadResponse H (x_server_in s) req of
        Inl e \<Rightarrow> Some (Inl e, s)
      | Inr (resp, rest) \<Rightarrow>
          (if terminal resp then Some (Inr resp, s\<lparr>x_server_in := rest\<rparr>)
           else case nh_DumpResponse H resp of
               Inl e \<Rightarrow> Some (Inl e, s\<lparr>x_server_in := rest\<rparr>)
             | Inr raw \<Rightarrow> (case write_client W raw (s\<lparr>x_server_in := rest\<rparr>) of
                 (Some e, s1) \<Rightarrow> Some (Inl e, s1)
               | (None, s1) \<Rightarrow> final_response H W req s1)))"

text \<open>What follows the final response: capture, the tamper hook, delivery, the switch of protocols.\<close>

definition deliver_response ::
    "net_http \<Rightarrow> codecs \<Rightarrow> peers \<Rightarrow> tamperer \<Rightarrow> bool \<Rightarrow> copy_step list \<Rightarrow> http_response \<Rightarrow> exchange \<Rightarrow> handled" where
  "deliver_response H C W tm closes copies resp s =
     (case nh_DumpResponse H resp of
        Inl e \<Rightarrow> failHTTP1Response e s
      | Inr raw \<Rightarrow> (case rp_Body resp of
          Inl e \<Rightarrow> failHTTP1Response e s
        | Inr deChunked \<Rightarrow>
            (let msg = http1_response_message C resp raw deChunked;
                 s1 = touch (set_flow (\<lambda>f. f\<lparr>f_Response := Some msg\<rparr>) s)
             in case tm_BeforeDeliver tm (x_flow s1) msg of
                 (_, True) \<Rightarrow> complete s1
               | (out, False) \<Rightarrow>
                   (case write_client W (case out of None \<Rightarrow> raw | Some b \<Rightarrow> b) s1 of
                      (Some e, s2) \<Rightarrow> failHTTP1Response e s2
                    | (None, s2) \<Rightarrow>
                        if rp_StatusCode resp = 101 then
                          (case relayHTTP1Upgrade W closes None copies s2 of
                             (None, s3) \<Rightarrow> (Running, s3)
                           | (Some (Some e), s3) \<Rightarrow> failHTTP1Response e s3
                           | (Some None, s3) \<Rightarrow> complete s3)
                        else complete s2))))"

text \<open>The request side: what the server is sent and the request the response is read for.\<close>

definition forward_request ::
    "net_http \<Rightarrow> codecs \<Rightarrow> peers \<Rightarrow> http_request \<Rightarrow> message \<Rightarrow> bytes option \<Rightarrow> exchange \<Rightarrow> (string + http_request) \<times> exchange" where
  "forward_request H C W req reqMsg out s =
     (case out of
        Some b \<Rightarrow>
          (let (req1, m1) = (case captureForwardedHTTP1 H C reqMsg b of
                 Inl _ \<Rightarrow> (req, reqMsg\<lparr>m_Raw := b,
                   m_Meta := gput (m_Meta reqMsg) BodyRepresentationMeta BodyRepresentationUnavailable\<rparr>)
               | Inr (edited, m) \<Rightarrow> (edited, m));
               s1 = touch (set_flow (\<lambda>f. f\<lparr>f_Request := Some m1\<rparr>) s)
           in case write_server W b s1 of (Some e, s2) \<Rightarrow> (Inl e, s2) | (None, s2) \<Rightarrow> (Inr req1, s2))
      | None \<Rightarrow> (case nh_Write H req of
          Inl e \<Rightarrow> (Inl e, s)
        | Inr b \<Rightarrow> (case write_server W b s of (Some e, s1) \<Rightarrow> (Inl e, s1) | (None, s1) \<Rightarrow> (Inr req, s1))))"

definition HTTP1_handle ::
    "net_http \<Rightarrow> codecs \<Rightarrow> peers \<Rightarrow> tamperer \<Rightarrow> bool \<Rightarrow> pump_step list \<Rightarrow> copy_step list \<Rightarrow> exchange \<Rightarrow> handled option" where
  "HTTP1_handle H C W tm closes steps copies s =
     (let s0 = set_flow (\<lambda>f. f\<lparr>f_Protocol := ProtoHTTP1\<rparr>) s in
      case nh_ReadRequest H (x_client_in s0) of
        Inl e \<Rightarrow> Some (failHTTP1Response e s0)
      | Inr (req, rest) \<Rightarrow>
          (let s1 = s0\<lparr>x_client_in := rest\<rparr> in
           case nh_DumpRequest H req of
             Inl e \<Rightarrow> Some (Returned (Some e), s1)
           | Inr rawReq \<Rightarrow>
               (let reqMsg = http1_request_message C req rawReq;
                    s2 = touch (set_flow (\<lambda>f. f\<lparr>f_Request := Some reqMsg\<rparr>) s1)
                in if isWebSocketUpgrade (rq_Header req) then Some (handleWebSocket H C W tm closes steps req s2)
                   else case tm_BeforeForward tm (x_flow s2) reqMsg of
                       (_, True) \<Rightarrow> Some (complete s2)
                     | (out, False) \<Rightarrow> (case forward_request H C W req reqMsg out s2 of
                         (Inl e, s3) \<Rightarrow> Some (Returned (Some e), s3)
                       | (Inr req1, s3) \<Rightarrow> (case final_response H W req1 s3 of
                           None \<Rightarrow> None
                         | Some (Inl e, s4) \<Rightarrow> Some (failHTTP1Response e s4)
                         | Some (Inr resp, s4) \<Rightarrow>
                             Some (deliver_response H C W tm closes copies resp s4))))))"

text \<open>The two entry points: the proxy's owns the connections and can close them.\<close>

definition HTTP1_Handle where
  "HTTP1_Handle H C W tm steps copies s = HTTP1_handle H C W tm False steps copies s"

definition HTTP1_HandleConnection where
  "HTTP1_HandleConnection H C W tm steps copies s = HTTP1_handle H C W tm True steps copies s"

section \<open>How an exchange ends\<close>

lemmas http1_steps = set_flow_def touch_def complete_def failHTTP1Response_def

lemma write_server_frame:
  "write_server W b s = (e, s') \<Longrightarrow> x_flow s' = x_flow s \<and> x_seen s' = x_seen s \<and> x_client_in s' = x_client_in s
     \<and> x_server_in s' = x_server_in s \<and> x_to_client s' = x_to_client s
     \<and> x_to_server s' = (if e = None then x_to_server s @ b else x_to_server s)"
  by (auto simp: write_server_def split: option.splits)

lemma write_client_frame:
  "write_client W b s = (e, s') \<Longrightarrow> x_flow s' = x_flow s \<and> x_seen s' = x_seen s \<and> x_client_in s' = x_client_in s
     \<and> x_server_in s' = x_server_in s \<and> x_to_server s' = x_to_server s
     \<and> x_to_client s' = (if e = None then x_to_client s @ b else x_to_client s)"
  by (auto simp: write_client_def split: option.splits)

text \<open>The last thing published is the flow as it is.\<close>

definition shown :: "exchange \<Rightarrow> bool" where
  "shown s \<longleftrightarrow> x_seen s \<noteq> [] \<and> last (x_seen s) = x_flow s"

lemma shown_touch [simp]: "shown (touch s)"
  by (simp add: shown_def touch_def)

lemma shown_cong: "x_flow s' = x_flow s \<Longrightarrow> x_seen s' = x_seen s \<Longrightarrow> shown s' = shown s"
  by (simp add: shown_def)

text \<open>A handler that has returned has settled the flow, and the UI has been told.\<close>

definition settled :: "handled \<Rightarrow> bool" where
  "settled h \<longleftrightarrow> (case h of
     (Returned None, s) \<Rightarrow> f_Status (x_flow s) = StatusComplete \<and> shown s
   | (Returned (Some e), s) \<Rightarrow> f_Status (x_flow s) = StatusError \<and> f_Err (x_flow s) = Some e \<and> shown s
   | _ \<Rightarrow> True)"

lemma settled_fail [simp]: "settled (failHTTP1Response e s)"
  by (simp add: settled_def failHTTP1Response_def) (simp add: touch_def set_flow_def)

lemma settled_complete [simp]: "settled (complete s)"
  by (simp add: settled_def complete_def) (simp add: touch_def set_flow_def)

lemma settled_going [simp]: "settled (Running, s)" "settled (Panicked, s)"
  by (simp_all add: settled_def)

lemma settled_deliver: "settled (deliver_response H C W tm closes copies resp s)"
  unfolding deliver_response_def Let_def
  by (auto split: sum.split prod.split bool.split option.split)

lemma settled_rejection: "settled (relayWebSocketRejection H C W req l s)"
  unfolding relayWebSocketRejection_def Let_def
  by (auto split: sum.split prod.split option.split)

lemma pump_out_flow: "pump_out W dir fr s = (r, s') \<Longrightarrow> x_flow s' = x_flow s"
  by (auto simp: pump_out_def Let_def dest: write_server_frame write_client_frame split: prod.splits if_splits)

lemma pump_round_status: "pump_round W tm dir s = (r, s') \<Longrightarrow> f_Status (x_flow s') = f_Status (x_flow s)"
  by (auto simp: pump_round_def Let_def touch_def set_flow_def AddMessage_def dest!: pump_out_flow
      split: sum.splits prod.splits if_splits bool.splits option.splits ws_error.splits)

lemma pumps_status: "pumps W tm closes first steps s = (r, s') \<Longrightarrow> f_Status (x_flow s') = f_Status (x_flow s)"
proof (induction W tm closes first steps s rule: pumps.induct)
  case (2 W tm closes first st steps s)
  show ?case
  proof (cases "first = Some (pump_dir st)")
    case True
    with 2 show ?thesis by simp
  next
    case False
    obtain r1 s1 where p: "(case st of Round d \<Rightarrow> pump_round W tm d s | Interrupted d \<Rightarrow> (Stops, s)) = (r1, s1)" by fastforce
    have "f_Status (x_flow s1) = f_Status (x_flow s)"
      using p by (cases st) (auto dest: pump_round_status)
    with 2 p False show ?thesis by (cases r1) (auto split: if_splits)
  qed
qed simp

text \<open>The request could not be forwarded: the flow is left as it was and nothing was sent.\<close>

definition unforwarded :: "exchange \<Rightarrow> handled \<Rightarrow> bool" where
  "unforwarded s0 h \<longleftrightarrow> (\<exists>e s. h = (Returned (Some e), s) \<and> f_Status (x_flow s) = f_Status (x_flow s0)
     \<and> x_to_server s = x_to_server s0 \<and> x_to_client s = x_to_client s0)"

lemma settled_ws_end:
  "f_Status (x_flow s) = StatusActive \<Longrightarrow>
    settled (Returned None, touch (set_flow (\<lambda>f. if f_Status f = StatusActive \<or> f_Status f = StatusPending
      then f\<lparr>f_Status := StatusComplete\<rparr> else f) s))"
  by (simp add: settled_def) (simp add: touch_def set_flow_def)

lemma settled_ws:
  assumes "f_Status (x_flow s) = StatusActive"
  shows "settled (handleWebSocket H C W tm closes steps req s) \<or> unforwarded s (handleWebSocket H C W tm closes steps req s)"
proof -
  let ?s1 = "touch (set_flow (\<lambda>f. f\<lparr>f_Protocol := ProtoWebSocket\<rparr>) s)"
  let ?req = "req\<lparr>rq_Header := hdel (rq_Header req) ''Sec-WebSocket-Extensions''\<rparr>"
  have s1: "f_Status (x_flow ?s1) = StatusActive" "x_to_server ?s1 = x_to_server s" "x_to_client ?s1 = x_to_client s"
    using assms by (simp_all add: http1_steps)
  show ?thesis
  proof (cases "nh_Write H ?req")
    case (Inl e)
    with s1 assms show ?thesis by (simp add: handleWebSocket_def Let_def unforwarded_def)
  next
    case (Inr b)
    obtain e s2 where w: "write_server W b ?s1 = (e, s2)" by fastforce
    note w' = write_server_frame [OF w]
    show ?thesis
    proof (cases e)
      case (Some x)
      with s1 assms Inr w w' show ?thesis by (simp add: handleWebSocket_def Let_def unforwarded_def)
    next
      case None
      have "settled (handleWebSocket H C W tm closes steps req s)"
        using None Inr w w' s1
        by (auto simp: handleWebSocket_def Let_def settled_rejection
            split: option.split prod.split sum.split pump_round.split
            intro!: settled_ws_end dest!: pumps_status write_client_frame)
      then show ?thesis ..
    qed
  qed
qed

lemma forward_request_frame:
  "forward_request H C W req m out s = (r, s') \<Longrightarrow> f_Status (x_flow s') = f_Status (x_flow s)
     \<and> x_to_client s' = x_to_client s \<and> (\<forall>e. r = Inl e \<longrightarrow> x_to_server s' = x_to_server s)
     \<and> (shown s \<longrightarrow> shown s')"
  by (cases out; auto simp: forward_request_def Let_def touch_def set_flow_def shown_def
      dest!: write_server_frame split: sum.splits prod.splits option.splits)

text \<open>Once the request is read and dumped, and is no WebSocket handshake.\<close>

lemma forwarded_exchange_settles:
  fixes H req raw rest s C
  defines "s2 \<equiv> touch (set_flow (\<lambda>f. f\<lparr>f_Request := Some (http1_request_message C req raw)\<rparr>)
      ((set_flow (\<lambda>f. f\<lparr>f_Protocol := ProtoHTTP1\<rparr>) s)\<lparr>x_client_in := rest\<rparr>))"
  assumes run: "HTTP1_handle H C W tm closes steps copies s = Some h"
    and r: "nh_ReadRequest H (x_client_in (set_flow (\<lambda>f. f\<lparr>f_Protocol := ProtoHTTP1\<rparr>) s)) = Inr (req, rest)"
    and raw: "nh_DumpRequest H req = Inr raw" and no_ws: "\<not> isWebSocketUpgrade (rq_Header req)"
  shows "settled h \<or> unforwarded s h"
proof -
  let ?m = "http1_request_message C req raw"
  have s2: "f_Status (x_flow s2) = f_Status (x_flow s)" "x_to_server s2 = x_to_server s" "x_to_client s2 = x_to_client s"
    by (simp_all add: s2_def touch_def set_flow_def)
  obtain out d where t: "tm_BeforeForward tm (x_flow s2) ?m = (out, d)" by fastforce
  obtain q s3 where f: "forward_request H C W req ?m out s2 = (q, s3)" by fastforce
  note f' = forward_request_frame [OF f]
  note step = HTTP1_handle_def Let_def r raw no_ws s2_def [symmetric] t f
  show ?thesis
  proof (cases d)
    case True
    with run show ?thesis by (auto simp: step)
  next
    case nd: False
    show ?thesis
    proof (cases q)
      case (Inl e)
      with run nd have "h = (Returned (Some e), s3)" by (simp add: step)
      with f' Inl s2 show ?thesis by (simp add: unforwarded_def)
    next
      case (Inr req1)
      with run nd have "settled h" by (auto simp: step settled_deliver split: option.splits sum.splits)
      then show ?thesis ..
    qed
  qed
qed


section \<open>What the peers receive\<close>

text \<open>The server's bytes as informational responses, their dumps in order, and the final response.\<close>

inductive responses :: "net_http \<Rightarrow> http_request \<Rightarrow> bytes \<Rightarrow> bytes list \<Rightarrow> http_response \<Rightarrow> bytes \<Rightarrow> bool" for H req where
  final: "nh_ReadResponse H inp req = Inr (resp, rest) \<Longrightarrow> terminal resp \<Longrightarrow> responses H req inp [] resp rest"
| interim: "nh_ReadResponse H inp req = Inr (resp, rest) \<Longrightarrow> \<not> terminal resp \<Longrightarrow> nh_DumpResponse H resp = Inr raw \<Longrightarrow>
    responses H req rest ds fin rest' \<Longrightarrow> responses H req inp (raw # ds) fin rest'"

lemma write_server_ok: "(\<And>a b. pw_server W a b = None) \<Longrightarrow> write_server W b s = (None, s\<lparr>x_to_server := x_to_server s @ b\<rparr>)"
  by (simp add: write_server_def)

lemma write_client_ok: "(\<And>a b. pw_client W a b = None) \<Longrightarrow> write_client W b s = (None, s\<lparr>x_to_client := x_to_client s @ b\<rparr>)"
  by (simp add: write_client_def)

lemma final_response_responses:
  assumes "responses H req inp ds fin rest" and "\<And>a b. pw_client W a b = None"
  shows "x_server_in s = inp \<Longrightarrow> final_response H W req s =
     Some (Inr fin, s\<lparr>x_server_in := rest, x_to_client := x_to_client s @ concat ds\<rparr>)"
  using assms(1)
proof (induction arbitrary: s)
  case (final inp resp rest)
  then show ?case by (subst final_response.simps) simp
next
  case (interim inp resp rest raw ds fin rest')
  then show ?case by (subst final_response.simps) (simp add: write_client_ok [OF assms(2)])
qed

text \<open>Every response read takes at least its status line, so the loop over informational ones ends.\<close>

lemma final_response_total:
  assumes "\<And>inp req resp rest. nh_ReadResponse H inp req = Inr (resp, rest) \<Longrightarrow> length rest < length inp"
  shows "\<exists>r s'. final_response H W req s = Some (r, s')"
proof (induction "length (x_server_in s)" arbitrary: s rule: less_induct)
  case less
  show ?case
  proof (cases "nh_ReadResponse H (x_server_in s) req")
    case (Inl e)
    then show ?thesis by (subst final_response.simps) simp
  next
    case (Inr p)
    then obtain resp rest where r: "nh_ReadResponse H (x_server_in s) req = Inr (resp, rest)" by (cases p) auto
    note shorter = assms [OF r]
    show ?thesis
    proof (cases "terminal resp")
      case True
      with r show ?thesis by (subst final_response.simps) simp
    next
      case False
      show ?thesis
      proof (cases "nh_DumpResponse H resp")
        case (Inl e)
        with r False show ?thesis by (subst final_response.simps) simp
      next
        case (Inr raw)
        obtain e s1 where w: "write_client W raw (s\<lparr>x_server_in := rest\<rparr>) = (e, s1)" by fastforce
        from write_client_frame [OF w] shorter have "length (x_server_in s1) < length (x_server_in s)" by simp
        from less [OF this] r False Inr w show ?thesis
          by (cases e) (subst final_response.simps, simp)+
      qed
    qed
  qed
qed

text \<open>What the server is sent for a request, and the request the response is read for.\<close>

definition forwarded :: "net_http \<Rightarrow> codecs \<Rightarrow> http_request \<Rightarrow> bytes \<Rightarrow> bytes option \<Rightarrow> string + bytes \<times> http_request" where
  "forwarded H C req raw out = (case out of
     None \<Rightarrow> rbind (nh_Write H req) (\<lambda>b. Inr (b, req))
   | Some b \<Rightarrow> Inr (b, case captureForwardedHTTP1 H C (http1_request_message C req raw) b of
       Inl _ \<Rightarrow> req | Inr (edited, _) \<Rightarrow> edited))"

lemma forward_request_forwarded:
  assumes "forwarded H C req raw out = Inr (b, req')" and "\<And>a b. pw_server W a b = None"
  shows "\<exists>s'. forward_request H C W req (http1_request_message C req raw) out s = (Inr req', s')
     \<and> x_to_server s' = x_to_server s @ b \<and> x_to_client s' = x_to_client s \<and> x_client_in s' = x_client_in s
     \<and> x_server_in s' = x_server_in s"
proof (cases out)
  case None
  with assms(1) show ?thesis
    by (auto simp: forwarded_def forward_request_def rbind_eq_Inr write_server_ok [OF assms(2)])
next
  case (Some o1)
  with assms(1) show ?thesis
    by (auto simp: forwarded_def forward_request_def write_server_ok [OF assms(2)] Let_def touch_def set_flow_def
        split: sum.splits prod.splits)
qed

lemma deliver_response_ok:
  assumes "nh_DumpResponse H resp = Inr raw" and "rp_Body resp = Inr body" and "rp_StatusCode resp \<noteq> 101"
    and "\<And>f. tm_BeforeDeliver tm f (http1_response_message C resp raw body) = (out, drp)"
    and "\<And>a b. pw_client W a b = None"
  shows "\<exists>s'. deliver_response H C W tm closes copies resp s = (Returned None, s')
     \<and> x_to_client s' = x_to_client s @ (if drp then [] else case out of None \<Rightarrow> raw | Some b \<Rightarrow> b)
     \<and> x_to_server s' = x_to_server s \<and> x_client_in s' = x_client_in s \<and> x_server_in s' = x_server_in s
     \<and> f_Response (x_flow s') = Some (http1_response_message C resp raw body)"
  using assms by (cases drp) (simp_all add: deliver_response_def Let_def write_client_ok [OF assms(5)] http1_steps)


text \<open>Messages of one byte: a request, and a response whose byte is its status code.\<close>

definition demo_request :: http_request where
  "demo_request = \<lparr>rq_Method = ''GET'', rq_URI = ''/'', rq_Proto = ''HTTP/1.1'', rq_Host = ''h'', rq_Header = [],
     rq_TransferEncoding = [], rq_Body = Inr []\<rparr>"

definition demo_response :: "byte \<Rightarrow> http_response" where
  "demo_response b = \<lparr>rp_StatusCode = int (unat b), rp_Status = ''OK'', rp_Header = [], rp_Body = Inr []\<rparr>"

definition demo_net :: net_http where
  "demo_net = \<lparr>nh_ReadRequest = (\<lambda>b. case b of [] \<Rightarrow> Inl ''EOF'' | x # r \<Rightarrow> Inr (demo_request, r)),
     nh_DumpRequest = (\<lambda>r. Inr [71]), nh_Write = (\<lambda>r. Inr [71]),
     nh_ReadResponse = (\<lambda>b r. case b of [] \<Rightarrow> Inl ''EOF'' | x # r \<Rightarrow> Inr (demo_response x, r)),
     nh_DumpResponse = (\<lambda>r. Inr [word_of_int (rp_StatusCode r)])\<rparr>"

definition demo_peers :: peers where
  "demo_peers = \<lparr>pw_server = (\<lambda>_ _. None), pw_client = (\<lambda>_ _. None)\<rparr>"

definition pass_tamperer :: tamperer where
  "pass_tamperer = \<lparr>tm_BeforeForward = (\<lambda>_ _. (None, False)), tm_BeforeDeliver = (\<lambda>_ _. (None, False))\<rparr>"

definition demo_exchange_state :: exchange where
  "demo_exchange_state = \<lparr>x_flow = demo_heap 0, x_client_in = [71, 72], x_server_in = [103, 200, 7],
     x_to_server = [], x_to_client = [], x_seen = []\<rparr>"

lemmas demo_http1 = demo_request_def demo_response_def demo_net_def demo_peers_def pass_tamperer_def demo_exchange_state_def



section \<open>The switched connection\<close>

lemma copy_once_conserves:
  "copy_once W st s = (r, s') \<Longrightarrow> \<exists>a b. x_client_in s = a @ x_client_in s' \<and> x_server_in s = b @ x_server_in s'
     \<and> ((\<forall>o1 c. pw_server W o1 c = None) \<longrightarrow> x_to_server s' = x_to_server s @ a)
     \<and> ((\<forall>o1 c. pw_client W o1 c = None) \<longrightarrow> x_to_client s' = x_to_client s @ b)"
  by (cases "(W, st, s)" rule: copy_once.cases)
    (auto simp: Let_def write_server_def write_client_def split: if_splits option.splits prod.splits
      intro!: exI [of _ "take _ _"] append_take_drop_id [symmetric])

text \<open>
  Nothing is lost or reordered after a 101: what each peer has been sent is what the other has been read
  of, the bytes that were already buffered behind the HTTP messages first.
\<close>

lemma upgrade_conserves:
  "relayHTTP1Upgrade W closes first steps s = (r, s') \<Longrightarrow>
     (\<forall>o1 c. pw_server W o1 c = None) \<Longrightarrow> (\<forall>o1 c. pw_client W o1 c = None) \<Longrightarrow>
     \<exists>a b. x_client_in s = a @ x_client_in s' \<and> x_server_in s = b @ x_server_in s'
       \<and> x_to_server s' = x_to_server s @ a \<and> x_to_client s' = x_to_client s @ b"
proof (induction W closes first steps s rule: relayHTTP1Upgrade.induct)
  case (2 W closes first st steps s)
  show ?case
  proof (cases "map_option fst first = Some (step_dir st)")
    case True
    with 2 show ?thesis by simp
  next
    case False
    obtain e s1 where c: "copy_once W st s = (e, s1)" by fastforce
    from copy_once_conserves [OF c] "2.prems"(2,3) obtain a b where
      ab: "x_client_in s = a @ x_client_in s1" "x_server_in s = b @ x_server_in s1"
        "x_to_server s1 = x_to_server s @ a" "x_to_client s1 = x_to_client s @ b" by blast
    have rec: ?thesis if h: "\<exists>a' b'. x_client_in s1 = a' @ x_client_in s' \<and> x_server_in s1 = b' @ x_server_in s'
        \<and> x_to_server s' = x_to_server s1 @ a' \<and> x_to_client s' = x_to_client s1 @ b'"
      using h ab by (metis append.assoc)
    show ?thesis
    proof (cases e)
      case None
      with 2 c False rec show ?thesis by simp
    next
      case (Some x)
      show ?thesis
      proof (cases "first = None \<and> \<not> closes")
        case True
        with 2 c False Some rec show ?thesis by simp
      next
        case stop: False
        with "2.prems"(1) c False Some have "s' = s1" by (cases first) auto
        with ab show ?thesis by auto
      qed
    qed
  qed
qed simp

end
