(* ===== verification/Proxy.thy ===== *)
theory Proxy
  imports Protocols Intercept GoIO
begin

text \<open>
  \<^verbatim>\<open>internal/proxy/proxy.go\<close> and \<^verbatim>\<open>conn.go\<close>: how an accepted connection is routed, and which bytes each
  route hands on. A connection is the list of chunks its client sends, one for each segment that
  arrives; a \<^verbatim>\<open>bufio.Reader\<close> is what it has buffered and the connection behind it. TLS is a parameter: the
  parser of the ClientHello is a tree of the reads it makes, the handshake a function of the client's
  stream. Dialing and the accepted upstream are parameters as well.
\<close>

section \<open>Connections and buffered readers\<close>

fun conn_read :: "nat \<Rightarrow> bytes list \<Rightarrow> (bytes \<times> bytes list) option" where
  "conn_read k [] = None"
| "conn_read k (c # cs) = (if c = [] then conn_read k cs else Some (take k c, drop k c # cs))"

type_synonym bufreader = "bytes \<times> bytes list"

definition bufsize :: nat where "bufsize = 4096"

definition unread :: "bufreader \<Rightarrow> bytes" where
  "unread r = fst r @ concat (snd r)"

lemma take_drop_append [simp]: "take k a @ drop k a @ x = a @ x"
  by (metis append_assoc append_take_drop_id)

lemma conn_read_conserves: "conn_read k src = Some (b, src') \<Longrightarrow> b @ concat src' = concat src"
  by (induction src) (auto split: if_splits)

lemma conn_read_progress: "conn_read k src = Some (b, src') \<Longrightarrow> 0 < k \<Longrightarrow> b \<noteq> []"
  by (induction src) (auto split: if_splits)

lemma conn_read_None: "conn_read k src = None \<longleftrightarrow> concat src = []"
  by (induction src) auto

lemma conn_read_length: "conn_read k src = Some (b, src') \<Longrightarrow> length b \<le> k"
  by (induction src) (auto split: if_splits)

lemma conn_read_append: "conn_read k src = Some (b, src') \<Longrightarrow> conn_read k (src @ rest) = Some (b, src' @ rest)"
  by (induction src) (auto split: if_splits)

lemma conn_read_shrinks:
  "conn_read k src = Some (b, src') \<Longrightarrow> 0 < k \<Longrightarrow> length (concat src') < length (concat src)"
proof -
  assume r: "conn_read k src = Some (b, src')" and k: "0 < k"
  have "length b + length (concat src') = length (concat src)"
    using conn_read_conserves [OF r] by (metis length_append)
  moreover have "0 < length b" using conn_read_progress [OF r k] by simp
  ultimately show ?thesis by linarith
qed

declare concat_eq_Nil_conv [simp del]

text \<open>\<^verbatim>\<open>Peek(n)\<close>, which blocks until \<open>n\<close> bytes are buffered; \<^verbatim>\<open>None\<close> if the connection ends first.\<close>

function buf_peek :: "nat \<Rightarrow> bufreader \<Rightarrow> bytes option \<times> bufreader" where
  "buf_peek n (buf, src) =
     (if n \<le> length buf then (Some (take n buf), (buf, src))
      else if bufsize \<le> length buf then (None, (buf, src))
      else case conn_read (bufsize - length buf) src of
          None \<Rightarrow> (None, (buf, []))
        | Some (b, src') \<Rightarrow> buf_peek n (buf @ b, src'))"
  by pat_completeness auto
termination
  by (relation "measure (\<lambda>(n, buf, src). length (concat src))") (auto dest: conn_read_shrinks)

text \<open>\<^verbatim>\<open>ReadString('\n')\<close>; a full buffer is set aside and reading goes on.\<close>

function buf_read_line :: "bytes \<Rightarrow> bufreader \<Rightarrow> (bytes \<times> bufreader) option" where
  "buf_read_line acc (buf, src) =
     (case read_until 10 buf of
        Some (l, r) \<Rightarrow> Some (acc @ l, (r, src))
      | None \<Rightarrow>
          (let (acc1, buf1) = (if bufsize \<le> length buf then (acc @ buf, []) else (acc, buf)) in
           case conn_read (bufsize - length buf1) src of
             None \<Rightarrow> None
           | Some (b, src') \<Rightarrow> buf_read_line acc1 (buf1 @ b, src')))"
  by pat_completeness auto
termination
  by (relation "measure (\<lambda>(acc, buf, src). length (concat src))")
    (auto simp: bufsize_def dest!: conn_read_shrinks split: if_splits)

declare buf_peek.simps [simp del] buf_read_line.simps [simp del]

text \<open>\<^verbatim>\<open>Read\<close> of a buffer of \<open>k\<close> bytes: what is buffered, else one read of the connection.\<close>

definition buf_read :: "nat \<Rightarrow> bufreader \<Rightarrow> (bytes \<times> bufreader) option" where
  "buf_read k r = (case r of (buf, src) \<Rightarrow>
     if buf \<noteq> [] then Some (take k buf, (drop k buf, src))
     else if bufsize \<le> k then map_option (\<lambda>(b, src'). (b, ([], src'))) (conn_read k src)
     else map_option (\<lambda>(b, src'). (take k b, (drop k b, src'))) (conn_read bufsize src))"

lemma buf_read_line_step:
  "buf_read_line acc (buf, src) = (case read_until 10 buf of
       Some (l, r) \<Rightarrow> Some (acc @ l, (r, src))
     | None \<Rightarrow> (if bufsize \<le> length buf
         then (case conn_read bufsize src of None \<Rightarrow> None | Some (b, src') \<Rightarrow> buf_read_line (acc @ buf) (b, src'))
         else (case conn_read (bufsize - length buf) src of None \<Rightarrow> None
           | Some (b, src') \<Rightarrow> buf_read_line acc (buf @ b, src'))))"
  by (subst buf_read_line.simps) (simp split: option.split)

lemma buf_read_line_conserves:
  "buf_read_line acc br = Some (l, br') \<Longrightarrow>
     acc @ unread br = l @ unread br' \<and> length (unread br') < length (unread br)"
proof (induction acc br arbitrary: l br' rule: buf_read_line.induct)
  case (1 acc buf src)
  show ?case
  proof (cases "read_until 10 buf")
    case (Some x)
    then obtain a r where x: "read_until 10 buf = Some (a, r)" by (cases x) auto
    note read_until_Some [OF x]
    with "1.prems" x show ?thesis by (auto simp: buf_read_line_step unread_def)
  next
    case None
    show ?thesis
    proof (cases "bufsize \<le> length buf")
      case True
      with "1.prems" None obtain b src' where c: "conn_read bufsize src = Some (b, src')"
        and r: "buf_read_line (acc @ buf) (b, src') = Some (l, br')"
        by (auto simp: buf_read_line_step split: option.splits)
      have ih: "(acc @ buf) @ unread (b, src') = l @ unread br' \<and> length (unread br') < length (unread (b, src'))"
        using "1.IH" [OF None, of "(acc @ buf, [])" "acc @ buf" "[]" "(b, src')" b src'] True c r by simp
      with conn_read_conserves [OF c] show ?thesis by (auto simp: unread_def)
    next
      case False
      with "1.prems" None obtain b src' where c: "conn_read (bufsize - length buf) src = Some (b, src')"
        and r: "buf_read_line acc (buf @ b, src') = Some (l, br')"
        by (auto simp: buf_read_line_step split: option.splits)
      have ih: "acc @ unread (buf @ b, src') = l @ unread br' \<and> length (unread br') < length (unread (buf @ b, src'))"
        using "1.IH" [OF None, of "(acc, buf)" acc buf "(b, src')" b src'] False c r by simp
      with conn_read_conserves [OF c] show ?thesis by (auto simp: unread_def)
    qed
  qed
qed

section \<open>Request lines\<close>

definition crlf_chars :: string where "crlf_chars = [CHR 0x0D, CHR 0x0A]"

definition readRequestLine :: "bufreader \<Rightarrow> (string \<times> bufreader) option" where
  "readRequestLine br = map_option (\<lambda>(l, br'). (trim_right_set crlf_chars (str_of l), br')) (buf_read_line [] br)"

function drainHeaders :: "bufreader \<Rightarrow> bufreader option" where
  "drainHeaders br = (case buf_read_line [] br of
       None \<Rightarrow> None
     | Some (l, br') \<Rightarrow>
         if trim_right_set crlf_chars (str_of l) = [] then Some br'
         else drainHeaders br')"
  by pat_completeness auto
termination
  by (relation "measure (\<lambda>br. length (unread br))") (auto dest: buf_read_line_conserves)

declare drainHeaders.simps [simp del]

text \<open>The loop of \<^verbatim>\<open>peekRequestLine\<close>: the peeked prefix grows by a byte at a time, up to 4096.\<close>

function peek_line_from :: "nat \<Rightarrow> bufreader \<Rightarrow> string option \<times> bufreader" where
  "peek_line_from n br =
     (if bufsize < n then (None, br)
      else case buf_peek n br of
          (None, br') \<Rightarrow> (None, br')
        | (Some buf, br') \<Rightarrow> (case read_until 10 buf of
            Some (l, r) \<Rightarrow> (Some (trim_right_set [CHR 0x0D] (str_of (butlast l))), br')
          | None \<Rightarrow> peek_line_from (n + 1) br'))"
  by pat_completeness auto
termination
  by (relation "measure (\<lambda>(n, br). bufsize + 1 - n)") auto

declare peek_line_from.simps [simp del]

definition peekRequestLine :: "bufreader \<Rightarrow> string option \<times> bufreader" where
  "peekRequestLine br = (case buf_peek 1 br of
     (None, br') \<Rightarrow> (None, br')
   | (Some b, br') \<Rightarrow> peek_line_from (length (fst br')) br')"

section \<open>Streams handed on\<close>

text \<open>The connection itself, a \<^verbatim>\<open>peekConn\<close>, or a \<^verbatim>\<open>replayConn\<close> over one.\<close>

datatype stream = Raw "bytes list" | Peeked bufreader | Replay bytes bufreader

fun stream_read :: "nat \<Rightarrow> stream \<Rightarrow> (bytes \<times> stream) option" where
  "stream_read k (Raw src) = map_option (\<lambda>(b, src'). (b, Raw src')) (conn_read k src)"
| "stream_read k (Peeked r) = map_option (\<lambda>(b, r'). (b, Peeked r')) (buf_read k r)"
| "stream_read k (Replay p r) =
     (if p \<noteq> [] then Some (take k p, Replay (drop k p) r)
      else map_option (\<lambda>(b, r'). (b, Replay [] r')) (buf_read k r))"

fun stream_bytes :: "stream \<Rightarrow> bytes" where
  "stream_bytes (Raw src) = concat src"
| "stream_bytes (Peeked r) = unread r"
| "stream_bytes (Replay p r) = p @ unread r"

fun asReader :: "stream \<Rightarrow> bufreader" where
  "asReader (Peeked r) = r"
| "asReader (Raw src) = ([], src)"
| "asReader (Replay p r) = ([], p # fst r # snd r)"

lemma buf_read_conserves: "buf_read k r = Some (b, r') \<Longrightarrow> b @ unread r' = unread r"
  by (cases r) (auto simp: buf_read_def unread_def dest!: conn_read_conserves split: if_splits)

lemma buf_read_progress: "buf_read k r = Some (b, r') \<Longrightarrow> 0 < k \<Longrightarrow> b \<noteq> []"
  by (cases r) (auto simp: buf_read_def bufsize_def dest!: conn_read_progress split: if_splits)

lemma buf_read_length: "buf_read k r = Some (b, r') \<Longrightarrow> length b \<le> k"
  by (cases r) (auto simp: buf_read_def dest!: conn_read_length split: if_splits)

lemma buf_read_None: "buf_read k r = None \<longleftrightarrow> unread r = []"
  by (cases r) (auto simp: buf_read_def unread_def conn_read_None)

lemma stream_read_conserves: "stream_read k st = Some (b, st') \<Longrightarrow> b @ stream_bytes st' = stream_bytes st"
  by (cases "(k, st)" rule: stream_read.cases) (auto dest: conn_read_conserves buf_read_conserves split: if_splits)

lemma stream_read_progress: "stream_read k st = Some (b, st') \<Longrightarrow> 0 < k \<Longrightarrow> b \<noteq> []"
  by (cases "(k, st)" rule: stream_read.cases) (auto dest: conn_read_progress buf_read_progress split: if_splits)

lemma stream_read_None: "stream_read k st = None \<longleftrightarrow> stream_bytes st = []"
  by (cases "(k, st)" rule: stream_read.cases) (auto simp: conn_read_None buf_read_None)

lemma stream_read_shrinks:
  "stream_read k st = Some (b, st') \<Longrightarrow> 0 < k \<Longrightarrow> length (stream_bytes st') < length (stream_bytes st)"
proof -
  assume a: "stream_read k st = Some (b, st')" "0 < k"
  have "length (stream_bytes st) = length b + length (stream_bytes st')"
    unfolding stream_read_conserves [OF a(1), symmetric] by simp
  with stream_read_progress [OF a] show ?thesis by simp
qed

lemma asReader_unread: "unread (asReader st) = stream_bytes st"
  by (cases st) (auto simp: unread_def)

section \<open>Probing the ClientHello\<close>

text \<open>
  \<^verbatim>\<open>crypto/tls\<close> as the probe sees it: it asks for bytes, a buffer of \<open>k\<close> at a time, and gets them or the
  error of the read, until it has called \<^verbatim>\<open>GetConfigForClient\<close> with a server name, or has failed.
\<close>

datatype tls_parser = Parsed string | ParseFailed string | NeedBytes nat "string + bytes \<Rightarrow> tls_parser"

definition maxClientHelloPeek :: nat where "maxClientHelloPeek = 128 * 1024"

text \<open>\<^verbatim>\<open>clientHelloProbe.Read\<close>, with the recorded prefix and the connection behind it.\<close>

definition probe_read :: "nat \<Rightarrow> bytes \<Rightarrow> bufreader \<Rightarrow> (string + bytes) \<times> bytes \<times> bufreader" where
  "probe_read k pre r =
     (if length pre = maxClientHelloPeek then (Inl ''client hello exceeds peek limit'', pre, r)
      else case buf_read (min k (maxClientHelloPeek - length pre)) r of
          None \<Rightarrow> (Inl ''EOF'', pre, r)
        | Some (b, r') \<Rightarrow> (Inr b, pre @ b, r'))"

primrec run_probe :: "tls_parser \<Rightarrow> bytes \<Rightarrow> bufreader \<Rightarrow> (string + string) \<times> bytes \<times> bufreader" where
  "run_probe (Parsed name) pre r = (Inr name, pre, r)"
| "run_probe (ParseFailed e) pre r = (Inl e, pre, r)"
| "run_probe (NeedBytes k rest_of) pre r = (case probe_read k pre r of
     (got, pre', r') \<Rightarrow> run_probe (rest_of got) pre' r')"

text \<open>The server name, or the error, and the stream that replays what the probe has read.\<close>

definition sniffClientHello :: "tls_parser \<Rightarrow> bufreader \<Rightarrow> (string + string) \<times> stream" where
  "sniffClientHello parser r = (case run_probe parser [] r of
     (res, pre, r') \<Rightarrow> (map_sum (\<lambda>e. ''peek TLS ClientHello: '' @ e) id res, Replay pre r'))"

lemma run_probe_conserves:
  "run_probe parser pre r = (res, pre', r') \<Longrightarrow> length pre \<le> maxClientHelloPeek \<Longrightarrow>
     pre' @ unread r' = pre @ unread r \<and> length pre' \<le> maxClientHelloPeek"
proof (induction parser arbitrary: pre r)
  case (NeedBytes k rest_of)
  obtain got pre1 r1 where p: "probe_read k pre r = (got, pre1, r1)" by (cases "probe_read k pre r") auto
  have "pre1 @ unread r1 = pre @ unread r \<and> length pre1 \<le> maxClientHelloPeek"
  proof (cases "length pre = maxClientHelloPeek")
    case True
    with p show ?thesis by (auto simp: probe_read_def)
  next
    case False
    show ?thesis
    proof (cases "buf_read (min k (maxClientHelloPeek - length pre)) r")
      case None
      with p False NeedBytes.prems(2) show ?thesis by (simp add: probe_read_def)
    next
      case (Some x)
      then obtain b r2 where b: "buf_read (min k (maxClientHelloPeek - length pre)) r = Some (b, r2)" by (cases x) auto
      with p False have eq: "pre1 = pre @ b" "r1 = r2" by (simp_all add: probe_read_def)
      from buf_read_length [OF b] have "length b \<le> maxClientHelloPeek - length pre" by simp
      then have "length pre1 \<le> maxClientHelloPeek" using NeedBytes.prems(2) eq by simp
      with buf_read_conserves [OF b] eq show ?thesis by simp
    qed
  qed
  with NeedBytes.IH [of "rest_of got" pre1 r1] NeedBytes.prems(1) p show ?case by (simp add: rangeI)
qed simp_all

section \<open>Routes\<close>

definition proxy_hostOnly :: "string \<Rightarrow> string" where
  "proxy_hostOnly hostport = (case SplitHostPort hostport of Inr (h, _) \<Rightarrow> h | Inl _ \<Rightarrow> hostport)"

definition shouldMITM :: "'re regex_engine \<Rightarrow> 're scope_set option \<Rightarrow> string \<Rightarrow> bool" where
  "shouldMITM E policy host = (case policy of
     None \<Rightarrow> True
   | Some sc \<Rightarrow> InScope E sc \<lparr>tg_Host = host, tg_Method = [], tg_Path = [], tg_Protocol = ''tls'', tg_Body = []\<rparr>)"

text \<open>
  \<open>pe_accept fallback st\<close> is the TLS handshake with the client: server name, negotiated
  protocol, decrypted chunks.
\<close>

record 're proxy_env =
  pe_regex :: "'re regex_engine"
  pe_policy :: "'re scope_set option"
  pe_parser :: tls_parser
  pe_accept :: "string \<Rightarrow> stream \<Rightarrow> (string \<times> string \<times> bytes list) option"
  pe_dial :: "string \<Rightarrow> bool"
  pe_dial_tls :: "string \<Rightarrow> string \<Rightarrow> bool"
  pe_url_host :: "string \<Rightarrow> string option"
  pe_reply_ok :: bool
  pe_remote :: string
  pe_rand :: bytes

datatype route = Dropped | Tunnelled flow string stream | ServedH2 string string "bytes list" | Bridged flow string bufreader

definition detectFrom :: "bufreader \<Rightarrow> string \<times> bufreader" where
  "detectFrom br = (case buf_peek 16 br of
     (Some b, br') \<Rightarrow> (Detect registry b, br') | (None, br') \<Rightarrow> (Detect registry (fst br'), br'))"

definition bridge :: "flow \<Rightarrow> stream \<Rightarrow> route" where
  "bridge f client = (let (proto, br) = detectFrom (asReader client) in Bridged f proto br)"

definition passthrough :: "'re proxy_env \<Rightarrow> stream \<Rightarrow> string \<Rightarrow> string \<Rightarrow> route" where
  "passthrough P client target host =
     (if \<not> pe_dial P target then Dropped
      else Tunnelled ((NewFlow (pe_rand P) (pe_remote P) target)\<lparr>f_SNI := host, f_Secure := True, f_Protocol := ProtoRawTCP\<rparr>)
        target client)"

definition interceptTLS :: "'re proxy_env \<Rightarrow> stream \<Rightarrow> string \<Rightarrow> string \<Rightarrow> route" where
  "interceptTLS P client target host =
     (if \<not> shouldMITM (pe_regex P) (pe_policy P) host then passthrough P client target host
      else case pe_accept P host client of
          None \<Rightarrow> Dropped
        | Some (name, alpn, plain) \<Rightarrow>
            (let sni = (if name = [] then host else name) in
             if alpn = ''h2'' then ServedH2 target sni plain
             else if \<not> pe_dial_tls P target sni then Dropped
             else bridge ((NewFlow (pe_rand P) (pe_remote P) target)\<lparr>f_SNI := sni, f_Secure := True\<rparr>) (Raw plain)))"

definition connect_reply :: bytes where
  "connect_reply = bytes_of (''HTTP/1.1 200 Connection Established'' @ crlf_chars @ crlf_chars)"

text \<open>The reply to the client and the route; TLS is read from the connection, not from the buffered reader.\<close>

definition handleConnect :: "'re proxy_env \<Rightarrow> bufreader \<Rightarrow> bytes \<times> route" where
  "handleConnect P br = (case readRequestLine br of
     None \<Rightarrow> ([], Dropped)
   | Some (line, br1) \<Rightarrow> (case GoStrings.fields line of
       _ # target # _ \<Rightarrow> (case drainHeaders br1 of
           None \<Rightarrow> ([], Dropped)
         | Some br2 \<Rightarrow>
             if \<not> pe_reply_ok P then ([], Dropped)
             else (connect_reply, interceptTLS P (Raw (snd br2)) target (proxy_hostOnly target)))
     | _ \<Rightarrow> ([], Dropped)))"

definition handlePlain :: "'re proxy_env \<Rightarrow> bufreader \<Rightarrow> route" where
  "handlePlain P br = (case peekRequestLine br of
     (None, br') \<Rightarrow> Dropped
   | (Some line, br') \<Rightarrow> (case GoStrings.fields line of
       _ # u # _ \<Rightarrow> (case pe_url_host P u of
           None \<Rightarrow> Dropped
         | Some host \<Rightarrow>
             if host = [] then Dropped
             else
               (let target = (if contains host '':'' then host else host @ '':80'') in
                if \<not> pe_dial P target then Dropped
                else bridge (NewFlow (pe_rand P) (pe_remote P) target) (Peeked br')))
     | _ \<Rightarrow> Dropped))"

definition proxy_handle :: "'re proxy_env \<Rightarrow> bytes list \<Rightarrow> bytes \<times> route" where
  "proxy_handle P src = (case buf_peek 8 ([], src) of
     (None, br) \<Rightarrow> ([], Dropped)
   | (Some peek, br) \<Rightarrow>
       if prefix ''CONNECT '' (str_of peek) then handleConnect P br else ([], handlePlain P br))"

definition HandleTransparent :: "'re proxy_env \<Rightarrow> bytes list \<Rightarrow> string \<Rightarrow> route" where
  "HandleTransparent P src target =
     (let host = proxy_hostOnly target in
      case buf_peek 1 ([], src) of
        (None, br) \<Rightarrow> Dropped
      | (Some first, br) \<Rightarrow>
          if first ! 0 = 0x16 then
            (case sniffClientHello (pe_parser P) br of
               (Inl e, replay) \<Rightarrow> Dropped
             | (Inr serverName, replay) \<Rightarrow>
                 interceptTLS P replay target (if serverName \<noteq> [] then serverName else host))
          else if \<not> pe_dial P target then Dropped
          else bridge (NewFlow (pe_rand P) (pe_remote P) target) (Peeked br))"

section \<open>The blind tunnel\<close>

text \<open>\<^verbatim>\<open>fmt.Sprintf("%.1f", float64(n)/unit)\<close>: to the nearest tenth, a tie to the even one.\<close>

definition one_decimal :: "nat \<Rightarrow> nat \<Rightarrow> string" where
  "one_decimal n unit =
     (let q = 10 * n div unit; r = 10 * n mod unit;
          t = (if 2 * r > unit \<or> 2 * r = unit \<and> odd q then q + 1 else q)
      in show_nat (t div 10) @ ''.'' @ show_nat (t mod 10))"

definition proxy_humanBytes :: "nat \<Rightarrow> string" where
  "proxy_humanBytes n =
     (if n < 1024 then show_nat n @ '' B''
      else if n < 1024 * 1024 then one_decimal n 1024 @ '' KB''
      else one_decimal n (1024 * 1024) @ '' MB'')"

text \<open>One direction of \<^verbatim>\<open>passthrough\<close>: each chunk as written, with the summary that is then shown.\<close>

function passthrough_pump :: "direction \<Rightarrow> nat \<Rightarrow> stream \<Rightarrow> (bytes \<times> string) list" where
  "passthrough_pump d sofar st = (case stream_read (32 * 1024) st of
       None \<Rightarrow> []
     | Some (b, st') \<Rightarrow>
         (let sofar' = sofar + length b in
          (b, direction_string d @ '' '' @ proxy_humanBytes sofar' @ '' (passthrough)'') # passthrough_pump d sofar' st'))"
  by pat_completeness auto
termination
  by (relation "measure (\<lambda>(d, t, st). length (stream_bytes st))") (auto dest: stream_read_shrinks)

declare passthrough_pump.simps [simp del]

lemma passthrough_pump_bytes: "concat (map fst (passthrough_pump d sofar st)) = stream_bytes st"
proof (induction d sofar st rule: passthrough_pump.induct)
  case (1 d sofar st)
  show ?case
  proof (cases "stream_read (32 * 1024) st")
    case None
    with stream_read_None [THEN iffD1, OF None] show ?thesis by (subst passthrough_pump.simps) (simp del: stream_read_None)
  next
    case (Some x)
    then obtain b st' where x: "stream_read (32 * 1024) st = Some (b, st')" by (cases x) auto
    with 1 [OF x refl refl] stream_read_conserves [OF x] show ?thesis
      by (subst passthrough_pump.simps) (simp add: Let_def)
  qed
qed

lemma passthrough_pump_last:
  "passthrough_pump d sofar st \<noteq> [] \<Longrightarrow> snd (last (passthrough_pump d sofar st))
     = direction_string d @ '' '' @ proxy_humanBytes (sofar + length (stream_bytes st)) @ '' (passthrough)''"
proof (induction d sofar st rule: passthrough_pump.induct)
  case (1 d sofar st)
  note ih = "1.IH"
  show ?case
  proof (cases "stream_read (32 * 1024) st")
    case None
    with "1.prems" show ?thesis by (subst (asm) passthrough_pump.simps) simp
  next
    case (Some x)
    then obtain b st' where x: "stream_read (32 * 1024) st = Some (b, st')" by (cases x) auto
    have len: "length (stream_bytes st) = length b + length (stream_bytes st')"
      unfolding stream_read_conserves [OF x, symmetric] by simp
    show ?thesis
    proof (cases "passthrough_pump d (sofar + length b) st' = []")
      case True
      with passthrough_pump_bytes [of d "sofar + length b" st'] have "stream_bytes st' = []" by simp
      with x len True show ?thesis by (subst passthrough_pump.simps) (simp add: Let_def)
    next
      case False
      with x len ih [OF x refl refl False] show ?thesis
        by (subst passthrough_pump.simps) (simp add: Let_def add.assoc)
    qed
  qed
qed

section \<open>Buffering is transparent\<close>

lemma buf_peek_unread: "buf_peek n br = (o1, br') \<Longrightarrow> unread br' = unread br"
proof (induction n br arbitrary: o1 br' rule: buf_peek.induct)
  case (1 n buf src)
  show ?case
  proof (cases "n \<le> length buf \<or> bufsize \<le> length buf")
    case True
    with "1.prems" show ?thesis by (subst (asm) buf_peek.simps) (auto split: if_splits)
  next
    case False
    show ?thesis
    proof (cases "conn_read (bufsize - length buf) src")
      case None
      with False "1.prems" have "br' = (buf, [])" by (subst (asm) buf_peek.simps) auto
      with None show ?thesis by (simp add: unread_def conn_read_None)
    next
      case (Some x)
      then obtain b src' where x: "conn_read (bufsize - length buf) src = Some (b, src')" by (cases x) auto
      with False "1.prems" have "buf_peek n (buf @ b, src') = (o1, br')" by (subst (asm) buf_peek.simps) auto
      with "1.IH" [OF _ _ x refl] False have "unread br' = unread (buf @ b, src')" by simp
      with conn_read_conserves [OF x] show ?thesis by (simp add: unread_def)
    qed
  qed
qed

lemma buf_peek_result:
  "buf_peek n br = (o1, br') \<Longrightarrow> n \<le> bufsize \<Longrightarrow>
     o1 = (if n \<le> length (unread br) then Some (take n (unread br)) else None)
     \<and> (o1 = None \<longrightarrow> fst br' = unread br)"
proof (induction n br arbitrary: o1 br' rule: buf_peek.induct)
  case (1 n buf src)
  consider "n \<le> length buf" | "length buf < n" "conn_read (bufsize - length buf) src = None"
    | b src' where "length buf < n" "conn_read (bufsize - length buf) src = Some (b, src')" by fastforce
  then show ?case
  proof cases
    case 1
    with "1.prems" show ?thesis by (subst (asm) buf_peek.simps) (auto simp: unread_def)
  next
    case 2
    with "1.prems" show ?thesis by (subst (asm) buf_peek.simps) (auto simp: unread_def conn_read_None)
  next
    case 3
    with "1.prems" have p: "buf_peek n (buf @ b, src') = (o1, br')" by (subst (asm) buf_peek.simps) auto
    have u: "unread (buf @ b, src') = unread (buf, src)"
      using conn_read_conserves [OF 3(2)] by (simp add: unread_def)
    from "1.IH" [OF _ _ 3(2) refl p "1.prems"(2)] 3 "1.prems"(2) u show ?thesis by simp
  qed
qed

lemma read_until_append_Some: "read_until d a = Some (l, r) \<Longrightarrow> read_until d (a @ b) = Some (l, r @ b)"
  by (induction a arbitrary: l) (auto split: if_splits)

lemma read_until_append_None:
  "read_until d a = None \<Longrightarrow> read_until d (a @ b) = map_option (\<lambda>(l, r). (a @ l, r)) (read_until d b)"
proof (induction a)
  case Nil
  then show ?case by (cases "read_until d b") auto
next
  case (Cons x a)
  then show ?case by (cases "read_until d b") (auto split: if_splits)
qed


text \<open>Reading a line through the buffer is reading it from the bytes, wherever the segments and the buffer end.\<close>

lemma buf_read_line_refines:
  "(case read_until 10 (unread br) of
      None \<Rightarrow> buf_read_line acc br = None
    | Some (l, r) \<Rightarrow> \<exists>br'. buf_read_line acc br = Some (acc @ l, br') \<and> unread br' = r)"
proof (induction acc br rule: buf_read_line.induct)
  case (1 acc buf src)
  show ?case
  proof (cases "read_until 10 buf")
    case (Some x)
    then obtain a r where x: "read_until 10 buf = Some (a, r)" by (cases x) auto
    from read_until_append_Some [OF x] x show ?thesis by (simp add: buf_read_line_step unread_def)
  next
    case None
    note app = read_until_append_None [OF None]
    let ?k = "if bufsize \<le> length buf then bufsize else bufsize - length buf"
    show ?thesis
    proof (cases "conn_read ?k src")
      case n: None
      then have "concat src = []" by (simp add: conn_read_None)
      with None n show ?thesis by (simp add: buf_read_line_step unread_def split: if_splits)
    next
      case (Some x)
      then obtain b src' where c: "conn_read ?k src = Some (b, src')" by (cases x) auto
      note cons = conn_read_conserves [OF c]
      show ?thesis
      proof (cases "bufsize \<le> length buf")
        case True
        with c have c': "conn_read bufsize src = Some (b, src')" by simp
        have ih: "case read_until 10 (unread (b, src')) of
            None \<Rightarrow> buf_read_line (acc @ buf) (b, src') = None
          | Some (l, r) \<Rightarrow> \<exists>br'. buf_read_line (acc @ buf) (b, src') = Some ((acc @ buf) @ l, br') \<and> unread br' = r"
          using "1.IH" [OF None, of "(acc @ buf, [])" "acc @ buf" "[]" "(b, src')" b src'] True c'
          by (simp cong: option.case_cong)
        have st: "buf_read_line acc (buf, src) = buf_read_line (acc @ buf) (b, src')"
          using True c' None by (simp add: buf_read_line_step)
        have u: "read_until 10 (unread (buf, src)) = map_option (\<lambda>(l, r). (buf @ l, r)) (read_until 10 (unread (b, src')))"
          using app [of "concat src"] cons by (simp add: unread_def)
        show ?thesis unfolding st u using ih
          by (cases "read_until 10 (unread (b, src'))") auto
      next
        case False
        with c have c': "conn_read (bufsize - length buf) src = Some (b, src')" by simp
        have ih: "case read_until 10 (unread (buf @ b, src')) of
            None \<Rightarrow> buf_read_line acc (buf @ b, src') = None
          | Some (l, r) \<Rightarrow> \<exists>br'. buf_read_line acc (buf @ b, src') = Some (acc @ l, br') \<and> unread br' = r"
          using "1.IH" [OF None, of "(acc, buf)" acc buf "(b, src')" b src'] False c' by simp
        have st: "buf_read_line acc (buf, src) = buf_read_line acc (buf @ b, src')"
          using False c' None by (simp add: buf_read_line_step)
        have u: "unread (buf, src) = unread (buf @ b, src')" using cons by (simp add: unread_def)
        show ?thesis unfolding st u by (rule ih)
      qed
    qed
  qed
qed

text \<open>What has been read does not depend on what the client sends later.\<close>

lemma buf_read_line_append:
  "buf_read_line acc (buf, src) = Some (l, (b', s')) \<Longrightarrow> buf_read_line acc (buf, src @ rest) = Some (l, (b', s' @ rest))"
proof (induction acc "(buf, src)" arbitrary: buf src rule: buf_read_line.induct)
  case (1 acc buf src)
  show ?case
  proof (cases "read_until 10 buf")
    case (Some x)
    with "1.prems" show ?thesis by (cases x) (simp add: buf_read_line_step)
  next
    case None
    show ?thesis
    proof (cases "bufsize \<le> length buf")
      case True
      with "1.prems" None obtain b s1 where c: "conn_read bufsize src = Some (b, s1)"
        and r: "buf_read_line (acc @ buf) (b, s1) = Some (l, (b', s'))"
        by (auto simp: buf_read_line_step split: option.splits)
      have "buf_read_line (acc @ buf) (b, s1 @ rest) = Some (l, (b', s' @ rest))"
        using "1.hyps" [OF None, of "(acc @ buf, [])"] True c r by auto
      with True show ?thesis by (simp add: buf_read_line_step None conn_read_append [OF c])
    next
      case False
      with "1.prems" None obtain b s1 where c: "conn_read (bufsize - length buf) src = Some (b, s1)"
        and r: "buf_read_line acc (buf @ b, s1) = Some (l, (b', s'))"
        by (auto simp: buf_read_line_step split: option.splits)
      have "buf_read_line acc (buf @ b, s1 @ rest) = Some (l, (b', s' @ rest))"
        using "1.hyps" [OF None, of "(acc, buf)"] False c r by auto
      with False show ?thesis by (simp add: buf_read_line_step None conn_read_append [OF c])
    qed
  qed
qed

lemma buf_peek_append:
  "buf_peek n (buf, src) = (Some p, (b', s')) \<Longrightarrow> buf_peek n (buf, src @ rest) = (Some p, (b', s' @ rest))"
proof (induction n "(buf, src)" arbitrary: buf src rule: buf_peek.induct)
  case (1 n buf src)
  show ?case
  proof (cases "n \<le> length buf \<or> bufsize \<le> length buf")
    case True
    with "1.prems" show ?thesis by (subst buf_peek.simps, subst (asm) buf_peek.simps) (auto split: if_splits)
  next
    case False
    with "1.prems" obtain b s1 where c: "conn_read (bufsize - length buf) src = Some (b, s1)"
      and r: "buf_peek n (buf @ b, s1) = (Some p, (b', s'))"
      by (subst (asm) buf_peek.simps) (auto split: option.splits)
    from "1.hyps" [OF _ _ c refl r] False have "buf_peek n (buf @ b, s1 @ rest) = (Some p, (b', s' @ rest))" by simp
    with False conn_read_append [OF c] show ?thesis by (subst buf_peek.simps) simp
  qed
qed

section \<open>The CONNECT tunnel\<close>

text \<open>What is left of a byte sequence behind its first blank line.\<close>

function skip_head :: "bytes \<Rightarrow> bytes option" where
  "skip_head s = (case read_until 10 s of
       None \<Rightarrow> None
     | Some (l, r) \<Rightarrow> if trim_right_set crlf_chars (str_of l) = [] then Some r else skip_head r)"
  by pat_completeness auto
termination
proof (relation "measure length")
  fix s l r and x :: "bytes \<times> bytes"
  assume "read_until 10 s = Some x" "(l, r) = x"
  then have "s = l @ r \<and> l \<noteq> []" using read_until_Some by blast
  then show "(r, s) \<in> measure length" by auto
qed simp

declare skip_head.simps [simp del]

lemma buf_read_line_Some:
  "read_until 10 (unread br) = Some (l, r) \<Longrightarrow> \<exists>br'. buf_read_line [] br = Some (l, br') \<and> unread br' = r"
  using buf_read_line_refines [of "[]" br] by simp

lemma drainHeaders_refines:
  "skip_head (unread br) = Some r \<Longrightarrow> \<exists>br'. drainHeaders br = Some br' \<and> unread br' = r"
proof (induction "unread br" arbitrary: br rule: skip_head.induct)
  case 1
  from "1.prems" obtain l r1 where u: "read_until 10 (unread br) = Some (l, r1)"
    by (subst (asm) skip_head.simps) (auto split: option.splits)
  obtain br1 where b: "buf_read_line [] br = Some (l, br1)" and u1: "unread br1 = r1"
    using buf_read_line_Some [OF u] by blast
  show ?case
  proof (cases "trim_right_set crlf_chars (str_of l) = []")
    case True
    with "1.prems" u b u1 show ?thesis
      by (subst drainHeaders.simps, subst (asm) skip_head.simps) auto
  next
    case False
    with "1.prems" u have "skip_head (unread br1) = Some r" by (subst (asm) skip_head.simps) (simp add: u1)
    then have "\<exists>br'. drainHeaders br1 = Some br' \<and> unread br' = r"
      by (rule "1.hyps" [OF u _ False, rotated]) (simp add: u1)
    then obtain br' where "drainHeaders br1 = Some br'" "unread br' = r" by blast
    with b False show ?thesis by (subst drainHeaders.simps) auto
  qed
qed

lemma drainHeaders_append:
  "drainHeaders (buf, src) = Some (b', s') \<Longrightarrow> drainHeaders (buf, src @ rest) = Some (b', s' @ rest)"
proof (induction "(buf, src)" arbitrary: buf src rule: drainHeaders.induct)
  case 1
  from "1.prems" obtain l b1 s1 where b: "buf_read_line [] (buf, src) = Some (l, (b1, s1))"
    by (subst (asm) drainHeaders.simps) (auto split: option.splits)
  note a = buf_read_line_append [OF b, of rest]
  show ?case
  proof (cases "trim_right_set crlf_chars (str_of l) = []")
    case True
    with "1.prems" b a show ?thesis by (subst drainHeaders.simps, subst (asm) drainHeaders.simps) auto
  next
    case False
    with "1.prems" b have "drainHeaders (b1, s1) = Some (b', s')" by (subst (asm) drainHeaders.simps) simp
    then have "drainHeaders (b1, s1 @ rest) = Some (b', s' @ rest)"
      using "1.hyps" [OF b _ False] by blast
    with a False show ?thesis by (subst drainHeaders.simps) simp
  qed
qed

lemma connect_prefix_length: "prefix ''CONNECT '' (str_of l) \<Longrightarrow> 8 \<le> length l"
  using prefix_length_le [of "''CONNECT ''" "str_of l"] by simp

lemma prefix_take: "length p \<le> n \<Longrightarrow> prefix p (take n t) = prefix p t"
proof
  assume "length p \<le> n" and "prefix p t"
  moreover from \<open>prefix p t\<close> have "length p \<le> length t" by (rule prefix_length_le)
  ultimately show "prefix p (take n t)" by (intro prefix_length_prefix [OF _ take_is_prefix [of n t]]) auto
next
  assume "prefix p (take n t)"
  then show "prefix p t" using take_is_prefix by (rule prefix_order.trans)
qed

lemma connect_prefix_take: "8 \<le> length l \<Longrightarrow> prefix ''CONNECT '' (str_of (take 8 (l @ r))) = prefix ''CONNECT '' (str_of l)"
proof -
  assume "8 \<le> length l"
  then have "str_of (take 8 (l @ r)) = take 8 (str_of l)" by (simp add: str_of_def take_map)
  then show ?thesis by (simp add: prefix_take)
qed

lemma unread_Nil: "unread (b, s) = [] \<Longrightarrow> b = [] \<and> concat s = []"
  by (simp add: unread_def)

lemma connect_route:
  assumes "read_until 10 (concat cs) = Some (line, hs)" and "skip_head hs = Some []"
    and "prefix ''CONNECT '' (str_of line)" and "GoStrings.fields (trim_right_set crlf_chars (str_of line)) = m # target # ws"
    and "pe_reply_ok P"
  shows "\<exists>rest'. concat rest' = concat rest
    \<and> proxy_handle P (cs @ rest) = (connect_reply, interceptTLS P (Raw rest') target (proxy_hostOnly target))"
proof -
  have all: "concat cs = line @ hs" using read_until_Some [OF assms(1)] by blast
  have len: "8 \<le> length line" using assms(3) by (rule connect_prefix_length)
  obtain o1 b0 s0 where pk: "buf_peek 8 ([], cs) = (o1, (b0, s0))" by (cases "buf_peek 8 ([], cs)") auto
  have o1: "o1 = Some (take 8 (line @ hs))"
    using buf_peek_result [OF pk] len by (simp add: bufsize_def unread_def all)
  have u0: "unread (b0, s0) = concat cs" using buf_peek_unread [OF pk] by (simp add: unread_def)
  obtain b1 s1 where l: "buf_read_line [] (b0, s0) = Some (line, (b1, s1))" and u1: "unread (b1, s1) = hs"
    using buf_read_line_Some [of "(b0, s0)"] assms(1) u0 by auto
  obtain b2 s2 where d: "drainHeaders (b1, s1) = Some (b2, s2)" and u2: "unread (b2, s2) = []"
    using drainHeaders_refines [of "(b1, s1)"] assms(2) u1 by auto
  note Nil = unread_Nil [OF u2]
  have "proxy_handle P (cs @ rest) = (connect_reply, interceptTLS P (Raw (s2 @ rest)) target (proxy_hostOnly target))"
    using buf_peek_append [OF pk [unfolded o1], of rest] connect_prefix_take [OF len, of hs] assms(3,4,5)
      buf_read_line_append [OF l, of rest] drainHeaders_append [OF d, of rest]
    by (simp add: proxy_handle_def handleConnect_def readRequestLine_def)
  with Nil show ?thesis by (intro exI [of _ "s2 @ rest"]) simp
qed

text \<open>
  A host the policy leaves alone is never decrypted. When a client asks for a tunnel to a host out of
  scope, and waits for the answer as the protocol wants, then whatever the TLS library would do, the
  connection becomes an opaque flow: the client's encrypted bytes go upstream exactly as
  sent, in order, nothing of them is captured, and the summary shows how many went through.
\<close>

lemma out_of_scope_host_stays_encrypted:
  assumes "read_until 10 (concat cs) = Some (line, hs)" and "skip_head hs = Some []"
    and "prefix ''CONNECT '' (str_of line)" and "GoStrings.fields (trim_right_set crlf_chars (str_of line)) = m # target # ws"
    and "pe_reply_ok P" and "pe_dial P target"
    and "\<not> shouldMITM (pe_regex P) (pe_policy P) (proxy_hostOnly target)"
  shows "\<exists>f st. proxy_handle P (cs @ rest) = (connect_reply, Tunnelled f target st)
    \<and> concat (map fst (passthrough_pump ClientToServer 0 st)) = concat rest
    \<and> (concat rest \<noteq> [] \<longrightarrow> snd (last (passthrough_pump ClientToServer 0 st))
         = direction_string ClientToServer @ '' '' @ proxy_humanBytes (length (concat rest)) @ '' (passthrough)'')
    \<and> f_Protocol f = ProtoRawTCP \<and> f_SNI f = proxy_hostOnly target \<and> f_Request f = None \<and> f_Messages f = []"
proof -
  obtain rest' where r: "concat rest' = concat rest"
    "proxy_handle P (cs @ rest) = (connect_reply, interceptTLS P (Raw rest') target (proxy_hostOnly target))"
    using connect_route [OF assms(1-5)] by blast
  let ?f = "(NewFlow (pe_rand P) (pe_remote P) target)\<lparr>f_SNI := proxy_hostOnly target, f_Secure := True, f_Protocol := ProtoRawTCP\<rparr>"
  have h: "proxy_handle P (cs @ rest) = (connect_reply, Tunnelled ?f target (Raw rest'))"
    using r(2) assms(6,7) by (simp add: interceptTLS_def passthrough_def)
  have b: "concat (map fst (passthrough_pump ClientToServer 0 (Raw rest'))) = concat rest"
    by (simp add: passthrough_pump_bytes r(1))
  have l: "concat rest \<noteq> [] \<longrightarrow> snd (last (passthrough_pump ClientToServer 0 (Raw rest')))
         = direction_string ClientToServer @ '' '' @ proxy_humanBytes (length (concat rest)) @ '' (passthrough)''"
  proof
    assume "concat rest \<noteq> []"
    then have "passthrough_pump ClientToServer 0 (Raw rest') \<noteq> []"
      using b by (metis concat.simps(1) list.simps(8))
    from passthrough_pump_last [OF this]
    show "snd (last (passthrough_pump ClientToServer 0 (Raw rest')))
         = direction_string ClientToServer @ '' '' @ proxy_humanBytes (length (concat rest)) @ '' (passthrough)''"
      by (simp only: stream_bytes.simps r(1) add_0)
  qed
  show ?thesis
    using h b l by (intro exI [of _ ?f] exI [of _ "Raw rest'"]) (simp add: NewFlow_def)
qed

text \<open>A ClientHello that arrives in the same segment as the head of CONNECT is lost in the buffered reader.\<close>

lemma connect_loses_eager_bytes:
  assumes "read_until 10 head = Some (line, hs)" and "skip_head (hs @ hello) = Some hello"
    and "prefix ''CONNECT '' (str_of line)" and "GoStrings.fields (trim_right_set crlf_chars (str_of line)) = m # target # ws"
    and "pe_reply_ok P" and "length (head @ hello) \<le> bufsize" and "head = line @ hs"
  shows "\<exists>st. proxy_handle P [head @ hello] = (connect_reply, interceptTLS P st target (proxy_hostOnly target))
    \<and> stream_bytes st = []"
proof -
  have len: "8 \<le> length line" using assms(3) by (rule connect_prefix_length)
  let ?all = "head @ hello"
  have ne: "?all \<noteq> []" using len assms(7) by auto
  have c: "conn_read bufsize [?all] = Some (?all, [[]])" using assms(6) ne by simp
  have pk: "buf_peek 8 ([], [?all]) = (Some (take 8 ?all), (?all, [[]]))"
  proof -
    have "buf_peek 8 (?all, [[]]) = (Some (take 8 ?all), (?all, [[]]))"
      using len assms(7) by (subst buf_peek.simps) simp
    with c show ?thesis by (subst buf_peek.simps) (simp add: bufsize_def del: conn_read.simps)
  qed
  have l: "buf_read_line [] (?all, [[]]) = Some (line, (hs @ hello, [[]]))"
    using read_until_append_Some [OF assms(1), of hello] by (simp add: buf_read_line_step)
  have src: "s' = [[]]" if "drainHeaders (b, [[]]) = Some (b', s')" for b b' s'
    using that
  proof (induction "(b, [[]] :: bytes list)" arbitrary: b rule: drainHeaders.induct)
    case 1
    have step: "buf_read_line [] (b, [[]]) = (case read_until 10 b of Some (l, r) \<Rightarrow> Some (l, (r, [[]])) | None \<Rightarrow> None)"
      by (simp add: buf_read_line_step split: option.split)
    from "1.prems" obtain l1 r1 where r: "read_until 10 b = Some (l1, r1)"
      by (subst (asm) drainHeaders.simps) (auto simp: step split: option.splits)
    show ?case
    proof (cases "trim_right_set crlf_chars (str_of l1) = []")
      case True
      with "1.prems" r show ?thesis by (subst (asm) drainHeaders.simps) (simp add: step)
    next
      case False
      with "1.prems" r have "drainHeaders (r1, [[]]) = Some (b', s')"
        by (subst (asm) drainHeaders.simps) (simp add: step)
      moreover have "buf_read_line [] (b, [[]]) = Some (l1, (r1, [[]]))" using step r by simp
      ultimately show ?thesis using "1.hyps" [OF _ _ False] by blast
    qed
  qed
  have "unread (hs @ hello, [[]]) = hs @ hello" by (simp add: unread_def)
  then obtain b2 s2 where d: "drainHeaders (hs @ hello, [[]]) = Some (b2, s2)"
    using drainHeaders_refines [of "(hs @ hello, [[]])"] assms(2) by auto
  from src [OF d] have s2: "s2 = [[]]" .
  have "proxy_handle P [?all] = (connect_reply, interceptTLS P (Raw [[]]) target (proxy_hostOnly target))"
    using pk connect_prefix_take [OF len, of "hs @ hello"] assms(3,4,5,7) l d s2
    by (simp add: proxy_handle_def handleConnect_def readRequestLine_def)
  then show ?thesis by (intro exI [of _ "Raw [[]]"]) (simp add: concat_eq_Nil_conv)
qed

text \<open>Five segments: the head of CONNECT in three of them, then the ClientHello.\<close>

definition demo_head :: "bytes list" where
  "demo_head = [bytes_of ''CONNECT h:4'', bytes_of (''43 HTTP/1.1'' @ crlf_chars), bytes_of crlf_chars]"

definition demo_env :: "unit proxy_env" where
  "demo_env = \<lparr>pe_regex = \<lparr>rx_compile = (\<lambda>_. None), rx_match = (\<lambda>_ _. False)\<rparr>,
     pe_policy = Some \<lparr>s_Rules = [], s_Default = Exclude, s_LastMatchWins = False\<rparr>, pe_parser = Parsed ''h'',
     pe_accept = (\<lambda>_ _. None), pe_dial = (\<lambda>_. True), pe_dial_tls = (\<lambda>_ _. True), pe_url_host = (\<lambda>_. Some ''h''),
     pe_reply_ok = True, pe_remote = ''c'', pe_rand = []\<rparr>"

lemma demo_connect:
  defines "line \<equiv> bytes_of (''CONNECT h:443 HTTP/1.1'' @ crlf_chars)"
  shows "read_until 10 (concat demo_head) = Some (line, bytes_of crlf_chars)" and "prefix ''CONNECT '' (str_of line)"
    and "GoStrings.fields (trim_right_set crlf_chars (str_of line)) = [''CONNECT'', ''h:443'', ''HTTP/1.1'']"
    and "skip_head (bytes_of crlf_chars) = Some []" and "proxy_hostOnly ''h:443'' = ''h''"
proof -
  show "read_until 10 (concat demo_head) = Some (line, bytes_of crlf_chars)" "prefix ''CONNECT '' (str_of line)"
    "GoStrings.fields (trim_right_set crlf_chars (str_of line)) = [''CONNECT'', ''h:443'', ''HTTP/1.1'']" "proxy_hostOnly ''h:443'' = ''h''"
    unfolding line_def by code_simp+
  have "read_until 10 (bytes_of crlf_chars) = Some (bytes_of crlf_chars, [])" "trim_right_set crlf_chars (str_of (bytes_of crlf_chars)) = []"
    by code_simp+
  then show "skip_head (bytes_of crlf_chars) = Some []" by (subst skip_head.simps) simp
qed

section \<open>Plain and transparent connections\<close>

lemma detectFrom_bytes: "detectFrom br = (Detect registry (take 16 (unread br)), snd (detectFrom br))
    \<and> unread (snd (detectFrom br)) = unread br"
proof -
  obtain o1 br' where p: "buf_peek 16 br = (o1, br')" by (rule prod.exhaust)
  from buf_peek_unread [OF p] buf_peek_result [OF p] p show ?thesis
    by (auto simp: detectFrom_def bufsize_def split: if_splits)
qed

lemma bridge_bytes: "\<exists>br. bridge f st = Bridged f (Detect registry (take 16 (stream_bytes st))) br \<and> unread br = stream_bytes st"
  using detectFrom_bytes [of "asReader st"]
  by (cases "detectFrom (asReader st)") (simp add: bridge_def asReader_unread)

lemma peek_line_unread: "peek_line_from n br = (o1, br') \<Longrightarrow> unread br' = unread br"
proof (induction n br rule: peek_line_from.induct)
  case (1 n br)
  show ?case
  proof (cases "bufsize < n")
    case True
    with "1.prems" show ?thesis by (subst (asm) peek_line_from.simps) simp
  next
    case False
    obtain p br1 where p: "buf_peek n br = (p, br1)" by (rule prod.exhaust)
    note u = buf_peek_unread [OF p]
    show ?thesis
    proof (cases p)
      case None
      with "1.prems" False p u show ?thesis by (subst (asm) peek_line_from.simps) simp
    next
      case (Some buf)
      show ?thesis
      proof (cases "read_until 10 buf")
        case None
        with "1.prems" False p Some have "peek_line_from (n + 1) br1 = (o1, br')"
          by (subst (asm) peek_line_from.simps) simp
        with "1.IH" [OF False p [symmetric] Some None] u p Some None False show ?thesis by auto
      next
        case x: (Some x)
        with "1.prems" False p Some u show ?thesis
          by (cases x) (subst (asm) peek_line_from.simps, simp)
      qed
    qed
  qed
qed

lemma peekRequestLine_unread: "peekRequestLine br = (o1, br') \<Longrightarrow> unread br' = unread br"
  by (auto simp: peekRequestLine_def dest!: peek_line_unread buf_peek_unread split: prod.splits option.splits)

text \<open>A request that is not a CONNECT is bridged with every byte of the connection.\<close>

lemma plain_connection_preserved:
  assumes nc: "\<not> prefix ''CONNECT '' (str_of (concat src))"
  shows "snd (proxy_handle P src) = Dropped
    \<or> (\<exists>f br. snd (proxy_handle P src) = Bridged f (Detect registry (take 16 (concat src))) br \<and> unread br = concat src)"
proof -
  obtain o8 br8 where pk8: "buf_peek 8 ([], src) = (o8, br8)" by (rule prod.exhaust)
  have u8: "unread br8 = concat src" using buf_peek_unread [OF pk8] by (simp add: unread_def)
  have p8: "o8 = (if 8 \<le> length (concat src) then Some (take 8 (concat src)) else None)"
    using buf_peek_result [OF pk8] by (simp add: bufsize_def unread_def)
  obtain ol brl where pl: "peekRequestLine br8 = (ol, brl)" by (rule prod.exhaust)
  have ul: "unread brl = concat src" using peekRequestLine_unread [OF pl] u8 by simp
  have "\<not> prefix ''CONNECT '' (str_of (take 8 (concat src)))"
    using nc prefix_take [of "''CONNECT ''" 8 "str_of (concat src)"] by (simp add: str_of_def take_map)
  then have h: "snd (proxy_handle P src) = (if o8 = None then Dropped else handlePlain P br8)"
    using pk8 p8 by (simp add: proxy_handle_def)
  have "handlePlain P br8 = Dropped \<or> (\<exists>f. handlePlain P br8 = bridge f (Peeked brl))"
    by (auto simp: handlePlain_def pl Let_def split: option.split list.split)
  then show ?thesis
    using h bridge_bytes [of _ "Peeked brl"] ul by (metis stream_bytes.simps(2))
qed

text \<open>
  C17: looking at a connection takes nothing away from it. Whatever the client has sent, and however it
  arrives in segments, a plain request and a redirected connection reach the protocol handler, or the TLS
  server or tunnel, with every byte in place, and the protocol chosen is the one the first 16 bytes belong to;
  the record of the TLS probe never exceeds its limit.
\<close>

theorem probing_preserves_the_stream:
  "(case HandleTransparent P src target of
      Bridged f proto br \<Rightarrow> hd (concat src) \<noteq> 0x16 \<longrightarrow>
        unread br = concat src \<and> proto = Detect registry (take 16 (concat src))
    | _ \<Rightarrow> True)
   \<and> (hd (concat src) = 0x16 \<longrightarrow> HandleTransparent P src target = Dropped
       \<or> (\<exists>pre r host. HandleTransparent P src target = interceptTLS P (Replay pre r) target host
            \<and> pre @ unread r = concat src \<and> length pre \<le> 128 * 1024))
   \<and> (\<not> prefix ''CONNECT '' (str_of (concat src)) \<longrightarrow> snd (proxy_handle P src) = Dropped
       \<or> (\<exists>f br. snd (proxy_handle P src) = Bridged f (Detect registry (take 16 (concat src))) br \<and> unread br = concat src))"
  (is "?A \<and> ?B \<and> ?C")
proof -
  obtain o1 br where pk: "buf_peek 1 ([], src) = (o1, br)" by (rule prod.exhaust)
  have u: "unread br = concat src" using buf_peek_unread [OF pk] by (simp add: unread_def)
  have first: "p ! 0 = hd (concat src)" if "o1 = Some p" for p
    using buf_peek_result [OF pk] that
    by (cases "concat src") (auto simp: bufsize_def unread_def split: if_splits)
  obtain res pre r where run: "run_probe (pe_parser P) [] br = (res, pre, r)" by (cases "run_probe (pe_parser P) [] br") auto
  have pr: "pre @ unread r = concat src" "length pre \<le> 128 * 1024"
    using run_probe_conserves [OF run] u by (simp_all add: maxClientHelloPeek_def)
  have B: ?B
  proof
    assume tls: "hd (concat src) = 0x16"
    show "HandleTransparent P src target = Dropped
       \<or> (\<exists>pre r host. HandleTransparent P src target = interceptTLS P (Replay pre r) target host
            \<and> pre @ unread r = concat src \<and> length pre \<le> 128 * 1024)"
    proof (cases "o1 = None \<or> (\<exists>e. res = Inl e)")
      case True
      then show ?thesis
        using pk run first tls by (auto simp: HandleTransparent_def Let_def sniffClientHello_def split: option.split)
    next
      case False
      then obtain p name where "o1 = Some p" "res = Inr name" by (cases o1; cases res) auto
      then have "HandleTransparent P src target
          = interceptTLS P (Replay pre r) target (if name \<noteq> [] then name else proxy_hostOnly target)"
        using pk run first tls by (simp add: HandleTransparent_def sniffClientHello_def)
      with pr show ?thesis by blast
    qed
  qed
  have A: ?A
  proof (cases "hd (concat src) = 0x16")
    case True
    then show ?thesis by (simp split: route.split)
  next
    case False
    then show ?thesis
      using pk first u bridge_bytes [of "NewFlow (pe_rand P) (pe_remote P) target" "Peeked br"]
      by (auto simp: HandleTransparent_def Let_def split: option.split route.split)
  qed
  have C: ?C using plain_connection_preserved by blast
  from A B C show ?thesis by blast
qed

text \<open>A ClientHello in two segments, of which the parser needs five bytes to find the name.\<close>

definition demo_tls_env :: "unit proxy_env" where
  "demo_tls_env = demo_env\<lparr>pe_parser := NeedBytes 5 (\<lambda>_. NeedBytes 5 (\<lambda>_. Parsed ''h''))\<rparr>"

theorem probing_preserves_the_stream_witness:
  "HandleTransparent demo_tls_env [[0x16, 3], [1, 0]] ''10.0.0.1:443'' \<noteq> Dropped
   \<and> (\<exists>pre r host. HandleTransparent demo_tls_env [[0x16, 3], [1, 0]] ''10.0.0.1:443''
        = interceptTLS demo_tls_env (Replay pre r) ''10.0.0.1:443'' host \<and> pre @ unread r = [0x16, 3, 1, 0])"
proof -
  have pk: "buf_peek 1 ([], [[0x16, 3], [1, 0]]) = (Some [0x16], ([0x16, 3], [[], [1, 0]]))"
    by (simp add: buf_peek.simps bufsize_def)
  have "HandleTransparent demo_tls_env [[0x16, 3], [1, 0]] ''10.0.0.1:443'' \<noteq> Dropped"
    by (simp add: HandleTransparent_def pk [unfolded One_nat_def] sniffClientHello_def demo_tls_env_def demo_env_def probe_read_def buf_read_def
        maxClientHelloPeek_def bufsize_def interceptTLS_def shouldMITM_def InScope_def Eval_def passthrough_def)
  moreover have "hd (concat [[0x16, 3], [1, 0]]) = (0x16 :: 8 word)" by simp
  ultimately show ?thesis
    using probing_preserves_the_stream [where P = demo_tls_env and src = "[[0x16, 3], [1, 0]]" and target = "''10.0.0.1:443''"]
    by (auto simp: concat_eq_Nil_conv)
qed

text \<open>An IPv6 origin without a port keeps none: its address cannot be dialed.\<close>

lemma plain_ipv6_has_no_port:
  "contains ''[::1]'' '':'' \<and> SplitHostPort ''[::1]'' = Inl MissingPort"
  by code_simp

end
