(* ===== verification/Http2.thy ===== *)
theory Http2
  imports RequestBody Proxy
begin

text \<open>
  \<^verbatim>\<open>internal/proxy/http2.go\<close>: one HTTP/2 stream through the proxy. The HTTP/2 transport is a parameter:
  the reads and closes it makes of the request body, in any order, and the response or the error it
  returns. A body is the chunks its reads deliver and the error that ends it, \<^verbatim>\<open>io.EOF\<close> for a complete one. \<^verbatim>\<open>None\<close> is
  the panic of the field summary of a gRPC message.
\<close>

type_synonym source = "bytes list \<times> string"

definition io_EOF :: string where "io_EOF = ''EOF''"

fun source_read :: "nat \<Rightarrow> source \<Rightarrow> (bytes \<times> string option) \<times> source" where
  "source_read n ([], e) = (([], Some e), ([], e))"
| "source_read n (c # cs, e) =
     ((take n c, None), (if length c \<le> n then cs else drop n c # cs, e))"

record h2_request =
  hr_Method :: string
  hr_URI :: string
  hr_Host :: string
  hr_RemoteAddr :: string
  hr_Header :: header
  hr_Body :: "source option"
  hr_ContentLength :: int

record h2_response =
  hp_StatusCode :: int
  hp_Status :: string
  hp_Header :: header
  hp_Trailer :: header
  hp_Body :: source
  hp_ContentLength :: int

record h2_hooks =
  hk_ParseMediaType :: "string \<Rightarrow> string option"
  hk_ShouldRequest :: "flow \<Rightarrow> bool"
  hk_ShouldResponse :: "flow \<Rightarrow> bool"
  hk_BeforeForward :: "flow \<Rightarrow> message \<Rightarrow> bytes option \<times> bool"
  hk_BeforeDeliver :: "flow \<Rightarrow> message \<Rightarrow> bytes option \<times> bool"

section \<open>Helpers\<close>

definition grpc_type :: string where "grpc_type = ''application/grpc''"

definition isGRPCContentType :: "h2_hooks \<Rightarrow> string \<Rightarrow> bool" where
  "isGRPCContentType K ct = (case hk_ParseMediaType K ct of
     None \<Rightarrow> False
   | Some mt \<Rightarrow> mt = grpc_type \<or> prefix (grpc_type @ ''+'') mt \<and> length mt > length (grpc_type @ ''+''))"

definition clientAddr :: "h2_request \<Rightarrow> string \<Rightarrow> string" where
  "clientAddr req fallback = (if hr_RemoteAddr req \<noteq> [] then hr_RemoteAddr req else fallback)"

definition hasH2RequestBody :: "h2_request \<Rightarrow> bool" where
  "hasH2RequestBody req \<longleftrightarrow> hr_Body req \<noteq> None"

fun header_lines :: "header \<Rightarrow> string" where
  "header_lines [] = []"
| "header_lines ((k, vv) # h) = concat (map (\<lambda>v. k @ '': '' @ v @ crlf_chars) vv) @ header_lines h"

definition h2HeaderDump :: "h2_request \<Rightarrow> bytes" where
  "h2HeaderDump req = bytes_of (hr_Method req @ '' '' @ hr_URI req @ '' HTTP/2'' @ crlf_chars
     @ '':authority: '' @ hr_Host req @ crlf_chars @ header_lines (hr_Header req))"

definition setBody :: "header \<Rightarrow> nat \<Rightarrow> header \<times> int" where
  "setBody h n = (if hget h ''Content-Length'' \<noteq> [] then hset h ''Content-Length'' (show_nat n) else h, int n)"

definition readGRPCStatus :: "h2_response \<Rightarrow> message \<Rightarrow> message" where
  "readGRPCStatus resp m =
     (let st = hget (hp_Trailer resp) ''Grpc-Status''; gm = hget (hp_Trailer resp) ''Grpc-Message'' in
      if st = [] then m
      else
        (let m1 = m\<lparr>m_Meta := gput (m_Meta m) ''grpc-status'' st\<rparr> in
         if gm = [] then m1 else m1\<lparr>m_Meta := gput (m_Meta m1) ''grpc-message'' gm\<rparr>))"

definition grpcMsg :: "direction \<Rightarrow> grpc_message \<Rightarrow> message option" where
  "grpcMsg dir m = map_option (\<lambda>fields.
     \<lparr>m_Direction = dir, m_Summary = direction_string dir @ '' grpc '' @ proxy_humanBytes (length (g_Data m)),
      m_Headers = [], m_Body = g_Data m, m_Raw = g_Data m,
      m_Meta = (if g_Compressed m then [(''fields'', fields), (''compressed'', ''true'')] else [(''fields'', fields)])\<rparr>)
     (ProtoFieldSummary (g_Data m))"

definition mark_body :: "string \<Rightarrow> message \<Rightarrow> message" where
  "mark_body v m = m\<lparr>m_Meta := gput (m_Meta m) BodyRepresentationMeta v\<rparr>"

definition finishH2RequestCapture :: "codecs \<Rightarrow> bytes \<Rightarrow> bool \<Rightarrow> message \<Rightarrow> message" where
  "finishH2RequestCapture C wire isGRPC m =
     (let m1 = m\<lparr>m_Raw := wire\<rparr> in
      if isGRPC then mark_body BodyRepresentationDecoded (m1\<lparr>m_Body := wire\<rparr>)
      else case DecodeContentEncodingStrict C wire (join '','' (hvalues (m_Headers m) ''Content-Encoding'')) of
          Inl _ \<Rightarrow> mark_body BodyRepresentationUnavailable (m1\<lparr>m_Body := wire\<rparr>)
        | Inr logical \<Rightarrow> mark_body BodyRepresentationDecoded (m1\<lparr>m_Body := logical\<rparr>))"

section \<open>The state of a stream\<close>

record h2_state =
  hs_flow :: flow
  hs_seen :: "flow list"

definition h2_touch :: "h2_state \<Rightarrow> h2_state" where
  "h2_touch s = s\<lparr>hs_seen := hs_seen s @ [hs_flow s]\<rparr>"

definition h2_flow :: "(flow \<Rightarrow> flow) \<Rightarrow> h2_state \<Rightarrow> h2_state" where
  "h2_flow g s = s\<lparr>hs_flow := g (hs_flow s)\<rparr>"

definition on_request :: "(message \<Rightarrow> message) \<Rightarrow> h2_state \<Rightarrow> h2_state" where
  "on_request g = h2_flow (\<lambda>f. f\<lparr>f_Request := map_option g (f_Request f)\<rparr>)"

definition on_response :: "(message \<Rightarrow> message) \<Rightarrow> h2_state \<Rightarrow> h2_state" where
  "on_response g = h2_flow (\<lambda>f. f\<lparr>f_Response := map_option g (f_Response f)\<rparr>)"

text \<open>The callback of the observer, and the transform of the rewriter, for messages in order.\<close>

fun record_messages :: "direction \<Rightarrow> grpc_message list \<Rightarrow> h2_state \<Rightarrow> h2_state option" where
  "record_messages dir [] s = Some s"
| "record_messages dir (m # ms) s = (case grpcMsg dir m of
     None \<Rightarrow> None | Some msg \<Rightarrow> record_messages dir ms (h2_touch (h2_flow (AddMessage msg) s)))"

definition grpcTransform ::
    "(flow \<Rightarrow> message \<Rightarrow> bytes option \<times> bool) \<Rightarrow> direction \<Rightarrow> grpc_message \<Rightarrow> h2_state \<Rightarrow> ((bytes option \<times> bool) \<times> h2_state) option" where
  "grpcTransform hook dir m s = (case grpcMsg dir m of
     None \<Rightarrow> None
   | Some msg \<Rightarrow>
       (let (out, drp) = hook (hs_flow s) msg;
            forwarded = m\<lparr>g_Data := (case out of None \<Rightarrow> g_Data m | Some d \<Rightarrow> d)\<rparr>
        in if drp then Some ((out, drp), h2_touch s)
           else case grpcMsg dir forwarded of
               None \<Rightarrow> None
             | Some fmsg \<Rightarrow> Some ((out, drp), h2_touch (h2_flow (AddMessage fmsg) s))))"

text \<open>The state after a list of messages has been transformed, and the transform of the next one.\<close>

fun transform_all ::
    "(flow \<Rightarrow> message \<Rightarrow> bytes option \<times> bool) \<Rightarrow> direction \<Rightarrow> grpc_message list \<Rightarrow> h2_state \<Rightarrow> h2_state option" where
  "transform_all hook dir [] s = Some s"
| "transform_all hook dir (m # ms) s = (case grpcTransform hook dir m s of
     None \<Rightarrow> None | Some (r, s1) \<Rightarrow> transform_all hook dir ms s1)"

definition transform_from ::
    "(flow \<Rightarrow> message \<Rightarrow> bytes option \<times> bool) \<Rightarrow> direction \<Rightarrow> nat \<Rightarrow> h2_state \<Rightarrow> grpc_transform" where
  "transform_from hook dir k s seen m = (case transform_all hook dir (drop k seen) s of
     None \<Rightarrow> (None, True)
   | Some s1 \<Rightarrow> (case grpcTransform hook dir m s1 of None \<Rightarrow> (None, True) | Some (r, _) \<Rightarrow> r))"

section \<open>Wrapped bodies\<close>

datatype body_reader = Plain source | Observed source framer | Rewritten tamper_reader

fun reader_read ::
    "(flow \<Rightarrow> message \<Rightarrow> bytes option \<times> bool) \<Rightarrow> direction \<Rightarrow> nat \<Rightarrow> body_reader \<Rightarrow> h2_state
      \<Rightarrow> ((bytes \<times> string option) \<times> body_reader \<times> h2_state) option" where
  "reader_read hook dir n (Plain src) s = (let (res, src') = source_read n src in Some (res, Plain src', s))"
| "reader_read hook dir n (Observed src fr) s =
     (let ((b, e), src') = source_read n src; (p, fr') = framer_Read b fr
      in case record_messages dir (drop (length (fr_seen fr)) (fr_seen fr')) s of
           None \<Rightarrow> None | Some s1 \<Rightarrow> Some ((p, e), Observed src' fr', s1))"
| "reader_read hook dir n (Rewritten g) s =
     (let k = length (tr_seen g); (b, e, g') = tamper_Read (transform_from hook dir k s) n g
      in case transform_all hook dir (drop k (tr_seen g')) s of
           None \<Rightarrow> None | Some s1 \<Rightarrow> Some ((b, e), Rewritten g', s1))"

text \<open>\<open>bw_tee\<close>: an \<^verbatim>\<open>io.TeeReader\<close> copies what is read to the wire buffer.\<close>

record body_wrap =
  bw_reader :: body_reader
  bw_tee :: bool
  bw_wire :: bytes
  bw_done :: bool

text \<open>The callbacks a body carries: those of \<^verbatim>\<open>h2RequestCaptureCallbacks\<close>, or the end of a response.\<close>

datatype body_role = Upload bool int | Download h2_response

fun on_EOF :: "codecs \<Rightarrow> body_role \<Rightarrow> bytes \<Rightarrow> h2_state \<Rightarrow> h2_state" where
  "on_EOF C (Upload isGRPC expected) wire s = h2_touch (on_request (finishH2RequestCapture C wire isGRPC) s)"
| "on_EOF C (Download resp) wire s =
     h2_touch (h2_flow (\<lambda>f. f\<lparr>f_Status := StatusComplete\<rparr>) (on_response (readGRPCStatus resp) s))"

definition bodyWrap_Read ::
    "codecs \<Rightarrow> (flow \<Rightarrow> message \<Rightarrow> bytes option \<times> bool) \<Rightarrow> body_role \<Rightarrow> nat \<Rightarrow> body_wrap \<times> h2_state
      \<Rightarrow> ((bytes \<times> string option) \<times> body_wrap \<times> h2_state) option" where
  "bodyWrap_Read C hook role n bs = (case bs of (bw, s) \<Rightarrow>
     (case reader_read hook (case role of Upload _ _ \<Rightarrow> ClientToServer | Download _ \<Rightarrow> ServerToClient) n (bw_reader bw) s of
        None \<Rightarrow> None
      | Some ((b, e), r', s1) \<Rightarrow>
          (let bw1 = bw\<lparr>bw_reader := r', bw_wire := (if bw_tee bw then bw_wire bw @ b else bw_wire bw)\<rparr> in
           if e = Some io_EOF \<and> \<not> bw_done bw
           then Some ((b, e), bw1\<lparr>bw_done := True\<rparr>, on_EOF C role (bw_wire bw1) s1)
           else Some ((b, e), bw1, s1))))"

fun bodyWrap_Close :: "codecs \<Rightarrow> body_role \<Rightarrow> body_wrap \<times> h2_state \<Rightarrow> body_wrap \<times> h2_state" where
  "bodyWrap_Close C (Upload isGRPC expected) (bw, s) =
     (if bw_done bw then (bw, s)
      else (bw\<lparr>bw_done := True\<rparr>,
        if expected > 0 \<and> int (length (bw_wire bw)) = expected then on_EOF C (Upload isGRPC expected) (bw_wire bw) s else s))"
| "bodyWrap_Close C (Download resp) (bw, s) = (bw, s)"

text \<open>A consumer of a body: reads of \<open>n\<close> bytes and closes, in the order it makes them, with all it has read.\<close>

datatype body_op = ReadOp nat | CloseOp

fun run_body ::
    "codecs \<Rightarrow> (flow \<Rightarrow> message \<Rightarrow> bytes option \<times> bool) \<Rightarrow> body_role \<Rightarrow> body_op list \<Rightarrow> body_wrap \<times> h2_state
      \<Rightarrow> (bytes \<times> body_wrap \<times> h2_state) option" where
  "run_body C hook role [] (bw, s) = Some ([], bw, s)"
| "run_body C hook role (CloseOp # ops) bs = run_body C hook role ops (bodyWrap_Close C role bs)"
| "run_body C hook role (ReadOp n # ops) bs = (case bodyWrap_Read C hook role n bs of
     None \<Rightarrow> None
   | Some ((b, e), bs1) \<Rightarrow> map_option (\<lambda>(got, bs2). (b @ got, bs2)) (run_body C hook role ops bs1))"

section \<open>RoundTrip\<close>

datatype upload = NoUpload | Buffered bytes | Streamed body_role body_wrap

definition h2_request_message :: "h2_request \<Rightarrow> message" where
  "h2_request_message req =
     \<lparr>m_Direction = ClientToServer, m_Summary = hr_Method req @ '' '' @ hr_URI req @ '' HTTP/2'',
      m_Headers = hr_Header req, m_Body = [], m_Raw = [],
      m_Meta = [(''method'', hr_Method req), (''path'', hr_URI req)]\<rparr>"

definition h2_begin :: "h2_hooks \<Rightarrow> bytes \<Rightarrow> string \<Rightarrow> string \<Rightarrow> h2_request \<Rightarrow> h2_state" where
  "h2_begin K rand target sni req =
     (let f = (NewFlow rand (clientAddr req target) target)\<lparr>f_SNI := sni, f_Secure := True,
        f_Protocol := (if isGRPCContentType K (hget (hr_Header req) ''Content-Type'') then ProtoGRPC else ProtoHTTP2),
        f_Request := Some (h2_request_message req)\<rparr>
      in \<lparr>hs_flow = f, hs_seen = [f]\<rparr>)"

definition wrap_body :: "body_reader \<Rightarrow> bool \<Rightarrow> body_wrap" where
  "wrap_body r tee = \<lparr>bw_reader = r, bw_tee = tee, bw_wire = [], bw_done = False\<rparr>"

definition h2_drop :: "h2_state \<Rightarrow> h2_state" where
  "h2_drop s = h2_touch (h2_flow (\<lambda>f. f\<lparr>f_Status := StatusComplete\<rparr>) s)"

text \<open>
  The request side: the state, and the request with its body for the transport unless the user
  dropped it. The captured message shares the header map of the request, so a change to one is a change to both.
\<close>

definition request_side ::
    "h2_hooks \<Rightarrow> codecs \<Rightarrow> bool \<Rightarrow> h2_request \<Rightarrow> h2_state \<Rightarrow> h2_state \<times> (h2_request \<times> upload) option" where
  "request_side K C isGRPC req s =
     (case hr_Body req of
        Some src \<Rightarrow>
          if hk_ShouldRequest K (hs_flow s) \<and> isGRPC then
            (let h = hdel (hr_Header req) ''Content-Length'';
                 s1 = on_request (\<lambda>m. (mark_body BodyRepresentationUnavailable (m\<lparr>m_Raw := h2HeaderDump req\<rparr>))\<lparr>m_Headers := h\<rparr>) s;
                 tr = \<lparr>tr_chunks = fst src, tr_last = ([], snd src), tr_seen = [], tr_in = [], tr_out = [], tr_err = None\<rparr>
             in (s1, Some (req\<lparr>hr_Header := h, hr_ContentLength := - 1\<rparr>,
                   Streamed (Upload True (- 1)) (wrap_body (Rewritten tr) True))))
          else if hk_ShouldRequest K (hs_flow s) then
            (let body = concat (fst src);
                 s1 = on_request (\<lambda>m. m\<lparr>m_Body := body, m_Raw := body\<rparr>) s
             in case hk_BeforeForward K (hs_flow s1) (the (f_Request (hs_flow s1))) of
                  (_, True) \<Rightarrow> (h2_drop s1, None)
                | (out, False) \<Rightarrow>
                    (let b = (case out of None \<Rightarrow> body | Some b \<Rightarrow> b);
                         s2 = on_request (finishH2RequestCapture C b False) s1;
                         (h, cl) = setBody (hr_Header req) (length b)
                     in (on_request (\<lambda>m. m\<lparr>m_Headers := h\<rparr>) s2,
                         Some (req\<lparr>hr_Header := h, hr_ContentLength := cl\<rparr>, Buffered b))))
          else
            (let s1 = on_request (\<lambda>m. mark_body BodyRepresentationUnavailable (m\<lparr>m_Raw := h2HeaderDump req\<rparr>)) s;
                 r = (if isGRPC then Observed src \<lparr>fr_buf = [], fr_seen = []\<rparr> else Plain src)
             in if snd (hk_BeforeForward K (hs_flow s1) (the (f_Request (hs_flow s1)))) then (h2_drop s1, None)
                else (s1, Some (req, Streamed (Upload isGRPC (hr_ContentLength req)) (wrap_body r True))))
      | None \<Rightarrow>
          (let s1 = on_request (\<lambda>m. mark_body BodyRepresentationDecoded (m\<lparr>m_Raw := h2HeaderDump req\<rparr>)) s in
           if snd (hk_BeforeForward K (hs_flow s1) (the (f_Request (hs_flow s1)))) then (h2_drop s1, None)
           else (s1, Some (req, NoUpload))))"

definition h2_response_message :: "h2_response \<Rightarrow> message" where
  "h2_response_message resp =
     \<lparr>m_Direction = ServerToClient, m_Summary = ''HTTP/2 '' @ show_int (hp_StatusCode resp), m_Headers = hp_Header resp,
      m_Body = [], m_Raw = [], m_Meta = [(''status'', hp_Status resp)]\<rparr>"

datatype download = Aborted string | DeliveredBody h2_response bytes | DeliveredStream h2_response body_wrap

definition response_side ::
    "h2_hooks \<Rightarrow> codecs \<Rightarrow> bool \<Rightarrow> h2_response \<Rightarrow> h2_state \<Rightarrow> h2_state \<times> download" where
  "response_side K C isGRPC resp s0 =
     (let s = h2_touch (h2_flow (\<lambda>f. f\<lparr>f_Response := Some (h2_response_message resp)\<rparr>) s0);
          src = hp_Body resp
      in if hk_ShouldResponse K (hs_flow s) \<and> isGRPC then
           (s, DeliveredStream resp (wrap_body (Rewritten
              \<lparr>tr_chunks = fst src, tr_last = ([], snd src), tr_seen = [], tr_in = [], tr_out = [], tr_err = None\<rparr>) False))
         else if hk_ShouldResponse K (hs_flow s) then
           (let body = concat (fst src);
                s1 = on_response (\<lambda>m. (readGRPCStatus resp m)\<lparr>m_Body := DecodeContentEncoding C body
                       (join '','' (hvalues (hp_Header resp) ''Content-Encoding'')), m_Raw := body\<rparr>) s
            in case hk_BeforeDeliver K (hs_flow s1) (the (f_Response (hs_flow s1))) of
                 (_, True) \<Rightarrow> (h2_drop s1, Aborted ''cli-capture: response dropped by user'')
               | (out, False) \<Rightarrow>
                   (let b = (case out of None \<Rightarrow> body | Some b \<Rightarrow> b);
                        (h, cl) = setBody (hp_Header resp) (length b)
                    in (h2_drop (on_response (\<lambda>m. m\<lparr>m_Headers := h\<rparr>) s1),
                        DeliveredBody (resp\<lparr>hp_Header := h, hp_ContentLength := cl\<rparr>) b)))
         else (s, DeliveredStream resp (wrap_body
                (if isGRPC then Observed src \<lparr>fr_buf = [], fr_seen = []\<rparr> else Plain src) False)))"

text \<open>The transport: what it does with the body it is given, and what it returns.\<close>

type_synonym h2_transport = "h2_request \<Rightarrow> upload \<Rightarrow> body_op list \<times> (string + h2_response)"

definition RoundTrip ::
    "h2_hooks \<Rightarrow> codecs \<Rightarrow> h2_transport \<Rightarrow> bytes \<Rightarrow> string \<Rightarrow> string \<Rightarrow> h2_request \<Rightarrow> (h2_state \<times> download) option" where
  "RoundTrip K C transport rand target sni req =
     (let isGRPC = isGRPCContentType K (hget (hr_Header req) ''Content-Type'');
          s0 = h2_begin K rand target sni req
      in case request_side K C isGRPC req s0 of
           (s1, None) \<Rightarrow> Some (s1, Aborted ''cli-capture: request dropped by user'')
         | (s1, Some (req1, up)) \<Rightarrow>
             (let (ops, res) = transport req1 up in
              case (case up of
                      Streamed role bw \<Rightarrow> map_option (\<lambda>(_, _, s). s) (run_body C (hk_BeforeForward K) role ops (bw, s1))
                    | _ \<Rightarrow> Some s1) of
                None \<Rightarrow> None
              | Some s2 \<Rightarrow> (case res of
                  Inl e \<Rightarrow> Some (h2_touch (h2_flow (\<lambda>f. f\<lparr>f_Status := StatusError, f_Err := Some e\<rparr>) s2), Aborted e)
                | Inr resp \<Rightarrow> Some (response_side K C isGRPC resp s2))))"

section \<open>Uploads are captured whole or not at all\<close>

text \<open>The bytes \<open>w\<close> are a whole body: the source ended after them, or they are as many as the client announced.\<close>

definition whole :: "source \<Rightarrow> int \<Rightarrow> bytes \<Rightarrow> bool" where
  "whole src expected w \<longleftrightarrow> (\<exists>r. concat (fst src) = w @ r \<and> (r = [] \<and> snd src = io_EOF \<or> 0 < expected \<and> int (length w) = expected))"

lemma source_read_conserves:
  "source_read n src = ((b, e), src') \<Longrightarrow> b @ concat (fst src') = concat (fst src) \<and> snd src' = snd src
     \<and> (\<forall>x. e = Some x \<longrightarrow> x = snd src \<and> concat (fst src') = [])"
  by (cases "(n, src)" rule: source_read.cases) (auto split: if_splits)

text \<open>What holds of an observed upload, at every moment: \<open>s0\<close> is the state it started in.\<close>

definition upload_ok :: "codecs \<Rightarrow> source \<Rightarrow> int \<Rightarrow> message \<Rightarrow> body_wrap \<times> h2_state \<Rightarrow> bool" where
  "upload_ok C src expected m0 bs \<longleftrightarrow> (case bs of (bw, s) \<Rightarrow> \<exists>src' m.
     bw_reader bw = Plain src' \<and> bw_tee bw \<and> snd src' = snd src \<and> bw_wire bw @ concat (fst src') = concat (fst src)
     \<and> f_Protocol (hs_flow s) = ProtoHTTP2 \<and> f_Request (hs_flow s) = Some m \<and> m_Headers m = m_Headers m0
     \<and> (representation m = BodyRepresentationUnavailable
        \<or> bw_done bw \<and> representation m = BodyRepresentationDecoded \<and> whole src expected (m_Raw m)
          \<and> DecodeContentEncodingStrict C (m_Raw m) (requestContentEncoding (m_Headers m0)) = Inr (m_Body m)))"

lemma representation_mark [simp]: "representation (mark_body v m) = v"
  by (simp add: representation_def mark_body_def)

lemma mark_body_fields [simp]:
  "m_Headers (mark_body v m) = m_Headers m" "m_Raw (mark_body v m) = m_Raw m" "m_Body (mark_body v m) = m_Body m"
  by (simp_all add: mark_body_def)

lemma finish_upload:
  "m_Headers (finishH2RequestCapture C w False m) = m_Headers m
   \<and> (representation (finishH2RequestCapture C w False m) = BodyRepresentationUnavailable
      \<or> representation (finishH2RequestCapture C w False m) = BodyRepresentationDecoded
        \<and> m_Raw (finishH2RequestCapture C w False m) = w
        \<and> DecodeContentEncodingStrict C w (requestContentEncoding (m_Headers m)) = Inr (m_Body (finishH2RequestCapture C w False m)))"
  by (auto simp: finishH2RequestCapture_def requestContentEncoding_def Let_def split: sum.split)

lemma upload_finish:
  assumes "bw_reader bw = Plain src'" "bw_tee bw" "snd src' = snd src" "bw_wire bw @ concat (fst src') = concat (fst src)"
    and "f_Protocol (hs_flow s) = ProtoHTTP2" "f_Request (hs_flow s) = Some m" "m_Headers m = m_Headers m0"
    and "whole src expected (bw_wire bw)"
  shows "upload_ok C src expected m0 (bw\<lparr>bw_done := True\<rparr>, on_EOF C (Upload False expected) (bw_wire bw) s)"
  using assms finish_upload [of C "bw_wire bw" m]
  by (auto simp: upload_ok_def h2_touch_def on_request_def h2_flow_def simp del: split_paired_Ex)

lemma upload_read:
  assumes "upload_ok C src expected m0 (bw, s)"
    and "bodyWrap_Read C hook (Upload False expected) n (bw, s) = Some ((b, e), bs')"
  shows "upload_ok C src expected m0 bs' \<and> (\<exists>bw' s'. bs' = (bw', s') \<and> bw_wire bw' = bw_wire bw @ b)"
proof -
  from assms(1) obtain src' m where u: "bw_reader bw = Plain src'" "bw_tee bw" "snd src' = snd src"
      "bw_wire bw @ concat (fst src') = concat (fst src)"
      "f_Protocol (hs_flow s) = ProtoHTTP2" "f_Request (hs_flow s) = Some m" "m_Headers m = m_Headers m0"
    and st: "representation m = BodyRepresentationUnavailable
        \<or> bw_done bw \<and> representation m = BodyRepresentationDecoded \<and> whole src expected (m_Raw m)
          \<and> DecodeContentEncodingStrict C (m_Raw m) (requestContentEncoding (m_Headers m0)) = Inr (m_Body m)"
    by (auto simp: upload_ok_def)
  obtain b' e' src2 where r: "source_read n src' = ((b', e'), src2)" by (metis prod.exhaust)
  let ?bw = "bw\<lparr>bw_reader := Plain src2, bw_wire := bw_wire bw @ b'\<rparr>"
  from source_read_conserves [OF r] u have c: "bw_wire ?bw @ concat (fst src2) = concat (fst src)" "snd src2 = snd src"
      "e' = Some io_EOF \<Longrightarrow> snd src = io_EOF \<and> concat (fst src2) = []" by auto
  show ?thesis
  proof (cases "e' = Some io_EOF \<and> \<not> bw_done bw")
    case True
    with assms(2) r u have h: "(b, e) = (b', e')" "bs' = (?bw\<lparr>bw_done := True\<rparr>, on_EOF C (Upload False expected) (bw_wire ?bw) s)"
      by (auto simp: bodyWrap_Read_def Let_def)
    have "whole src expected (bw_wire ?bw)" using c True by (auto simp: whole_def)
    from upload_finish [OF _ _ c(2) c(1) u(5,6,7) this] u h show ?thesis by simp
  next
    case False
    with assms(2) r u have h: "(b, e) = (b', e')" "bs' = (?bw, s)"
      by (auto simp: bodyWrap_Read_def Let_def split: if_splits)
    with u c(1,2) st show ?thesis by (simp add: upload_ok_def del: split_paired_Ex)
  qed
qed

lemma upload_close:
  assumes "upload_ok C src expected m0 (bw, s)"
  shows "upload_ok C src expected m0 (bodyWrap_Close C (Upload False expected) (bw, s))"
    and "bw_wire (fst (bodyWrap_Close C (Upload False expected) (bw, s))) = bw_wire bw"
proof -
  from assms obtain src' m where u: "bw_reader bw = Plain src'" "bw_tee bw" "snd src' = snd src"
      "bw_wire bw @ concat (fst src') = concat (fst src)"
      "f_Protocol (hs_flow s) = ProtoHTTP2" "f_Request (hs_flow s) = Some m" "m_Headers m = m_Headers m0"
    by (auto simp: upload_ok_def)
  show "upload_ok C src expected m0 (bodyWrap_Close C (Upload False expected) (bw, s))"
  proof (cases "\<not> bw_done bw \<and> 0 < expected \<and> int (length (bw_wire bw)) = expected")
    case True
    then have "whole src expected (bw_wire bw)" using u(4) by (auto simp: whole_def intro!: exI [of _ "concat (fst src')"])
    from upload_finish [OF u this] True show ?thesis by simp
  next
    case False
    with assms show ?thesis by (auto simp: upload_ok_def)
  qed
  show "bw_wire (fst (bodyWrap_Close C (Upload False expected) (bw, s))) = bw_wire bw" by simp
qed

lemma upload_run:
  "upload_ok C src expected m0 (bw, s) \<Longrightarrow> run_body C hook (Upload False expected) ops (bw, s) = Some (got, bw', s') \<Longrightarrow>
     upload_ok C src expected m0 (bw', s') \<and> bw_wire bw' = bw_wire bw @ got"
proof (induction ops arbitrary: bw s got)
  case (Cons x ops)
  show ?case
  proof (cases x)
    case CloseOp
    obtain bw1 s1 where c: "bodyWrap_Close C (Upload False expected) (bw, s) = (bw1, s1)" by fastforce
    from Cons.IH [of bw1 s1 got] upload_close [OF Cons.prems(1)] Cons.prems(2) CloseOp c show ?thesis by simp
  next
    case (ReadOp n)
    obtain b e bs1 where r: "bodyWrap_Read C hook (Upload False expected) n (bw, s) = Some ((b, e), bs1)"
      using Cons.prems(2) ReadOp by (auto split: option.splits)
    obtain bw1 s1 where w: "bs1 = (bw1, s1)" "bw_wire bw1 = bw_wire bw @ b" "upload_ok C src expected m0 (bw1, s1)"
      using upload_read [OF Cons.prems(1) r] by auto
    obtain got1 where g: "run_body C hook (Upload False expected) ops (bw1, s1) = Some (got1, bw', s')" "got = b @ got1"
      using Cons.prems(2) ReadOp r w by auto
    from Cons.IH [OF w(3) g(1)] g w show ?thesis by simp
  qed
qed auto

lemma captured_decoded:
  assumes "f_Protocol f = ProtoHTTP2" "f_Request f = Some m" "CapturedRequestBody C read_request (Some f) = Inr rb"
  shows "representation m \<noteq> BodyRepresentationUnavailable"
    and "DecodeContentEncodingStrict C (m_Raw m) (requestContentEncoding (m_Headers m)) = Inr (m_Body m) \<Longrightarrow>
      representation m = BodyRepresentationDecoded \<Longrightarrow> rb_Body rb = m_Body m"
proof -
  obtain b where b: "capturedHTTP2Body C m = Inr b" and rb: "rb_Body rb = b"
    using assms by (auto simp: CapturedRequestBody_def ProtoHTTP1_def ProtoHTTP2_def rbind_eq_Inr)
  from b show "representation m \<noteq> BodyRepresentationUnavailable" by (auto simp: capturedHTTP2Body_def)
  assume d: "DecodeContentEncodingStrict C (m_Raw m) (requestContentEncoding (m_Headers m)) = Inr (m_Body m)"
    and r: "representation m = BodyRepresentationDecoded"
  from b d r show "rb_Body rb = m_Body m"
    by (auto simp: rb capturedHTTP2Body_def capturedBodyWithoutRaw_def messageHeader_def Let_def rbind_eq_Inr
        BodyRepresentationDecoded_def BodyRepresentationUnavailable_def split: if_splits)
qed


text \<open>An upload in two chunks, read to its end.\<close>

definition demo_h2_request :: h2_request where
  "demo_h2_request = \<lparr>hr_Method = ''POST'', hr_URI = ''/'', hr_Host = ''h'', hr_RemoteAddr = [], hr_Header = [],
     hr_Body = Some ([[65, 66], [67]], io_EOF), hr_ContentLength = - 1\<rparr>"

definition demo_hooks :: h2_hooks where
  "demo_hooks = \<lparr>hk_ParseMediaType = (\<lambda>_. None), hk_ShouldRequest = (\<lambda>_. False), hk_ShouldResponse = (\<lambda>_. False),
     hk_BeforeForward = (\<lambda>_ _. (None, False)), hk_BeforeDeliver = (\<lambda>_ _. (None, False))\<rparr>"

definition demo_uploaded :: h2_state where
  "demo_uploaded = h2_touch (on_request (finishH2RequestCapture demo_codecs [65, 66, 67] False)
     (fst (request_side demo_hooks demo_codecs False demo_h2_request (h2_begin demo_hooks [] ''h:443'' ''h'' demo_h2_request))))"


text \<open>
  A response that the client stops reading before its end leaves the flow as it was: nothing but the end of the
  stream completes it, and closing the body does not.
\<close>

lemma download_closed_early:
  "run_body C hook (Download resp) (replicate n CloseOp) (bw, s) = Some ([], bw, s)"
  by (induction n) auto

end
