(* ===== verification/Vt.thy ===== *)
theory Vt
  imports Prelude GoStrings
begin

text \<open>
  \<^verbatim>\<open>internal/terminal\<close>: the emulator of the target's screen, \<^verbatim>\<open>vt.go\<close>. The cell grid and the
  escape sequence parser of \<^verbatim>\<open>charmbracelet/x/vt\<close> are a parameter. Its methods hold one mutex each, so
  they are functions on the state; the reply pump, the reply writer and \<^verbatim>\<open>Close\<close> run in
  goroutines of their own and are steps of a relation, in any interleaving.
\<close>

section \<open>Data\<close>

datatype cursor_key = CursorUp | CursorDown | CursorRight | CursorLeft

datatype mouse_button = MouseButtonNone | MouseButtonLeft | MouseButtonMiddle | MouseButtonRight
  | MouseButtonWheelUp | MouseButtonWheelDown | MouseButtonWheelLeft | MouseButtonWheelRight
  | MouseButtonBackward | MouseButtonForward | MouseButton10 | MouseButton11

datatype mouse_action = MouseActionPress | MouseActionRelease | MouseActionMotion

record mouse_event =
  me_X :: int
  me_Y :: int
  me_Button :: mouse_button
  me_Action :: mouse_action
  me_Shift :: bool
  me_Alt :: bool
  me_Ctrl :: bool

text \<open>The four mouse events of the library; its buttons are numbered like those of the package.\<close>

datatype vt_mouse = MouseWheelEvent mouse_event | MouseReleaseEvent mouse_event | MouseMotionEvent mouse_event
  | MouseClickEvent mouse_event

datatype term_mode = ModeCursorKeys | ModeBracketedPaste | OtherMode

record 'style cell =
  ce_Style :: 'style
  ce_Content :: string
  ce_IsZero :: bool

text \<open>
  The emulator library: a write also reports the modes it switched on and off, in order, and how
  much it took.
\<close>

record ('t, 'style) term_lib =
  tl_New :: "int \<Rightarrow> int \<Rightarrow> 't"
  tl_Write :: "bytes \<Rightarrow> 't \<Rightarrow> 't \<times> (term_mode \<times> bool) list \<times> (nat \<times> string option)"
  tl_Resize :: "int \<Rightarrow> int \<Rightarrow> 't \<Rightarrow> 't"
  tl_CellAt :: "'t \<Rightarrow> int \<Rightarrow> int \<Rightarrow> 'style cell option"
  tl_SendMouse :: "vt_mouse \<Rightarrow> 't \<Rightarrow> 't"
  tl_Diff :: "'style \<Rightarrow> 'style \<Rightarrow> string"
  tl_ZeroStyle :: 'style
  tl_ResetStyle :: string

record 't vt =
  v_term :: 't
  v_cols :: int
  v_rows :: int
  v_applicationCursor :: bool
  v_bracketedPaste :: bool
  v_closed :: bool

definition replyFIFOSize :: nat where "replyFIFOSize = 64"

definition NewVT :: "('t, 'style) term_lib \<Rightarrow> int \<Rightarrow> int \<Rightarrow> 't vt" where
  "NewVT L cols rows =
     (let c = (if cols < 1 then 80 else cols); r = (if rows < 1 then 24 else rows)
      in \<lparr>v_term = tl_New L c r, v_cols = c, v_rows = r, v_applicationCursor = False, v_bracketedPaste = False,
          v_closed = False\<rparr>)"

section \<open>Modes, input and the grid\<close>

definition mode_callback :: "term_mode \<times> bool \<Rightarrow> 't vt \<Rightarrow> 't vt" where
  "mode_callback ev v = (case ev of
     (ModeCursorKeys, on) \<Rightarrow> v\<lparr>v_applicationCursor := on\<rparr>
   | (ModeBracketedPaste, on) \<Rightarrow> v\<lparr>v_bracketedPaste := on\<rparr>
   | (OtherMode, _) \<Rightarrow> v)"

definition ErrClosedPipe :: string where "ErrClosedPipe = ''io: read/write on closed pipe''"

definition VT_Write :: "('t, 'style) term_lib \<Rightarrow> bytes \<Rightarrow> 't vt \<Rightarrow> (nat \<times> string option) \<times> 't vt" where
  "VT_Write L p v =
     (if v_closed v then ((0, Some ErrClosedPipe), v)
      else (let (t, evs, res) = tl_Write L p (v_term v) in (res, fold mode_callback evs (v\<lparr>v_term := t\<rparr>))))"

definition resizeLocked :: "('t, 'style) term_lib \<Rightarrow> int \<Rightarrow> int \<Rightarrow> 't vt \<Rightarrow> 't vt" where
  "resizeLocked L cols rows v =
     (if cols < 1 \<or> rows < 1 \<or> (cols = v_cols v \<and> rows = v_rows v) then v
      else v\<lparr>v_cols := cols, v_rows := rows, v_term := tl_Resize L cols rows (v_term v)\<rparr>)"

definition VT_Resize :: "('t, 'style) term_lib \<Rightarrow> int \<Rightarrow> int \<Rightarrow> 't vt \<Rightarrow> 't vt" where
  "VT_Resize L cols rows v = (if v_closed v then v else resizeLocked L cols rows v)"

definition cursor_final :: "cursor_key \<Rightarrow> char" where
  "cursor_final key = (case key of
     CursorUp \<Rightarrow> CHR ''A'' | CursorDown \<Rightarrow> CHR ''B'' | CursorRight \<Rightarrow> CHR ''C'' | CursorLeft \<Rightarrow> CHR ''D'')"

definition CursorKeyBytes :: "cursor_key \<Rightarrow> 't vt \<Rightarrow> bytes" where
  "CursorKeyBytes key v =
     (if v_closed v then []
      else bytes_of ([CHR 0x1B, if v_applicationCursor v then CHR ''O'' else CHR ''['', cursor_final key]))"

definition BracketedPasteStart :: string where "BracketedPasteStart = CHR 0x1B # ''[200~''"
definition BracketedPasteEnd :: string where "BracketedPasteEnd = CHR 0x1B # ''[201~''"

definition PasteBytes :: "string \<Rightarrow> 't vt \<Rightarrow> bytes" where
  "PasteBytes text v =
     (if v_closed v then []
      else if \<not> v_bracketedPaste v then bytes_of text
      else bytes_of (BracketedPasteStart @ text @ BracketedPasteEnd))"

definition isWheelButton :: "mouse_button \<Rightarrow> bool" where
  "isWheelButton b \<longleftrightarrow>
     b \<in> {MouseButtonWheelUp, MouseButtonWheelDown, MouseButtonWheelLeft, MouseButtonWheelRight}"

definition vt_mouse_event :: "mouse_event \<Rightarrow> vt_mouse" where
  "vt_mouse_event ev =
     (if isWheelButton (me_Button ev) then MouseWheelEvent ev
      else case me_Action ev of
          MouseActionRelease \<Rightarrow> MouseReleaseEvent ev
        | MouseActionMotion \<Rightarrow> MouseMotionEvent ev
        | MouseActionPress \<Rightarrow> MouseClickEvent ev)"

definition ForwardMouse :: "('t, 'style) term_lib \<Rightarrow> mouse_event \<Rightarrow> 't vt \<Rightarrow> 't vt" where
  "ForwardMouse L ev v =
     (if v_closed v then v else v\<lparr>v_term := tl_SendMouse L (vt_mouse_event ev) (v_term v)\<rparr>)"

section \<open>Rendering\<close>

text \<open>
  What is written for one cell, with the pen after it; a row; and the rows. The pen is the style
  of the last cell whose style had to be announced.
\<close>

definition render_cell :: "('t, 'style) term_lib \<Rightarrow> 'style cell option \<Rightarrow> 'style \<Rightarrow> string \<times> 'style" where
  "render_cell L co pen = (case co of
     None \<Rightarrow> ([], pen)
   | Some c \<Rightarrow>
       if ce_IsZero c then ([], pen)
       else (let sq = tl_Diff L (ce_Style c) pen in
         if sq \<noteq> [] then (sq @ ce_Content c, ce_Style c) else (ce_Content c, pen)))"

fun render_row :: "('t, 'style) term_lib \<Rightarrow> 'style cell option list \<Rightarrow> 'style \<Rightarrow> string \<times> 'style" where
  "render_row L [] pen = ([], pen)"
| "render_row L (c # cs) pen =
     (let (s, pen1) = render_cell L c pen; (t, pen2) = render_row L cs pen1 in (s @ t, pen2))"

fun render_rows :: "('t, 'style) term_lib \<Rightarrow> bool \<Rightarrow> 'style cell option list list \<Rightarrow> 'style \<Rightarrow> string \<times> 'style" where
  "render_rows L first [] pen = ([], pen)"
| "render_rows L first (r # rs) pen =
     (let (s, pen1) = render_row L r pen; (t, pen2) = render_rows L False rs pen1
      in ((if first then [] else [CHR 0x0A]) @ s @ t, pen2))"

definition grid_cells :: "('t, 'style) term_lib \<Rightarrow> 't \<Rightarrow> int \<Rightarrow> int \<Rightarrow> 'style cell option list list" where
  "grid_cells L t cols rows =
     map (\<lambda>y. map (\<lambda>x. tl_CellAt L t (int x) (int y)) [0..<nat cols]) [0..<nat rows]"

definition VT_Render :: "('t, 'style) term_lib \<Rightarrow> int \<Rightarrow> int \<Rightarrow> 't vt \<Rightarrow> string \<times> 't vt" where
  "VT_Render L width height v =
     (if v_closed v then ([], v)
      else
        (let v1 = resizeLocked L width height v;
             cols = (if width > 0 \<and> width < v_cols v1 then width else v_cols v1);
             rows = (if height > 0 \<and> height < v_rows v1 then height else v_rows v1);
             (s, pen) = render_rows L True (grid_cells L (v_term v1) cols rows) (tl_ZeroStyle L)
         in (s @ (if pen \<noteq> tl_ZeroStyle L then tl_ResetStyle L else []), v1)))"

section \<open>Replies\<close>

text \<open>
  Where the reply writer stands; the bounded channel; what the pump has read and accepted, and
  what the writer has given to the target, are histories.
\<close>

datatype writer_pc = WTop | WSelect | WHave bytes | WWrite bytes | WExited

record replies =
  rp_chan :: "bytes list"
  rp_pc :: writer_pc
  rp_stop :: bool
  rp_closed :: bool
  rp_closeErr :: "string option"
  rp_drainDone :: bool
  rp_read :: "bytes list"
  rp_accepted :: "bytes list"
  rp_out :: bytes

definition replies_init :: replies where
  "replies_init = \<lparr>rp_chan = [], rp_pc = WTop, rp_stop = False, rp_closed = False, rp_closeErr = None,
     rp_drainDone = False, rp_read = [], rp_accepted = [], rp_out = []\<rparr>"

definition pump_reply :: "bytes \<Rightarrow> replies \<Rightarrow> replies" where
  "pump_reply b r =
     (if b = [] then r
      else if length (rp_chan r) < replyFIFOSize
        then r\<lparr>rp_chan := rp_chan r @ [b], rp_read := rp_read r @ [b], rp_accepted := rp_accepted r @ [b]\<rparr>
        else r\<lparr>rp_read := rp_read r @ [b]\<rparr>)"

definition close_locked :: "string option \<Rightarrow> replies \<Rightarrow> string option \<times> replies" where
  "close_locked input_err r =
     (if rp_closed r then (rp_closeErr r, r)
      else (input_err, r\<lparr>rp_closed := True, rp_stop := True, rp_closeErr := input_err\<rparr>))"

inductive reply_step :: "replies \<Rightarrow> replies \<Rightarrow> bool" where
  p_read: "\<not> rp_drainDone r \<Longrightarrow> length b \<le> 4096 \<Longrightarrow> reply_step r (pump_reply b r)"
| p_read_error: "\<not> rp_drainDone r \<Longrightarrow> reply_step r ((pump_reply b r)\<lparr>rp_drainDone := True\<rparr>)"
| w_stopped: "rp_pc r = WTop \<Longrightarrow> rp_stop r \<Longrightarrow> reply_step r (r\<lparr>rp_pc := WExited\<rparr>)"
| w_running: "rp_pc r = WTop \<Longrightarrow> \<not> rp_stop r \<Longrightarrow> reply_step r (r\<lparr>rp_pc := WSelect\<rparr>)"
| w_recv: "rp_pc r = WSelect \<Longrightarrow> rp_chan r = b # q \<Longrightarrow> reply_step r (r\<lparr>rp_chan := q, rp_pc := WHave b\<rparr>)"
| w_select_stop: "rp_pc r = WSelect \<Longrightarrow> rp_stop r \<Longrightarrow> reply_step r (r\<lparr>rp_pc := WExited\<rparr>)"
| w_discard: "rp_pc r = WHave b \<Longrightarrow> rp_stop r \<Longrightarrow> reply_step r (r\<lparr>rp_pc := WExited\<rparr>)"
| w_begin: "rp_pc r = WHave b \<Longrightarrow> \<not> rp_stop r \<Longrightarrow> reply_step r (r\<lparr>rp_pc := WWrite b\<rparr>)"
| w_written: "rp_pc r = WWrite b \<Longrightarrow> reply_step r (r\<lparr>rp_pc := WTop, rp_out := rp_out r @ b\<rparr>)"
| w_failed: "rp_pc r = WWrite b \<Longrightarrow> reply_step r (r\<lparr>rp_pc := WExited, rp_out := rp_out r @ take n b\<rparr>)"
| c_close: "close_locked e r = (res, r') \<Longrightarrow> reply_step r r'"

inductive reply_reachable :: "replies \<Rightarrow> bool" where
  rr_init: "reply_reachable replies_init"
| rr_step: "reply_reachable r \<Longrightarrow> reply_step r r' \<Longrightarrow> reply_reachable r'"

section \<open>Properties\<close>

subsection \<open>The order of replies\<close>

fun writer_holds :: "writer_pc \<Rightarrow> bytes list" where
  "writer_holds (WHave b) = [b]"
| "writer_holds (WWrite b) = [b]"
| "writer_holds _ = []"

definition reply_inv :: "replies \<Rightarrow> bool" where
  "reply_inv r \<longleftrightarrow> length (rp_chan r) \<le> replyFIFOSize \<and> subseq (rp_accepted r) (rp_read r)
    \<and> (if rp_pc r = WExited then prefix (rp_out r) (concat (rp_accepted r))
       else concat (rp_accepted r) = rp_out r @ concat (writer_holds (rp_pc r)) @ concat (rp_chan r))
    \<and> (rp_stop r \<longleftrightarrow> rp_closed r)"

lemma reply_inv_pump: "reply_inv r \<Longrightarrow> reply_inv (pump_reply b r)"
  by (auto simp: reply_inv_def pump_reply_def subseq_append' intro: subseq_rev_drop_many list_emb_append2 prefix_prefix)

lemma reply_inv_step: "reply_step r r' \<Longrightarrow> reply_inv r \<Longrightarrow> reply_inv r'"
proof (induction rule: reply_step.induct)
  case (p_read r b)
  then show ?case by (simp add: reply_inv_pump)
next
  case (p_read_error r b)
  then have "reply_inv (pump_reply b r)" by (simp add: reply_inv_pump)
  then show ?case by (simp add: reply_inv_def)
next
  case (w_discard r b)
  then show ?case by (auto simp: reply_inv_def)
next
  case (w_failed r b n)
  then have "prefix (take n b) (b @ concat (rp_chan r))"
    by (metis append_take_drop_id append.assoc prefixI)
  with w_failed show ?case by (simp add: reply_inv_def)
next
  case (c_close e r res r')
  then show ?case by (auto simp: reply_inv_def close_locked_def split: if_splits)
qed (auto simp: reply_inv_def)

lemma reply_inv_reachable: "reply_reachable r \<Longrightarrow> reply_inv r"
proof (induction rule: reply_reachable.induct)
  case rr_init
  show ?case by (simp add: reply_inv_def replies_init_def)
next
  case (rr_step r r')
  then show ?case by (blast intro: reply_inv_step)
qed



text \<open>Closing twice answers the same and closes the stop channel once; after it no write to the target begins.\<close>

lemma close_idempotent:
  "close_locked e' (snd (close_locked e r)) = (fst (close_locked e r), snd (close_locked e r))"
  by (simp add: close_locked_def)

lemma no_write_after_close:
  assumes "rp_stop r" and "reply_step r r'"
  shows "rp_stop r' \<and> (\<forall>b. rp_pc r' = WWrite b \<longrightarrow> rp_pc r = WWrite b)"
  using assms(2,1) by (induction rule: reply_step.induct) (auto simp: pump_reply_def close_locked_def split: if_splits)

subsection \<open>Modes\<close>

definition last_mode :: "term_mode \<Rightarrow> bool \<Rightarrow> (term_mode \<times> bool) list \<Rightarrow> bool" where
  "last_mode m b evs = fold (\<lambda>(m', on) acc. if m' = m then on else acc) evs b"

lemma fold_mode_callback:
  "v_applicationCursor (fold mode_callback evs v) = last_mode ModeCursorKeys (v_applicationCursor v) evs
    \<and> v_bracketedPaste (fold mode_callback evs v) = last_mode ModeBracketedPaste (v_bracketedPaste v) evs
    \<and> v_closed (fold mode_callback evs v) = v_closed v"
proof (induction evs arbitrary: v)
  case Nil
  show ?case by (simp add: last_mode_def)
next
  case (Cons ev evs)
  obtain m on where ev: "ev = (m, on)" by fastforce
  show ?case using Cons [of "mode_callback ev v"]
    by (cases m) (simp_all add: ev last_mode_def mode_callback_def)
qed

text \<open>The encoding of arrows and pastes follows the last switch the child made.\<close>

lemma input_follows_modes:
  assumes "tl_Write L p (v_term v) = (t, evs, res)" and "\<not> v_closed v" and "VT_Write L p v = (res', v')"
  shows "CursorKeyBytes key v' = bytes_of [CHR 0x1B,
       if last_mode ModeCursorKeys (v_applicationCursor v) evs then CHR ''O'' else CHR ''['', cursor_final key]
    \<and> PasteBytes s v' = (if last_mode ModeBracketedPaste (v_bracketedPaste v) evs
       then bytes_of BracketedPasteStart @ bytes_of s @ bytes_of BracketedPasteEnd else bytes_of s)"
proof -
  have v': "v' = fold mode_callback evs (v\<lparr>v_term := t\<rparr>)" using assms by (simp add: VT_Write_def)
  have "v_applicationCursor v' = last_mode ModeCursorKeys (v_applicationCursor v) evs"
    "v_bracketedPaste v' = last_mode ModeBracketedPaste (v_bracketedPaste v) evs" "\<not> v_closed v'"
    using fold_mode_callback [of evs "v\<lparr>v_term := t\<rparr>"] assms(2) by (simp_all add: v')
  then show ?thesis by (simp add: CursorKeyBytes_def PasteBytes_def del: bytes_of_append) (simp add: bytes_of_def)
qed

subsection \<open>What a rendered pane shows\<close>

text \<open>
  A terminal reading the rendering: it knows the style it is in, and \<open>sgr\<close> is what an escape sequence does to it. The
  documented contract of the library: the difference of two styles, applied in the second, gives the first, and
  the reset sequence gives the zero style.
\<close>

definition sgr_ok :: "('t, 'style) term_lib \<Rightarrow> (string \<Rightarrow> 'style \<Rightarrow> 'style) \<Rightarrow> bool" where
  "sgr_ok L sgr \<longleftrightarrow> (\<forall>a b. sgr (tl_Diff L a b) b = a) \<and> (\<forall>b. sgr [] b = b)
     \<and> (\<forall>b. sgr (tl_ResetStyle L) b = tl_ZeroStyle L)"

datatype screen_token = Sgr string | Glyphs string | LineBreak

fun screen_token_text :: "screen_token \<Rightarrow> string" where
  "screen_token_text (Sgr s) = s"
| "screen_token_text (Glyphs s) = s"
| "screen_token_text LineBreak = [CHR 0x0A]"

fun show_tokens :: "(string \<Rightarrow> 'style \<Rightarrow> 'style) \<Rightarrow> 'style \<Rightarrow> screen_token list \<Rightarrow> (string \<times> 'style) list list \<times> 'style" where
  "show_tokens sgr st [] = ([[]], st)"
| "show_tokens sgr st (Sgr s # ts) = show_tokens sgr (sgr s st) ts"
| "show_tokens sgr st (Glyphs s # ts) =
     (let (ls, st') = show_tokens sgr st ts in (((s, st) # hd ls) # tl ls, st'))"
| "show_tokens sgr st (LineBreak # ts) = (let (ls, st') = show_tokens sgr st ts in ([] # ls, st'))"

definition shown_row :: "'style cell option list \<Rightarrow> (string \<times> 'style) list" where
  "shown_row cs = concat (map (\<lambda>co. case co of None \<Rightarrow> []
     | Some c \<Rightarrow> if ce_IsZero c then [] else [(ce_Content c, ce_Style c)]) cs)"

lemma show_tokens_not_Nil: "fst (show_tokens sgr st ts) \<noteq> []"
  by (induction sgr st ts rule: show_tokens.induct) (auto simp: split_beta Let_def)

lemma render_row_tokens:
  assumes "sgr_ok L sgr"
  shows "\<exists>ts. concat (map screen_token_text ts) = fst (render_row L cs pen) \<and>
    (\<forall>us. show_tokens sgr pen (ts @ us) =
      (let (ls, st) = show_tokens sgr (snd (render_row L cs pen)) us in ((shown_row cs @ hd ls) # tl ls, st)))"
proof (induction cs arbitrary: pen)
  case Nil
  have "hd (fst (show_tokens sgr pen us)) # tl (fst (show_tokens sgr pen us)) = fst (show_tokens sgr pen us)" for us
    by (rule list.collapse [OF show_tokens_not_Nil])
  then show ?case by (intro exI [of _ "[]"]) (simp add: shown_row_def split_beta Let_def)
next
  case (Cons co cs)
  obtain s pen1 where c: "render_cell L co pen = (s, pen1)" by fastforce
  from Cons [of pen1] obtain ts where ts: "concat (map screen_token_text ts) = fst (render_row L cs pen1)"
    "\<And>us. show_tokens sgr pen1 (ts @ us) =
      (let (ls, st) = show_tokens sgr (snd (render_row L cs pen1)) us in ((shown_row cs @ hd ls) # tl ls, st))" by blast
  show ?case
  proof (cases "co = None \<or> ce_IsZero (the co)")
    case True
    with c have "s = [] \<and> pen1 = pen" by (auto simp: render_cell_def split: option.splits if_splits)
    moreover have "shown_row (co # cs) = shown_row cs" using True by (auto simp: shown_row_def split: option.splits)
    ultimately show ?thesis using ts c by (intro exI [of _ ts]) (auto simp: split_beta Let_def)
  next
    case False
    then obtain ce where ce: "co = Some ce" "\<not> ce_IsZero ce" by auto
    define sq where "sq = tl_Diff L (ce_Style ce) pen"
    have pen1: "pen1 = ce_Style ce" "s = sq @ ce_Content ce" "sgr sq pen = ce_Style ce"
      using c ce assms unfolding sgr_ok_def sq_def by (auto simp: render_cell_def Let_def split: if_splits) metis+
    have "shown_row (co # cs) = (ce_Content ce, ce_Style ce) # shown_row cs" using ce by (simp add: shown_row_def)
    with ts c pen1 show ?thesis
      by (intro exI [of _ "Sgr sq # Glyphs (ce_Content ce) # ts"]) (auto simp: split_beta Let_def)
  qed
qed

lemma render_rows_tokens:
  assumes "sgr_ok L sgr"
  shows "\<exists>ts. concat (map screen_token_text ts) = fst (render_rows L False rs pen) \<and>
    (\<forall>us. show_tokens sgr pen (ts @ us) =
      (let (ls, st) = show_tokens sgr (snd (render_rows L False rs pen)) us
       in if rs = [] then (ls, st) else ([] # map shown_row (butlast rs) @ (shown_row (last rs) @ hd ls) # tl ls, st)))"
proof (induction rs arbitrary: pen)
  case Nil
  show ?case by (intro exI [of _ "[]"]) (simp add: split_beta)
next
  case (Cons r rs)
  obtain s pen1 where r: "render_row L r pen = (s, pen1)" by fastforce
  from render_row_tokens [OF assms, of r pen] obtain ts1 where ts1: "concat (map screen_token_text ts1) = s"
    "\<And>us. show_tokens sgr pen (ts1 @ us) =
      (let (ls, st) = show_tokens sgr pen1 us in ((shown_row r @ hd ls) # tl ls, st))" using r by auto
  from Cons [of pen1] obtain ts2 where ts2: "concat (map screen_token_text ts2) = fst (render_rows L False rs pen1)"
    "\<And>us. show_tokens sgr pen1 (ts2 @ us) =
      (let (ls, st) = show_tokens sgr (snd (render_rows L False rs pen1)) us
       in if rs = [] then (ls, st) else ([] # map shown_row (butlast rs) @ (shown_row (last rs) @ hd ls) # tl ls, st))"
    by blast
  show ?case
    using ts1 ts2 r by (intro exI [of _ "LineBreak # ts1 @ ts2"]) (auto simp: split_beta Let_def)
qed

text \<open>
  C28: a terminal that prints the rendering of an open emulator shows one line per row and each cell of the row with its own
  content and in its own style, and is back in its plain style afterwards, so the colors of the target never leak
  into the rest of the screen. The grid it shows is the pane's, whenever the pane has a column and a row.
\<close>

theorem rendered_pane_shows_grid:
  assumes "sgr_ok L sgr" and "\<not> v_closed v" and "VT_Render L width height v = (s, v')" and "0 < width" and "0 < height"
  shows "v_cols v' = width \<and> v_rows v' = height \<and>
    (\<exists>ts. concat (map screen_token_text ts) = s \<and> show_tokens sgr (tl_ZeroStyle L) ts =
      (map shown_row (grid_cells L (v_term v') width height), tl_ZeroStyle L))"
proof -
  define v1 where "v1 = resizeLocked L width height v"
  have size: "v_cols v1 = width" "v_rows v1 = height" using assms(4,5) by (auto simp: v1_def resizeLocked_def)
  let ?g = "grid_cells L (v_term v1) width height"
  obtain r rs where g: "?g = r # rs"
    using assms(5) by (cases ?g) (auto simp: grid_cells_def)
  obtain a pen1 where r: "render_row L r (tl_ZeroStyle L) = (a, pen1)" by fastforce
  obtain b pen2 where b: "render_rows L False rs pen1 = (b, pen2)" by fastforce
  from assms(2,3) size g r b have s: "s = a @ b @ (if pen2 \<noteq> tl_ZeroStyle L then tl_ResetStyle L else [])" "v' = v1"
    by (auto simp: VT_Render_def v1_def [symmetric] Let_def)
  define e where "e = (if pen2 \<noteq> tl_ZeroStyle L then [Sgr (tl_ResetStyle L)] else [])"
  have e: "concat (map screen_token_text e) = (if pen2 \<noteq> tl_ZeroStyle L then tl_ResetStyle L else [])"
    "show_tokens sgr pen2 e = ([[]], tl_ZeroStyle L)"
    using assms(1) by (auto simp: e_def sgr_ok_def)
  from render_row_tokens [OF assms(1), of r "tl_ZeroStyle L"] r obtain t1 where t1: "concat (map screen_token_text t1) = a"
    "\<And>us. show_tokens sgr (tl_ZeroStyle L) (t1 @ us) =
      (let (ls, st) = show_tokens sgr pen1 us in ((shown_row r @ hd ls) # tl ls, st))" by auto
  from render_rows_tokens [OF assms(1), of rs pen1] b obtain t2 where t2: "concat (map screen_token_text t2) = b"
    "\<And>us. show_tokens sgr pen1 (t2 @ us) =
      (let (ls, st) = show_tokens sgr pen2 us
       in if rs = [] then (ls, st) else ([] # map shown_row (butlast rs) @ (shown_row (last rs) @ hd ls) # tl ls, st))" by auto
  have "map shown_row rs = map shown_row (butlast rs) @ [shown_row (last rs)]" if "rs \<noteq> []"
    using that by (metis append_butlast_last_id map_append list.map(1,2))
  then have "show_tokens sgr (tl_ZeroStyle L) (t1 @ t2 @ e) = (map shown_row ?g, tl_ZeroStyle L)"
    using t1(2) t2(2) e(2) g by (auto simp: Let_def)
  moreover have "concat (map screen_token_text (t1 @ t2 @ e)) = s" using t1(1) t2(1) e(1) s(1) by simp
  ultimately show ?thesis using size s(2) by blast
qed

definition demo_term :: "(nat, nat) term_lib" where
  "demo_term = \<lparr>tl_New = (\<lambda>_ _. 0), tl_Write = (\<lambda>p t. (t, [], (length p, None))), tl_Resize = (\<lambda>_ _ t. t),
     tl_CellAt = (\<lambda>t x y. Some \<lparr>ce_Style = (if x = 0 then 0 else 1), ce_Content = ''x'', ce_IsZero = False\<rparr>),
     tl_SendMouse = (\<lambda>_ t. t), tl_Diff = (\<lambda>a b. if a = b then [] else replicate (Suc a) CHR ''*''),
     tl_ZeroStyle = 0, tl_ResetStyle = ''*''\<rparr>"

theorem rendered_pane_shows_grid_witness:
  "\<exists>ts. concat (map screen_token_text ts) = ''x**x*'' \<and>
     show_tokens (\<lambda>s b. if s = [] then b else length s - 1) 0 ts = ([[(''x'', 0), (''x'', 1)]], 0 :: nat)"
proof -
  have ok: "sgr_ok demo_term (\<lambda>s b. if s = [] then b else length s - 1)"
    by (simp add: sgr_ok_def demo_term_def)
  have r: "VT_Render demo_term 2 1 (NewVT demo_term 2 1) = (''x**x*'', NewVT demo_term 2 1)" by code_simp
  have g: "map shown_row (grid_cells demo_term (v_term (NewVT demo_term 2 1)) 2 1) = [[(''x'', 0), (''x'', 1)]]"
    by code_simp
  from rendered_pane_shows_grid [OF ok _ r] g show ?thesis by (simp add: NewVT_def demo_term_def)
qed

end
