(* ===== verification/TuiStyles.thy ===== *)
theory TuiStyles
  imports Theme Proxy
begin

text \<open>
  \<^verbatim>\<open>internal/tui/styles.go\<close>: the styles and glyphs the renderers use, resolved from the
  theme. A \<^verbatim>\<open>lipgloss.Style\<close> is the attributes it was given; what rendering with a style
  emits is a parameter of the renderers. The strings of the interface that are not ASCII are
  written as their UTF-8 bytes.
\<close>

record text_style =
  ts_Foreground :: "string option"
  ts_Bold :: bool
  ts_Faint :: bool
  ts_Italic :: bool
  ts_Reverse :: bool

definition NewStyle :: text_style where
  "NewStyle = \<lparr>ts_Foreground = None, ts_Bold = False, ts_Faint = False, ts_Italic = False, ts_Reverse = False\<rparr>"

datatype border = NormalBorder | ThickBorder | DoubleBorder | HiddenBorder | RoundedBorder

record styles =
  sy_focused :: "string option"
  sy_unfocused :: "string option"
  sy_title :: text_style
  sy_selected :: text_style
  sy_pending :: text_style
  sy_flag :: text_style
  sy_keyCap :: text_style
  sy_dim :: text_style
  sy_code2xx :: text_style
  sy_code3xx :: text_style
  sy_code4xx :: text_style
  sy_code5xx :: text_style
  sy_section :: text_style
  sy_jsonKey :: text_style
  sy_jsonStr :: text_style
  sy_jsonNum :: text_style
  sy_jsonLit :: text_style
  sy_jsonPunct :: text_style
  sy_statusMode :: text_style
  sy_statusText :: text_style
  sy_glyphFlag :: string
  sy_glyphPointer :: string
  sy_glyphArrow :: string
  sy_paneBorder :: border

definition defFlagGlyph :: string where "defFlagGlyph = [CHR 0xE2, CHR 0x9A, CHR 0x91]"
definition defPointerGlyph :: string where "defPointerGlyph = [CHR 0xE2, CHR 0x96, CHR 0xB6]"
definition defArrowGlyph :: string where "defArrowGlyph = [CHR 0xE2, CHR 0x96, CHR 0xB8]"

definition style_color :: "string \<Rightarrow> string option" where
  "style_color c = (if c = [] then None else Some c)"

definition fg :: "string \<Rightarrow> text_style" where
  "fg c = (if c \<noteq> [] then NewStyle\<lparr>ts_Foreground := Some c\<rparr> else NewStyle)"

definition bold :: "text_style \<Rightarrow> text_style" where
  "bold s = s\<lparr>ts_Bold := True\<rparr>"

definition glyphOr :: "string \<Rightarrow> string \<Rightarrow> string" where
  "glyphOr v dflt = (if v = [] then dflt else v)"

definition borderFor :: "string \<Rightarrow> border" where
  "borderFor name =
     (if name = ''normal'' then NormalBorder
      else if name = ''thick'' then ThickBorder
      else if name = ''double'' then DoubleBorder
      else if name = ''hidden'' then HiddenBorder
      else RoundedBorder)"

definition ApplyTheme :: "theme \<Rightarrow> styles" where
  "ApplyTheme t =
     \<lparr>sy_focused = style_color (tm_Focused t), sy_unfocused = style_color (tm_Unfocused t),
      sy_title = bold (fg (tm_Title t)), sy_selected = NewStyle\<lparr>ts_Reverse := True\<rparr>,
      sy_pending = bold (fg (tm_Pending t)), sy_flag = fg (tm_Flag t), sy_keyCap = bold (fg (tm_KeyCap t)),
      sy_dim = fg (tm_Dim t), sy_code2xx = fg (tm_Status2xx t), sy_code3xx = fg (tm_Status3xx t),
      sy_code4xx = fg (tm_Status4xx t), sy_code5xx = fg (tm_Status5xx t), sy_section = bold (fg (tm_Section t)),
      sy_jsonKey = fg (tm_JSONKey t), sy_jsonStr = fg (tm_JSONString t), sy_jsonNum = fg (tm_JSONNumber t),
      sy_jsonLit = fg (tm_JSONLiteral t), sy_jsonPunct = fg (tm_JSONPunct t),
      sy_statusMode = bold (fg (tm_StatusMode t)), sy_statusText = fg (tm_StatusText t),
      sy_glyphFlag = glyphOr (tm_FlagGlyph t) defFlagGlyph,
      sy_glyphPointer = glyphOr (tm_PointerGlyph t) defPointerGlyph,
      sy_glyphArrow = glyphOr (tm_ArrowGlyph t) defArrowGlyph,
      sy_paneBorder = borderFor (tm_Border t)\<rparr>"

text \<open>What the renderers take from Lip Gloss and its \<^verbatim>\<open>ansi\<close> package.\<close>

record ui =
  ui_styles :: styles
  ui_Render :: "text_style \<Rightarrow> string \<Rightarrow> string"
  ui_Truncate :: "string \<Rightarrow> int \<Rightarrow> string \<Rightarrow> string"
  ui_Hardwrap :: "string \<Rightarrow> int \<Rightarrow> string"

definition onOff :: "bool \<Rightarrow> string" where
  "onOff b = (if b then ''on'' else ''off'')"

text \<open>The text of the status bar, before it is padded to the width of the screen.\<close>

definition statusBar :: "ui \<Rightarrow> string \<Rightarrow> bool \<Rightarrow> bool \<Rightarrow> string" where
  "statusBar U msg reqOn respOn =
     (let mode = (if reqOn \<or> respOn then ''req:'' @ onOff reqOn @ '' resp:'' @ onOff respOn else ''monitor'')
      in ui_Render U (sy_statusMode (ui_styles U)) ('' '' @ mode @ '' '')
           @ ui_Render U (sy_statusText (ui_styles U)) ('' '' @ msg))"

section \<open>Properties\<close>

text \<open>
  A theme cannot remove a glyph: an empty one reads as the built-in default, so the marker of a
  flagged row is never empty, whatever theme was applied.
\<close>

lemma glyphs_never_empty:
  "sy_glyphFlag (ApplyTheme t) \<noteq> [] \<and> sy_glyphPointer (ApplyTheme t) \<noteq> [] \<and> sy_glyphArrow (ApplyTheme t) \<noteq> []"
  by (simp add: ApplyTheme_def glyphOr_def defFlagGlyph_def defPointerGlyph_def defArrowGlyph_def)

end
