(* ===== verification/TuiRows.thy ===== *)
theory TuiRows
  imports TuiStyles Har Intercept
begin

text \<open>
  The traffic list: \<^verbatim>\<open>rows.go\<close>, the filter and the sort orders of \<^verbatim>\<open>model.go\<close>, the motions of
  \<^verbatim>\<open>command.go\<close>, and the row accounting of \<^verbatim>\<open>mouse.go\<close> shared by the drawing and the hit
  test. Go's \<^verbatim>\<open>int\<close> is \<^typ>\<open>int\<close> where the values are indices and counts, and wraps at 64 bits where digits are
  accumulated.
\<close>

section \<open>Rows\<close>

datatype sort_mode = SortNone | SortStatus | SortSize

fun sort_string :: "sort_mode \<Rightarrow> string" where
  "sort_string SortStatus = ''status''"
| "sort_string SortSize = ''size''"
| "sort_string SortNone = []"

fun row_digits :: "int \<Rightarrow> string \<Rightarrow> int" where
  "row_digits n [] = n"
| "row_digits n (c # s) = (if is_digit c then row_digits (wrap_int (n * 10 + int (digit_val c))) s else n)"

definition rowCode :: "flow \<Rightarrow> int" where
  "rowCode f = (case f_Response f of
     None \<Rightarrow> - 1
   | Some m \<Rightarrow> (let n = row_digits 0 (gget (m_Meta m) ''status'' []) in if n = 0 then - 1 else n))"

definition middle_dot :: string where "middle_dot = [CHR 0xC2, CHR 0xB7]"

definition codeText :: "flow \<Rightarrow> string" where
  "codeText f =
     (if rowCode f > 0 then show_int (rowCode f)
      else case f_Status f of
          StatusPending \<Rightarrow> ''PAUS''
        | StatusError \<Rightarrow> ''ERR''
        | StatusActive \<Rightarrow> middle_dot @ middle_dot @ middle_dot
        | _ \<Rightarrow> middle_dot)"

definition codeStyle :: "styles \<Rightarrow> flow \<Rightarrow> text_style" where
  "codeStyle S f =
     (let c = rowCode f in
      if c > 0 then
        (if c < 300 then sy_code2xx S
         else if c < 400 then sy_code3xx S
         else if c < 500 then sy_code4xx S
         else sy_code5xx S)
      else case f_Status f of
          StatusPending \<Rightarrow> sy_pending S
        | StatusError \<Rightarrow> sy_code5xx S
        | _ \<Rightarrow> sy_dim S)"

definition respSize :: "flow \<Rightarrow> int" where
  "respSize f = (case f_Response f of None \<Rightarrow> - 1 | Some m \<Rightarrow> int (length (m_Body m)))"

definition humanSize :: "int \<Rightarrow> string" where
  "humanSize n =
     (if n < 0 then []
      else if n < 1024 then show_nat (nat n) @ '' B''
      else if n < 1024 * 1024 then one_decimal (nat n) 1024 @ '' KB''
      else one_decimal (nat n) (1024 * 1024) @ '' MB'')"

definition rowTitle :: "flow \<Rightarrow> string" where
  "rowTitle f = Title f @
     (case f_Request f of
        None \<Rightarrow> []
      | Some r \<Rightarrow> (let pl = gget (m_Meta r) ''payload'' [] in if pl \<noteq> [] then '' ['' @ pl @ '']'' else []))"

definition flagMark :: "styles \<Rightarrow> bool \<Rightarrow> string" where
  "flagMark S flagged = (if \<not> flagged \<or> sy_glyphFlag S = [] then '' '' else sy_glyphFlag S)"

text \<open>\<open>%-4s\<close>: padded on the right to four runes.\<close>

definition pad4 :: "string \<Rightarrow> string" where
  "pad4 s = s @ replicate (4 - length (runes s)) CHR '' ''"

definition ellipsis :: string where "ellipsis = [CHR 0xE2, CHR 0x80, CHR 0xA6]"

definition truncate_text :: "string \<Rightarrow> int \<Rightarrow> string" where
  "truncate_text s n =
     (if n \<le> 0 then s
      else (let r = runes s in
        if int (length r) \<le> n then s
        else if n = 1 then string_of_runes (take 1 r)
        else string_of_runes (take (nat n - 1) r) @ ellipsis))"

definition renderFlowRow :: "ui \<Rightarrow> flow \<Rightarrow> bool \<Rightarrow> int \<Rightarrow> string" where
  "renderFlowRow U f selected w =
     (let S = ui_styles U;
          mark = flagMark S (f_Flagged f);
          code = pad4 (codeText f);
          title = rowTitle f;
          size = humanSize (respSize f)
      in if selected then
           ui_Render U (sy_selected S) (truncate_text (mark @ '' '' @ code @ '' '' @ title
             @ (if size \<noteq> [] then ''  '' @ size else [])) w)
         else
           ui_Truncate U ((if f_Flagged f then ui_Render U (sy_flag S) mark else mark) @ '' ''
             @ ui_Render U (codeStyle S f) code @ '' '' @ title
             @ (if size \<noteq> [] then ''  '' @ ui_Render U (sy_dim S) size else [])) w ellipsis)"

section \<open>The visible flows\<close>

definition clampIndex :: "int \<Rightarrow> int \<Rightarrow> int" where
  "clampIndex i n = (if n = 0 then 0 else if i < 0 then 0 else if i \<ge> n then n - 1 else i)"

definition hay :: "flow \<Rightarrow> string" where
  "hay f = Title f @ '' '' @ f_Protocol f @ '' '' @ status_string (f_Status f) @ '' '' @ f_ServerAddr f
     @ (case f_Request f of
          None \<Rightarrow> []
        | Some r \<Rightarrow> '' '' @ gget (m_Meta r) ''method'' [] @ '' '' @ gget (m_Meta r) ''path'' [])"

definition row_shown :: "string \<Rightarrow> bool \<Rightarrow> flow \<Rightarrow> bool" where
  "row_shown q flaggedOnly f \<longleftrightarrow>
     \<not> (flaggedOnly \<and> \<not> f_Flagged f) \<and> (q \<noteq> [] \<longrightarrow> contains (to_lower (hay f)) q)"

definition visible_rows :: "heap \<Rightarrow> string \<Rightarrow> bool \<Rightarrow> sort_mode \<Rightarrow> fref list \<Rightarrow> fref list" where
  "visible_rows h filter_value flaggedOnly sm flows =
     (let q = to_lower (trim_space filter_value) in
      if q = [] \<and> \<not> flaggedOnly \<and> sm = SortNone then flows
      else (let out = filter (\<lambda>f. row_shown q flaggedOnly (h f)) flows in
        case sm of
          SortNone \<Rightarrow> out
        | SortStatus \<Rightarrow> sort_key (\<lambda>f. rowCode (h f)) out
        | SortSize \<Rightarrow> sort_key (\<lambda>f. - respSize (h f)) out))"

section \<open>Motions\<close>

definition digit :: "string \<Rightarrow> int option" where
  "digit s = (case s of [c] \<Rightarrow> if is_digit c then Some (int (digit_val c)) else None | _ \<Rightarrow> None)"

definition flowHost :: "flow \<Rightarrow> string" where
  "flowHost f =
     (if f_SNI f \<noteq> [] then f_SNI f
      else case SplitHostPort (f_ServerAddr f) of Inr (host, _) \<Rightarrow> host | Inl _ \<Rightarrow> f_ServerAddr f)"

function run_end :: "flow list \<Rightarrow> string \<Rightarrow> nat \<Rightarrow> nat" where
  "run_end vis host j =
     (if Suc j < length vis \<and> flowHost (vis ! Suc j) = host then run_end vis host (Suc j) else j)"
  by pat_completeness auto
termination
  by (relation "measure (\<lambda>(vis, host, j). length vis - j)") auto

declare run_end.simps [simp del]

fun run_start :: "flow list \<Rightarrow> string \<Rightarrow> nat \<Rightarrow> nat" where
  "run_start vis host 0 = 0"
| "run_start vis host (Suc j) = (if flowHost (vis ! j) = host then run_start vis host j else Suc j)"

definition jump_once :: "flow list \<Rightarrow> int \<Rightarrow> nat \<Rightarrow> nat" where
  "jump_once vis dir i =
     (if dir > 0 then
        (let j = run_end vis (flowHost (vis ! i)) i in if Suc j < length vis then Suc j else j)
      else
        (let j = run_start vis (flowHost (vis ! i)) i in
         if j = i \<and> j > 0 then run_start vis (flowHost (vis ! (j - 1))) (j - 1) else j))"

fun jump_steps :: "flow list \<Rightarrow> int \<Rightarrow> nat \<Rightarrow> nat \<Rightarrow> nat" where
  "jump_steps vis dir 0 i = i"
| "jump_steps vis dir (Suc n) i = (let j = jump_once vis dir i in if j = i then i else jump_steps vis dir n j)"

definition hostJump :: "flow list \<Rightarrow> int \<Rightarrow> int \<Rightarrow> int \<Rightarrow> int" where
  "hostJump vis i0 dir n =
     (if vis = [] then 0 else int (jump_steps vis dir (nat n) (nat (clampIndex i0 (int (length vis))))))"

section \<open>Where a row is drawn\<close>

definition trafficRowLayout :: "int \<Rightarrow> bool \<Rightarrow> bool \<Rightarrow> bool \<Rightarrow> int \<times> int" where
  "trafficRowLayout h filterLineShown cmdlineShown pausedShown =
     (let listTop = 1 + (if filterLineShown then 1 else 0) + (if cmdlineShown then 1 else 0);
          reserved = listTop + (if pausedShown then 2 else 0);
          listRows = h - reserved
      in (listTop, if listRows < 1 then 1 else listRows))"

definition flowRowIndex :: "int \<Rightarrow> int \<Rightarrow> int \<Rightarrow> int \<Rightarrow> bool \<Rightarrow> bool \<Rightarrow> bool \<Rightarrow> int option" where
  "flowRowIndex y h nVis selected filterLineShown cmdlineShown pausedShown =
     (let (listTop, listRows) = trafficRowLayout h filterLineShown cmdlineShown pausedShown in
      if y < listTop then None
      else
        (let sel = clampIndex selected nVis;
             start = (if sel \<ge> listRows then sel - listRows + 1 else 0);
             row = y - listTop
         in if row < 0 \<or> row \<ge> listRows then None
            else (let idx = start + row in if idx < 0 \<or> idx \<ge> nVis then None else Some idx)))"

section \<open>Properties\<close>

subsection \<open>The list shown\<close>

definition sort_rank :: "heap \<Rightarrow> sort_mode \<Rightarrow> fref \<Rightarrow> int" where
  "sort_rank h sm f = (case sm of SortNone \<Rightarrow> 0 | SortStatus \<Rightarrow> rowCode (h f) | SortSize \<Rightarrow> - respSize (h f))"

lemma row_shown_all: "row_shown [] False f"
  by (simp add: row_shown_def)

lemma visible_rows_sort:
  "visible_rows h v fo sm flows =
     sort_key (sort_rank h sm) (filter (\<lambda>f. row_shown (to_lower (trim_space v)) fo (h f)) flows)"
  by (cases sm) (auto simp: visible_rows_def Let_def row_shown_all sort_rank_def [abs_def] sort_key_const)

lemma set_visible_rows [simp]:
  "set (visible_rows h v fo sm flows) = {f \<in> set flows. row_shown (to_lower (trim_space v)) fo (h f)}"
  by (auto simp: visible_rows_sort)

lemma length_visible_rows: "length (visible_rows h v fo sm flows) \<le> length flows"
  by (simp add: visible_rows_sort)

text \<open>
  The list shown is exactly the flows that pass the flag and text filters, each as often as
  it is listed; it is in the order of the chosen sort, by status code or by decreasing size; and
  flows that rank alike keep the order in which they were captured, as all do when no sort is on.
\<close>

lemma visible_rows_filtered_and_stable:
  fixes h v fo sm flows
  defines "q \<equiv> to_lower (trim_space v)"
  shows "mset (visible_rows h v fo sm flows) = mset (filter (\<lambda>f. row_shown q fo (h f)) flows)
    \<and> sorted (map (sort_rank h sm) (visible_rows h v fo sm flows))
    \<and> filter (\<lambda>f. sort_rank h sm f = k) (visible_rows h v fo sm flows)
        = filter (\<lambda>f. sort_rank h sm f = k \<and> row_shown q fo (h f)) flows"
  by (simp add: visible_rows_sort q_def sort_key_stable filter_filter conj_commute)

subsection \<open>Text\<close>

lemma length_runes_take: "length (runes (string_of_runes (take k (runes s)))) \<le> k"
  by (subst runes_string_of_runes) (auto dest: in_set_takeD valid_runes)

lemma runes_append_valid:
  "\<forall>r \<in> set rs. valid_rune r \<Longrightarrow> runes (string_of_runes rs @ t) = rs @ runes t"
  by (induction rs) (simp_all add: string_of_runes_def runes_string_of_rune)

lemma ellipsis_rune: "ellipsis = string_of_rune 8230"
  by (simp add: ellipsis_def string_of_rune_def uncodes_def valid_rune_def encode_rune.simps [of 8230] char_of_def bit_0)

lemma runes_ellipsis: "runes ellipsis = [8230]"
  unfolding ellipsis_rune using runes_string_of_rune [of 8230 "[]"] by (simp add: valid_rune_def)

text \<open>A truncated text has at most the columns it was given, counted in runes.\<close>

lemma truncate_bounded:
  assumes "0 < n"
  shows "int (length (runes (truncate_text s n))) \<le> n"
proof -
  have valid: "\<forall>r \<in> set (take k (runes s)). valid_rune r" for k
    by (auto dest: in_set_takeD valid_runes)
  have "length (runes (string_of_runes (take (nat n - 1) (runes s)) @ ellipsis)) \<le> nat n - 1 + 1"
    by (simp add: runes_append_valid [OF valid] runes_ellipsis)
  moreover have "length (runes (string_of_runes (take 1 (runes s)))) \<le> 1" by (rule length_runes_take)
  ultimately show ?thesis using assms by (auto simp: truncate_text_def Let_def)
qed

subsection \<open>Jumps between hosts\<close>

definition host_starts :: "flow list \<Rightarrow> nat list" where
  "host_starts vis = filter (\<lambda>i. i = 0 \<or> flowHost (vis ! (i - 1)) \<noteq> flowHost (vis ! i)) [0..<length vis]"

lemma filter_above:
  assumes "sorted_wrt (<) xs" and "s \<in> set xs" and "i < s" and "\<forall>x \<in> set xs. \<not> (i < x \<and> x < s)"
  shows "filter (\<lambda>x. i < x) xs = s # filter (\<lambda>x. s < x) (xs :: nat list)"
  using assms
proof (induction xs)
  case (Cons a xs)
  show ?case
  proof (cases "a = s")
    case True
    with Cons.prems have "filter (\<lambda>x. i < x) xs = filter (\<lambda>x. s < x) xs"
      by (intro filter_cong) auto
    with True Cons.prems show ?thesis by simp
  next
    case False
    with Cons.prems have "s \<in> set xs" "a < s" "\<not> i < a" by auto
    with Cons show ?thesis by simp
  qed
qed simp

lemma filter_below:
  assumes "sorted_wrt (<) xs" and "s \<in> set xs" and "s < i" and "\<forall>x \<in> set xs. \<not> (s < x \<and> x < i)"
  shows "filter (\<lambda>x. x < i) xs = filter (\<lambda>x. x < s) xs @ [s :: nat]"
  using assms
proof (induction xs)
  case (Cons a xs)
  show ?case
  proof (cases "a = s")
    case True
    with Cons.prems have "filter (\<lambda>x. x < i) xs = []" "filter (\<lambda>x. x < s) xs = []"
      by (auto simp: filter_empty_conv)
    with True Cons.prems show ?thesis by simp
  next
    case False
    with Cons.prems have "s \<in> set xs" "a < s" "a < i" by auto
    with Cons show ?thesis by simp
  qed
qed simp

lemma sorted_host_starts: "sorted_wrt (<) (host_starts vis)"
  by (simp add: host_starts_def sorted_wrt_filter)

lemma run_end_spec:
  assumes "j < length vis"
  shows "j \<le> run_end vis host j \<and> run_end vis host j < length vis
    \<and> (\<forall>k. j < k \<and> k \<le> run_end vis host j \<longrightarrow> flowHost (vis ! k) = host)
    \<and> (Suc (run_end vis host j) < length vis \<longrightarrow> flowHost (vis ! Suc (run_end vis host j)) \<noteq> host)"
  using assms
proof (induction vis host j rule: run_end.induct)
  case (1 vis host j)
  show ?case
  proof (cases "Suc j < length vis \<and> flowHost (vis ! Suc j) = host")
    case True
    with 1 have IH: "Suc j \<le> run_end vis host (Suc j) \<and> run_end vis host (Suc j) < length vis
      \<and> (\<forall>k. Suc j < k \<and> k \<le> run_end vis host (Suc j) \<longrightarrow> flowHost (vis ! k) = host)
      \<and> (Suc (run_end vis host (Suc j)) < length vis \<longrightarrow> flowHost (vis ! Suc (run_end vis host (Suc j))) \<noteq> host)"
      by blast
    from True have e: "run_end vis host j = run_end vis host (Suc j)" by (subst run_end.simps) simp
    have "flowHost (vis ! k) = host" if "j < k" "k \<le> run_end vis host (Suc j)" for k
      using that True IH by (cases "k = Suc j") auto
    with IH e show ?thesis by auto
  next
    case False
    then have "run_end vis host j = j" by (subst run_end.simps) auto
    with False 1(2) show ?thesis by auto
  qed
qed

lemma run_start_spec:
  "run_start vis host j \<le> j
    \<and> (\<forall>k. run_start vis host j \<le> k \<and> k < j \<longrightarrow> flowHost (vis ! k) = host)
    \<and> (0 < run_start vis host j \<longrightarrow> flowHost (vis ! (run_start vis host j - 1)) \<noteq> host)"
proof (induction vis host j rule: run_start.induct)
  case (2 vis host j)
  show ?case
  proof (cases "flowHost (vis ! j) = host")
    case True
    with 2 have IH: "run_start vis host j \<le> j" "\<And>k. run_start vis host j \<le> k \<Longrightarrow> k < j \<Longrightarrow> flowHost (vis ! k) = host"
      "0 < run_start vis host j \<longrightarrow> flowHost (vis ! (run_start vis host j - 1)) \<noteq> host" by blast+
    have "flowHost (vis ! k) = host" if "run_start vis host j \<le> k" "k < Suc j" for k
      using that True IH(2) by (cases "k = j") auto
    with IH True show ?thesis by simp
  next
    case False
    then have "run_start vis host (Suc j) = Suc j" by simp
    with False show ?thesis by (simp only: diff_Suc_1) auto
  qed
qed simp

lemma run_start_is_start:
  assumes "i < length vis"
  shows "run_start vis (flowHost (vis ! i)) i \<in> set (host_starts vis)"
    and "s \<in> set (host_starts vis) \<Longrightarrow> s \<le> i \<Longrightarrow> s \<le> run_start vis (flowHost (vis ! i)) i"
proof -
  let ?j = "run_start vis (flowHost (vis ! i)) i"
  note spec = run_start_spec [of vis "flowHost (vis ! i)" i]
  have j: "?j \<le> i" "0 < ?j \<Longrightarrow> flowHost (vis ! (?j - 1)) \<noteq> flowHost (vis ! i)"
    using spec by blast+
  have same: "flowHost (vis ! k) = flowHost (vis ! i)" if "?j \<le> k" "k \<le> i" for k
    using that spec by (cases "k = i") (simp_all only: order.strict_iff_order, blast)
  have "?j = 0 \<or> flowHost (vis ! (?j - 1)) \<noteq> flowHost (vis ! ?j)"
    using j(2) same [OF order_refl j(1)] by auto
  then show "?j \<in> set (host_starts vis)" using assms j(1) unfolding host_starts_def by simp
  show "s \<le> ?j" if "s \<in> set (host_starts vis)" "s \<le> i"
  proof (rule ccontr)
    assume "\<not> s \<le> ?j"
    then have "?j \<le> s - 1" "0 < s" by linarith+
    with that have "flowHost (vis ! s) = flowHost (vis ! i)" "flowHost (vis ! (s - 1)) = flowHost (vis ! i)"
      by (auto intro!: same)
    with that(1) \<open>0 < s\<close> show False unfolding host_starts_def by simp
  qed
qed

lemma jump_forward:
  assumes "i < length vis"
  shows "jump_once vis 1 i < length vis"
    and "filter (\<lambda>s. i < s) (host_starts vis) = [] \<Longrightarrow> jump_once vis 1 i = length vis - 1"
    and "filter (\<lambda>s. i < s) (host_starts vis) \<noteq> [] \<Longrightarrow> i < jump_once vis 1 i
      \<and> filter (\<lambda>s. i < s) (host_starts vis) = jump_once vis 1 i # filter (\<lambda>s. jump_once vis 1 i < s) (host_starts vis)"
proof -
  define e where "e = run_end vis (flowHost (vis ! i)) i"
  have e: "i \<le> e" "e < length vis" "\<And>k. i \<le> k \<Longrightarrow> k \<le> e \<Longrightarrow> flowHost (vis ! k) = flowHost (vis ! i)"
    "Suc e < length vis \<Longrightarrow> flowHost (vis ! Suc e) \<noteq> flowHost (vis ! i)"
    using run_end_spec [OF assms, of "flowHost (vis ! i)"] unfolding e_def [symmetric] by (blast, blast, metis le_less, blast)
  have j: "jump_once vis 1 i = (if Suc e < length vis then Suc e else e)"
    by (simp add: jump_once_def e_def Let_def)
  then show "jump_once vis 1 i < length vis" using e(2) by simp
  have none: "\<not> (i < s \<and> s \<le> e)" if "s \<in> set (host_starts vis)" for s
  proof
    assume s: "i < s \<and> s \<le> e"
    then have "flowHost (vis ! s) = flowHost (vis ! i)" "flowHost (vis ! (s - 1)) = flowHost (vis ! i)"
      by (auto intro!: e(3))
    with that s show False unfolding host_starts_def by simp
  qed
  have start: "Suc e \<in> set (host_starts vis)" if "Suc e < length vis"
    using that e(3) [OF e(1) order_refl] e(4) [OF that] unfolding host_starts_def by simp
  show "jump_once vis 1 i = length vis - 1" if "filter (\<lambda>s. i < s) (host_starts vis) = []"
  proof -
    have "\<not> Suc e < length vis"
      using start that e(1) unfolding filter_empty_conv by (meson le_imp_less_Suc)
    with e(2) j show ?thesis by simp
  qed
  assume "filter (\<lambda>s. i < s) (host_starts vis) \<noteq> []"
  then obtain s where "s \<in> set (host_starts vis)" "i < s" by (auto simp: filter_empty_conv)
  then have "Suc e < length vis" using none [of s] by (auto simp: host_starts_def)
  moreover have "filter (\<lambda>s. i < s) (host_starts vis) = Suc e # filter (\<lambda>s. Suc e < s) (host_starts vis)"
    using e(1) none by (intro filter_above [OF sorted_host_starts start]) (auto simp: calculation not_le less_Suc_eq_le)
  ultimately show "i < jump_once vis 1 i
      \<and> filter (\<lambda>s. i < s) (host_starts vis) = jump_once vis 1 i # filter (\<lambda>s. jump_once vis 1 i < s) (host_starts vis)"
    using j e(1) by simp
qed

lemma jump_back:
  assumes "i < length vis"
  shows "jump_once vis (- 1) i \<le> i"
    and "i = 0 \<Longrightarrow> jump_once vis (- 1) i = 0"
    and "0 < i \<Longrightarrow> jump_once vis (- 1) i < i
      \<and> filter (\<lambda>s. s < i) (host_starts vis) = filter (\<lambda>s. s < jump_once vis (- 1) i) (host_starts vis) @ [jump_once vis (- 1) i]"
proof -
  define j where "j = run_start vis (flowHost (vis ! i)) i"
  define p where "p = run_start vis (flowHost (vis ! (i - 1))) (i - 1)"
  have once: "jump_once vis (- 1) i = (if j = i \<and> 0 < j then p else j)"
    by (simp add: jump_once_def j_def p_def Let_def)
  have p: "p \<in> set (host_starts vis)" "\<And>s. s \<in> set (host_starts vis) \<Longrightarrow> s \<le> i - 1 \<Longrightarrow> s \<le> p" "p \<le> i - 1"
    using run_start_is_start [of "i - 1" vis] run_start_spec [of vis _ "i - 1"] assms by (auto simp: p_def)
  have j: "j \<in> set (host_starts vis)" "\<And>s. s \<in> set (host_starts vis) \<Longrightarrow> s \<le> i \<Longrightarrow> s \<le> j" "j \<le> i"
    using run_start_is_start [OF assms] run_start_spec [of vis _ i] by (auto simp: j_def)
  show "jump_once vis (- 1) i \<le> i" using once j(3) p(3) by auto
  show "i = 0 \<Longrightarrow> jump_once vis (- 1) i = 0" using once j(3) by auto
  assume i: "0 < i"
  let ?t = "jump_once vis (- 1) i"
  have t: "?t \<in> set (host_starts vis)" "?t < i" using once p(1,3) j(1,3) i by (auto simp: le_less)
  have "\<forall>x \<in> set (host_starts vis). \<not> (?t < x \<and> x < i)"
  proof (intro ballI notI)
    fix x assume x: "x \<in> set (host_starts vis)" "?t < x \<and> x < i"
    then have "x \<le> p" "x \<le> j" using p(2) [of x] j(2) [of x] by auto
    with x once show False by (auto split: if_splits)
  qed
  from filter_below [OF sorted_host_starts t this] t(2)
  show "?t < i \<and> filter (\<lambda>s. s < i) (host_starts vis) = filter (\<lambda>s. s < ?t) (host_starts vis) @ [?t]" by blast
qed

lemma jump_steps_forward:
  "i < length vis \<Longrightarrow> jump_steps vis 1 n i =
     (let ss = filter (\<lambda>s. i < s) (host_starts vis) in if n \<le> length ss then (i # ss) ! n else length vis - 1)"
proof (induction n arbitrary: i)
  case (Suc n)
  show ?case
  proof (cases "filter (\<lambda>s. i < s) (host_starts vis) = []")
    case True
    then have j: "jump_once vis 1 i = length vis - 1" by (rule jump_forward(2) [OF Suc.prems])
    have "filter (\<lambda>s. length vis - 1 < s) (host_starts vis) = []"
      by (auto simp: filter_empty_conv host_starts_def)
    then have "jump_steps vis 1 n (length vis - 1) = length vis - 1"
      using Suc.IH [of "length vis - 1"] Suc.prems by (cases n) (auto simp: Let_def)
    then show ?thesis using True j by (simp add: Let_def)
  next
    case False
    then have "i < jump_once vis 1 i"
      "filter (\<lambda>s. i < s) (host_starts vis) = jump_once vis 1 i # filter (\<lambda>s. jump_once vis 1 i < s) (host_starts vis)"
      using jump_forward(3) [OF Suc.prems] by blast+
    then show ?thesis using Suc.IH [OF jump_forward(1) [OF Suc.prems]] by (simp add: Let_def)
  qed
qed simp

lemma jump_steps_back:
  "i < length vis \<Longrightarrow> jump_steps vis (- 1) n i =
     (let ss = rev (filter (\<lambda>s. s < i) (host_starts vis)) in if n \<le> length ss then (i # ss) ! n else 0)"
proof (induction n arbitrary: i)
  case (Suc n)
  show ?case
  proof (cases "i = 0")
    case True
    then show ?thesis using jump_back(2) [OF Suc.prems True] by (simp add: Let_def)
  next
    case False
    then have "jump_once vis (- 1) i < i"
      "filter (\<lambda>s. s < i) (host_starts vis) = filter (\<lambda>s. s < jump_once vis (- 1) i) (host_starts vis) @ [jump_once vis (- 1) i]"
      using jump_back(3) [OF Suc.prems] by blast+
    then show ?thesis using Suc.IH [of "jump_once vis (- 1) i"] Suc.prems by (simp add: Let_def)
  qed
qed simp

lemma clampIndex_range: "0 < n \<Longrightarrow> 0 \<le> clampIndex i n \<and> clampIndex i n < n"
  by (simp add: clampIndex_def)

lemma clampIndex_id: "0 \<le> i \<Longrightarrow> i < n \<Longrightarrow> clampIndex i n = i"
  by (simp add: clampIndex_def)

text \<open>
  A jump by hosts lands where a cursor that counts the first rows of the runs of equal hosts
  would: forward on the count-th such row below the selection, or on the last row when there are
  fewer; backward on the count-th such row above it, or on the first row. It never wraps around
  and never leaves the list.
\<close>

lemma host_jump_counts_runs:
  assumes "0 \<le> i" and "i < int (length vis)" and "0 \<le> n"
  shows "hostJump vis i 1 n =
      (let ss = filter (\<lambda>s. nat i < s) (host_starts vis)
       in if nat n \<le> length ss then int ((nat i # ss) ! nat n) else int (length vis) - 1)
    \<and> hostJump vis i (- 1) n =
      (let ss = rev (filter (\<lambda>s. s < nat i) (host_starts vis))
       in if nat n \<le> length ss then int ((nat i # ss) ! nat n) else 0)"
proof -
  have i: "nat i < length vis" "nat (clampIndex i (int (length vis))) = nat i" "vis \<noteq> []"
    using assms by (auto simp: clampIndex_id)
  show ?thesis
    using jump_steps_forward [OF i(1), of "nat n"] jump_steps_back [OF i(1), of "nat n"] i
    by (auto simp: hostJump_def Let_def of_nat_diff)
qed

definition demo_hosts :: "flow list" where
  "demo_hosts = map (\<lambda>s. (NewFlow (replicate 6 0) ''c'' ''a:1'')\<lparr>f_SNI := s\<rparr>) [''a'', ''a'', ''b'', ''b'', ''c'']"

lemma host_jump_counts_runs_witness:
  "hostJump demo_hosts 1 1 2 = 4 \<and> hostJump demo_hosts 3 (- 1) 2 = 0"
proof -
  have "length demo_hosts = 5" by code_simp
  moreover have "host_starts demo_hosts = [0, 2, 4]" by code_simp
  ultimately show ?thesis
    using host_jump_counts_runs [of 1 demo_hosts 2] host_jump_counts_runs [of 3 demo_hosts 2] by (simp add: Let_def)
qed

end
