(* ===== verification/Detail.thy ===== *)
theory Detail
  imports TuiRows FlowText
begin

text \<open>
  \<^verbatim>\<open>internal/tui/detail.go\<close>: the detail view of a flow. Indenting, validating and
  unquoting JSON are those of \<^verbatim>\<open>encoding/json\<close>, a parameter; what a style emits is the \<open>ui\<close> parameter. \<^verbatim>\<open>None\<close> is
  the panic of a slice that ends past its text.
\<close>

record json_lib =
  jl_Indent :: "string \<Rightarrow> string option"
  jl_Valid :: "string \<Rightarrow> bool"
  jl_Unquote :: "string \<Rightarrow> string option"

definition jsonExpandStyle :: text_style where
  "jsonExpandStyle = NewStyle\<lparr>ts_Foreground := Some ''245'', ts_Italic := True\<rparr>"

definition maxEmbedDepth :: nat where "maxEmbedDepth = 6"

section \<open>Text made safe\<close>

definition upper_hex :: "nat \<Rightarrow> char" where
  "upper_hex n = (if n < 10 then char_of (48 + n) else char_of (55 + n))"

definition sanitize_rune :: "nat \<Rightarrow> string" where
  "sanitize_rune r =
     (if r = 10 then [newline]
      else if r \<le> 31 \<or> r = 127 then [backslash, CHR ''x'', upper_hex (r div 16), upper_hex (r mod 16)]
      else if 128 \<le> r \<and> r \<le> 159 then
        [backslash, CHR ''u'', CHR ''0'', CHR ''0'', upper_hex (r div 16), upper_hex (r mod 16)]
      else string_of_rune r)"

definition sanitizeExpandedText :: "string \<Rightarrow> string" where
  "sanitizeExpandedText s = concat (map sanitize_rune (runes s))"

definition heavy_bar :: string where "heavy_bar = [CHR 0xE2, CHR 0x94, CHR 0x83, CHR '' '']"
definition down_right_arrow :: string where "down_right_arrow = [CHR 0xE2, CHR 0x86, CHR 0xB3]"

definition markExpanded :: "ui \<Rightarrow> string \<Rightarrow> string \<Rightarrow> string \<Rightarrow> string" where
  "markExpanded U label content pre =
     ui_Render U jsonExpandStyle label @ [newline]
       @ join [newline] (map (\<lambda>ln. pre @ ui_Render U jsonExpandStyle heavy_bar @ ln) (split_on [newline] content))"

section \<open>JSON\<close>

definition blank :: "char \<Rightarrow> bool" where
  "blank c \<longleftrightarrow> c = CHR '' '' \<or> c = CHR 0x09"

definition dquote :: char where "dquote = CHR 0x22"

definition lineIndent :: "string \<Rightarrow> nat \<Rightarrow> string" where
  "lineIndent s pos =
     (let start = pos - length (takeWhile (\<lambda>c. c \<noteq> newline) (rev (take pos s))) in takeWhile blank (drop start s))"

text \<open>The end of the string whose first character is at \<open>j\<close>; an escape at the very end leads past the text.\<close>

function string_end :: "string \<Rightarrow> nat \<Rightarrow> nat" where
  "string_end s j =
     (if j < length s then
        (if s ! j = backslash then string_end s (j + 2)
         else if s ! j = dquote then j + 1
         else string_end s (j + 1))
      else j)"
  by pat_completeness auto
termination
  by (relation "measure (\<lambda>(s, j). length s - j)") auto

declare string_end.simps [simp del]

definition span_end :: "(char \<Rightarrow> bool) \<Rightarrow> string \<Rightarrow> nat \<Rightarrow> nat" where
  "span_end P s j = j + length (takeWhile P (drop j s))"

definition number_char :: "char \<Rightarrow> bool" where
  "number_char c \<longleftrightarrow> c = CHR ''-'' \<or> c = CHR ''+'' \<or> c = CHR ''.'' \<or> c = CHR ''e'' \<or> c = CHR ''E'' \<or> is_digit c"

definition lower_letter :: "char \<Rightarrow> bool" where
  "lower_letter c \<longleftrightarrow> CHR ''a'' \<le> c \<and> c \<le> CHR ''z''"

datatype json_token = StringToken | NumberToken | LiteralToken | PunctToken | ByteToken

definition json_token_at :: "string \<Rightarrow> nat \<Rightarrow> json_token \<times> nat" where
  "json_token_at s i =
     (let c = s ! i in
      if c = dquote then (StringToken, string_end s (i + 1))
      else if c = CHR ''-'' \<or> is_digit c then (NumberToken, span_end number_char s i)
      else if c = CHR ''t'' \<or> c = CHR ''f'' \<or> c = CHR ''n'' then (LiteralToken, span_end lower_letter s i)
      else if c \<in> {CHR ''{'', CHR ''}'', CHR ''['', CHR '']'', CHR '':'', CHR '',''} then (PunctToken, i + 1)
      else (ByteToken, i + 1))"

lemma string_end_ge: "j \<le> string_end s j"
proof (induction s j rule: string_end.induct)
  case (1 s j)
  then show ?case by (subst string_end.simps) auto
qed

lemma json_token_progress: "i < length s \<Longrightarrow> json_token_at s i = (k, j) \<Longrightarrow> i < j"
  using string_end_ge [of "i + 1" s] Cons_nth_drop_Suc [of i s, symmetric]
  by (auto simp: json_token_at_def Let_def span_end_def number_char_def lower_letter_def less_eq_char_def split: if_splits)

function colorize_from :: "ui \<Rightarrow> json_lib \<Rightarrow> string \<Rightarrow> bool \<Rightarrow> nat \<Rightarrow> nat \<Rightarrow> string option"
  and expandString :: "ui \<Rightarrow> json_lib \<Rightarrow> string \<Rightarrow> string \<Rightarrow> nat \<Rightarrow> string option option" where
  "colorize_from U J s expand depth i =
     (if i < length s then
        (case json_token_at s i of (kind, j) \<Rightarrow>
           if length s < j then None
           else (let tok = take (j - i) (drop i s); S = ui_styles U; piece =
              (case kind of
                 StringToken \<Rightarrow>
                   (let k = span_end blank s j; safe = sanitizeExpandedText tok in
                    if k < length s \<and> s ! k = CHR '':'' then Some (ui_Render U (sy_jsonKey S) safe)
                    else if expand then
                      (case expandString U J tok (lineIndent s i) depth of
                         None \<Rightarrow> None
                       | Some (Some e) \<Rightarrow> Some e
                       | Some None \<Rightarrow> Some (ui_Render U (sy_jsonStr S) safe))
                    else Some (ui_Render U (sy_jsonStr S) safe))
               | NumberToken \<Rightarrow> Some (ui_Render U (sy_jsonNum S) tok)
               | LiteralToken \<Rightarrow> Some (ui_Render U (sy_jsonLit S) tok)
               | PunctToken \<Rightarrow> Some (ui_Render U (sy_jsonPunct S) tok)
               | ByteToken \<Rightarrow> Some tok)
            in case piece of
                 None \<Rightarrow> None
               | Some p \<Rightarrow> map_option (\<lambda>rest. p @ rest) (colorize_from U J s expand depth j)))
      else Some [])"
| "expandString U J raw pre depth =
     (case jl_Unquote J raw of
        None \<Rightarrow> Some None
      | Some decoded \<Rightarrow>
          (let trimmed = trim_space decoded;
               buf = (if depth < maxEmbedDepth \<and> trimmed \<noteq> [] \<and> hd trimmed \<in> {CHR ''{'', CHR ''[''} \<and> jl_Valid J trimmed
                      then jl_Indent J trimmed else None)
           in case buf of
                Some b \<Rightarrow> map_option (\<lambda>inner. Some (markExpanded U (down_right_arrow @ '' expanded JSON'') inner pre))
                            (colorize_from U J b True (depth + 1) 0)
              | None \<Rightarrow>
                  if contains decoded [newline] then
                    (let d = sanitizeExpandedText (replace_all [CHR 0x0D, newline] [newline] decoded)
                     in Some (Some (markExpanded U (down_right_arrow @ '' expanded (escaped '' @ [backslash] @ ''n)'')
                          (join [newline] (map (ui_Render U (sy_jsonStr (ui_styles U))) (split_on [newline] d))) pre)))
                  else Some None))"
  by pat_completeness auto
termination
  by (relation "inv_image (less_than <*lex*> less_than) (\<lambda>x. case x of
        Inl (U, J, s, expand, depth, i) \<Rightarrow> (2 * (maxEmbedDepth - depth) + 1, length s - i)
      | Inr (U, J, raw, pre, depth) \<Rightarrow> (2 * (maxEmbedDepth - depth), 0))")
    (auto dest!: json_token_progress [OF _ sym] split: if_splits)

declare colorize_from.simps [simp del] expandString.simps [simp del]

definition colorizeJSON :: "ui \<Rightarrow> json_lib \<Rightarrow> string \<Rightarrow> bool \<Rightarrow> nat \<Rightarrow> string option" where
  "colorizeJSON U J s expand depth = colorize_from U J s expand depth 0"

definition prettyJSON :: "ui \<Rightarrow> json_lib \<Rightarrow> bytes \<Rightarrow> bool \<Rightarrow> string option option" where
  "prettyJSON U J body expand =
     (let trimmed = trim_space (str_of body) in
      if trimmed = [] \<or> hd trimmed \<notin> {CHR ''{'', CHR ''[''} then Some None
      else case jl_Indent J trimmed of
          None \<Rightarrow> Some None
        | Some buf \<Rightarrow> map_option Some (colorizeJSON U J buf expand 0))"

section \<open>Other bodies\<close>

definition isMostlyPrintable :: "bytes \<Rightarrow> bool" where
  "isMostlyPrintable b =
     (if b = [] then True else length (filter printable_byte b) * 100 div length b \<ge> 85)"

fun hex_digits :: "nat \<Rightarrow> nat \<Rightarrow> string" where
  "hex_digits 0 n = []"
| "hex_digits (Suc w) n = hex_digits w (n div 16) @ [hex_digit (n mod 16)]"

text \<open>\<open>%08x\<close> of an offset below 2^32, which every body shown is: at most 8192 bytes are.\<close>

definition hex_line :: "nat \<Rightarrow> bytes \<Rightarrow> string" where
  "hex_line i row =
     hex_digits 8 i @ ''  ''
       @ concat (map (\<lambda>w. hex_digits 2 (unat w) @ '' '') row) @ replicate (3 * (16 - length row)) CHR '' ''
       @ '' |'' @ map (\<lambda>w. if w < 32 \<or> 127 \<le> w then CHR ''.'' else char_of (unat w)) row @ ''|'' @ [newline]"

function hex_lines :: "nat \<Rightarrow> bytes \<Rightarrow> string" where
  "hex_lines i b = (if b = [] then [] else hex_line i (take 16 b) @ hex_lines (i + 16) (drop 16 b))"
  by pat_completeness auto
termination
  by (relation "measure (\<lambda>(i, b). length b)") auto

declare hex_lines.simps [simp del]

definition hexDump :: "bytes \<Rightarrow> string" where
  "hexDump b = hex_lines 0 b"

definition bodyPreview :: "ui \<Rightarrow> json_lib \<Rightarrow> bytes \<Rightarrow> bool \<Rightarrow> string option" where
  "bodyPreview U J body expand =
     (let b = take 8192 body;
          s = (if isMostlyPrintable b then str_of b else hexDump b);
          plain = (if 8192 < length body
                   then s @ [newline] @ ellipsis @ '' ('' @ show_nat (length body) @ '' bytes total)'' else s)
      in if length body \<le> 256 * 1024 then
           (case prettyJSON U J body expand of
              None \<Rightarrow> None | Some (Some pretty) \<Rightarrow> Some pretty | Some None \<Rightarrow> Some plain)
         else Some plain)"

definition detail_indent :: "string \<Rightarrow> string \<Rightarrow> string" where
  "detail_indent s pre = join [newline] (map (\<lambda>ln. pre @ ln) (split_on [newline] (trim_right_set [newline] s)))"

section \<open>The view\<close>

definition renderMessage :: "ui \<Rightarrow> json_lib \<Rightarrow> message \<Rightarrow> bool \<Rightarrow> string option" where
  "renderMessage U J m expand =
     (let heads = concat (map (\<lambda>k. concat (map (\<lambda>v. k @ '': '' @ v @ [newline]) (gget (m_Headers m) k []))) (sorted_gkeys (m_Headers m)));
          metas = concat (map (\<lambda>k. if k \<in> {''method'', ''path'', ''status''} then []
            else middle_dot @ '' '' @ k @ '': '' @ gget (m_Meta m) k [] @ [newline]) (sorted_gkeys (m_Meta m)))
      in if m_Body m = [] then Some (heads @ metas)
         else map_option (\<lambda>p. heads @ metas @ [newline] @ p @ [newline]) (bodyPreview U J (m_Body m) expand))"

fun detail_messages :: "ui \<Rightarrow> json_lib \<Rightarrow> bool \<Rightarrow> nat \<Rightarrow> message list \<Rightarrow> string option" where
  "detail_messages U J expand i [] = Some []"
| "detail_messages U J expand i (m # ms) =
     (if 300 \<le> i then Some (ellipsis @ '' '' @ show_nat (length (m # ms)) @ '' more'' @ [newline])
      else
        (let head = direction_string (m_Direction m) @ '' '' @ m_Summary m @ [newline] in
         case (if m_Body m = [] then Some []
               else map_option (\<lambda>p. detail_indent p ''    '' @ [newline]) (bodyPreview U J (m_Body m) expand)) of
           None \<Rightarrow> None
         | Some b \<Rightarrow> map_option (\<lambda>rest. head @ b @ rest) (detail_messages U J expand (i + 1) ms)))"

definition dashes2 :: string where "dashes2 = [CHR 0xE2, CHR 0x94, CHR 0x80, CHR 0xE2, CHR 0x94, CHR 0x80]"

definition detail_section :: "ui \<Rightarrow> string \<Rightarrow> string" where
  "detail_section U title = [newline] @ ui_Render U (sy_section (ui_styles U)) (dashes2 @ '' '' @ title @ '' '' @ dashes2) @ [newline]"

definition detail_part :: "ui \<Rightarrow> json_lib \<Rightarrow> string \<Rightarrow> message option \<Rightarrow> bool \<Rightarrow> string option" where
  "detail_part U J title mo expand = (case mo of
     None \<Rightarrow> Some []
   | Some m \<Rightarrow> map_option (\<lambda>t. detail_section U title @ t) (renderMessage U J m expand))"

definition renderFlowDetail :: "ui \<Rightarrow> json_lib \<Rightarrow> flow \<Rightarrow> bool \<Rightarrow> string option" where
  "renderFlowDetail U J f expand =
     (let top = f_Protocol f @ ''  '' @ Title f @ [newline] @ ''server '' @ f_ServerAddr f @ ''   sni '' @ dash (f_SNI f)
            @ ''   secure '' @ show_bool (f_Secure f) @ ''   status '' @ status_string (f_Status f) @ [newline]
            @ (case f_Err f of None \<Rightarrow> [] | Some e \<Rightarrow> ''error: '' @ e @ [newline])
      in case (detail_part U J ''REQUEST'' (f_Request f) expand, detail_part U J ''RESPONSE'' (f_Response f) expand,
               detail_messages U J expand 0 (f_Messages f)) of
           (Some a, Some b, Some c) \<Rightarrow>
             Some (top @ a @ b @ (if f_Messages f = [] then []
               else detail_section U (''MESSAGES ('' @ show_nat (length (f_Messages f)) @ '')'') @ c))
         | _ \<Rightarrow> None)"

definition wrapDetail :: "ui \<Rightarrow> json_lib \<Rightarrow> flow \<Rightarrow> int \<Rightarrow> string option" where
  "wrapDetail U J f width =
     (let w = (if width < 1 then 80 else width) in map_option (\<lambda>t. ui_Hardwrap U t w) (renderFlowDetail U J f True))"

section \<open>Properties\<close>

subsection \<open>Text a terminal only prints\<close>

text \<open>A rune that moves no cursor and starts no escape sequence: no C0 or C1 control but the line feed, no DEL.\<close>

definition shown_rune :: "nat \<Rightarrow> bool" where
  "shown_rune r \<longleftrightarrow> r = 10 \<or> (32 \<le> r \<and> r \<noteq> 127 \<and> \<not> (128 \<le> r \<and> r \<le> 159))"

definition clean :: "string \<Rightarrow> bool" where
  "clean s \<longleftrightarrow> (\<exists>rs. s = string_of_runes rs \<and> (\<forall>r \<in> set rs. valid_rune r \<and> shown_rune r))"

definition plain_char :: "char \<Rightarrow> bool" where
  "plain_char c \<longleftrightarrow> c = newline \<or> (32 \<le> (of_char c :: nat) \<and> (of_char c :: nat) < 127)"

lemma clean_runes: "clean s \<Longrightarrow> r \<in> set (runes s) \<Longrightarrow> shown_rune r"
  by (auto simp: clean_def runes_string_of_runes)

lemma clean_Nil [simp]: "clean []"
  by (auto simp: clean_def string_of_runes_def intro: exI [of _ "[]"])

lemma clean_append: "clean a \<Longrightarrow> clean b \<Longrightarrow> clean (a @ b)"
  unfolding clean_def by (metis Un_iff concat_append map_append set_append string_of_runes_def)

lemma clean_concat: "\<forall>x \<in> set xs. clean x \<Longrightarrow> clean (concat xs)"
  by (induction xs) (auto simp: clean_append)

lemma string_of_ascii_rune: "n < 128 \<Longrightarrow> string_of_rune n = [char_of n]"
  by (simp add: string_of_rune_def uncodes_def encode_rune.simps)

lemma clean_rune: "valid_rune r \<Longrightarrow> shown_rune r \<Longrightarrow> clean (string_of_rune r)"
  unfolding clean_def by (rule exI [of _ "[r]"]) (simp add: string_of_runes_def)

lemma clean_plain: "list_all plain_char s \<Longrightarrow> clean s"
proof (induction s)
  case (Cons c s)
  from Cons.prems have c: "(of_char c :: nat) < 128" "valid_rune (of_char c)" "shown_rune (of_char c)"
    by (auto simp: plain_char_def shown_rune_def valid_rune_def)
  then have "clean [c]" using clean_rune string_of_ascii_rune [OF c(1)] by (metis char_of_char)
  from clean_append [OF this] Cons show ?case by simp
qed simp

lemma upper_hex_plain: "n < 16 \<Longrightarrow> plain_char (upper_hex n)"
  by (auto simp: plain_char_def upper_hex_def)

lemma sanitize_rune_clean:
  assumes "valid_rune r"
  shows "clean (sanitize_rune r)"
proof (cases "r = 10 \<or> r \<le> 31 \<or> r = 127 \<or> 128 \<le> r \<and> r \<le> 159")
  case True
  then have "list_all plain_char (sanitize_rune r)"
    by (auto simp: sanitize_rune_def upper_hex_plain) (simp_all add: plain_char_def)
  then show ?thesis by (rule clean_plain)
next
  case False
  then have "sanitize_rune r = string_of_rune r" "shown_rune r" by (auto simp: sanitize_rune_def shown_rune_def)
  with assms clean_rune show ?thesis by simp
qed

lemma sanitize_clean: "clean (sanitizeExpandedText s)"
  unfolding sanitizeExpandedText_def by (rule clean_concat) (auto dest: valid_runes sanitize_rune_clean)

lemma newline_codes: "newline \<in> set s \<longleftrightarrow> 10 \<in> set (codes s)"
proof -
  have "(of_char newline :: nat) = 10" by simp
  then show ?thesis unfolding codes_def by (metis (no_types, lifting) image_iff list.set_map of_char_eq_iff)
qed

lemma newline_rune: "valid_rune r \<Longrightarrow> newline \<in> set (string_of_rune r) \<longleftrightarrow> r = 10"
  by (auto simp: newline_codes codes_string_of_rune encode_rune.simps [of r] valid_rune_def)

lemma string_of_newline: "string_of_rune 10 = [newline]"
  by (simp add: string_of_ascii_rune char_of_def bit_0)

lemma heavy_bar_rune: "heavy_bar = string_of_rune 9475 @ '' ''"
  by (simp add: heavy_bar_def string_of_rune_def uncodes_def encode_rune.simps [of 9475] valid_rune_def char_of_def bit_0)

lemma clean_heavy_bar: "clean heavy_bar"
proof -
  have v: "valid_rune 9475" "shown_rune 9475" by (simp_all add: valid_rune_def shown_rune_def)
  have "clean '' ''" by (simp add: clean_plain plain_char_def)
  with clean_rune [OF v] show ?thesis unfolding heavy_bar_rune by (rule clean_append)
qed

lemma down_right_arrow_rune: "down_right_arrow = string_of_rune 8627"
  by (simp add: down_right_arrow_def string_of_rune_def uncodes_def encode_rune.simps [of 8627] valid_rune_def char_of_def bit_0)

lemma clean_arrow: "list_all plain_char t \<Longrightarrow> clean (down_right_arrow @ t)"
  unfolding down_right_arrow_rune
  by (intro clean_append clean_rune clean_plain) (simp_all add: valid_rune_def shown_rune_def)

lemma split_on_prefix:
  "c \<notin> set p \<Longrightarrow> split_on [c] (p @ s) = (p @ hd (split_on [c] s)) # tl (split_on [c] s)"
  by (induction p) auto

lemma clean_split: "clean s \<Longrightarrow> l \<in> set (split_on [newline] s) \<Longrightarrow> clean l"
proof -
  assume "clean s" "l \<in> set (split_on [newline] s)"
  then obtain rs where rs: "s = string_of_runes rs" "\<forall>r \<in> set rs. valid_rune r \<and> shown_rune r"
    by (auto simp: clean_def)
  from rs(2) have "\<forall>l \<in> set (split_on [newline] (string_of_runes rs)). clean l"
  proof (induction rs)
    case Nil
    show ?case by (simp add: string_of_runes_def)
  next
    case (Cons r rs)
    let ?rest = "string_of_runes rs"
    have split: "string_of_runes (r # rs) = string_of_rune r @ ?rest" by (simp add: string_of_runes_def)
    have IH: "\<forall>l \<in> set (split_on [newline] ?rest). clean l" using Cons by simp
    show ?case
    proof (cases "r = 10")
      case True
      then have "string_of_rune r @ ?rest = [] @ newline # ?rest" by (simp add: string_of_newline)
      then show ?thesis unfolding split using IH split_on_char_app [of newline "[]" ?rest] by simp
    next
      case False
      then have "newline \<notin> set (string_of_rune r)" using newline_rune [of r] Cons.prems by simp
      from split_on_prefix [OF this, of ?rest] IH
      have "set (split_on [newline] (string_of_rune r @ ?rest))
          = insert (string_of_rune r @ hd (split_on [newline] ?rest)) (set (tl (split_on [newline] ?rest)))" by simp
      moreover have "clean (string_of_rune r @ hd (split_on [newline] ?rest))"
        using clean_rune Cons.prems IH by (intro clean_append) (auto simp: hd_in_set)
      ultimately show ?thesis unfolding split using IH by (auto dest: list.set_sel(2) [rotated])
    qed
  qed
  with rs(1) \<open>l \<in> _\<close> show "clean l" by simp
qed

subsection \<open>What the JSON view prints\<close>

text \<open>
  What the grammar of JSON gives about an indented document: its bytes below the blank are line feeds; a string ends before the document does; and a byte that starts no token is printable ASCII or a line feed.
\<close>

function json_outer :: "string \<Rightarrow> nat \<Rightarrow> bool" where
  "json_outer s i =
     (if i < length s then
        (case json_token_at s i of (kind, j) \<Rightarrow> j \<le> length s
          \<and> (kind = ByteToken \<longrightarrow> plain_char (s ! i)) \<and> json_outer s j)
      else True)"
  by pat_completeness auto
termination
proof (relation "measure (\<lambda>(s, i). length s - i)", goal_cases)
  case (2 s i k j)
  then show ?case using json_token_progress [OF 2(1) 2(2) [symmetric]] by (simp add: diff_less_mono2)
qed simp

declare json_outer.simps [simp del]

definition json_text :: "string \<Rightarrow> bool" where
  "json_text s \<longleftrightarrow> (\<forall>c \<in> set s. (of_char c :: nat) < 32 \<longrightarrow> c = newline) \<and> json_outer s 0"

definition json_ok :: "json_lib \<Rightarrow> bool" where
  "json_ok J \<longleftrightarrow> (\<forall>s t. jl_Indent J s = Some t \<longrightarrow> json_text t)"

lemma clean_blanks:
  assumes "\<forall>c \<in> set s. (of_char c :: nat) < 32 \<longrightarrow> c = newline"
  shows "clean (lineIndent s i)"
proof (rule clean_plain, unfold list_all_iff, rule ballI)
  fix c assume "c \<in> set (lineIndent s i)"
  then have "blank c" "c \<in> set s" by (auto simp: lineIndent_def Let_def dest: set_takeWhileD in_set_dropD)
  with assms show "plain_char c" by (auto simp: blank_def plain_char_def)
qed

lemma clean_token:
  assumes "json_token_at s i = (kind, j)" and "i < length s" and "kind \<noteq> StringToken"
    and "kind = ByteToken \<longrightarrow> plain_char (s ! i)"
  shows "clean (take (j - i) (drop i s))"
proof -
  have d: "drop i s = s ! i # drop (i + 1) s" using Cons_nth_drop_Suc [OF assms(2)] by simp
  have span: "clean (take (span_end P s i - i) (drop i s))" if "\<And>c. P c \<Longrightarrow> plain_char c" for P
    using that by (auto simp: span_end_def takeWhile_eq_take [symmetric] list_all_iff intro!: clean_plain dest!: set_takeWhileD)
  have "plain_char c" if "number_char c" for c
    using that by (auto simp: number_char_def is_digit_def plain_char_def)
  note num = span [of number_char, OF this]
  have "plain_char c" if "lower_letter c" for c
    using that by (auto simp: lower_letter_def plain_char_def less_eq_char_def)
  note lit = span [of lower_letter, OF this]
  have one: "clean (take (j - i) (drop i s))" if "j = i + 1" "plain_char (s ! i)"
    using that by (simp add: d clean_plain)
  show ?thesis
    using assms num lit one
    by (auto simp: json_token_at_def Let_def split: if_splits) (auto simp: plain_char_def)
qed

text \<open>
  The contract between the renderers and the screen: texts that may be sent to it. It holds clean text and
  what styles make of it, and is closed under joining and under splitting into lines.
\<close>

locale screen_text =
  fixes X :: "string \<Rightarrow> bool" and U :: ui
  assumes X_text: "clean t \<Longrightarrow> X t"
    and X_styled: "clean t \<Longrightarrow> X (ui_Render U st t)"
    and X_joined: "X a \<Longrightarrow> X b \<Longrightarrow> X (a @ b)"
    and X_lines: "X s \<Longrightarrow> l \<in> set (split_on [newline] s) \<Longrightarrow> X l"
begin

lemma X_join: "\<forall>x \<in> set xs. X x \<Longrightarrow> X (join [newline] xs)"
proof (induction xs rule: induct_list012)
  case (3 x y zs)
  have "X [newline]" by (rule X_text) (simp add: clean_plain plain_char_def)
  moreover have "X x" "X (join [newline] (y # zs))" using 3 by auto
  ultimately have "X (x @ [newline] @ join [newline] (y # zs))" by (intro X_joined)
  then show ?case by simp
qed (auto simp: X_text)

lemma X_marked:
  assumes "X content" and "clean pre" and "clean label"
  shows "X (markExpanded U label content pre)"
proof -
  have nl: "X [newline]" by (rule X_text) (simp add: clean_plain plain_char_def)
  have marked: "X (pre @ ui_Render U jsonExpandStyle heavy_bar @ ln)" if "ln \<in> set (split_on [newline] content)" for ln
    by (rule X_joined [OF X_text [OF assms(2)] X_joined [OF X_styled [OF clean_heavy_bar] X_lines [OF assms(1) that]]])
  have "\<forall>x \<in> set (map (\<lambda>ln. pre @ ui_Render U jsonExpandStyle heavy_bar @ ln) (split_on [newline] content)). X x"
    using marked by simp
  from X_join [OF this] show ?thesis
    unfolding markExpanded_def by (rule X_joined [OF X_styled [OF assms(3)] X_joined [OF nl]])
qed

lemma json_view_printable:
  "U' = U \<Longrightarrow> json_ok J \<Longrightarrow> (\<forall>c \<in> set s. (of_char c :: nat) < 32 \<longrightarrow> c = newline) \<Longrightarrow> json_outer s i \<Longrightarrow>
      \<exists>t. colorize_from U' J s expand depth i = Some t \<and> X t"
  and "U' = U \<Longrightarrow> json_ok J \<Longrightarrow> clean pre \<Longrightarrow>
      \<exists>e. expandString U' J raw pre depth = Some e \<and> (\<forall>t. e = Some t \<longrightarrow> X t)"
proof (induction U' J s expand depth i and U' J raw pre depth rule: colorize_from_expandString.induct)
  case (1 U' J s expand depth i)
  show ?case
  proof (cases "i < length s")
    case True
    obtain kind j where tok: "json_token_at s i = (kind, j)" by fastforce
    from "1.prems"(4) True tok have j: "j \<le> length s" "kind = ByteToken \<longrightarrow> plain_char (s ! i)" "json_outer s j"
      by (simp_all add: json_outer.simps [of s i])
    define safe where "safe = sanitizeExpandedText (take (j - i) (drop i s))"
    define piece where "piece =
       (case kind of
          StringToken \<Rightarrow>
            (let k = span_end blank s j; safe = sanitizeExpandedText (take (j - i) (drop i s)) in
             if k < length s \<and> s ! k = CHR '':'' then Some (ui_Render U' (sy_jsonKey (ui_styles U')) safe)
             else if expand then
               (case expandString U' J (take (j - i) (drop i s)) (lineIndent s i) depth of
                  None \<Rightarrow> None
                | Some (Some e) \<Rightarrow> Some e
                | Some None \<Rightarrow> Some (ui_Render U' (sy_jsonStr (ui_styles U')) safe))
             else Some (ui_Render U' (sy_jsonStr (ui_styles U')) safe))
        | NumberToken \<Rightarrow> Some (ui_Render U' (sy_jsonNum (ui_styles U')) (take (j - i) (drop i s)))
        | LiteralToken \<Rightarrow> Some (ui_Render U' (sy_jsonLit (ui_styles U')) (take (j - i) (drop i s)))
        | PunctToken \<Rightarrow> Some (ui_Render U' (sy_jsonPunct (ui_styles U')) (take (j - i) (drop i s)))
        | ByteToken \<Rightarrow> Some (take (j - i) (drop i s)))"
    have styled: "X (ui_Render U' st t)" if "clean t" for st t
      using X_styled [OF that] "1.prems"(1) by simp
    have safe: "clean safe" unfolding safe_def by (rule sanitize_clean)
    have piece: "\<exists>p. piece = Some p \<and> X p"
    proof (cases "kind = StringToken")
      case False
      with clean_token [OF tok True False j(2)] show ?thesis
        by (cases kind) (auto simp: piece_def intro: X_text styled)
    next
      case str: True
      show ?thesis
      proof (cases "\<not> (span_end blank s j < length s \<and> s ! span_end blank s j = CHR '':'') \<and> expand")
        case True
        have "\<exists>e. expandString U' J (take (j - i) (drop i s)) (lineIndent s i) depth = Some e \<and> (\<forall>t. e = Some t \<longrightarrow> X t)"
          using "1.IH"(1) [OF \<open>i < length s\<close> tok [symmetric] _ refl refl str refl refl] True j(1)
            "1.prems"(1,2) clean_blanks [OF "1.prems"(3)] by fastforce
        then obtain e where "expandString U' J (take (j - i) (drop i s)) (lineIndent s i) depth = Some e" "\<forall>t. e = Some t \<longrightarrow> X t"
          by blast
        with True str safe show ?thesis
          by (auto simp: piece_def Let_def safe_def intro: styled split: option.splits)
      next
        case False
        with str safe show ?thesis by (auto simp: piece_def Let_def safe_def intro: styled)
      qed
    qed
    then obtain p where p: "piece = Some p" "X p" by blast
    have "\<exists>t. colorize_from U' J s expand depth j = Some t \<and> X t"
      using j(1) by (intro "1.IH"(2) [OF True tok [symmetric] _ refl refl piece_def p(1) "1.prems"(1-3) j(3)]) simp
    then obtain t where t: "colorize_from U' J s expand depth j = Some t" "X t" by blast
    have "colorize_from U' J s expand depth i = Some (p @ t)"
      using True tok j(1) p(1) t(1) by (simp add: colorize_from.simps [of U' J s expand depth i] piece_def Let_def)
    with p(2) t(2) X_joined show ?thesis by blast
  next
    case False
    then show ?thesis by (simp add: colorize_from.simps X_text)
  qed
next
  case (2 U' J raw pre depth)
  show ?case
  proof (cases "jl_Unquote J raw")
    case None
    then show ?thesis by (simp add: expandString.simps)
  next
    case (Some decoded)
    define buf where "buf = (if depth < maxEmbedDepth \<and> trim_space decoded \<noteq> []
      \<and> hd (trim_space decoded) \<in> {CHR ''{'', CHR ''[''} \<and> jl_Valid J (trim_space decoded)
      then jl_Indent J (trim_space decoded) else None)"
    have e: "expandString U' J raw pre depth =
      (case buf of
         Some b \<Rightarrow> map_option (\<lambda>inner. Some (markExpanded U' (down_right_arrow @ '' expanded JSON'') inner pre))
                     (colorize_from U' J b True (depth + 1) 0)
       | None \<Rightarrow>
           if contains decoded [newline] then
             Some (Some (markExpanded U' (down_right_arrow @ '' expanded (escaped '' @ [backslash] @ ''n)'')
               (join [newline] (map (ui_Render U' (sy_jsonStr (ui_styles U')))
                 (split_on [newline] (sanitizeExpandedText (replace_all [CHR 0x0D, newline] [newline] decoded))))) pre))
           else Some None)"
      by (simp only: expandString.simps Some option.case Let_def buf_def)
    show ?thesis
    proof (cases buf)
      case None
      let ?d = "sanitizeExpandedText (replace_all [CHR 0x0D, newline] [newline] decoded)"
      have "\<forall>x \<in> set (map (ui_Render U (sy_jsonStr (ui_styles U))) (split_on [newline] ?d)). X x"
        using clean_split [OF sanitize_clean] X_styled by auto
      note content = X_join [OF this]
      have "clean (down_right_arrow @ '' expanded (escaped '' @ [backslash] @ ''n)'')"
        by (rule clean_arrow) (simp add: plain_char_def)
      from X_marked [OF content "2.prems"(3) this]
      have "X (markExpanded U (down_right_arrow @ '' expanded (escaped '' @ [backslash] @ ''n)'')
          (join [newline] (map (ui_Render U (sy_jsonStr (ui_styles U))) (split_on [newline] ?d))) pre)" .
      with e None "2.prems"(1) show ?thesis by simp
    next
      case b: (Some b)
      then have "jl_Indent J (trim_space decoded) = Some b" by (auto simp: buf_def split: if_splits)
      then have "json_text b" using "2.prems"(2) by (auto simp: json_ok_def)
      then obtain inner where inner: "colorize_from U' J b True (depth + 1) 0 = Some inner" "X inner"
        using "2.IH" [OF Some refl buf_def b "2.prems"(1,2)] by (auto simp: json_text_def)
      have "X (markExpanded U (down_right_arrow @ '' expanded JSON'') inner pre)"
        by (rule X_marked [OF inner(2) "2.prems"(3)], rule clean_arrow) (simp add: plain_char_def)
      with e b inner(1) "2.prems"(1) show ?thesis by simp
    qed
  qed
qed

end

text \<open>On a terminal without colors, styles leave the text as it is, and the view sends clean text only.\<close>

definition no_color :: "styles \<Rightarrow> ui" where
  "no_color S = \<lparr>ui_styles = S, ui_Render = (\<lambda>_ t. t), ui_Truncate = (\<lambda>s w e. truncate_text s w), ui_Hardwrap = (\<lambda>s w. s)\<rparr>"

interpretation bare: screen_text clean "no_color S" for S
  by unfold_locales (auto simp: no_color_def clean_append clean_split)

text \<open>
  With colors, it sends clean text and SGR sequences, which select colors and
  attributes and nothing else. The contract of Lip Gloss: a style wraps clean text in such sequences.
\<close>

definition sgr_sequence :: "string \<Rightarrow> bool" where
  "sgr_sequence a \<longleftrightarrow> (\<exists>ps. a = [CHR 0x1B, CHR ''[''] @ ps @ ''m'' \<and> list_all (\<lambda>c. is_digit c \<or> c = CHR '';'') ps)"

inductive colored :: "string \<Rightarrow> bool" where
  colored_text: "clean t \<Longrightarrow> colored t"
| colored_sgr: "sgr_sequence a \<Longrightarrow> colored a"
| colored_append: "colored a \<Longrightarrow> colored b \<Longrightarrow> colored (a @ b)"

lemma split_on_append:
  "split_on [c] (a @ b) = butlast (split_on [c] a) @ (last (split_on [c] a) @ hd (split_on [c] b)) # tl (split_on [c] b)"
proof (induction a)
  case (Cons x a)
  obtain y ys where "split_on [c] a = y # ys" using split_on_not_Nil by (metis list.exhaust)
  with Cons show ?case by (cases ys) auto
qed simp

lemma colored_split: "colored s \<Longrightarrow> \<forall>l \<in> set (split_on [newline] s). colored l"
proof (induction rule: colored.induct)
  case (colored_text t)
  then show ?case by (auto intro: colored.colored_text clean_split)
next
  case (colored_sgr a)
  then have "newline \<notin> set a" by (force simp: sgr_sequence_def list_all_iff is_digit_def)
  with colored_sgr show ?case by (simp add: split_on_no_sep colored.colored_sgr)
next
  case (colored_append a b)
  have "colored (last (split_on [newline] a) @ hd (split_on [newline] b))"
    using colored_append.IH by (intro colored.colored_append) (simp_all add: hd_in_set)
  with colored_append.IH show ?case
    by (auto simp: split_on_append dest: in_set_butlastD list.set_sel(2) [rotated])
qed


definition demo_json :: json_lib where
  "demo_json = \<lparr>jl_Indent = (\<lambda>s. if s = ''[1]'' then Some s else None), jl_Valid = (\<lambda>s. s = ''[1]''), jl_Unquote = (\<lambda>_. None)\<rparr>"


text \<open>
  The other bodies are not treated so: a mostly printable one that is not JSON is shown as it came, escape sequences included.
\<close>

lemma text_body_reaches_terminal:
  assumes "jl_Indent J = (\<lambda>_. None)"
  shows "bodyPreview U J (bytes_of (CHR 0x1B # '']0;pwned'' @ [CHR 0x07] @ '' hello world'')) expand
    = Some (CHR 0x1B # '']0;pwned'' @ [CHR 0x07] @ '' hello world'')"
proof -
  let ?t = "CHR 0x1B # '']0;pwned'' @ [CHR 0x07] @ '' hello world''"
  have "isMostlyPrintable (take 8192 (bytes_of ?t))" by code_simp
  then show ?thesis
    by (simp add: bodyPreview_def prettyJSON_def assms Let_def del: bytes_of_append) 
qed

section \<open>The hex dump\<close>

lemma length_hex_digits [simp]: "length (hex_digits w n) = w"
  by (induction w arbitrary: n) simp_all

text \<open>Each line of a hex dump has its sixteen columns, so the text column of every line starts at the same place.\<close>

lemma hex_line_width: "length row \<le> 16 \<Longrightarrow> length (hex_line i row) = 8 + 2 + 48 + 2 + length row + 2"
proof -
  assume "length row \<le> 16"
  have "length (concat (map (\<lambda>w. hex_digits 2 (unat w) @ '' '') row)) = 3 * length row"
    by (induction row) simp_all
  with \<open>length row \<le> 16\<close> show ?thesis by (simp add: hex_line_def)
qed

end
