(* ===== verification/TuiHelp.thy ===== *)
theory TuiHelp
  imports TuiRows Keymap
begin

text \<open>
  \<^verbatim>\<open>internal/tui/help.go\<close> and the table of \<^verbatim>\<open>command.go\<close>: the commands with their spellings, and
  the help overlay, built from the live keymap and windowed to the terminal. The frame Lip Gloss draws
  around the overlay is a parameter.
\<close>

section \<open>The command table\<close>

record command =
  cd_name :: string
  cd_aliases :: "string list"
  cd_args :: string
  cd_desc :: string

definition cmd :: "string \<Rightarrow> string list \<Rightarrow> string \<Rightarrow> string \<Rightarrow> command" where
  "cmd name aliases args desc = \<lparr>cd_name = name, cd_aliases = aliases, cd_args = args, cd_desc = desc\<rparr>"

definition commands :: "command list" where
  "commands =
     [cmd ''filter'' [''f''] ''<query>'' ''set the flow filter; no argument clears it'',
      cmd ''sort'' [] ''none|status|size'' ''sort the list'',
      cmd ''export'' [] ''har|flagged'' ''WRITE flows to disk: capture.har or flagged.txt'',
      cmd ''har'' [] [] ''export every flow as HAR (same as :export har)'',
      cmd ''flagged'' [''only''] [] ''show only flagged flows (same as F)'',
      cmd ''curl'' [''y''] [] ''write the selected flow to a .curl file'',
      cmd ''resend'' [''x''] [] ''resend the selected flow'',
      cmd ''flag'' [] [] ''toggle the flag on the selected flow'',
      cmd ''w'' [''write'', ''save''] [] ''save the session'',
      cmd ''help'' [''h''] [] ''this overlay'',
      cmd ''q'' [''quit''] [] ''quit'']"

fun lookup_in :: "string \<Rightarrow> command list \<Rightarrow> command option" where
  "lookup_in name [] = None"
| "lookup_in name (c # cs) = (if cd_name c = name \<or> name \<in> set (cd_aliases c) then Some c else lookup_in name cs)"

definition lookupCommand :: "string \<Rightarrow> command option" where
  "lookupCommand name = lookup_in name commands"

section \<open>The body\<close>

definition em_dash :: string where "em_dash = [CHR 0xE2, CHR 0x80, CHR 0x94]"

definition vimHelpHeading :: string where
  "vimHelpHeading = ''Traffic pane '' @ em_dash @ '' vim motions''"

definition prettyKeys :: "string list \<Rightarrow> string list" where
  "prettyKeys keys = map (\<lambda>k. if k = '' '' then ''space'' else k) keys"

definition writeHelpRowW :: "ui \<Rightarrow> string \<Rightarrow> string \<Rightarrow> int \<Rightarrow> string" where
  "writeHelpRowW U keys desc width =
     (let pad = width - int (length (runes keys)); p = (if pad < 1 then 1 else pad)
      in ''  '' @ ui_Render U (sy_keyCap (ui_styles U)) keys @ replicate (nat p) CHR '' '' @ desc @ [newline])"

definition writeHelpRow :: "ui \<Rightarrow> string \<Rightarrow> string \<Rightarrow> string" where
  "writeHelpRow U keys desc = writeHelpRowW U keys desc 11"

definition digits_free :: "keymap \<Rightarrow> bool" where
  "digits_free km \<longleftrightarrow> list_all (\<lambda>d. \<not> claims km ctxTraffic [digit_char d]) [0..<10]"

definition motion_examples :: "keymap \<Rightarrow> string list" where
  "motion_examples km = concat (map (\<lambda>(act, n).
     (let keys = keysFor km ctxTraffic act in if keys \<noteq> [] then [n @ hd (prettyKeys keys)] else []))
     [(ActFlowPrev, ''5''), (ActFlowNext, ''5''), (ActHostPrev, ''2''), (ActHostNext, ''2'')])"

definition motionHelpRows :: "keymap \<Rightarrow> (string \<times> string) list" where
  "motionHelpRows km =
     (let free = digits_free km; ex = motion_examples km in
      (if free \<and> ex \<noteq> [] then [(''{count}'', ''repeat a bound motion '' @ em_dash @ '' '' @ join '', '' ex)] else [])
      @ (if \<not> claims km ctxTraffic ''g''
         then (''gg'', ''first flow'') # (if free then [(''{count}gg'', ''jump to that row '' @ em_dash @ '' 5gg goes to row 5'')] else [])
         else [])
      @ (if \<not> claims km ctxTraffic ''G''
         then (''G'', ''last flow'') # (if free then [(''{count}G'', ''jump to that row '' @ em_dash @ '' 12G goes to row 12'')] else [])
         else [])
      @ [(''esc'', ''discard a half-typed motion'')])"

definition commandHelpName :: "command \<Rightarrow> string" where
  "commandHelpName c = '':'' @ cd_name c
     @ (if cd_aliases c \<noteq> [] then '' ('' @ join '', '' (map (\<lambda>a. '':'' @ a) (cd_aliases c)) @ '')'' else [])
     @ (if cd_args c \<noteq> [] then '' '' @ cd_args c else [])"

definition help_rows :: "keymap \<Rightarrow> string \<Rightarrow> (string \<times> string) list" where
  "help_rows km ctx = concat (map (\<lambda>b.
     (let keys = keysFor km ctx (bn_action b) in
      if keys = [] then [] else [(join '' / '' (prettyKeys keys), bn_desc b)])) (gget defaults ctx []))"

fun help_sections :: "ui \<Rightarrow> keymap \<Rightarrow> bool \<Rightarrow> string list \<Rightarrow> string" where
  "help_sections U km wrote [] = []"
| "help_sections U km wrote (ctx # ctxs) =
     (let rows = help_rows km ctx;
          head = (if ctx = ctxLeader then ''Global '' @ em_dash @ '' press '' @ km_LeaderName km @ '' (leader), then:''
                  else gget contextTitle ctx [])
      in if rows = [] then help_sections U km wrote ctxs
         else (if wrote then [newline] else [])
           @ ui_Render U (sy_section (ui_styles U)) head @ [newline]
           @ concat (map (\<lambda>(k, d). writeHelpRow U k d) rows)
           @ help_sections U km True ctxs)"

definition command_width :: int where
  "command_width = int (fold max (map (\<lambda>c. length (runes (commandHelpName c))) commands) 0)"

definition helpBody :: "ui \<Rightarrow> keymap \<Rightarrow> string" where
  "helpBody U km =
     (let S = ui_styles U; section_head = (\<lambda>t. [newline] @ ui_Render U (sy_section S) t @ [newline]) in
      ui_Render U (sy_title S) (''cli-capture '' @ em_dash @ '' keyboard shortcuts'') @ [newline, newline]
      @ help_sections U km False contexts
      @ section_head vimHelpHeading
      @ concat (map (\<lambda>(k, d). writeHelpRow U k d) (motionHelpRows km))
      @ (if keysFor km ctxTraffic ActCommand \<noteq> []
         then section_head (''Traffic pane '' @ em_dash @ '' : commands'')
           @ concat (map (\<lambda>c. writeHelpRowW U (commandHelpName c) (cd_desc c) (command_width + 2)) commands)
         else [])
      @ section_head ''Terminal pane (left)''
      @ writeHelpRow U ''any key'' (''forwarded to the target app; only '' @ km_LeaderName km @ '' is caught'')
      @ writeHelpRow U (km_LeaderName km) (''pressed twice, sends a literal '' @ km_LeaderName km @ '' to the target'')
      @ [newline] @ ui_Render U (sy_dim S) (''Workflow: arm interception with '' @ km_LeaderName km @ '' i (scope with -scope); matching'') @ [newline]
      @ ui_Render U (sy_dim S) ''requests PAUSE so you can e-dit, f-orward, or d-rop them.'' @ [newline])"

section \<open>The window\<close>

definition helpChrome :: int where "helpChrome = 4"

definition help_avail :: "int \<Rightarrow> int" where
  "help_avail h = (let a = h - helpChrome - 1 in if a < 1 then 1 else a)"

definition up_arrow :: string where "up_arrow = [CHR 0xE2, CHR 0x86, CHR 0x91]"
definition down_arrow :: string where "down_arrow = [CHR 0xE2, CHR 0x86, CHR 0x93]"

definition helpFooter :: "ui \<Rightarrow> bool \<Rightarrow> bool \<Rightarrow> string" where
  "helpFooter U up below =
     ui_Render U (NewStyle\<lparr>ts_Faint := True\<rparr>)
       (if up \<and> below then ''j / k to scroll '' @ middle_dot @ '' '' @ up_arrow @ '' more above '' @ middle_dot @ '' ''
          @ down_arrow @ '' more below '' @ middle_dot @ '' ? or esc to close''
        else if below then ''j / k to scroll '' @ middle_dot @ '' more below '' @ down_arrow @ '' '' @ middle_dot @ '' ? or esc to close''
        else if up then ''j / k to scroll '' @ middle_dot @ '' more above '' @ up_arrow @ '' '' @ middle_dot @ '' ? or esc to close''
        else ''press ? or esc to close'')"

text \<open>The lines shown and the two flags of the footer; \<open>frame\<close> is \<^verbatim>\<open>frameHelp\<close>.\<close>

definition help_window :: "string list \<Rightarrow> int \<Rightarrow> int \<Rightarrow> string list \<times> bool \<times> bool" where
  "help_window lns h scroll =
     (let avail = help_avail h; n = int (length lns) in
      if h \<le> 0 \<or> n \<le> avail then (lns, False, False)
      else (let s = clampIndex scroll (n - avail + 1)
        in (take (nat avail) (drop (nat s) lns), 0 < s, s + avail < n)))"

definition helpViewAt :: "(string \<Rightarrow> string) \<Rightarrow> ui \<Rightarrow> keymap \<Rightarrow> int \<Rightarrow> int \<Rightarrow> string" where
  "helpViewAt frame U km h scroll =
     (let (lns, up, below) = help_window (split_on [newline] (helpBody U km)) h scroll
      in frame (join [newline] lns @ [newline] @ helpFooter U up below))"

definition maxHelpScroll :: "ui \<Rightarrow> keymap \<Rightarrow> int \<Rightarrow> int" where
  "maxHelpScroll U km h =
     (let n = int (length (split_on [newline] (helpBody U km))) - help_avail h in if n < 0 then 0 else n)"

definition clampHelpScroll :: "ui \<Rightarrow> keymap \<Rightarrow> int \<Rightarrow> int \<Rightarrow> int" where
  "clampHelpScroll U km h scroll =
     (let top = maxHelpScroll U km h; s = (if scroll > top then top else scroll) in if s < 0 then 0 else s)"

section \<open>Properties\<close>

text \<open>
  No spelling is claimed by two commands, so each command answers to its name and to
  each of its aliases, whatever the order of the table.
\<close>

lemma command_spellings_distinct: "distinct (concat (map (\<lambda>c. cd_name c # cd_aliases c) commands))"
  by (simp add: commands_def cmd_def)

lemma lookup_in_spelled:
  "distinct (concat (map (\<lambda>c. cd_name c # cd_aliases c) cs)) \<Longrightarrow> c \<in> set cs \<Longrightarrow> n = cd_name c \<or> n \<in> set (cd_aliases c) \<Longrightarrow>
    lookup_in n cs = Some c"
  by (induction cs) auto

lemma command_answers: "c \<in> set commands \<Longrightarrow> n = cd_name c \<or> n \<in> set (cd_aliases c) \<Longrightarrow> lookupCommand n = Some c"
  unfolding lookupCommand_def by (rule lookup_in_spelled [OF command_spellings_distinct])

lemma lookup_in_sound: "lookup_in n cs = Some c \<Longrightarrow> c \<in> set cs \<and> (n = cd_name c \<or> n \<in> set (cd_aliases c))"
  by (induction cs) (auto split: if_splits)

text \<open>
  Every line of the help can be brought on the screen: on a terminal of any height there is a scroll
  position in the range the keys and the wheel are clamped to whose window shows the line; a clamped position is one the
  window honours as it is, so no key press is lost; and the footer says there is more above or below exactly when there is.
\<close>

lemma help_every_line_reachable:
  fixes U km
  defines "lns \<equiv> split_on [newline] (helpBody U km)"
  assumes "0 < h"
  shows "(i < length lns \<longrightarrow> (\<exists>s. 0 \<le> s \<and> s \<le> maxHelpScroll U km h \<and> clampHelpScroll U km h s = s
        \<and> lns ! i \<in> set (fst (help_window lns h s)) \<and> s \<le> int i \<and> int i < s + int (length (fst (help_window lns h s)))))
    \<and> (let s = clampHelpScroll U km h scroll; (w, up, below) = help_window lns h s
       in lns = take (nat s) lns @ w @ drop (nat s + length w) lns
          \<and> (up \<longleftrightarrow> take (nat s) lns \<noteq> []) \<and> (below \<longleftrightarrow> drop (nat s + length w) lns \<noteq> []))"
proof (intro conjI impI)
  define n where "n = int (length lns)"
  define a where "a = help_avail h"
  have a: "1 \<le> a" by (simp add: a_def help_avail_def Let_def)
  have top: "maxHelpScroll U km h = (if n - a < 0 then 0 else n - a)"
    by (simp add: maxHelpScroll_def n_def a_def lns_def Let_def)
  have win: "help_window lns h s = (if n \<le> a then (lns, False, False)
      else (take (nat a) (drop (nat s) lns), 0 < s, s + a < n))" if "0 \<le> s" "s \<le> maxHelpScroll U km h" for s
    using assms(2) that top by (auto simp: help_window_def n_def a_def clampIndex_def Let_def)
  show "\<exists>s. 0 \<le> s \<and> s \<le> maxHelpScroll U km h \<and> clampHelpScroll U km h s = s
        \<and> lns ! i \<in> set (fst (help_window lns h s)) \<and> s \<le> int i \<and> int i < s + int (length (fst (help_window lns h s)))"
    if i: "i < length lns"
  proof -
    define s where "s = (if n \<le> a then 0 else min (int i) (n - a))"
    have s: "0 \<le> s" "s \<le> maxHelpScroll U km h" "s \<le> int i" using i top by (auto simp: s_def n_def)
    moreover have "clampHelpScroll U km h s = s" using s by (simp add: clampHelpScroll_def Let_def)
    moreover have "lns ! i \<in> set (fst (help_window lns h s)) \<and> int i < s + int (length (fst (help_window lns h s)))"
    proof (cases "n \<le> a")
      case True
      then show ?thesis using i s by (simp add: win)
    next
      case False
      then have r: "nat s \<le> i" "i - nat s < nat a" "nat s + nat a \<le> length lns"
        using i a by (auto simp: s_def n_def)
      then have "take (nat a) (drop (nat s) lns) ! (i - nat s) = lns ! i" by simp
      moreover have "i - nat s < length (take (nat a) (drop (nat s) lns))" using r i by simp
      ultimately have "lns ! i \<in> set (take (nat a) (drop (nat s) lns))" by (metis nth_mem)
      then show ?thesis using r False s a by (auto simp: win)
    qed
    ultimately show ?thesis by blast
  qed
  define s where "s = clampHelpScroll U km h scroll"
  have s: "0 \<le> s" "s \<le> maxHelpScroll U km h" using top by (auto simp: s_def clampHelpScroll_def Let_def)
  have "lns = take (nat s) lns @ take (nat a) (drop (nat s) lns) @ drop (nat s + nat a) lns"
    by (metis append_take_drop_id drop_drop add.commute)
  moreover have "length (take (nat a) (drop (nat s) lns)) = nat a" if "\<not> n \<le> a"
    using that s top a by (auto simp: n_def)
  moreover have "s = 0" if "n \<le> a" using that s top by (auto split: if_splits)
  ultimately show "let s = clampHelpScroll U km h scroll; (w, up, below) = help_window lns h s
       in lns = take (nat s) lns @ w @ drop (nat s + length w) lns
          \<and> (up \<longleftrightarrow> take (nat s) lns \<noteq> []) \<and> (below \<longleftrightarrow> drop (nat s + length w) lns \<noteq> [])"
    using s a unfolding s_def [symmetric] by (cases "n \<le> a") (auto simp: win n_def)
qed

lemma help_every_line_reachable_witness:
  "\<forall>U km. \<exists>s. 0 \<le> s \<and> s \<le> maxHelpScroll U km 10
     \<and> split_on [newline] (helpBody U km) ! 0 \<in> set (fst (help_window (split_on [newline] (helpBody U km)) 10 s))"
proof (rule allI, rule allI)
  fix U :: ui and km :: keymap
  have "0 < length (split_on [newline] (helpBody U km))" by simp
  from mp [OF conjunct1 [OF help_every_line_reachable [where h = 10 and U = U and km = km]] this]
  show "\<exists>s. 0 \<le> s \<and> s \<le> maxHelpScroll U km 10
     \<and> split_on [newline] (helpBody U km) ! 0 \<in> set (fst (help_window (split_on [newline] (helpBody U km)) 10 s))"
    by auto
qed

end
