(* ===== verification/TuiState.thy ===== *)
theory TuiState
  imports TuiHelp Detail Vt Keys Repeater Attack
begin

text \<open>
  The state of \<^verbatim>\<open>internal/tui\<close>: the \<^verbatim>\<open>Model\<close> of \<^verbatim>\<open>model.go\<close> with the objects it points
  to (the store, the flows, the engine, the target's PTY and screen), its geometry, the queue of paused messages, the exports,
  and the drawing of the traffic pane. The Bubbles widgets and the messages of Bubble Tea are third-party code: a widget is a value
  of an abstract type with the operations the code calls. A split ratio is a value of an abstract type of floats. Calls whose effect lies outside
  the interface are also kept in a log.
\<close>

section \<open>Messages and parameters\<close>

record tea_key = key_msg +
  kg_Paste :: bool

datatype tea_button = TeaNone | TeaLeft | TeaMiddle | TeaRight | TeaWheelUp | TeaWheelDown | TeaWheelLeft | TeaWheelRight
  | TeaBackward | TeaForward | Tea10 | Tea11 | TeaUnmapped

datatype tea_action = TeaPress | TeaRelease | TeaMotion

record tea_mouse =
  mm_X :: int
  mm_Y :: int
  mm_Button :: tea_button
  mm_Action :: tea_action
  mm_Shift :: bool
  mm_Alt :: bool
  mm_Ctrl :: bool

record 'w widget_lib =
  wg_newEditor :: 'w
  wg_newInput :: "string \<Rightarrow> string \<Rightarrow> 'w"
  wg_newViewport :: 'w
  wg_Value :: "'w \<Rightarrow> string"
  wg_SetValue :: "string \<Rightarrow> 'w \<Rightarrow> 'w"
  wg_Focus :: "'w \<Rightarrow> 'w"
  wg_Blur :: "'w \<Rightarrow> 'w"
  wg_SetSize :: "int \<Rightarrow> int \<Rightarrow> 'w \<Rightarrow> 'w"
  wg_Width :: "'w \<Rightarrow> int"
  wg_SetContent :: "string \<Rightarrow> 'w \<Rightarrow> 'w"
  wg_GotoTop :: "'w \<Rightarrow> 'w"
  wg_Key :: "tea_key \<Rightarrow> 'w \<Rightarrow> 'w"
  wg_Mouse :: "tea_mouse \<Rightarrow> 'w \<Rightarrow> 'w"
  wg_View :: "'w \<Rightarrow> string"

record 'fl float_lib =
  fo_half :: 'fl
  fo_step :: 'fl
  fo_neg_step :: 'fl
  fo_minSplit :: 'fl
  fo_maxSplit :: 'fl
  fo_add :: "'fl \<Rightarrow> 'fl \<Rightarrow> 'fl"
  fo_less :: "'fl \<Rightarrow> 'fl \<Rightarrow> bool"
  fo_scale :: "int \<Rightarrow> 'fl \<Rightarrow> int"

text \<open>
  The surroundings: \<open>ev_PtyWrite\<close> answers a write, given what was sent before, with the number of bytes taken and the error, if any; \<open>ev_Write\<close>
  and \<open>ev_SaveFile\<close> answer with the error, if any; \<open>ev_Sibling\<close> is the path of a file in the directory of another.
\<close>

record ('w, 'fl, 't, 'style, 'inj) env =
  ev_widgets :: "'w widget_lib"
  ev_floats :: "'fl float_lib"
  ev_term :: "('t, 'style) term_lib"
  ev_ui :: ui
  ev_json :: json_lib
  ev_codecs :: codecs
  ev_parse_url :: url_parser
  ev_read_request :: "bytes \<Rightarrow> string + http_request"
  ev_error_text :: "repeater_error \<Rightarrow> string"
  ev_KeyString :: "tea_key \<Rightarrow> string"
  ev_IsWheel :: "tea_mouse \<Rightarrow> bool"
  ev_PtyWrite :: "bytes \<Rightarrow> bytes \<Rightarrow> nat \<times> string option"
  ev_Write :: "string \<Rightarrow> bytes \<Rightarrow> string option"
  ev_SaveFile :: "string \<Rightarrow> flow list \<Rightarrow> string option"
  ev_Sibling :: "string \<Rightarrow> string \<Rightarrow> string"
  ev_Resend :: "flow \<Rightarrow> (fref \<times> flow) option \<times> string option"
  ev_HAR :: "flow list \<Rightarrow> string + bytes"
  ev_Inject :: "'inj \<Rightarrow> direction \<Rightarrow> bytes \<Rightarrow> string option"

section \<open>The model\<close>

datatype focus = FocusTerminal | FocusTraffic

record paused =
  pz_Token :: token
  pz_Flow :: fref
  pz_Msg :: message

datatype rep_focus = RepFocusReq | RepFocusPayload | RepFocusResp

record 'w repeater_state =
  rs_base :: "template option"
  rs_req :: 'w
  rs_payload :: 'w
  rs_respVP :: 'w
  rs_resp :: "fref option"
  rs_mode :: attack_mode
  rs_focus :: rep_focus
  rs_result :: string

datatype outside_call = CallResolve token resolution | CallInject string direction bytes | CallWrite string bytes
  | CallSave string | CallResize "16 word" "16 word"

record ('w, 'fl, 't, 're, 'inj) tui =
  u_heap :: heap
  u_store :: store
  u_engine :: "('re, 'inj) engine"
  u_hasTarget :: bool
  u_pty :: "bytes option"
  u_screen :: "'t vt option"
  u_calls :: "outside_call list"
  u_width :: int
  u_height :: int
  u_focus :: focus
  u_flows :: "fref list"
  u_selected :: int
  u_paused :: "fref option"
  u_pausedMsg :: "message option"
  u_pausedToken :: token
  u_pauseQueue :: "paused list"
  u_editing :: bool
  u_pendingLeader :: bool
  u_ta :: 'w
  u_viewing :: bool
  u_viewFlow :: "fref option"
  u_vp :: 'w
  u_injecting :: bool
  u_injectID :: string
  u_injectDir :: direction
  u_filtering :: bool
  u_fi :: 'w
  u_cmdline :: bool
  u_ci :: 'w
  u_count :: int
  u_pendingG :: bool
  u_flaggedOnly :: bool
  u_sort :: sort_mode
  u_showHelp :: bool
  u_helpScroll :: int
  u_repeating :: bool
  u_rep :: "'w repeater_state"
  u_splitRatio :: 'fl
  u_sessionPath :: string
  u_status :: string
  u_mouseCapture :: bool
  u_keys :: keymap

definition newFilter :: "('w, 'fl, 't, 'style, 'inj) env \<Rightarrow> 'w" where
  "newFilter E = wg_newInput (ev_widgets E) ''/'' ''filter host/method/path/status''"

definition newCommandLine :: "('w, 'fl, 't, 'style, 'inj) env \<Rightarrow> 'w" where
  "newCommandLine E = wg_newInput (ev_widgets E) '':'' ''command - :help for the list''"

definition dot_sep :: string where "dot_sep = '' '' @ middle_dot @ '' ''"

definition New ::
    "('w, 'fl, 't, 'style, 'inj) env \<Rightarrow> heap \<Rightarrow> store \<Rightarrow> ('re, 'inj) engine \<Rightarrow> bool \<Rightarrow> bytes option \<Rightarrow> 't vt option \<Rightarrow> string
      \<Rightarrow> keymap \<Rightarrow> ('w, 'fl, 't, 're, 'inj) tui" where
  "New E h st e hasTarget pty screen sessionPath keys =
     \<lparr>u_heap = h, u_store = st, u_engine = e, u_hasTarget = hasTarget, u_pty = pty, u_screen = screen, u_calls = [],
      u_width = 0, u_height = 0, u_focus = FocusTerminal, u_flows = [], u_selected = 0, u_paused = None,
      u_pausedMsg = None, u_pausedToken = 0, u_pauseQueue = [], u_editing = False, u_pendingLeader = False,
      u_ta = wg_newEditor (ev_widgets E), u_viewing = False, u_viewFlow = None, u_vp = wg_newViewport (ev_widgets E),
      u_injecting = False, u_injectID = [], u_injectDir = ClientToServer, u_filtering = False, u_fi = newFilter E,
      u_cmdline = False, u_ci = newCommandLine E, u_count = 0, u_pendingG = False, u_flaggedOnly = False,
      u_sort = SortNone, u_showHelp = False, u_helpScroll = 0, u_repeating = False,
      u_rep = \<lparr>rs_base = None, rs_req = wg_newEditor (ev_widgets E), rs_payload = wg_newEditor (ev_widgets E),
        rs_respVP = wg_newViewport (ev_widgets E), rs_resp = None, rs_mode = SingleMode, rs_focus = RepFocusReq, rs_result = []\<rparr>,
      u_splitRatio = fo_half (ev_floats E), u_sessionPath = sessionPath,
      u_status = ''? for help'' @ dot_sep @ ''Ctrl+A w switch pane'' @ dot_sep @ ''Ctrl+A < > resize'' @ dot_sep
        @ ''Ctrl+A i arm intercept'' @ dot_sep @ ''Ctrl+A q quit'',
      u_mouseCapture = True, u_keys = keys\<rparr>"

text \<open>The keymap in force: the default one for a zero keymap. \<open>find_control\<close> found the leader of the default one at 1.\<close>

definition km :: "('w, 'fl, 't, 're, 'inj) tui \<Rightarrow> keymap" where
  "km m = (if km_binds (u_keys m) = None
     then \<lparr>km_Leader = 1, km_LeaderName = DefaultLeader, km_binds = Some (default_binds defaults [])\<rparr> else u_keys m)"

section \<open>Selection\<close>

definition visible :: "('w, 'fl, 't, 'style, 'inj) env \<Rightarrow> ('w, 'fl, 't, 're, 'inj) tui \<Rightarrow> fref list" where
  "visible E m = visible_rows (u_heap m) (wg_Value (ev_widgets E) (u_fi m)) (u_flaggedOnly m) (u_sort m) (u_flows m)"

definition visible_count :: "('w, 'fl, 't, 'style, 'inj) env \<Rightarrow> ('w, 'fl, 't, 're, 'inj) tui \<Rightarrow> int" where
  "visible_count E m = int (length (visible E m))"

definition selectedFlow :: "('w, 'fl, 't, 'style, 'inj) env \<Rightarrow> ('w, 'fl, 't, 're, 'inj) tui \<Rightarrow> fref option" where
  "selectedFlow E m =
     (if u_selected m < 0 \<or> u_selected m \<ge> visible_count E m then None else Some (visible E m ! nat (u_selected m)))"

definition reclamp :: "('w, 'fl, 't, 'style, 'inj) env \<Rightarrow> ('w, 'fl, 't, 're, 'inj) tui \<Rightarrow> ('w, 'fl, 't, 're, 'inj) tui" where
  "reclamp E m = m\<lparr>u_selected := clampIndex (u_selected m) (visible_count E m)\<rparr>"

definition toggleSelectedFlag :: "('w, 'fl, 't, 'style, 'inj) env \<Rightarrow> ('w, 'fl, 't, 're, 'inj) tui \<Rightarrow> ('w, 'fl, 't, 're, 'inj) tui" where
  "toggleSelectedFlag E m = (case selectedFlow E m of
     None \<Rightarrow> m\<lparr>u_status := ''nothing selected to flag''\<rparr>
   | Some f \<Rightarrow>
       (let h = (u_heap m)(f := (u_heap m f)\<lparr>f_Flagged := \<not> f_Flagged (u_heap m f)\<rparr>);
            m1 = reclamp E (m\<lparr>u_heap := h\<rparr>)
        in m1\<lparr>u_status := (if f_Flagged (h f) then ''flagged '' else ''unflagged '') @ Title (h f)\<rparr>))"

section \<open>Exports and replay\<close>

definition listed :: "('w, 'fl, 't, 're, 'inj) tui \<Rightarrow> fref list" where
  "listed m = map the (ListFlows (u_store m))"

definition listed_flows :: "('w, 'fl, 't, 're, 'inj) tui \<Rightarrow> flow list" where
  "listed_flows m = map (u_heap m) (listed m)"

definition call :: "outside_call \<Rightarrow> ('w, 'fl, 't, 're, 'inj) tui \<Rightarrow> ('w, 'fl, 't, 're, 'inj) tui" where
  "call c m = m\<lparr>u_calls := u_calls m @ [c]\<rparr>"

definition saveSession :: "('w, 'fl, 't, 'style, 'inj) env \<Rightarrow> ('w, 'fl, 't, 're, 'inj) tui \<Rightarrow> ('w, 'fl, 't, 're, 'inj) tui" where
  "saveSession E m =
     (call (CallSave (u_sessionPath m)) m)\<lparr>u_status := (case ev_SaveFile E (u_sessionPath m) (listed_flows m) of
        Some e \<Rightarrow> ''save failed: '' @ e
      | None \<Rightarrow> ''saved '' @ show_nat (length (listed_flows m)) @ '' flows to '' @ u_sessionPath m)\<rparr>"

definition write_out ::
    "('w, 'fl, 't, 'style, 'inj) env \<Rightarrow> string \<Rightarrow> bytes \<Rightarrow> string \<Rightarrow> (string \<Rightarrow> string)
      \<Rightarrow> ('w, 'fl, 't, 're, 'inj) tui \<Rightarrow> ('w, 'fl, 't, 're, 'inj) tui" where
  "write_out E name data failed done m =
     (let path = ev_Sibling E (u_sessionPath m) name in
      (call (CallWrite path data) m)\<lparr>u_status := (case ev_Write E path data of
          Some e \<Rightarrow> failed @ e | None \<Rightarrow> done path)\<rparr>)"

definition exportHAR :: "('w, 'fl, 't, 'style, 'inj) env \<Rightarrow> ('w, 'fl, 't, 're, 'inj) tui \<Rightarrow> ('w, 'fl, 't, 're, 'inj) tui" where
  "exportHAR E m = (case ev_HAR E (listed_flows m) of
     Inl e \<Rightarrow> m\<lparr>u_status := ''har: '' @ e\<rparr>
   | Inr data \<Rightarrow> write_out E ''capture.har'' data ''har: '' (\<lambda>p. ''exported HAR to '' @ p) m)"

definition exportViewedFlow :: "('w, 'fl, 't, 'style, 'inj) env \<Rightarrow> ('w, 'fl, 't, 're, 'inj) tui \<Rightarrow> ('w, 'fl, 't, 're, 'inj) tui" where
  "exportViewedFlow E m = (case u_viewFlow m of
     None \<Rightarrow> m\<lparr>u_status := ''no flow in view''\<rparr>
   | Some f \<Rightarrow> write_out E (''flow-'' @ f_ID (u_heap m f) @ ''.txt'')
       (bytes_of (FlowText (jl_Indent (ev_json E)) (u_heap m f))) ''export: '' (\<lambda>p. ''wrote '' @ p) m)"

definition exportFlagged :: "('w, 'fl, 't, 'style, 'inj) env \<Rightarrow> ('w, 'fl, 't, 're, 'inj) tui \<Rightarrow> ('w, 'fl, 't, 're, 'inj) tui" where
  "exportFlagged E m =
     (let flagged = filter f_Flagged (listed_flows m) in
      if flagged = [] then m\<lparr>u_status := ''no flagged flows to export''\<rparr>
      else write_out E ''flagged.txt'' (bytes_of (FlowsText (jl_Indent (ev_json E)) flagged)) ''export: ''
        (\<lambda>p. ''wrote '' @ show_nat (length flagged) @ '' flagged flows to '' @ p) m)"

definition exportCurlSelected :: "('w, 'fl, 't, 'style, 'inj) env \<Rightarrow> ('w, 'fl, 't, 're, 'inj) tui \<Rightarrow> ('w, 'fl, 't, 're, 'inj) tui" where
  "exportCurlSelected E m = (case selectedFlow E m of
     None \<Rightarrow> m\<lparr>u_status := ''nothing selected to export''\<rparr>
   | Some f \<Rightarrow> (case Curl (u_heap m f) of
       Inl e \<Rightarrow> m\<lparr>u_status := ''curl: '' @ e\<rparr>
     | Inr c \<Rightarrow> write_out E (''flow-'' @ f_ID (u_heap m f) @ ''.curl'') (bytes_of (c @ [newline])) ''curl: ''
         (\<lambda>p. ''wrote curl to '' @ p) m))"

definition add_flow :: "fref \<times> flow \<Rightarrow> ('w, 'fl, 't, 're, 'inj) tui \<Rightarrow> ('w, 'fl, 't, 're, 'inj) tui" where
  "add_flow rf m = (let h = (u_heap m)(fst rf := snd rf) in m\<lparr>u_heap := h, u_store := Add h (fst rf) (u_store m)\<rparr>)"

definition resendSelected :: "('w, 'fl, 't, 'style, 'inj) env \<Rightarrow> ('w, 'fl, 't, 're, 'inj) tui \<Rightarrow> ('w, 'fl, 't, 're, 'inj) tui" where
  "resendSelected E m = (case selectedFlow E m of
     None \<Rightarrow> m\<lparr>u_status := ''nothing selected to resend''\<rparr>
   | Some f \<Rightarrow>
       (let (nf, err) = ev_Resend E (u_heap m f);
            m1 = (case nf of None \<Rightarrow> m | Some rf \<Rightarrow> add_flow rf m)
        in m1\<lparr>u_status := (case err of Some e \<Rightarrow> ''resend failed: '' @ e | None \<Rightarrow> ''resent '' @ Title (u_heap m f))\<rparr>))"

section \<open>Geometry\<close>

text \<open>The widths of the two pane boxes, borders included, from the width of the screen and the scaled ratio.\<close>

definition box_widths :: "int \<Rightarrow> int \<Rightarrow> int \<times> int" where
  "box_widths width scaled =
     (let left0 = (if scaled < 3 then 3 else scaled); left = (if left0 > width - 3 then width - 3 else left0)
      in (left, width - left))"

definition paneBoxWidths :: "('w, 'fl, 't, 'style, 'inj) env \<Rightarrow> ('w, 'fl, 't, 're, 'inj) tui \<Rightarrow> int \<times> int" where
  "paneBoxWidths E m = box_widths (u_width m) (fo_scale (ev_floats E) (u_width m) (u_splitRatio m))"

definition leftPaneWidth :: "('w, 'fl, 't, 'style, 'inj) env \<Rightarrow> ('w, 'fl, 't, 're, 'inj) tui \<Rightarrow> int" where
  "leftPaneWidth E m = fst (paneBoxWidths E m) - 2"

definition rightPaneWidth :: "('w, 'fl, 't, 'style, 'inj) env \<Rightarrow> ('w, 'fl, 't, 're, 'inj) tui \<Rightarrow> int" where
  "rightPaneWidth E m = snd (paneBoxWidths E m) - 2"

definition leftSize :: "('w, 'fl, 't, 'style, 'inj) env \<Rightarrow> ('w, 'fl, 't, 're, 'inj) tui \<Rightarrow> int \<times> int" where
  "leftSize E m = (let paneW = leftPaneWidth E m; paneH = u_height m - 3 in (paneW - 2, paneH - 1))"

definition resizeChild :: "('w, 'fl, 't, 'style, 'inj) env \<Rightarrow> ('w, 'fl, 't, 're, 'inj) tui \<Rightarrow> ('w, 'fl, 't, 're, 'inj) tui" where
  "resizeChild E m =
     (let (cols, rows) = leftSize E m in
      if cols < 1 \<or> rows < 1 then m
      else
        (let m1 = (if u_hasTarget m then call (CallResize (word_of_int rows) (word_of_int cols)) m else m)
         in m1\<lparr>u_screen := map_option (VT_Resize (ev_term E) cols rows) (u_screen m1)\<rparr>))"

definition sizeEditor :: "('w, 'fl, 't, 'style, 'inj) env \<Rightarrow> ('w, 'fl, 't, 're, 'inj) tui \<Rightarrow> ('w, 'fl, 't, 're, 'inj) tui" where
  "sizeEditor E m = m\<lparr>u_ta := wg_SetSize (ev_widgets E) (rightPaneWidth E m - 3) (u_height m - 6) (u_ta m)\<rparr>"

definition sizeDetail :: "('w, 'fl, 't, 'style, 'inj) env \<Rightarrow> ('w, 'fl, 't, 're, 'inj) tui \<Rightarrow> ('w, 'fl, 't, 're, 'inj) tui" where
  "sizeDetail E m = m\<lparr>u_vp := wg_SetSize (ev_widgets E) (rightPaneWidth E m - 3) (u_height m - 5) (u_vp m)\<rparr>"

definition clamp_ratio :: "'fl float_lib \<Rightarrow> 'fl \<Rightarrow> 'fl" where
  "clamp_ratio F r0 =
     (let r1 = (if fo_less F r0 (fo_minSplit F) then fo_minSplit F else r0)
      in if fo_less F (fo_maxSplit F) r1 then fo_maxSplit F else r1)"

definition adjustSplit :: "('w, 'fl, 't, 'style, 'inj) env \<Rightarrow> 'fl \<Rightarrow> ('w, 'fl, 't, 're, 'inj) tui \<Rightarrow> ('w, 'fl, 't, 're, 'inj) tui" where
  "adjustSplit E delta m =
     (let r = clamp_ratio (ev_floats E) (fo_add (ev_floats E) (u_splitRatio m) delta) in
      if r = u_splitRatio m then m
      else sizeDetail E (sizeEditor E (resizeChild E (m\<lparr>u_splitRatio := r\<rparr>))))"

section \<open>The detail view and the editor\<close>

text \<open>The text of a flow; \<^verbatim>\<open>wrapDetail\<close> is defined for every flow (lemma \<open>json_view_cannot_drive_terminal\<close>).\<close>

definition set_detail :: "('w, 'fl, 't, 'style, 'inj) env \<Rightarrow> fref \<Rightarrow> ('w, 'fl, 't, 're, 'inj) tui \<Rightarrow> ('w, 'fl, 't, 're, 'inj) tui" where
  "set_detail E f m = m\<lparr>u_vp := wg_SetContent (ev_widgets E)
     (the (wrapDetail (ev_ui E) (ev_json E) (u_heap m f) (wg_Width (ev_widgets E) (u_vp m)))) (u_vp m)\<rparr>"

definition openDetail :: "('w, 'fl, 't, 'style, 'inj) env \<Rightarrow> ('w, 'fl, 't, 're, 'inj) tui \<Rightarrow> ('w, 'fl, 't, 're, 'inj) tui" where
  "openDetail E m = (case selectedFlow E m of
     None \<Rightarrow> m
   | Some f \<Rightarrow>
       (let m1 = set_detail E f (sizeDetail E (m\<lparr>u_viewFlow := Some f\<rparr>))
        in m1\<lparr>u_vp := wg_GotoTop (ev_widgets E) (u_vp m1), u_viewing := True\<rparr>))"

definition open_editor :: "('w, 'fl, 't, 'style, 'inj) env \<Rightarrow> string \<Rightarrow> ('w, 'fl, 't, 're, 'inj) tui \<Rightarrow> ('w, 'fl, 't, 're, 'inj) tui" where
  "open_editor E seed m =
     (let m1 = sizeEditor E (m\<lparr>u_ta := wg_SetValue (ev_widgets E) seed (u_ta m)\<rparr>)
      in m1\<lparr>u_ta := wg_Focus (ev_widgets E) (u_ta m1), u_editing := True\<rparr>)"

definition enterEdit :: "('w, 'fl, 't, 'style, 'inj) env \<Rightarrow> ('w, 'fl, 't, 're, 'inj) tui \<Rightarrow> ('w, 'fl, 't, 're, 'inj) tui" where
  "enterEdit E m =
     (open_editor E (case u_pausedMsg m of None \<Rightarrow> [] | Some msg \<Rightarrow> str_of (m_Raw msg)) m)
       \<lparr>u_status := ''EDIT: Ctrl+S forward'' @ dot_sep @ ''Ctrl+L fix len'' @ dot_sep @ ''Esc cancel''\<rparr>"

definition enterInject :: "('w, 'fl, 't, 'style, 'inj) env \<Rightarrow> direction \<Rightarrow> ('w, 'fl, 't, 're, 'inj) tui \<Rightarrow> ('w, 'fl, 't, 're, 'inj) tui" where
  "enterInject E dir m = (case selectedFlow E m of
     None \<Rightarrow> m
   | Some f \<Rightarrow>
       (let fl = u_heap m f in
        if f_Protocol fl \<noteq> ProtoWebSocket \<or> f_Status fl \<noteq> StatusActive
        then m\<lparr>u_status := ''inject: select a live WebSocket flow''\<rparr>
        else if Session (u_engine m) (f_ID fl) = None then m\<lparr>u_status := ''inject: no live session for that flow''\<rparr>
        else (open_editor E [] (m\<lparr>u_injecting := True, u_injectID := f_ID fl, u_injectDir := dir\<rparr>))
          \<lparr>u_status := ''INJECT '' @ direction_string dir @ '': Ctrl+S send'' @ dot_sep @ ''Esc cancel''\<rparr>))"

definition doInject :: "('w, 'fl, 't, 'style, 'inj) env \<Rightarrow> ('w, 'fl, 't, 're, 'inj) tui \<Rightarrow> string \<times> ('w, 'fl, 't, 're, 'inj) tui" where
  "doInject E m = (case Session (u_engine m) (u_injectID m) of
     None \<Rightarrow> (''inject: session closed'', m)
   | Some ses \<Rightarrow>
       (let data = bytes_of (wg_Value (ev_widgets E) (u_ta m)) in
        (case ev_Inject E ses (u_injectDir m) data of
           Some e \<Rightarrow> ''inject failed: '' @ e
         | None \<Rightarrow> ''injected '' @ direction_string (u_injectDir m) @ '' frame'',
         call (CallInject (u_injectID m) (u_injectDir m) data) m)))"

section \<open>Paused messages\<close>

definition paused_status :: string where
  "paused_status = ''PAUSED: [e]dit  [f]orward  [d]rop''"

definition activatePause :: "('w, 'fl, 't, 'style, 'inj) env \<Rightarrow> paused \<Rightarrow> ('w, 'fl, 't, 're, 'inj) tui \<Rightarrow> ('w, 'fl, 't, 're, 'inj) tui" where
  "activatePause E p m =
     (let W = ev_widgets E in
      m\<lparr>u_paused := Some (pz_Flow p), u_pausedMsg := Some (pz_Msg p), u_pausedToken := pz_Token p,
        u_focus := FocusTraffic, u_count := 0, u_pendingG := False, u_pendingLeader := False,
        u_cmdline := False, u_filtering := False, u_ci := wg_SetValue W [] (wg_Blur W (u_ci m)), u_fi := wg_Blur W (u_fi m),
        u_status := paused_status\<rparr>)"

definition enqueuePause :: "('w, 'fl, 't, 'style, 'inj) env \<Rightarrow> paused \<Rightarrow> ('w, 'fl, 't, 're, 'inj) tui \<Rightarrow> ('w, 'fl, 't, 're, 'inj) tui" where
  "enqueuePause E p m =
     (if u_paused m \<noteq> None then m\<lparr>u_pauseQueue := u_pauseQueue m @ [p]\<rparr> else activatePause E p m)"

definition completePause :: "('w, 'fl, 't, 'style, 'inj) env \<Rightarrow> string \<Rightarrow> ('w, 'fl, 't, 're, 'inj) tui \<Rightarrow> ('w, 'fl, 't, 're, 'inj) tui" where
  "completePause E doneStatus m =
     (let W = ev_widgets E;
          m1 = m\<lparr>u_paused := None, u_pausedMsg := None, u_pausedToken := 0, u_editing := False,
            u_ta := wg_SetValue W [] (wg_Blur W (u_ta m))\<rparr>
      in case u_pauseQueue m1 of
           [] \<Rightarrow> m1\<lparr>u_status := doneStatus\<rparr>
         | p # ps \<Rightarrow> activatePause E p (m1\<lparr>u_pauseQueue := ps\<rparr>))"

text \<open>\<^verbatim>\<open>engine.Resolve\<close>: the claim of the token, and the send of the resolution.\<close>

definition engine_resolve :: "token \<Rightarrow> resolution \<Rightarrow> ('w, 'fl, 't, 're, 'inj) tui \<Rightarrow> ('w, 'fl, 't, 're, 'inj) tui" where
  "engine_resolve t res m = call (CallResolve t res) (m\<lparr>u_engine := snd (resolve_claim t (u_engine m))\<rparr>)"

definition resolve_paused ::
    "('w, 'fl, 't, 'style, 'inj) env \<Rightarrow> resolution \<Rightarrow> string \<Rightarrow> ('w, 'fl, 't, 're, 'inj) tui \<Rightarrow> ('w, 'fl, 't, 're, 'inj) tui" where
  "resolve_paused E res doneStatus m =
     (if u_paused m \<noteq> None then completePause E doneStatus (engine_resolve (u_pausedToken m) res m) else m)"

section \<open>Keys for the target\<close>

function pty_push :: "(bytes \<Rightarrow> bytes \<Rightarrow> nat \<times> string option) \<Rightarrow> bytes \<Rightarrow> bytes \<Rightarrow> bytes" where
  "pty_push w sent b =
     (if b = [] then sent
      else (case w sent b of (n, err) \<Rightarrow>
        if err \<noteq> None \<or> n = 0 then sent @ take n b else pty_push w (sent @ take n b) (drop n b)))"
  by pat_completeness auto
termination
  by (relation "measure (\<lambda>(w, sent, b). length b)") auto

declare pty_push.simps [simp del]

definition send_pty :: "('w, 'fl, 't, 'style, 'inj) env \<Rightarrow> bytes \<Rightarrow> ('w, 'fl, 't, 're, 'inj) tui \<Rightarrow> ('w, 'fl, 't, 're, 'inj) tui" where
  "send_pty E b m = m\<lparr>u_pty := map_option (\<lambda>sent. pty_push (ev_PtyWrite E) sent b) (u_pty m)\<rparr>"

definition cursor_key_of :: "key_type \<Rightarrow> cursor_key option" where
  "cursor_key_of t = (case t of
     KeyUp \<Rightarrow> Some CursorUp | KeyDown \<Rightarrow> Some CursorDown | KeyRight \<Rightarrow> Some CursorRight | KeyLeft \<Rightarrow> Some CursorLeft
   | _ \<Rightarrow> None)"

definition terminal_key_bytes :: "'t vt option \<Rightarrow> tea_key \<Rightarrow> bytes" where
  "terminal_key_bytes screen k =
     (let plain = keyBytes (key_msg.truncate k) in
      case screen of
        None \<Rightarrow> plain
      | Some v \<Rightarrow>
          if kg_Type k = KeyRunes \<and> kg_Paste k then PasteBytes (string_of_runes (kg_Runes k)) v
          else if \<not> kg_Alt k then
            (case cursor_key_of (kg_Type k) of Some c \<Rightarrow> CursorKeyBytes c v | None \<Rightarrow> plain)
          else plain)"

definition forwardTerminalKey :: "('w, 'fl, 't, 'style, 'inj) env \<Rightarrow> tea_key \<Rightarrow> ('w, 'fl, 't, 're, 'inj) tui \<Rightarrow> ('w, 'fl, 't, 're, 'inj) tui" where
  "forwardTerminalKey E k m = (if u_hasTarget m then send_pty E (terminal_key_bytes (u_screen m) k) m else m)"

end
