(* ===== verification/TuiKeys.thy ===== *)
theory TuiKeys
  imports TuiState RawForm
begin

text \<open>
  What keys do: the handlers of \<^verbatim>\<open>model.go\<close>, the commands of \<^verbatim>\<open>command.go\<close>, the editor's length fix of
  \<^verbatim>\<open>editor.go\<close>, and the Repeater of \<^verbatim>\<open>repeater.go\<close>. A handler returns the model and a command for the runtime; those
  of the widgets, which blink cursors, are all \<open>WidgetCmd\<close>.
\<close>

datatype tea_cmd = NoCmd | QuitCmd | WidgetCmd | EnableMouseCmd | DisableMouseCmd | WaitEventCmd | WaitPtyCmd | WaitPauseCmd
  | SendOnceCmd template "string gomap" | SendAttackCmd template attack

abbreviation "key_C0 b k \<equiv> kg_Type k = KeyC0 b"

section \<open>The editor\<close>

fun fix_lines :: "string \<Rightarrow> string list \<Rightarrow> string list" where
  "fix_lines line [] = [line]"
| "fix_lines line (l # ls) = (if prefix ''content-length:'' (to_lower l) then line # ls else l # fix_lines line ls)"

definition fix_at :: "string \<Rightarrow> nat \<Rightarrow> string \<Rightarrow> string" where
  "fix_at sep i raw =
     (let head = take i raw; body = drop (i + length sep) raw;
          eol = (if contains head crlf then crlf else [newline])
      in join eol (fix_lines (''Content-Length: '' @ show_nat (length body)) (split_on eol head)) @ sep @ body)"

definition fixContentLength :: "string \<Rightarrow> string" where
  "fixContentLength raw =
     (case index_of raw (crlf @ crlf) of
        Some i \<Rightarrow> fix_at (crlf @ crlf) i raw
      | None \<Rightarrow> (case index_of raw [newline, newline] of
          Some i \<Rightarrow> fix_at [newline, newline] i raw
        | None \<Rightarrow> raw))"

section \<open>Modal keys\<close>

definition onHelpKey :: "('w, 'fl, 't, 'style, 'inj) env \<Rightarrow> tea_key \<Rightarrow> ('w, 'fl, 't, 're, 'inj) tui \<Rightarrow> ('w, 'fl, 't, 're, 'inj) tui \<times> tea_cmd" where
  "onHelpKey E k m =
     (let U = ev_ui E; s = ev_KeyString E k; top = maxHelpScroll U (km m) (u_height m);
          scrolled = (\<lambda>d. (m\<lparr>u_helpScroll := clampHelpScroll U (km m) (u_height m) d\<rparr>, NoCmd))
      in if key_C0 17 k then (m, QuitCmd)
         else if key_C0 27 k \<or> s = ''q'' \<or> s = ''?'' then (m\<lparr>u_showHelp := False\<rparr>, NoCmd)
         else if s = ''j'' \<or> kg_Type k = KeyDown then scrolled (u_helpScroll m + 1)
         else if s = ''k'' \<or> kg_Type k = KeyUp then scrolled (u_helpScroll m - 1)
         else if kg_Type k = KeyPgDown \<or> s = ''ctrl+f'' then scrolled (u_helpScroll m + (top div 4 + 1))
         else if kg_Type k = KeyPgUp \<or> s = ''ctrl+b'' then scrolled (u_helpScroll m - (top div 4 + 1))
         else if s = ''G'' then scrolled top
         else if s = ''g'' then scrolled 0
         else scrolled (u_helpScroll m))"

definition onFilterKey :: "('w, 'fl, 't, 'style, 'inj) env \<Rightarrow> tea_key \<Rightarrow> ('w, 'fl, 't, 're, 'inj) tui \<Rightarrow> ('w, 'fl, 't, 're, 'inj) tui \<times> tea_cmd" where
  "onFilterKey E k m =
     (let W = ev_widgets E in
      if key_C0 13 k then (m\<lparr>u_filtering := False, u_fi := wg_Blur W (u_fi m)\<rparr>, NoCmd)
      else if key_C0 27 k then (m\<lparr>u_filtering := False, u_fi := wg_SetValue W [] (wg_Blur W (u_fi m))\<rparr>, NoCmd)
      else
        (let m1 = m\<lparr>u_fi := wg_Key W k (u_fi m)\<rparr>
         in (if u_selected m1 \<ge> visible_count E m1 then m1\<lparr>u_selected := 0\<rparr> else m1, WidgetCmd)))"

definition onViewKey :: "('w, 'fl, 't, 'style, 'inj) env \<Rightarrow> tea_key \<Rightarrow> ('w, 'fl, 't, 're, 'inj) tui \<Rightarrow> ('w, 'fl, 't, 're, 'inj) tui \<times> tea_cmd" where
  "onViewKey E k m =
     (let act = Action (km m) ctxDetail (ev_KeyString E k) in
      if act = ActDetailClose then (m\<lparr>u_viewing := False, u_viewFlow := None\<rparr>, NoCmd)
      else if act = ActDetailSave then (exportViewedFlow E m, NoCmd)
      else (m\<lparr>u_vp := wg_Key (ev_widgets E) k (u_vp m)\<rparr>, WidgetCmd))"

definition onEditKey :: "('w, 'fl, 't, 'style, 'inj) env \<Rightarrow> tea_key \<Rightarrow> ('w, 'fl, 't, 're, 'inj) tui \<Rightarrow> ('w, 'fl, 't, 're, 'inj) tui \<times> tea_cmd" where
  "onEditKey E k m =
     (let act = Action (km m) ctxEditor (ev_KeyString E k); W = ev_widgets E in
      if act = ActQuit then (m, QuitCmd)
      else if act = ActEditorSend then
        (if u_injecting m then
           (let (status, m1) = doInject E m
            in (m1\<lparr>u_editing := False, u_injecting := False, u_ta := wg_Blur W (u_ta m1), u_status := status\<rparr>, NoCmd))
         else (resolve_paused E \<lparr>rs_Decision = Forward, rs_EditedBody = Some (bytes_of (wg_Value W (u_ta m)))\<rparr>
                 ''forwarded (edited)'' m, NoCmd))
      else if act = ActEditorFixLen then
        (if \<not> u_injecting m
         then (m\<lparr>u_ta := wg_SetValue W (fixContentLength (wg_Value W (u_ta m))) (u_ta m), u_status := ''fixed Content-Length''\<rparr>, NoCmd)
         else (m, NoCmd))
      else if act = ActEditorCancel then
        (m\<lparr>u_editing := False, u_injecting := False, u_ta := wg_Blur W (u_ta m),
           u_status := (if u_paused m \<noteq> None then paused_status else ''cancelled'')\<rparr>, NoCmd)
      else (m\<lparr>u_ta := wg_Key W k (u_ta m)\<rparr>, WidgetCmd))"

section \<open>The repeater\<close>

definition nextMode :: "attack_mode \<Rightarrow> attack_mode" where
  "nextMode cur = (case cur of
     SingleMode \<Rightarrow> Sniper | Sniper \<Rightarrow> BatteringRam | BatteringRam \<Rightarrow> Pitchfork | Pitchfork \<Rightarrow> ClusterBomb
   | ClusterBomb \<Rightarrow> SingleMode)"

definition prefillPayloads :: "string list \<Rightarrow> string" where
  "prefillPayloads vars =
     (if vars = [] then ''# no {{variables}} in this request '' @ em_dash @ '' add some, e.g. {{id}}, then'' @ [newline]
        @ ''# list payloads here:  id = 1, 2, 3'' @ [newline]
      else ''# one line per variable; comma-separated payloads for attacks'' @ [newline]
        @ concat (map (\<lambda>v. v @ '' = '' @ [newline]) vars))"

definition jobLabel :: "string gomap \<Rightarrow> string list \<Rightarrow> string" where
  "jobLabel job positions = join '', '' (map (\<lambda>p. p @ ''='' @ gget job p []) positions)"

definition no_response_yet :: string where
  "no_response_yet = ''(no response yet '' @ em_dash @ '' Ctrl+S to send)''"

definition renderRepeaterResponse :: "ui \<Rightarrow> json_lib \<Rightarrow> flow option \<Rightarrow> int \<Rightarrow> string option" where
  "renderRepeaterResponse U J fo width =
     (case fo of
        None \<Rightarrow> Some (ui_Render U (sy_dim (ui_styles U)) no_response_yet)
      | Some f \<Rightarrow> (case f_Response f of
          None \<Rightarrow> Some (ui_Render U (sy_dim (ui_styles U)) no_response_yet)
        | Some r \<Rightarrow> map_option (\<lambda>t. ui_Hardwrap U (ui_Render U (codeStyle (ui_styles U) f) (m_Summary r) @ [newline, newline] @ t) width)
            (renderMessage U J r True)))"

text \<open>The widths and heights of the three sections, from those of the screen.\<close>

definition repeater_sizes :: "int \<Rightarrow> int \<Rightarrow> int \<times> int \<times> int \<times> int" where
  "repeater_sizes width height =
     (let w = (if width - 4 < 10 then 10 else width - 4);
          avail = (if height - 6 < 9 then 9 else height - 6);
          reqH = avail * 45 div 100;
          payH = (if avail * 20 div 100 < 2 then 2 else avail * 20 div 100);
          respH = (if avail - reqH - payH < 3 then 3 else avail - reqH - payH)
      in (w, reqH, payH, respH))"

definition sizeRepeater :: "('w, 'fl, 't, 'style, 'inj) env \<Rightarrow> ('w, 'fl, 't, 're, 'inj) tui \<Rightarrow> ('w, 'fl, 't, 're, 'inj) tui" where
  "sizeRepeater E m =
     (let (w, reqH, payH, respH) = repeater_sizes (u_width m) (u_height m); W = ev_widgets E; r = u_rep m;
          vp = wg_SetSize W w respH (rs_respVP r);
          vp1 = (case rs_resp r of None \<Rightarrow> vp
            | Some f \<Rightarrow> wg_SetContent W (the (renderRepeaterResponse (ev_ui E) (ev_json E) (Some (u_heap m f)) w)) vp)
      in m\<lparr>u_rep := r\<lparr>rs_req := wg_SetSize W w reqH (rs_req r), rs_payload := wg_SetSize W w payH (rs_payload r), rs_respVP := vp1\<rparr>\<rparr>)"

definition openRepeater :: "('w, 'fl, 't, 'style, 'inj) env \<Rightarrow> ('w, 'fl, 't, 're, 'inj) tui \<Rightarrow> ('w, 'fl, 't, 're, 'inj) tui" where
  "openRepeater E m = (case selectedFlow E m of
     None \<Rightarrow> m
   | Some f \<Rightarrow> (case FromFlow (ev_codecs E) (ev_read_request E) (u_heap m f) of
       Inl e \<Rightarrow> m\<lparr>u_status := ''repeater: '' @ ev_error_text E e\<rparr>
     | Inr tmpl \<Rightarrow>
         (let W = ev_widgets E;
              req = wg_Focus W (wg_SetValue W (Raw (ev_parse_url E) tmpl) (wg_newEditor W));
              pay = wg_Blur W (wg_SetValue W (prefillPayloads (template_Variables tmpl)) (wg_newEditor W));
              m1 = sizeRepeater E (m\<lparr>u_rep := \<lparr>rs_base = Some tmpl, rs_req = req, rs_payload = pay, rs_respVP = wg_newViewport W,
                rs_resp = None, rs_mode = SingleMode, rs_focus = RepFocusReq, rs_result = []\<rparr>\<rparr>)
          in m1\<lparr>u_repeating := True, u_status := ''Repeater: Tab switch'' @ dot_sep @ ''Ctrl+O mode'' @ dot_sep
               @ ''Ctrl+S send'' @ dot_sep @ ''Esc close''\<rparr>)))"

text \<open>The variables of a single send, over the entries of the payload map; the insertion points of an attack.\<close>

definition first_values :: "string list gomap \<Rightarrow> string gomap" where
  "first_values payloads = map (\<lambda>(n, l). (n, hd l)) (filter (\<lambda>(n, l). l \<noteq> []) payloads)"

definition insertion_points :: "string list gomap \<Rightarrow> string list \<Rightarrow> string list" where
  "insertion_points payloads vars =
     filter (\<lambda>v. gget payloads v [] \<noteq> [] \<and> gget payloads v [] \<noteq> [[]]) vars"

definition runRepeater :: "('w, 'fl, 't, 'style, 'inj) env \<Rightarrow> template \<Rightarrow> ('w, 'fl, 't, 're, 'inj) tui \<Rightarrow> tea_cmd" where
  "runRepeater E tmpl m =
     (let payloads = ParsePayloads (wg_Value (ev_widgets E) (rs_payload (u_rep m))) in
      if rs_mode (u_rep m) = SingleMode then SendOnceCmd tmpl (first_values payloads)
      else
        (let positions = insertion_points payloads (template_Variables tmpl) in
         SendAttackCmd tmpl \<lparr>a_Mode = rs_mode (u_rep m), a_Positions = positions,
           a_Lists = map (\<lambda>v. gget payloads v []) positions, a_Base = map (\<lambda>v. (v, hd (gget payloads v []))) positions\<rparr>))"

definition focus_section :: "'w widget_lib \<Rightarrow> rep_focus \<Rightarrow> 'w repeater_state \<Rightarrow> 'w repeater_state" where
  "focus_section W f r =
     (let r1 = r\<lparr>rs_focus := f, rs_req := wg_Blur W (rs_req r), rs_payload := wg_Blur W (rs_payload r)\<rparr> in
      case f of
        RepFocusReq \<Rightarrow> r1\<lparr>rs_req := wg_Focus W (rs_req r1)\<rparr>
      | RepFocusPayload \<Rightarrow> r1\<lparr>rs_payload := wg_Focus W (rs_payload r1)\<rparr>
      | RepFocusResp \<Rightarrow> r1)"

definition next_focus :: "rep_focus \<Rightarrow> rep_focus" where
  "next_focus f = (case f of RepFocusReq \<Rightarrow> RepFocusPayload | RepFocusPayload \<Rightarrow> RepFocusResp | RepFocusResp \<Rightarrow> RepFocusReq)"

definition update_section :: "('w \<Rightarrow> 'w) \<Rightarrow> 'w repeater_state \<Rightarrow> 'w repeater_state" where
  "update_section f r = (case rs_focus r of
     RepFocusReq \<Rightarrow> r\<lparr>rs_req := f (rs_req r)\<rparr>
   | RepFocusPayload \<Rightarrow> r\<lparr>rs_payload := f (rs_payload r)\<rparr>
   | RepFocusResp \<Rightarrow> r\<lparr>rs_respVP := f (rs_respVP r)\<rparr>)"

definition onRepeaterKey :: "('w, 'fl, 't, 'style, 'inj) env \<Rightarrow> tea_key \<Rightarrow> ('w, 'fl, 't, 're, 'inj) tui \<Rightarrow> ('w, 'fl, 't, 're, 'inj) tui \<times> tea_cmd" where
  "onRepeaterKey E k m =
     (let act = Action (km m) ctxRepeater (ev_KeyString E k); W = ev_widgets E; r = u_rep m in
      if act = ActQuit then (m, QuitCmd)
      else if act = ActRepeaterClose then (m\<lparr>u_repeating := False\<rparr>, NoCmd)
      else if act = ActRepeaterCycle then (m\<lparr>u_rep := focus_section W (next_focus (rs_focus r)) r\<rparr>, NoCmd)
      else if act = ActRepeaterMode then (m\<lparr>u_rep := r\<lparr>rs_mode := nextMode (rs_mode r)\<rparr>\<rparr>, NoCmd)
      else if act = ActRepeaterSend then
        (case ParseRaw (ev_parse_url E) (wg_Value W (rs_req r)) (rs_base r) of
           Inl e \<Rightarrow> (m\<lparr>u_rep := r\<lparr>rs_result := ''parse error: '' @ ev_error_text E e\<rparr>\<rparr>, NoCmd)
         | Inr tmpl \<Rightarrow> (m\<lparr>u_rep := r\<lparr>rs_result := ''sending'' @ ellipsis\<rparr>\<rparr>, runRepeater E tmpl m))
      else (m\<lparr>u_rep := update_section (wg_Key W k) r\<rparr>, WidgetCmd))"

section \<open>Commands\<close>

definition show_flagged_only :: "('w, 'fl, 't, 'style, 'inj) env \<Rightarrow> ('w, 'fl, 't, 're, 'inj) tui \<Rightarrow> ('w, 'fl, 't, 're, 'inj) tui" where
  "show_flagged_only E m = reclamp E (m\<lparr>u_flaggedOnly := \<not> u_flaggedOnly m\<rparr>)"

definition run_filter :: "('w, 'fl, 't, 'style, 'inj) env \<Rightarrow> string \<Rightarrow> ('w, 'fl, 't, 're, 'inj) tui \<Rightarrow> ('w, 'fl, 't, 're, 'inj) tui" where
  "run_filter E arg m =
     (let m1 = m\<lparr>u_fi := wg_SetValue (ev_widgets E) arg (u_fi m)\<rparr>;
          m2 = (if u_selected m1 \<ge> visible_count E m1 then m1\<lparr>u_selected := 0\<rparr> else m1)
      in m2\<lparr>u_status := (if arg = [] then ''filter cleared'' else ''filter: '' @ arg)\<rparr>)"

definition run_sort :: "('w, 'fl, 't, 'style, 'inj) env \<Rightarrow> string \<Rightarrow> ('w, 'fl, 't, 're, 'inj) tui \<Rightarrow> ('w, 'fl, 't, 're, 'inj) tui" where
  "run_sort E arg m =
     (let by = (\<lambda>s. (reclamp E (m\<lparr>u_sort := s\<rparr>))\<lparr>u_status := ''sort: '' @ sort_string s\<rparr>) in
      if arg = ''none'' \<or> arg = [] then by SortNone
      else if arg = ''status'' then by SortStatus
      else if arg = ''size'' then by SortSize
      else m\<lparr>u_status := ''sort: want none | status | size''\<rparr>)"

definition run_command :: "('w, 'fl, 't, 'style, 'inj) env \<Rightarrow> string \<Rightarrow> string \<Rightarrow> ('w, 'fl, 't, 're, 'inj) tui \<Rightarrow> ('w, 'fl, 't, 're, 'inj) tui \<times> tea_cmd" where
  "run_command E name arg m =
     (if name = ''filter'' then (run_filter E arg m, NoCmd)
      else if name = ''sort'' then (run_sort E arg m, NoCmd)
      else if name = ''export'' then
        (if arg = ''har'' then exportHAR E m
         else if arg = ''flagged'' then exportFlagged E m
         else m\<lparr>u_status := ''export: want har | flagged''\<rparr>, NoCmd)
      else if name = ''har'' then (exportHAR E m, NoCmd)
      else if name = ''flagged'' then
        ((show_flagged_only E m)\<lparr>u_status := (if \<not> u_flaggedOnly m then ''showing flagged only'' else ''showing all flows'')\<rparr>, NoCmd)
      else if name = ''curl'' then (exportCurlSelected E m, NoCmd)
      else if name = ''resend'' then (resendSelected E m, NoCmd)
      else if name = ''flag'' then (toggleSelectedFlag E m, NoCmd)
      else if name = ''w'' then (saveSession E m, NoCmd)
      else if name = ''help'' then (m\<lparr>u_showHelp := True, u_helpScroll := 0\<rparr>, NoCmd)
      else (m, QuitCmd))"

definition runCommand :: "('w, 'fl, 't, 'style, 'inj) env \<Rightarrow> string \<Rightarrow> ('w, 'fl, 't, 're, 'inj) tui \<Rightarrow> ('w, 'fl, 't, 're, 'inj) tui \<times> tea_cmd" where
  "runCommand E line m =
     (if line = [] then (m, NoCmd)
      else
        (let (name, rest, _) = cut line '' ''; arg = trim_space rest in
         case lookupCommand name of
           None \<Rightarrow> (m\<lparr>u_status := ''unknown command: '' @ name @ '' (try :help)''\<rparr>, NoCmd)
         | Some c \<Rightarrow> run_command E (cd_name c) arg m))"

definition onCmdKey :: "('w, 'fl, 't, 'style, 'inj) env \<Rightarrow> tea_key \<Rightarrow> ('w, 'fl, 't, 're, 'inj) tui \<Rightarrow> ('w, 'fl, 't, 're, 'inj) tui \<times> tea_cmd" where
  "onCmdKey E k m =
     (let W = ev_widgets E; closed = m\<lparr>u_cmdline := False, u_ci := wg_SetValue W [] (wg_Blur W (u_ci m))\<rparr> in
      if key_C0 17 k then (m, QuitCmd)
      else if key_C0 13 k then runCommand E (trim_space (wg_Value W (u_ci m))) closed
      else if key_C0 27 k then (closed, NoCmd)
      else (m\<lparr>u_ci := wg_Key W k (u_ci m)\<rparr>, WidgetCmd))"

section \<open>The traffic pane and the leader\<close>

definition clearMotion :: "('w, 'fl, 't, 're, 'inj) tui \<Rightarrow> ('w, 'fl, 't, 're, 'inj) tui" where
  "clearMotion m = m\<lparr>u_count := 0, u_pendingG := False\<rparr>"

definition toggle_requests :: "('w, 'fl, 't, 're, 'inj) tui \<Rightarrow> ('w, 'fl, 't, 're, 'inj) tui" where
  "toggle_requests m = m\<lparr>u_engine := SetEnabled (\<not> Enabled (u_engine m)) (u_engine m)\<rparr>"

definition toggle_responses :: "('w, 'fl, 't, 're, 'inj) tui \<Rightarrow> ('w, 'fl, 't, 're, 'inj) tui" where
  "toggle_responses m = m\<lparr>u_engine := SetInterceptResponses (\<not> InterceptResponses (u_engine m)) (u_engine m)\<rparr>"

definition next_sort :: "sort_mode \<Rightarrow> sort_mode" where
  "next_sort s = (case s of SortNone \<Rightarrow> SortStatus | SortStatus \<Rightarrow> SortSize | SortSize \<Rightarrow> SortNone)"

definition visible_flows :: "('w, 'fl, 't, 'style, 'inj) env \<Rightarrow> ('w, 'fl, 't, 're, 'inj) tui \<Rightarrow> flow list" where
  "visible_flows E m = map (u_heap m) (visible E m)"

text \<open>The switch over the actions of the traffic pane, with the motion's count.\<close>

definition traffic_action ::
    "('w, 'fl, 't, 'style, 'inj) env \<Rightarrow> action \<Rightarrow> int \<Rightarrow> ('w, 'fl, 't, 're, 'inj) tui \<Rightarrow> ('w, 'fl, 't, 're, 'inj) tui" where
  "traffic_action E act n m =
     (let W = ev_widgets E; move = (\<lambda>i. m\<lparr>u_selected := clampIndex i (visible_count E m)\<rparr>) in
      if act = ActInterceptRequests then toggle_requests m
      else if act = ActInterceptResponses then toggle_responses m
      else if act = ActFlowPrev then move (u_selected m - n)
      else if act = ActFlowNext then move (u_selected m + n)
      else if act = ActHostNext then m\<lparr>u_selected := hostJump (visible_flows E m) (u_selected m) 1 n\<rparr>
      else if act = ActHostPrev then m\<lparr>u_selected := hostJump (visible_flows E m) (u_selected m) (- 1) n\<rparr>
      else if act = ActCommand then m\<lparr>u_cmdline := True, u_ci := wg_Focus W (u_ci m)\<rparr>
      else if act = ActFilterOpen then m\<lparr>u_filtering := True, u_fi := wg_Focus W (u_fi m)\<rparr>
      else if act = ActFlowFlag then toggleSelectedFlag E m
      else if act = ActFlaggedOnly then show_flagged_only E m
      else if act = ActSortCycle then reclamp E (m\<lparr>u_sort := next_sort (u_sort m)\<rparr>)
      else if act = ActExportCurl then exportCurlSelected E m
      else if act = ActPausedEdit then (if u_paused m \<noteq> None then enterEdit E m else m)
      else if act = ActPausedFwd then resolve_paused E \<lparr>rs_Decision = Forward, rs_EditedBody = None\<rparr> ''forwarded'' m
      else if act = ActPausedDrop then resolve_paused E \<lparr>rs_Decision = Drop, rs_EditedBody = None\<rparr> ''dropped'' m
      else if act = ActHelpToggle then m\<lparr>u_showHelp := True, u_helpScroll := 0\<rparr>
      else if act = ActRepeaterNew then openRepeater E m
      else if act = ActFlowResend then resendSelected E m
      else if act = ActDetailOpen then openDetail E m
      else if act = ActInjectOut then enterInject E ClientToServer m
      else if act = ActInjectIn then enterInject E ServerToClient m
      else m)"

definition perform :: "('w, 'fl, 't, 'style, 'inj) env \<Rightarrow> action \<Rightarrow> ('w, 'fl, 't, 're, 'inj) tui \<Rightarrow> ('w, 'fl, 't, 're, 'inj) tui" where
  "perform E act m = traffic_action E act (if u_count m < 1 then 1 else u_count m) (m\<lparr>u_pendingG := False, u_count := 0\<rparr>)"

definition jump_to_row :: "('w, 'fl, 't, 'style, 'inj) env \<Rightarrow> int \<Rightarrow> ('w, 'fl, 't, 're, 'inj) tui \<Rightarrow> ('w, 'fl, 't, 're, 'inj) tui" where
  "jump_to_row E dflt m =
     (let n = visible_count E m; t = (if u_count m > 0 then clampIndex (u_count m - 1) n else dflt)
      in clearMotion (m\<lparr>u_selected := (if t < 0 then 0 else t)\<rparr>))"

definition onTrafficKey :: "('w, 'fl, 't, 'style, 'inj) env \<Rightarrow> tea_key \<Rightarrow> ('w, 'fl, 't, 're, 'inj) tui \<Rightarrow> ('w, 'fl, 't, 're, 'inj) tui" where
  "onTrafficKey E k m =
     (let key = ev_KeyString E k; act = Action (km m) ctxTraffic key in
      if act = [] \<and> \<not> claims (km m) ctxTraffic key then
        (case digit key of
           Some n \<Rightarrow>
             if n > 0 \<or> u_count m > 0 then
               (let c = u_count m * 10 + n in m\<lparr>u_count := (if c > 100000 then 100000 else c)\<rparr>)
             else perform E act m
         | None \<Rightarrow>
             if key = ''g'' then
               (if \<not> u_pendingG m then m\<lparr>u_pendingG := True\<rparr> else jump_to_row E 0 m)
             else if key = ''G'' then jump_to_row E (visible_count E m - 1) m
             else perform E act m)
      else perform E act m)"

definition leader_key :: "('w, 'fl, 't, 're, 'inj) tui \<Rightarrow> tea_key \<Rightarrow> bool" where
  "leader_key m k \<longleftrightarrow> kg_Type k = KeyC0 (word_of_nat (km_Leader (km m)))"

definition toggleMouseCapture :: "('w, 'fl, 't, 're, 'inj) tui \<Rightarrow> ('w, 'fl, 't, 're, 'inj) tui \<times> tea_cmd" where
  "toggleMouseCapture m =
     (if \<not> u_mouseCapture m
      then (m\<lparr>u_mouseCapture := True, u_status := ''mouse capture ON '' @ em_dash @ '' '' @ km_LeaderName (km m)
          @ '' m to turn it off for native text selection''\<rparr>, EnableMouseCmd)
      else (m\<lparr>u_mouseCapture := False, u_status := ''mouse capture OFF (native selection works) '' @ em_dash @ '' ''
          @ km_LeaderName (km m) @ '' m to turn it back on''\<rparr>, DisableMouseCmd))"

definition leaderCommand :: "('w, 'fl, 't, 'style, 'inj) env \<Rightarrow> tea_key \<Rightarrow> ('w, 'fl, 't, 're, 'inj) tui \<Rightarrow> ('w, 'fl, 't, 're, 'inj) tui \<times> tea_cmd" where
  "leaderCommand E k m0 =
     (let m = m0\<lparr>u_pendingLeader := False\<rparr> in
      if leader_key m k \<and> (\<not> kg_Alt k \<or> u_focus m = FocusTerminal)
      then (if u_focus m = FocusTerminal then forwardTerminalKey E k m else m, NoCmd)
      else
        (let act = Action (km m) ctxLeader (ev_KeyString E k) in
         if act = ActPaneSwitch then
           (m\<lparr>u_focus := (if u_focus m = FocusTerminal then FocusTraffic else FocusTerminal)\<rparr>, NoCmd)
         else if act = ActQuit then (m, QuitCmd)
         else if act = ActInterceptRequests then (toggle_requests m, NoCmd)
         else if act = ActInterceptResponses then (toggle_responses m, NoCmd)
         else if act = ActSessionSave then (saveSession E m, NoCmd)
         else if act = ActExportHAR then (exportHAR E m, NoCmd)
         else if act = ActExportFlagged then (exportFlagged E m, NoCmd)
         else if act = ActSplitShrink then (adjustSplit E (fo_neg_step (ev_floats E)) m, NoCmd)
         else if act = ActSplitGrow then (adjustSplit E (fo_step (ev_floats E)) m, NoCmd)
         else if act = ActMouseCapture then toggleMouseCapture m
         else if act = ActHelpToggle then (m\<lparr>u_showHelp := \<not> u_showHelp m, u_helpScroll := 0\<rparr>, NoCmd)
         else (m, NoCmd)))"

definition onKey :: "('w, 'fl, 't, 'style, 'inj) env \<Rightarrow> tea_key \<Rightarrow> ('w, 'fl, 't, 're, 'inj) tui \<Rightarrow> ('w, 'fl, 't, 're, 'inj) tui \<times> tea_cmd" where
  "onKey E k m =
     (if u_pendingLeader m then leaderCommand E k (clearMotion m)
      else if \<not> kg_Alt k \<and> leader_key m k then ((clearMotion m)\<lparr>u_pendingLeader := True\<rparr>, NoCmd)
      else if u_focus m = FocusTerminal then (forwardTerminalKey E k (clearMotion m), NoCmd)
      else (onTrafficKey E k m, NoCmd))"

end
