(* ===== verification/TuiMouse.thy ===== *)
theory TuiMouse
  imports TuiKeys
begin

text \<open>
  \<^verbatim>\<open>mouse.go\<close>, the drawing of the traffic pane, and \<^verbatim>\<open>Update\<close>, the step of the interface: one
  message in, the next model and a command out. Bubble Tea calls it from one goroutine, so a run of the interface is a list of messages.
\<close>

section \<open>Drawing the traffic pane\<close>

definition up_down_arrow :: string where "up_down_arrow = [CHR 0xE2, CHR 0x86, CHR 0x95]"

definition traffic_header :: "('w, 'fl, 't, 'style, 'inj) env \<Rightarrow> ('w, 'fl, 't, 're, 'inj) tui \<Rightarrow> string" where
  "traffic_header E m =
     (let v = length (visible E m); n = length (u_flows m) in
      ''Traffic ('' @ show_nat v @ (if v \<noteq> n then ''/'' @ show_nat n else []) @ '')''
      @ (if u_flaggedOnly m then '' '' @ sy_glyphFlag (ui_styles (ev_ui E)) @ ''only'' else [])
      @ (if u_sort m \<noteq> SortNone then '' '' @ up_down_arrow @ sort_string (u_sort m) else [])
      @ (if u_count m > 0 then ''  '' @ show_int (u_count m) else if u_pendingG m then ''  g'' else []))"

definition filter_line_shown :: "('w, 'fl, 't, 'style, 'inj) env \<Rightarrow> ('w, 'fl, 't, 're, 'inj) tui \<Rightarrow> bool" where
  "filter_line_shown E m \<longleftrightarrow> u_filtering m \<or> wg_Value (ev_widgets E) (u_fi m) \<noteq> []"

text \<open>The indices of the rows drawn: the window slides so that the selection stays visible.\<close>

definition row_window :: "int \<Rightarrow> int \<Rightarrow> int \<Rightarrow> int list" where
  "row_window listRows nVis selected =
     (let sel = clampIndex selected nVis; start = (if sel \<ge> listRows then sel - listRows + 1 else 0)
      in [start .. min nVis (start + listRows) - 1])"

definition traffic_lines :: "('w, 'fl, 't, 'style, 'inj) env \<Rightarrow> int \<Rightarrow> int \<Rightarrow> ('w, 'fl, 't, 're, 'inj) tui \<Rightarrow> string list" where
  "traffic_lines E w h m =
     (let U = ev_ui E; W = ev_widgets E; vis = visible E m; n = int (length vis);
          shown = filter_line_shown E m;
          listRows = snd (trafficRowLayout h shown (u_cmdline m) (u_paused m \<noteq> None))
      in [ui_Render U (sy_title (ui_styles U)) (traffic_header E m)]
         @ (if shown then [truncate_text (wg_View W (u_fi m)) w] else [])
         @ (if u_cmdline m then [truncate_text (wg_View W (u_ci m)) w] else [])
         @ map (\<lambda>i. renderFlowRow U (u_heap m (vis ! nat i)) (i = clampIndex (u_selected m) n) w)
             (row_window listRows n (u_selected m)))"

definition renderTraffic :: "('w, 'fl, 't, 'style, 'inj) env \<Rightarrow> int \<Rightarrow> int \<Rightarrow> ('w, 'fl, 't, 're, 'inj) tui \<Rightarrow> string" where
  "renderTraffic E w h m =
     concat (map (\<lambda>l. l @ [newline]) (traffic_lines E w h m))
     @ (case u_paused m of
          None \<Rightarrow> []
        | Some f \<Rightarrow>
            (let U = ev_ui E; S = ui_styles U in
             [newline] @ ui_Render U (sy_pending S) (sy_glyphPointer S @ '' '' @ Title (u_heap m f))
             @ [newline] @ ''[e]dit  [f]orward  [d]rop''))"

definition renderEditorTitle :: "('w, 'fl, 't, 'style, 'inj) env \<Rightarrow> ('w, 'fl, 't, 're, 'inj) tui \<Rightarrow> string" where
  "renderEditorTitle E m =
     (if u_injecting m then ''Inject WS frame ('' @ direction_string (u_injectDir m) @ '')''
      else case u_paused m of
          Some f \<Rightarrow> ''Edit '' @ sy_glyphPointer (ui_styles (ev_ui E)) @ '' '' @ Title (u_heap m f)
        | None \<Rightarrow> ''Edit request'')"

definition renderEditor :: "('w, 'fl, 't, 'style, 'inj) env \<Rightarrow> ('w, 'fl, 't, 're, 'inj) tui \<Rightarrow> string" where
  "renderEditor E m = ui_Render (ev_ui E) (sy_title (ui_styles (ev_ui E))) (renderEditorTitle E m) @ [newline]
     @ wg_View (ev_widgets E) (u_ta m)"

definition renderDetail :: "('w, 'fl, 't, 'style, 'inj) env \<Rightarrow> ('w, 'fl, 't, 're, 'inj) tui \<Rightarrow> string" where
  "renderDetail E m =
     (let U = ev_ui E; W = ev_widgets E;
          title = (case u_viewFlow m of None \<Rightarrow> ''Detail''
            | Some f \<Rightarrow> ''Detail '' @ sy_glyphArrow (ui_styles U) @ '' '' @ Title (u_heap m f))
      in ui_Render U (sy_title (ui_styles U)) (truncate_text title (wg_Width W (u_vp m))) @ [newline] @ wg_View W (u_vp m) @ [newline]
         @ ''[esc] back'' @ dot_sep @ ''j/k scroll'' @ dot_sep @ ''s save to txt'')"

text \<open>The content of the right pane, which \<^verbatim>\<open>View\<close> joins with the screen of the target on its left.\<close>

definition right_content :: "('w, 'fl, 't, 'style, 'inj) env \<Rightarrow> ('w, 'fl, 't, 're, 'inj) tui \<Rightarrow> string" where
  "right_content E m =
     (if u_editing m then renderEditor E m
      else if u_viewing m then renderDetail E m
      else renderTraffic E (rightPaneWidth E m - 2) (u_height m - 3 - 1) m)"

section \<open>Hit testing\<close>

record rect =
  rc_X :: int
  rc_Y :: int
  rc_W :: int
  rc_H :: int

definition rect_contains :: "rect \<Rightarrow> int \<Rightarrow> int \<Rightarrow> bool" where
  "rect_contains r x y \<longleftrightarrow> x \<ge> rc_X r \<and> x < rc_X r + rc_W r \<and> y \<ge> rc_Y r \<and> y < rc_Y r + rc_H r"

definition paneRects :: "('w, 'fl, 't, 'style, 'inj) env \<Rightarrow> ('w, 'fl, 't, 're, 'inj) tui \<Rightarrow> rect \<times> rect" where
  "paneRects E m =
     (let boxH = u_height m - 1; (l, r) = paneBoxWidths E m
      in (\<lparr>rc_X = 0, rc_Y = 0, rc_W = l, rc_H = boxH\<rparr>, \<lparr>rc_X = l, rc_Y = 0, rc_W = r, rc_H = boxH\<rparr>))"

definition contentGrid :: "rect \<Rightarrow> int \<times> int" where
  "contentGrid box = (let paneW = rc_W box - 2; paneH = rc_H box - 2 in (paneW - 2, paneH - 1))"

text \<open>The cell of the content a click landed on, if it did.\<close>

definition content_cell :: "rect \<Rightarrow> tea_mouse \<Rightarrow> (int \<times> int) option" where
  "content_cell box ev =
     (let (cols, rows) = contentGrid box; col = mm_X ev - rc_X box - 1; row = mm_Y ev - rc_Y box - 1
      in if col < 0 \<or> row < 0 \<or> col \<ge> cols \<or> row \<ge> rows then None else Some (col, row))"

definition wheelLines :: int where "wheelLines = 3"

definition keyPageUp :: bytes where "keyPageUp = bytes_of (CHR 0x1B # ''[5~'')"
definition keyPageDown :: bytes where "keyPageDown = bytes_of (CHR 0x1B # ''[6~'')"

definition wheelPageKey :: "tea_mouse \<Rightarrow> bytes option" where
  "wheelPageKey ev =
     (if mm_Action ev \<noteq> TeaPress then None
      else if mm_Button ev = TeaWheelUp then Some keyPageUp
      else if mm_Button ev = TeaWheelDown then Some keyPageDown
      else None)"

definition mouseButtons :: "tea_button \<Rightarrow> mouse_button option" where
  "mouseButtons b = (case b of
     TeaNone \<Rightarrow> Some MouseButtonNone | TeaLeft \<Rightarrow> Some MouseButtonLeft | TeaMiddle \<Rightarrow> Some MouseButtonMiddle
   | TeaRight \<Rightarrow> Some MouseButtonRight | TeaWheelUp \<Rightarrow> Some MouseButtonWheelUp | TeaWheelDown \<Rightarrow> Some MouseButtonWheelDown
   | TeaWheelLeft \<Rightarrow> Some MouseButtonWheelLeft | TeaWheelRight \<Rightarrow> Some MouseButtonWheelRight
   | TeaBackward \<Rightarrow> Some MouseButtonBackward | TeaForward \<Rightarrow> Some MouseButtonForward
   | Tea10 \<Rightarrow> Some MouseButton10 | Tea11 \<Rightarrow> Some MouseButton11 | TeaUnmapped \<Rightarrow> None)"

definition toMouseEvent :: "tea_mouse \<Rightarrow> int \<Rightarrow> int \<Rightarrow> mouse_event option" where
  "toMouseEvent ev col row = (case mouseButtons (mm_Button ev) of
     None \<Rightarrow> None
   | Some b \<Rightarrow>
       if b = MouseButtonNone \<and> mm_Action ev \<noteq> TeaMotion then None
       else Some \<lparr>me_X = col, me_Y = row, me_Button = b,
         me_Action = (case mm_Action ev of TeaPress \<Rightarrow> MouseActionPress | TeaRelease \<Rightarrow> MouseActionRelease
           | TeaMotion \<Rightarrow> MouseActionMotion),
         me_Shift = mm_Shift ev, me_Alt = mm_Alt ev, me_Ctrl = mm_Ctrl ev\<rparr>)"

definition onHelpMouse :: "('w, 'fl, 't, 'style, 'inj) env \<Rightarrow> tea_mouse \<Rightarrow> ('w, 'fl, 't, 're, 'inj) tui \<Rightarrow> ('w, 'fl, 't, 're, 'inj) tui" where
  "onHelpMouse E ev m =
     (let scrolled = (\<lambda>d. m\<lparr>u_helpScroll := clampHelpScroll (ev_ui E) (km m) (u_height m) d\<rparr>) in
      if mm_Action ev \<noteq> TeaPress then m
      else if mm_Button ev = TeaWheelUp then scrolled (u_helpScroll m - wheelLines)
      else if mm_Button ev = TeaWheelDown then scrolled (u_helpScroll m + wheelLines)
      else m)"

definition onRepeaterMouse :: "('w, 'fl, 't, 'style, 'inj) env \<Rightarrow> tea_mouse \<Rightarrow> ('w, 'fl, 't, 're, 'inj) tui \<Rightarrow> ('w, 'fl, 't, 're, 'inj) tui \<times> tea_cmd" where
  "onRepeaterMouse E ev m =
     (if \<not> ev_IsWheel E ev then (m, NoCmd)
      else (m\<lparr>u_rep := update_section (wg_Mouse (ev_widgets E) ev) (u_rep m)\<rparr>, WidgetCmd))"

text \<open>A page key is written to the PTY in one call, which may fail.\<close>

definition write_page :: "('w, 'fl, 't, 'style, 'inj) env \<Rightarrow> bytes \<Rightarrow> ('w, 'fl, 't, 're, 'inj) tui \<Rightarrow> ('w, 'fl, 't, 're, 'inj) tui" where
  "write_page E key m = (case u_pty m of
     None \<Rightarrow> m
   | Some sent \<Rightarrow>
       (let (n, err) = ev_PtyWrite E sent key; m1 = m\<lparr>u_pty := Some (sent @ take n key)\<rparr>
        in case err of Some e \<Rightarrow> m1\<lparr>u_status := ''scroll: '' @ e\<rparr> | None \<Rightarrow> m1))"

definition onLeftPaneMouse :: "('w, 'fl, 't, 'style, 'inj) env \<Rightarrow> tea_mouse \<Rightarrow> rect \<Rightarrow> ('w, 'fl, 't, 're, 'inj) tui \<Rightarrow> ('w, 'fl, 't, 're, 'inj) tui" where
  "onLeftPaneMouse E ev box m0 =
     (let m = m0\<lparr>u_focus := FocusTerminal\<rparr> in
      if \<not> u_hasTarget m \<or> u_screen m = None then m
      else case content_cell box ev of
          None \<Rightarrow> m
        | Some (col, row) \<Rightarrow>
            (case wheelPageKey ev of
               Some key \<Rightarrow> write_page E key m
             | None \<Rightarrow>
                 (case toMouseEvent ev col row of
                    None \<Rightarrow> m
                  | Some me \<Rightarrow> m\<lparr>u_screen := map_option (ForwardMouse (ev_term E) me) (u_screen m)\<rparr>)))"

definition clickedFlowIndex :: "('w, 'fl, 't, 'style, 'inj) env \<Rightarrow> int \<Rightarrow> int \<Rightarrow> ('w, 'fl, 't, 're, 'inj) tui \<Rightarrow> int option" where
  "clickedFlowIndex E y h m =
     flowRowIndex y h (visible_count E m) (u_selected m) (filter_line_shown E m) (u_cmdline m) (u_paused m \<noteq> None)"

definition onRightPaneWheel :: "('w, 'fl, 't, 'style, 'inj) env \<Rightarrow> tea_mouse \<Rightarrow> ('w, 'fl, 't, 're, 'inj) tui \<Rightarrow> ('w, 'fl, 't, 're, 'inj) tui" where
  "onRightPaneWheel E ev m =
     (let W = ev_widgets E in
      if u_editing m then m\<lparr>u_ta := wg_Mouse W ev (u_ta m)\<rparr>
      else if u_viewing m then m\<lparr>u_vp := wg_Mouse W ev (u_vp m)\<rparr>
      else if mm_Button ev = TeaWheelUp then
        (if u_selected m > 0 then m\<lparr>u_selected := u_selected m - 1\<rparr> else m)
      else if mm_Button ev = TeaWheelDown then
        (if u_selected m < visible_count E m - 1 then m\<lparr>u_selected := u_selected m + 1\<rparr> else m)
      else m)"

definition onRightPaneMouse :: "('w, 'fl, 't, 'style, 'inj) env \<Rightarrow> tea_mouse \<Rightarrow> rect \<Rightarrow> ('w, 'fl, 't, 're, 'inj) tui \<Rightarrow> ('w, 'fl, 't, 're, 'inj) tui" where
  "onRightPaneMouse E ev box m0 =
     (let m = m0\<lparr>u_focus := FocusTraffic\<rparr> in
      case content_cell box ev of
        None \<Rightarrow> m
      | Some (col, row) \<Rightarrow>
          if ev_IsWheel E ev then onRightPaneWheel E ev m
          else if mm_Action ev \<noteq> TeaPress then m
          else if u_editing m \<or> u_viewing m then m
          else (case clickedFlowIndex E row (snd (contentGrid box)) m of
              None \<Rightarrow> m
            | Some idx \<Rightarrow>
                (let m1 = (if idx = u_selected m then openDetail E m else m) in m1\<lparr>u_selected := idx\<rparr>)))"

definition onMouse :: "('w, 'fl, 't, 'style, 'inj) env \<Rightarrow> tea_mouse \<Rightarrow> ('w, 'fl, 't, 're, 'inj) tui \<Rightarrow> ('w, 'fl, 't, 're, 'inj) tui \<times> tea_cmd" where
  "onMouse E ev m =
     (if u_width m = 0 then (m, NoCmd)
      else if u_showHelp m then (onHelpMouse E ev m, NoCmd)
      else if u_repeating m then onRepeaterMouse E ev m
      else if u_filtering m \<or> u_cmdline m then (m, NoCmd)
      else
        (let (left, right) = paneRects E m in
         if rect_contains left (mm_X ev) (mm_Y ev) then
           (if u_editing m \<or> u_viewing m then (m, NoCmd) else (onLeftPaneMouse E ev left m, NoCmd))
         else if rect_contains right (mm_X ev) (mm_Y ev) then (onRightPaneMouse E ev right m, WidgetCmd)
         else (m, NoCmd)))"

section \<open>Update\<close>

datatype tea_msg = WindowSizeMsg int int | PtyMsg | EventMsg | PauseMsg paused | MouseMsg tea_mouse
  | RepeaterResultMsg "fref option" "string option" | AttackDoneMsg int | KeyMsg tea_key | OtherMsg

definition repeater_result :: "('w, 'fl, 't, 'style, 'inj) env \<Rightarrow> fref option \<Rightarrow> string option \<Rightarrow> ('w, 'fl, 't, 're, 'inj) tui \<Rightarrow> ('w, 'fl, 't, 're, 'inj) tui" where
  "repeater_result E fo err m =
     (let W = ev_widgets E; r = u_rep m;
          res = (case err of
            Some e \<Rightarrow> ''error: '' @ e
          | None \<Rightarrow> (case fo of None \<Rightarrow> rs_result r | Some f \<Rightarrow> (case f_Response (u_heap m f) of
              None \<Rightarrow> rs_result r | Some resp \<Rightarrow> ''sent'' @ dot_sep @ m_Summary resp)));
          body = the (renderRepeaterResponse (ev_ui E) (ev_json E) (map_option (u_heap m) fo) (wg_Width W (rs_respVP r)))
      in m\<lparr>u_rep := r\<lparr>rs_resp := fo, rs_result := res, rs_respVP := wg_GotoTop W (wg_SetContent W body (rs_respVP r))\<rparr>\<rparr>)"

definition onAnyKey :: "('w, 'fl, 't, 'style, 'inj) env \<Rightarrow> tea_key \<Rightarrow> ('w, 'fl, 't, 're, 'inj) tui \<Rightarrow> ('w, 'fl, 't, 're, 'inj) tui \<times> tea_cmd" where
  "onAnyKey E k m =
     (if u_showHelp m then onHelpKey E k m
      else if u_repeating m then onRepeaterKey E k m
      else if u_editing m then onEditKey E k m
      else if u_filtering m then onFilterKey E k m
      else if u_cmdline m then onCmdKey E k m
      else if u_viewing m then onViewKey E k m
      else onKey E k m)"

fun Update :: "('w, 'fl, 't, 'style, 'inj) env \<Rightarrow> tea_msg \<Rightarrow> ('w, 'fl, 't, 're, 'inj) tui \<Rightarrow> ('w, 'fl, 't, 're, 'inj) tui \<times> tea_cmd" where
  "Update E (WindowSizeMsg w h) m =
     (let m1 = sizeDetail E (sizeEditor E (resizeChild E (m\<lparr>u_width := w, u_height := h\<rparr>)))
      in (if u_repeating m1 then sizeRepeater E m1 else m1, NoCmd))"
| "Update E PtyMsg m = (m, WaitPtyCmd)"
| "Update E EventMsg m =
     (let m1 = m\<lparr>u_flows := listed m\<rparr> in
      ((if u_viewing m1 then (case u_viewFlow m1 of None \<Rightarrow> m1 | Some f \<Rightarrow> set_detail E f m1) else m1), WaitEventCmd))"
| "Update E (PauseMsg p) m = (enqueuePause E p m, WaitPauseCmd)"
| "Update E (MouseMsg ev) m = onMouse E ev m"
| "Update E (RepeaterResultMsg fo err) m = (repeater_result E fo err m, NoCmd)"
| "Update E (AttackDoneMsg n) m =
     (m\<lparr>u_rep := (u_rep m)\<lparr>rs_result := ''attack complete'' @ dot_sep @ show_int n @ '' requests sent (see traffic list)''\<rparr>\<rparr>, NoCmd)"
| "Update E (KeyMsg k) m = onAnyKey E k m"
| "Update E OtherMsg m = (m, NoCmd)"

fun run_msgs :: "('w, 'fl, 't, 'style, 'inj) env \<Rightarrow> tea_msg list \<Rightarrow> ('w, 'fl, 't, 're, 'inj) tui \<Rightarrow> ('w, 'fl, 't, 're, 'inj) tui" where
  "run_msgs E [] m = m"
| "run_msgs E (x # xs) m = run_msgs E xs (fst (Update E x m))"

text \<open>A model just made, for the witnesses.\<close>

definition demo_ui :: "('w, 'fl, 't, 'style, 'inj) env \<Rightarrow> ('w, 'fl, 't, unit, 'inj) tui" where
  "demo_ui E = New E demo_heap NewStore NewEngine False None None [] \<lparr>km_Leader = 1, km_LeaderName = DefaultLeader, km_binds = None\<rparr>"

end
