(* ===== verification/TuiFrame.thy ===== *)
theory TuiFrame
  imports TuiMouse
begin

text \<open>
  A contract for reasoning about the handlers of the interface: a relation between a state and a later one that a change of any
  field but those of the pauses, the editor and the pending motion extends. Every handler that touches nothing else then extends it
  too. The components \<open>TuiPause\<close> and \<open>TuiMotion\<close> interpret it.
\<close>

named_theorems frame_rules \<open>operations that extend a frame, as introduction rules\<close>

locale tui_frame =
  fixes E :: "('w, 'fl, 't, 'style, 'inj) env"
    and R :: "('w, 'fl, 't, 're, 'inj) tui \<Rightarrow> ('w, 'fl, 't, 're, 'inj) tui \<Rightarrow> bool"
  assumes fr_heap: "R m m' \<Longrightarrow> R m (m'\<lparr>u_heap := x1\<rparr>)"
    and fr_store: "R m m' \<Longrightarrow> R m (m'\<lparr>u_store := x2\<rparr>)"
    and fr_engine: "R m m' \<Longrightarrow> R m (m'\<lparr>u_engine := x3\<rparr>)"
    and fr_pty: "R m m' \<Longrightarrow> R m (m'\<lparr>u_pty := x4\<rparr>)"
    and fr_screen: "R m m' \<Longrightarrow> R m (m'\<lparr>u_screen := x5\<rparr>)"
    and fr_width: "R m m' \<Longrightarrow> R m (m'\<lparr>u_width := x6\<rparr>)"
    and fr_height: "R m m' \<Longrightarrow> R m (m'\<lparr>u_height := x7\<rparr>)"
    and fr_focus: "R m m' \<Longrightarrow> R m (m'\<lparr>u_focus := x8\<rparr>)"
    and fr_flows: "R m m' \<Longrightarrow> R m (m'\<lparr>u_flows := x9\<rparr>)"
    and fr_selected: "R m m' \<Longrightarrow> R m (m'\<lparr>u_selected := x10\<rparr>)"
    and fr_pendingLeader: "R m m' \<Longrightarrow> R m (m'\<lparr>u_pendingLeader := x11\<rparr>)"
    and fr_viewing: "R m m' \<Longrightarrow> R m (m'\<lparr>u_viewing := x12\<rparr>)"
    and fr_viewFlow: "R m m' \<Longrightarrow> R m (m'\<lparr>u_viewFlow := x13\<rparr>)"
    and fr_vp: "R m m' \<Longrightarrow> R m (m'\<lparr>u_vp := x14\<rparr>)"
    and fr_injectID: "R m m' \<Longrightarrow> R m (m'\<lparr>u_injectID := x15\<rparr>)"
    and fr_injectDir: "R m m' \<Longrightarrow> R m (m'\<lparr>u_injectDir := x16\<rparr>)"
    and fr_filtering: "R m m' \<Longrightarrow> R m (m'\<lparr>u_filtering := x17\<rparr>)"
    and fr_fi: "R m m' \<Longrightarrow> R m (m'\<lparr>u_fi := x18\<rparr>)"
    and fr_cmdline: "R m m' \<Longrightarrow> R m (m'\<lparr>u_cmdline := x19\<rparr>)"
    and fr_ci: "R m m' \<Longrightarrow> R m (m'\<lparr>u_ci := x20\<rparr>)"
    and fr_flaggedOnly: "R m m' \<Longrightarrow> R m (m'\<lparr>u_flaggedOnly := x21\<rparr>)"
    and fr_sort: "R m m' \<Longrightarrow> R m (m'\<lparr>u_sort := x22\<rparr>)"
    and fr_showHelp: "R m m' \<Longrightarrow> R m (m'\<lparr>u_showHelp := x23\<rparr>)"
    and fr_helpScroll: "R m m' \<Longrightarrow> R m (m'\<lparr>u_helpScroll := x24\<rparr>)"
    and fr_repeating: "R m m' \<Longrightarrow> R m (m'\<lparr>u_repeating := x25\<rparr>)"
    and fr_rep: "R m m' \<Longrightarrow> R m (m'\<lparr>u_rep := x26\<rparr>)"
    and fr_splitRatio: "R m m' \<Longrightarrow> R m (m'\<lparr>u_splitRatio := x27\<rparr>)"
    and fr_status: "R m m' \<Longrightarrow> R m (m'\<lparr>u_status := x28\<rparr>)"
    and fr_mouseCapture: "R m m' \<Longrightarrow> R m (m'\<lparr>u_mouseCapture := x29\<rparr>)"
    and fr_call: "R m m' \<Longrightarrow> (\<forall>t r. c \<noteq> CallResolve t r) \<Longrightarrow> R m (call c m')"
    and fr_editor_size: "R m m' \<Longrightarrow> R m (m'\<lparr>u_ta := wg_SetSize (ev_widgets E) a b (u_ta m')\<rparr>)"
    and fr_editor_wheel: "R m m' \<Longrightarrow> R m (m'\<lparr>u_ta := wg_Mouse (ev_widgets E) ev (u_ta m')\<rparr>)"
begin

lemmas frame_fields [frame_rules] =
  fr_heap fr_store fr_engine fr_pty fr_screen fr_width fr_height fr_focus fr_flows fr_selected fr_pendingLeader fr_viewing fr_viewFlow fr_vp fr_injectID fr_injectDir fr_filtering fr_fi fr_cmdline fr_ci fr_flaggedOnly fr_sort fr_showHelp fr_helpScroll fr_repeating fr_rep fr_splitRatio fr_status fr_mouseCapture fr_editor_wheel

lemma frame_calls [frame_rules]:
  "R m m' \<Longrightarrow> R m (call (CallWrite p d) m')"
  "R m m' \<Longrightarrow> R m (call (CallSave p) m')"
  "R m m' \<Longrightarrow> R m (call (CallResize a b) m')"
  "R m m' \<Longrightarrow> R m (call (CallInject i dr d) m')"
  by (simp_all add: fr_call)

lemma frame_branches [frame_rules]:
  "R m x \<Longrightarrow> R m y \<Longrightarrow> R m (if b then x else y)"
  "R m (fst p) \<Longrightarrow> R m (fst q) \<Longrightarrow> R m (fst (if b then p else q))"
  "R m x \<Longrightarrow> R m (fst (x, c))"
  "R m x \<Longrightarrow> (\<And>v. R m (g v)) \<Longrightarrow> R m (case oo of None \<Rightarrow> x | Some v \<Rightarrow> g v)"
  "R m (fst p) \<Longrightarrow> (\<And>v. R m (fst (k v))) \<Longrightarrow> R m (fst (case oo of None \<Rightarrow> p | Some v \<Rightarrow> k v))"
  "(\<And>v. R m (f1 v)) \<Longrightarrow> (\<And>v. R m (f2 v)) \<Longrightarrow> R m (case ss of Inl v \<Rightarrow> f1 v | Inr v \<Rightarrow> f2 v)"
  "(\<And>v. R m (fst (k1 v))) \<Longrightarrow> (\<And>v. R m (fst (k2 v))) \<Longrightarrow>
    R m (fst (case ss of Inl v \<Rightarrow> k1 v | Inr v \<Rightarrow> k2 v))"
  "(\<And>a b. R m (f3 a b)) \<Longrightarrow> R m (case pp of (a, b) \<Rightarrow> f3 a b)"
  "(\<And>a b. R m (fst (k3 a b))) \<Longrightarrow> R m (fst (case pp of (a, b) \<Rightarrow> k3 a b))"
  by (auto split: option.split sum.split prod.split)

lemma frame_reclamp [frame_rules]: "R m m' \<Longrightarrow> R m (reclamp E m')"
  unfolding reclamp_def by (intro frame_rules | assumption)+

lemma frame_write_out [frame_rules]: "R m m' \<Longrightarrow> R m (write_out E name data f d m')"
  unfolding write_out_def Let_def by (intro frame_rules | assumption)+

lemma frame_saveSession [frame_rules]: "R m m' \<Longrightarrow> R m (saveSession E m')"
  unfolding saveSession_def by (intro frame_rules | assumption)+

lemma frame_exportHAR [frame_rules]: "R m m' \<Longrightarrow> R m (exportHAR E m')"
  unfolding exportHAR_def by (intro frame_rules | assumption)+

lemma frame_exportViewedFlow [frame_rules]: "R m m' \<Longrightarrow> R m (exportViewedFlow E m')"
  unfolding exportViewedFlow_def by (intro frame_rules | assumption)+

lemma frame_exportFlagged [frame_rules]: "R m m' \<Longrightarrow> R m (exportFlagged E m')"
  unfolding exportFlagged_def Let_def by (intro frame_rules | assumption)+

lemma frame_exportCurlSelected [frame_rules]: "R m m' \<Longrightarrow> R m (exportCurlSelected E m')"
  unfolding exportCurlSelected_def by (intro frame_rules | assumption)+

lemma frame_toggleSelectedFlag [frame_rules]: "R m m' \<Longrightarrow> R m (toggleSelectedFlag E m')"
  unfolding toggleSelectedFlag_def Let_def by (intro frame_rules | assumption)+

lemma frame_add_flow [frame_rules]: "R m m' \<Longrightarrow> R m (add_flow rf m')"
  unfolding add_flow_def Let_def by (intro frame_rules | assumption)+

lemma frame_resendSelected [frame_rules]: "R m m' \<Longrightarrow> R m (resendSelected E m')"
  unfolding resendSelected_def Let_def by (intro frame_rules | assumption)+

lemma frame_sizeEditor [frame_rules]: "R m m' \<Longrightarrow> R m (sizeEditor E m')"
  unfolding sizeEditor_def by (rule fr_editor_size)

lemma frame_sizeDetail [frame_rules]: "R m m' \<Longrightarrow> R m (sizeDetail E m')"
  unfolding sizeDetail_def by (intro frame_rules | assumption)+

lemma frame_resizeChild [frame_rules]: "R m m' \<Longrightarrow> R m (resizeChild E m')"
  unfolding resizeChild_def Let_def by (intro frame_rules | assumption)+

lemma frame_adjustSplit [frame_rules]: "R m m' \<Longrightarrow> R m (adjustSplit E d m')"
  unfolding adjustSplit_def Let_def by (intro frame_rules | assumption)+

lemma frame_set_detail [frame_rules]: "R m m' \<Longrightarrow> R m (set_detail E f m')"
  unfolding set_detail_def by (intro frame_rules | assumption)+

lemma frame_openDetail [frame_rules]: "R m m' \<Longrightarrow> R m (openDetail E m')"
  unfolding openDetail_def Let_def by (intro frame_rules | assumption)+

lemma frame_send_pty [frame_rules]: "R m m' \<Longrightarrow> R m (send_pty E b m')"
  unfolding send_pty_def by (intro frame_rules | assumption)+

lemma frame_forwardTerminalKey [frame_rules]: "R m m' \<Longrightarrow> R m (forwardTerminalKey E k m')"
  unfolding forwardTerminalKey_def by (intro frame_rules | assumption)+

lemma frame_sizeRepeater [frame_rules]: "R m m' \<Longrightarrow> R m (sizeRepeater E m')"
  unfolding sizeRepeater_def Let_def by (intro frame_rules | assumption)+

lemma frame_openRepeater [frame_rules]: "R m m' \<Longrightarrow> R m (openRepeater E m')"
  unfolding openRepeater_def Let_def by (intro frame_rules | assumption)+

lemma frame_show_flagged_only [frame_rules]: "R m m' \<Longrightarrow> R m (show_flagged_only E m')"
  unfolding show_flagged_only_def by (intro frame_rules | assumption)+

lemma frame_run_filter [frame_rules]: "R m m' \<Longrightarrow> R m (run_filter E arg m')"
  unfolding run_filter_def Let_def by (intro frame_rules | assumption)+

lemma frame_run_sort [frame_rules]: "R m m' \<Longrightarrow> R m (run_sort E arg m')"
  unfolding run_sort_def Let_def by (intro frame_rules | assumption)+

lemma frame_toggle_requests [frame_rules]: "R m m' \<Longrightarrow> R m (toggle_requests m')"
  unfolding toggle_requests_def by (intro frame_rules | assumption)+

lemma frame_toggle_responses [frame_rules]: "R m m' \<Longrightarrow> R m (toggle_responses m')"
  unfolding toggle_responses_def by (intro frame_rules | assumption)+

lemma frame_write_page [frame_rules]: "R m m' \<Longrightarrow> R m (write_page E key m')"
  unfolding write_page_def Let_def by (intro frame_rules | assumption)+

lemma frame_onLeftPaneMouse [frame_rules]: "R m m' \<Longrightarrow> R m (onLeftPaneMouse E ev box m')"
  unfolding onLeftPaneMouse_def Let_def by (intro frame_rules | assumption)+

lemma frame_onHelpMouse [frame_rules]: "R m m' \<Longrightarrow> R m (onHelpMouse E ev m')"
  unfolding onHelpMouse_def Let_def by (intro frame_rules | assumption)+

lemma frame_onRepeaterKey [frame_rules]: "R m m' \<Longrightarrow> R m (fst (onRepeaterKey E k m'))"
  unfolding onRepeaterKey_def Let_def by (intro frame_rules | assumption)+

lemma frame_run_command [frame_rules]: "R m m' \<Longrightarrow> R m (fst (run_command E name arg m'))"
  unfolding run_command_def by (intro frame_rules | assumption)+

lemma frame_runCommand [frame_rules]: "R m m' \<Longrightarrow> R m (fst (runCommand E line m'))"
  unfolding runCommand_def Let_def by (intro frame_rules | assumption)+

lemma frame_onCmdKey [frame_rules]: "R m m' \<Longrightarrow> R m (fst (onCmdKey E k m'))"
  unfolding onCmdKey_def Let_def by (intro frame_rules | assumption)+

lemma frame_onHelpKey [frame_rules]: "R m m' \<Longrightarrow> R m (fst (onHelpKey E k m'))"
  unfolding onHelpKey_def Let_def by (intro frame_rules | assumption)+

lemma frame_onFilterKey [frame_rules]: "R m m' \<Longrightarrow> R m (fst (onFilterKey E k m'))"
  unfolding onFilterKey_def Let_def by (intro frame_rules | assumption)+

lemma frame_onViewKey [frame_rules]: "R m m' \<Longrightarrow> R m (fst (onViewKey E k m'))"
  unfolding onViewKey_def Let_def by (intro frame_rules | assumption)+

lemma frame_toggleMouseCapture [frame_rules]: "R m m' \<Longrightarrow> R m (fst (toggleMouseCapture m'))"
  unfolding toggleMouseCapture_def by (intro frame_rules | assumption)+

lemma frame_leaderCommand [frame_rules]: "R m m' \<Longrightarrow> R m (fst (leaderCommand E k m'))"
  unfolding leaderCommand_def Let_def by (intro frame_rules | assumption)+

lemma frame_onRepeaterMouse [frame_rules]: "R m m' \<Longrightarrow> R m (fst (onRepeaterMouse E ev m'))"
  unfolding onRepeaterMouse_def by (intro frame_rules | assumption)+

lemma frame_onRightPaneWheel [frame_rules]: "R m m' \<Longrightarrow> R m (onRightPaneWheel E ev m')"
  unfolding onRightPaneWheel_def Let_def by (intro frame_rules | assumption)+

lemma frame_onRightPaneMouse [frame_rules]: "R m m' \<Longrightarrow> R m (onRightPaneMouse E ev box m')"
  unfolding onRightPaneMouse_def Let_def by (intro frame_rules | assumption)+

lemma frame_onMouse [frame_rules]: "R m m' \<Longrightarrow> R m (fst (onMouse E ev m'))"
  unfolding onMouse_def Let_def by (intro frame_rules | assumption)+

lemma frame_repeater_result [frame_rules]: "R m m' \<Longrightarrow> R m (repeater_result E fo err m')"
  unfolding repeater_result_def Let_def by (intro frame_rules | assumption)+

end

end
