(* ===== verification/TuiPause.thy ===== *)
theory TuiPause
  imports TuiFrame
begin

text \<open>
  What the operator is owed of the paused messages, over any run of the interface: they are
  presented and resolved in the order in which they were announced, each once, and an edit goes to the message it was made on.
\<close>

section \<open>Histories\<close>

definition resolutions :: "('w, 'fl, 't, 're, 'inj) tui \<Rightarrow> (token \<times> resolution) list" where
  "resolutions m = concat (map (\<lambda>c. case c of CallResolve t r \<Rightarrow> [(t, r)] | _ \<Rightarrow> []) (u_calls m))"

fun announced :: "tea_msg list \<Rightarrow> paused list" where
  "announced [] = []"
| "announced (PauseMsg p # ms) = p # announced ms"
| "announced (_ # ms) = announced ms"

text \<open>The editor states that come from a seed: what typing, scrolling, resizing and the length fix make of it.\<close>

inductive edited :: "'w widget_lib \<Rightarrow> string \<Rightarrow> 'w \<Rightarrow> bool" for W seed where
  ed_seed: "edited W seed (wg_SetValue W seed w)"
| ed_size: "edited W seed w \<Longrightarrow> edited W seed (wg_SetSize W a b w)"
| ed_focus: "edited W seed w \<Longrightarrow> edited W seed (wg_Focus W w)"
| ed_key: "edited W seed w \<Longrightarrow> edited W seed (wg_Key W k w)"
| ed_mouse: "edited W seed w \<Longrightarrow> edited W seed (wg_Mouse W ev w)"
| ed_fix: "edited W seed w \<Longrightarrow> edited W seed (wg_SetValue W (fixContentLength (wg_Value W w)) w)"

definition seed_of :: "message option \<Rightarrow> string" where
  "seed_of mo = (case mo of None \<Rightarrow> [] | Some msg \<Rightarrow> str_of (m_Raw msg))"

section \<open>Steps that leave the pauses alone\<close>

definition pause_frame :: "('w, 'fl, 't, 'style, 'inj) env \<Rightarrow> ('w, 'fl, 't, 're, 'inj) tui \<Rightarrow> ('w, 'fl, 't, 're, 'inj) tui \<Rightarrow> bool" where
  "pause_frame E m m' \<longleftrightarrow> u_paused m' = u_paused m \<and> u_pausedMsg m' = u_pausedMsg m \<and> u_pausedToken m' = u_pausedToken m
     \<and> u_pauseQueue m' = u_pauseQueue m \<and> resolutions m' = resolutions m \<and> u_editing m' = u_editing m
     \<and> u_injecting m' = u_injecting m
     \<and> (\<forall>seed. edited (ev_widgets E) seed (u_ta m) \<longrightarrow> edited (ev_widgets E) seed (u_ta m'))"

lemma pause_frame_refl: "pause_frame E m m"
  by (simp add: pause_frame_def)

lemma resolutions_call: "resolutions (call c m) = resolutions m @ (case c of CallResolve t r \<Rightarrow> [(t, r)] | _ \<Rightarrow> [])"
  by (simp add: resolutions_def call_def)

lemma resolutions_call_other: "(\<forall>t r. c \<noteq> CallResolve t r) \<Longrightarrow> resolutions (call c m) = resolutions m"
  by (cases c) (simp_all add: resolutions_call)

interpretation pauses: tui_frame E "pause_frame E" for E
  by unfold_locales (auto simp: pause_frame_def resolutions_call_other ed_size ed_mouse,
    (simp_all add: resolutions_def call_def)?)

lemma frame_clearMotion [frame_rules]: "pause_frame E m m' \<Longrightarrow> pause_frame E m (clearMotion m')"
  by (simp add: pause_frame_def clearMotion_def resolutions_def)

lemma frame_motion [frame_rules]:
  "pause_frame E m m' \<Longrightarrow> pause_frame E m (m'\<lparr>u_count := n\<rparr>)"
  "pause_frame E m m' \<Longrightarrow> pause_frame E m (m'\<lparr>u_pendingG := b\<rparr>)"
  by (simp_all add: pause_frame_def resolutions_def)

lemma frame_jump_to_row [frame_rules]: "pause_frame E m m' \<Longrightarrow> pause_frame E m (jump_to_row E d m')"
  unfolding jump_to_row_def Let_def by (intro frame_rules)

section \<open>The invariant\<close>

definition pause_list :: "('w, 'fl, 't, 're, 'inj) tui \<Rightarrow> paused list" where
  "pause_list m = (case u_paused m of None \<Rightarrow> []
     | Some f \<Rightarrow> [\<lparr>pz_Token = u_pausedToken m, pz_Flow = f, pz_Msg = the (u_pausedMsg m)\<rparr>]) @ u_pauseQueue m"

text \<open>A resolution answers a pause: it has its token, and an edited body is what editing its message gave.\<close>

definition answers :: "'w widget_lib \<Rightarrow> paused \<Rightarrow> token \<times> resolution \<Rightarrow> bool" where
  "answers W p tr \<longleftrightarrow> fst tr = pz_Token p \<and> (\<forall>b. rs_EditedBody (snd tr) = Some b \<longrightarrow> rs_Decision (snd tr) = Forward
     \<and> (\<exists>w. edited W (str_of (m_Raw (pz_Msg p))) w \<and> b = bytes_of (wg_Value W w)))"

definition pause_inv :: "('w, 'fl, 't, 'style, 'inj) env \<Rightarrow> paused list \<Rightarrow> ('w, 'fl, 't, 're, 'inj) tui \<Rightarrow> bool" where
  "pause_inv E received m \<longleftrightarrow>
     (\<exists>done. received = done @ pause_list m \<and> list_all2 (answers (ev_widgets E)) done (resolutions m))
     \<and> (u_paused m = None \<longrightarrow> u_pauseQueue m = []) \<and> (u_paused m \<noteq> None \<longrightarrow> u_pausedMsg m \<noteq> None)
     \<and> (u_injecting m \<longrightarrow> u_editing m)
     \<and> (u_editing m \<and> \<not> u_injecting m \<longrightarrow> u_paused m \<noteq> None \<and> edited (ev_widgets E) (seed_of (u_pausedMsg m)) (u_ta m))"

lemma pause_list_cong:
  "u_paused m' = u_paused m \<Longrightarrow> u_pausedMsg m' = u_pausedMsg m \<Longrightarrow> u_pausedToken m' = u_pausedToken m \<Longrightarrow>
    u_pauseQueue m' = u_pauseQueue m \<Longrightarrow> pause_list m' = pause_list m"
  by (simp add: pause_list_def cong: option.case_cong)

lemma pause_inv_frame:
  assumes "pause_inv E rs m" and "pause_frame E m m'"
  shows "pause_inv E rs m'"
proof -
  have "pause_list m' = pause_list m" using assms(2) by (intro pause_list_cong) (simp_all add: pause_frame_def)
  with assms show ?thesis by (auto simp: pause_inv_def pause_frame_def)
qed

text \<open>Leaving the editor.\<close>

lemma pause_inv_leave_editor:
  assumes "pause_inv E rs m" and "u_paused m' = u_paused m" and "u_pausedMsg m' = u_pausedMsg m"
    and "u_pausedToken m' = u_pausedToken m" and "u_pauseQueue m' = u_pauseQueue m" and "resolutions m' = resolutions m"
    and "\<not> u_editing m'" and "\<not> u_injecting m'"
  shows "pause_inv E rs m'"
proof -
  have "pause_list m' = pause_list m" using assms by (intro pause_list_cong)
  with assms show ?thesis by (simp add: pause_inv_def)
qed

lemma resolutions_fields [simp]:
  "resolutions (m\<lparr>u_paused := a\<rparr>) = resolutions m" "resolutions (m\<lparr>u_pausedMsg := b\<rparr>) = resolutions m"
  "resolutions (m\<lparr>u_pausedToken := c\<rparr>) = resolutions m" "resolutions (m\<lparr>u_pauseQueue := d\<rparr>) = resolutions m"
  "resolutions (m\<lparr>u_editing := e\<rparr>) = resolutions m" "resolutions (m\<lparr>u_ta := g\<rparr>) = resolutions m"
  "resolutions (m\<lparr>u_status := s\<rparr>) = resolutions m" "resolutions (m\<lparr>u_injecting := i\<rparr>) = resolutions m"
  "resolutions (m\<lparr>u_injectID := j\<rparr>) = resolutions m" "resolutions (m\<lparr>u_injectDir := k\<rparr>) = resolutions m"
  by (simp_all add: resolutions_def)

lemma activatePause_fields [simp]:
  "u_paused (activatePause E p m) = Some (pz_Flow p)" "u_pausedMsg (activatePause E p m) = Some (pz_Msg p)"
  "u_pausedToken (activatePause E p m) = pz_Token p" "u_pauseQueue (activatePause E p m) = u_pauseQueue m"
  "u_editing (activatePause E p m) = u_editing m" "u_injecting (activatePause E p m) = u_injecting m"
  "u_ta (activatePause E p m) = u_ta m" "resolutions (activatePause E p m) = resolutions m"
  by (simp_all add: activatePause_def Let_def resolutions_def)

lemma pause_list_activate [simp]: "pause_list (activatePause E p m) = p # u_pauseQueue m"
  by (simp add: pause_list_def)

lemma pause_inv_enqueue:
  assumes "pause_inv E rs m"
  shows "pause_inv E (rs @ [p]) (enqueuePause E p m)"
proof (cases "u_paused m")
  case None
  with assms have "u_pauseQueue m = []" "pause_list m = []" by (auto simp: pause_inv_def pause_list_def)
  with None assms show ?thesis by (auto simp: pause_inv_def enqueuePause_def)
next
  case (Some f)
  then have "enqueuePause E p m = m\<lparr>u_pauseQueue := u_pauseQueue m @ [p]\<rparr>"
    "pause_list (m\<lparr>u_pauseQueue := u_pauseQueue m @ [p]\<rparr>) = pause_list m @ [p]"
    "resolutions (m\<lparr>u_pauseQueue := u_pauseQueue m @ [p]\<rparr>) = resolutions m"
    by (auto simp: enqueuePause_def pause_list_def resolutions_def)
  with Some assms show ?thesis by (auto simp: pause_inv_def)
qed

lemma completePause_cases:
  "u_pauseQueue m = [] \<Longrightarrow> u_paused (completePause E s m) = None \<and> pause_list (completePause E s m) = []
      \<and> u_pauseQueue (completePause E s m) = []"
  "u_pauseQueue m = p # ps \<Longrightarrow> pause_list (completePause E s m) = p # ps \<and> u_paused (completePause E s m) \<noteq> None
      \<and> u_pausedMsg (completePause E s m) \<noteq> None"
  "u_editing (completePause E s m) = False" "u_injecting (completePause E s m) = u_injecting m"
  "resolutions (completePause E s m) = resolutions m"
  by (auto simp: completePause_def Let_def pause_list_def split: list.split)

lemma pause_inv_resolve:
  assumes "pause_inv E rs m" and "\<not> u_injecting m"
    and "\<And>b. rs_EditedBody res = Some b \<Longrightarrow> rs_Decision res = Forward
      \<and> (\<exists>w. edited (ev_widgets E) (seed_of (u_pausedMsg m)) w \<and> b = bytes_of (wg_Value (ev_widgets E) w))"
  shows "pause_inv E rs (resolve_paused E res s m)"
proof (cases "u_paused m")
  case None
  with assms(1) show ?thesis by (simp add: resolve_paused_def)
next
  case (Some f)
  let ?p = "\<lparr>pz_Token = u_pausedToken m, pz_Flow = f, pz_Msg = the (u_pausedMsg m)\<rparr>"
  let ?m1 = "engine_resolve (u_pausedToken m) res m"
  have m1: "u_pauseQueue ?m1 = u_pauseQueue m" "u_injecting ?m1 = u_injecting m"
    "resolutions ?m1 = resolutions m @ [(u_pausedToken m, res)]"
    by (simp_all add: engine_resolve_def resolutions_call) (simp_all add: call_def resolutions_def)
  from assms(1) Some obtain prev where prev: "rs = prev @ ?p # u_pauseQueue m"
    "list_all2 (answers (ev_widgets E)) prev (resolutions m)"
    by (auto simp: pause_inv_def pause_list_def)
  have "answers (ev_widgets E) ?p (u_pausedToken m, res)"
    using assms(1,3) Some by (auto simp: answers_def pause_inv_def seed_of_def split: option.splits)
  then have "list_all2 (answers (ev_widgets E)) (prev @ [?p]) (resolutions m @ [(u_pausedToken m, res)])"
    using prev(2) by (simp add: list_all2_appendI)
  then have answered: "\<exists>done. rs = done @ u_pauseQueue m
      \<and> list_all2 (answers (ev_widgets E)) done (resolutions (completePause E s ?m1))"
    using prev(1) m1(3) completePause_cases(5) [of E s ?m1] by (intro exI [of _ "prev @ [?p]"]) simp
  have "pause_inv E rs (completePause E s ?m1)"
  proof (cases "u_pauseQueue m")
    case Nil
    then have c: "u_paused (completePause E s ?m1) = None" "pause_list (completePause E s ?m1) = []"
      "u_pauseQueue (completePause E s ?m1) = []"
      using completePause_cases(1) [of ?m1 E s] m1(1) by simp_all
    show ?thesis using answered Nil c m1(2) assms(2) completePause_cases(3,4) [of E s ?m1] by (simp add: pause_inv_def)
  next
    case (Cons p ps)
    then have c: "pause_list (completePause E s ?m1) = p # ps" "u_paused (completePause E s ?m1) \<noteq> None"
      "u_pausedMsg (completePause E s ?m1) \<noteq> None"
      using completePause_cases(2) [of ?m1 p ps E s] m1(1) by simp_all
    show ?thesis using answered Cons c m1(2) assms(2) completePause_cases(3,4) [of E s ?m1] by (auto simp: pause_inv_def)
  qed
  with Some show ?thesis by (simp add: resolve_paused_def)
qed

lemma open_editor_fields:
  "u_paused (open_editor E seed m) = u_paused m" "u_pausedMsg (open_editor E seed m) = u_pausedMsg m"
  "u_pausedToken (open_editor E seed m) = u_pausedToken m" "u_pauseQueue (open_editor E seed m) = u_pauseQueue m"
  "resolutions (open_editor E seed m) = resolutions m" "u_injecting (open_editor E seed m) = u_injecting m"
  "u_editing (open_editor E seed m)" "edited (ev_widgets E) seed (u_ta (open_editor E seed m))"
  by (auto simp: open_editor_def sizeEditor_def resolutions_def Let_def intro: edited.intros)

lemma pause_inv_enterEdit:
  assumes "pause_inv E rs m" and "u_paused m \<noteq> None" and "\<not> u_injecting m"
  shows "pause_inv E rs (enterEdit E m)"
  using assms by (auto simp: pause_inv_def enterEdit_def open_editor_fields pause_list_def seed_of_def)

lemma pause_inv_enterInject: "pause_inv E rs m \<Longrightarrow> \<not> u_editing m \<Longrightarrow> pause_inv E rs (enterInject E dir m)"
  unfolding enterInject_def Let_def
  by (auto simp: pause_inv_def open_editor_fields pause_list_def split: option.split)

lemma pause_inv_traffic_action:
  assumes "pause_inv E rs m" and "\<not> u_editing m"
  shows "pause_inv E rs (traffic_action E act n m)"
proof -
  have frame: "pause_inv E rs m'" if "pause_frame E m m'" for m'
    using assms(1) that by (rule pause_inv_frame)
  have inj: "\<not> u_injecting m" using assms by (auto simp: pause_inv_def)
  have if_rule: "pause_inv E rs x \<Longrightarrow> pause_inv E rs y \<Longrightarrow> pause_inv E rs (if b then x else y)" for x y b by simp
  have edit: "pause_inv E rs (if u_paused m \<noteq> None then enterEdit E m else m)"
    using assms(1) inj by (auto intro: pause_inv_enterEdit)
  have resolve: "pause_inv E rs (resolve_paused E \<lparr>rs_Decision = d, rs_EditedBody = None\<rparr> s m)" for d s
    using assms(1) inj by (rule pause_inv_resolve) simp
  note inject = pause_inv_enterInject [OF assms]
  show ?thesis
    unfolding traffic_action_def Let_def
    by (rule edit resolve inject if_rule | rule frame, (intro frame_rules pause_frame_refl; fail))+
qed

lemma pause_inv_perform:
  assumes "pause_inv E rs m" and "\<not> u_editing m"
  shows "pause_inv E rs (perform E act m)"
proof -
  have "pause_frame E m (m\<lparr>u_pendingG := False, u_count := 0\<rparr>)" by (intro frame_rules pause_frame_refl)
  from pause_inv_frame [OF assms(1) this] assms(2) show ?thesis
    unfolding perform_def by (intro pause_inv_traffic_action) simp_all
qed

lemma pause_inv_onTrafficKey:
  assumes "pause_inv E rs m" and "\<not> u_editing m"
  shows "pause_inv E rs (onTrafficKey E k m)"
proof -
  have frame: "pause_inv E rs m'" if "pause_frame E m m'" for m'
    using assms(1) that by (rule pause_inv_frame)
  have if_rule: "pause_inv E rs x \<Longrightarrow> pause_inv E rs y \<Longrightarrow> pause_inv E rs (if b then x else y)" for x y b by simp
  have case_rule: "pause_inv E rs x \<Longrightarrow> (\<And>v. pause_inv E rs (g v)) \<Longrightarrow> pause_inv E rs (case oo of None \<Rightarrow> x | Some v \<Rightarrow> g v)"
    for x g oo by (simp split: option.split)
  note perform = pause_inv_perform [OF assms]
  show ?thesis
    unfolding onTrafficKey_def Let_def
    by (rule perform if_rule case_rule | rule frame, (intro frame_rules pause_frame_refl; fail))+
qed

lemma pause_inv_onKey:
  assumes "pause_inv E rs m" and "\<not> u_editing m"
  shows "pause_inv E rs (fst (onKey E k m))"
proof -
  have "pause_frame E m (fst (leaderCommand E k (clearMotion m)))" "pause_frame E m ((clearMotion m)\<lparr>u_pendingLeader := True\<rparr>)"
    "pause_frame E m (forwardTerminalKey E k (clearMotion m))"
    by (intro frame_rules pause_frame_refl)+
  then show ?thesis
    using assms pause_inv_onTrafficKey [OF assms] pause_inv_frame [OF assms(1)] by (simp add: onKey_def)
qed

lemma doInject_frame: "doInject E m = (s, m1) \<Longrightarrow> pause_frame E m m1"
  by (auto simp: doInject_def Let_def intro!: frame_rules pause_frame_refl split: option.splits)

lemma pause_inv_onEditKey:
  assumes "pause_inv E rs m" and "u_editing m"
  shows "pause_inv E rs (fst (onEditKey E k m))"
proof -
  let ?W = "ev_widgets E"
  have inject: "pause_inv E rs (m1\<lparr>u_editing := False, u_injecting := False, u_ta := w, u_status := s'\<rparr>)"
    if "doInject E m = (s, m1)" for s m1 w s'
    using pause_inv_frame [OF assms(1) doInject_frame [OF that]]
    by (rule pause_inv_leave_editor) (simp_all add: resolutions_def)
  have send: "pause_inv E rs (resolve_paused E \<lparr>rs_Decision = Forward, rs_EditedBody = Some (bytes_of (wg_Value ?W (u_ta m)))\<rparr> s m)"
    if "\<not> u_injecting m" for s
    using assms that by (intro pause_inv_resolve) (auto simp: pause_inv_def)
  have len: "pause_inv E rs (m\<lparr>u_ta := wg_SetValue ?W (fixContentLength (wg_Value ?W (u_ta m))) (u_ta m), u_status := s\<rparr>)" for s
    by (rule pause_inv_frame [OF assms(1)]) (simp add: pause_frame_def resolutions_def ed_fix)
  have cancel: "pause_inv E rs (m\<lparr>u_editing := False, u_injecting := False, u_ta := w, u_status := s\<rparr>)" for w s
    using assms(1) by (rule pause_inv_leave_editor) (simp_all add: resolutions_def)
  have typed: "pause_inv E rs (m\<lparr>u_ta := wg_Key ?W k (u_ta m)\<rparr>)"
    by (rule pause_inv_frame [OF assms(1)]) (simp add: pause_frame_def resolutions_def ed_key)
  show ?thesis
    using assms(1) inject send len cancel typed by (auto simp: onEditKey_def Let_def split: prod.split)
qed

lemma pause_inv_onAnyKey:
  assumes "pause_inv E rs m"
  shows "pause_inv E rs (fst (onAnyKey E k m))"
proof -
  have "pause_frame E m (fst (onHelpKey E k m))" "pause_frame E m (fst (onRepeaterKey E k m))"
    "pause_frame E m (fst (onFilterKey E k m))" "pause_frame E m (fst (onCmdKey E k m))" "pause_frame E m (fst (onViewKey E k m))"
    by (intro frame_rules pause_frame_refl)+
  then show ?thesis
    using pause_inv_frame [OF assms] pause_inv_onEditKey [OF assms] pause_inv_onKey [OF assms] by (auto simp: onAnyKey_def)
qed

lemma pause_inv_Update:
  assumes "pause_inv E rs m"
  shows "pause_inv E (rs @ announced [x]) (fst (Update E x m))"
proof (cases x)
  case (PauseMsg p)
  then show ?thesis using pause_inv_enqueue [OF assms] by simp
next
  case (KeyMsg k)
  then show ?thesis using pause_inv_onAnyKey [OF assms] by simp
next
  case EventMsg
  have "pause_frame E m (fst (Update E EventMsg m))"
    unfolding Update.simps Let_def by (intro frame_rules pause_frame_refl)
  with EventMsg show ?thesis using pause_inv_frame [OF assms] by simp
next
  case (WindowSizeMsg w h)
  have "pause_frame E m (fst (Update E (WindowSizeMsg w h) m))"
    unfolding Update.simps Let_def by (intro frame_rules pause_frame_refl)
  with WindowSizeMsg show ?thesis using pause_inv_frame [OF assms] by simp
next
  case (MouseMsg ev)
  have "pause_frame E m (fst (onMouse E ev m))" by (intro frame_rules pause_frame_refl)
  with MouseMsg show ?thesis using pause_inv_frame [OF assms] by simp
next
  case (RepeaterResultMsg fo err)
  have "pause_frame E m (repeater_result E fo err m)" by (intro frame_rules pause_frame_refl)
  with RepeaterResultMsg show ?thesis using pause_inv_frame [OF assms] by simp
next
  case (AttackDoneMsg n)
  have "pause_frame E m (fst (Update E (AttackDoneMsg n) m))"
    unfolding Update.simps by (intro frame_rules pause_frame_refl)
  with AttackDoneMsg show ?thesis using pause_inv_frame [OF assms] by simp
qed (use assms in simp_all)

lemma announced_Cons: "announced (x # xs) = announced [x] @ announced xs"
  by (cases x) simp_all

lemma pause_inv_run: "pause_inv E rs m \<Longrightarrow> pause_inv E (rs @ announced xs) (run_msgs E xs m)"
proof (induction xs arbitrary: rs m)
  case (Cons x xs)
  from Cons.IH [OF pause_inv_Update [OF Cons.prems]] show ?case
    using announced_Cons [of x xs] by simp
qed simp

lemma pause_inv_New: "pause_inv E [] (New E h st e hasTarget pty screen path keys)"
  by (simp add: pause_inv_def New_def pause_list_def resolutions_def)

text \<open>
  C4: in every run of the interface the messages announced as paused are, in the order of their announcements, those already
  resolved, the one presented, and those waiting. Each was resolved once, by its own token; a message waits only while another is presented;
  and a body the operator edited was made, by typing, from the bytes of the very message it resolves: edits never carry over to the next one,
  and a new pause never replaces an open editor.
\<close>

theorem paused_messages_resolved_in_order:
  fixes E :: "('w, 'fl, 't, 'style, 'inj) env" and h st e hasTarget pty screen path keys xs
  defines "m \<equiv> run_msgs E xs (New E h st e hasTarget pty screen path keys)"
  shows "(\<exists>done. announced xs = done @ pause_list m \<and> list_all2 (answers (ev_widgets E)) done (resolutions m))
    \<and> (u_pauseQueue m \<noteq> [] \<longrightarrow> u_paused m \<noteq> None)
    \<and> (u_editing m \<and> \<not> u_injecting m \<longrightarrow>
        (\<exists>msg. u_pausedMsg m = Some msg \<and> edited (ev_widgets E) (str_of (m_Raw msg)) (u_ta m)))"
  using pause_inv_run [OF pause_inv_New, of E xs h st e hasTarget pty screen path keys]
  unfolding m_def [symmetric] by (auto simp: pause_inv_def seed_of_def)

definition demo_paused :: "token \<Rightarrow> string \<Rightarrow> paused" where
  "demo_paused t raw = \<lparr>pz_Token = t, pz_Flow = 0, pz_Msg = \<lparr>m_Direction = ClientToServer, m_Summary = [], m_Headers = [],
     m_Body = [], m_Raw = bytes_of raw, m_Meta = []\<rparr>\<rparr>"

theorem paused_messages_resolved_in_order_witness:
  "\<forall>E :: (nat, nat, nat, nat, nat) env.
    (let m = run_msgs E [PauseMsg (demo_paused 1 ''a''), PauseMsg (demo_paused 2 ''b'')] (demo_ui E)
     in u_pauseQueue m = [demo_paused 2 ''b''] \<and> u_paused m \<noteq> None)"
proof
  fix E :: "(nat, nat, nat, nat, nat) env"
  let ?m = "run_msgs E [PauseMsg (demo_paused 1 ''a''), PauseMsg (demo_paused 2 ''b'')] (demo_ui E)"
  have "u_paused (demo_ui E) = None" "u_pauseQueue (demo_ui E) = []" by (simp_all add: demo_ui_def New_def)
  then have "u_pauseQueue ?m = [demo_paused 2 ''b'']" by (simp add: enqueuePause_def)
  moreover have "u_pauseQueue ?m \<noteq> [] \<longrightarrow> u_paused ?m \<noteq> None"
    using paused_messages_resolved_in_order [where E = E and
        xs = "[PauseMsg (demo_paused 1 ''a''), PauseMsg (demo_paused 2 ''b'')]"]
    unfolding demo_ui_def by blast
  ultimately show "let m = ?m in u_pauseQueue m = [demo_paused 2 ''b''] \<and> u_paused m \<noteq> None"
    unfolding Let_def by simp
qed

end
