(* ===== verification/TuiMotion.thy ===== *)
theory TuiMotion
  imports TuiPause
begin

text \<open>
  The half-typed motions of the traffic pane, a count or a lone \<^verbatim>\<open>g\<close>: they are pending only while the keys go to the list, so a
  count cannot multiply a key typed later, elsewhere. This holds for the keyboard; a click into the terminal pane escapes it.
\<close>

definition idle :: "('w, 'fl, 't, 're, 'inj) tui \<Rightarrow> bool" where
  "idle m \<longleftrightarrow> u_count m = 0 \<and> \<not> u_pendingG m"

text \<open>The next key is one for the traffic list.\<close>

definition listening :: "('w, 'fl, 't, 're, 'inj) tui \<Rightarrow> bool" where
  "listening m \<longleftrightarrow> u_focus m = FocusTraffic \<and> \<not> u_pendingLeader m \<and> \<not> u_showHelp m \<and> \<not> u_repeating m \<and> \<not> u_editing m
     \<and> \<not> u_filtering m \<and> \<not> u_cmdline m \<and> \<not> u_viewing m"

definition motion_inv :: "('w, 'fl, 't, 're, 'inj) tui \<Rightarrow> bool" where
  "motion_inv m \<longleftrightarrow> idle m \<or> listening m"

definition motion_frame :: "('w, 'fl, 't, 're, 'inj) tui \<Rightarrow> ('w, 'fl, 't, 're, 'inj) tui \<Rightarrow> bool" where
  "motion_frame m m' \<longleftrightarrow> (idle m \<longrightarrow> idle m')"

lemma motion_frame_refl: "motion_frame m m"
  by (simp add: motion_frame_def)

lemma motion_frame_call: "motion_frame m m' \<Longrightarrow> motion_frame m (call c m')"
  by (simp add: motion_frame_def idle_def call_def)

interpretation motions: tui_frame E motion_frame for E
  by unfold_locales (simp_all add: motion_frame_def idle_def call_def)

lemma motion_fields [frame_rules]:
  "motion_frame m m' \<Longrightarrow> motion_frame m (m'\<lparr>u_ta := w\<rparr>)" "motion_frame m m' \<Longrightarrow> motion_frame m (m'\<lparr>u_editing := b1\<rparr>)"
  "motion_frame m m' \<Longrightarrow> motion_frame m (m'\<lparr>u_injecting := b2\<rparr>)" "motion_frame m m' \<Longrightarrow> motion_frame m (m'\<lparr>u_paused := p\<rparr>)"
  "motion_frame m m' \<Longrightarrow> motion_frame m (m'\<lparr>u_pausedMsg := pm\<rparr>)" "motion_frame m m' \<Longrightarrow> motion_frame m (m'\<lparr>u_pausedToken := t\<rparr>)"
  "motion_frame m m' \<Longrightarrow> motion_frame m (m'\<lparr>u_pauseQueue := q\<rparr>)" "motion_frame m m' \<Longrightarrow> motion_frame m (m'\<lparr>u_count := 0\<rparr>)"
  "motion_frame m m' \<Longrightarrow> motion_frame m (m'\<lparr>u_pendingG := False\<rparr>)"
  by (simp_all add: motion_frame_def idle_def)

lemma motion_list_case [frame_rules]:
  "motion_frame m x \<Longrightarrow> (\<And>a b. motion_frame m (f a b)) \<Longrightarrow> motion_frame m (case xs of [] \<Rightarrow> x | a # b \<Rightarrow> f a b)"
  by (simp split: list.split)

lemma motion_open_editor [frame_rules]: "motion_frame m m' \<Longrightarrow> motion_frame m (open_editor E seed m')"
  unfolding open_editor_def Let_def by (intro frame_rules)

lemma motion_enterEdit [frame_rules]: "motion_frame m m' \<Longrightarrow> motion_frame m (enterEdit E m')"
  unfolding enterEdit_def by (intro frame_rules)

lemma motion_enterInject [frame_rules]: "motion_frame m m' \<Longrightarrow> motion_frame m (enterInject E dir m')"
  unfolding enterInject_def Let_def by (intro frame_rules)

lemma motion_activatePause [frame_rules]: "motion_frame m m' \<Longrightarrow> motion_frame m (activatePause E p m')"
  unfolding activatePause_def Let_def by (intro frame_rules)

lemma motion_completePause [frame_rules]: "motion_frame m m' \<Longrightarrow> motion_frame m (completePause E s m')"
  unfolding completePause_def Let_def by (intro frame_rules)

lemma motion_engine_resolve [frame_rules]: "motion_frame m m' \<Longrightarrow> motion_frame m (engine_resolve t res m')"
  unfolding engine_resolve_def by (intro motion_frame_call frame_rules)

lemma motion_resolve_paused [frame_rules]: "motion_frame m m' \<Longrightarrow> motion_frame m (resolve_paused E res s m')"
  unfolding resolve_paused_def by (intro frame_rules)

lemma motion_doInject: "doInject E m' = (s, m1) \<Longrightarrow> motion_frame m m' \<Longrightarrow> motion_frame m m1"
  by (auto simp: doInject_def Let_def intro: motion_frame_call split: option.splits)

lemma motion_onEditKey [frame_rules]: "motion_frame m m' \<Longrightarrow> motion_frame m (fst (onEditKey E k m'))"
  unfolding onEditKey_def Let_def
  by (auto intro!: frame_rules dest: motion_doInject split: prod.split)

lemma motion_traffic_action [frame_rules]: "motion_frame m m' \<Longrightarrow> motion_frame m (traffic_action E act n m')"
  unfolding traffic_action_def Let_def by (intro frame_rules)

lemma idle_clearMotion [simp]: "idle (clearMotion m)"
  by (simp add: clearMotion_def idle_def)

lemma idle_perform: "idle (perform E act m)"
proof -
  have "motion_frame (m\<lparr>u_pendingG := False, u_count := 0\<rparr>) (perform E act m)"
    unfolding perform_def by (intro frame_rules motion_frame_refl)
  then show ?thesis by (simp add: motion_frame_def idle_def)
qed

lemma motion_onTrafficKey: "listening m \<Longrightarrow> motion_inv (onTrafficKey E k m)"
  unfolding onTrafficKey_def Let_def motion_inv_def
  by (auto simp: idle_perform jump_to_row_def listening_def Let_def split: option.split)

lemma motion_onKey:
  assumes "motion_inv m" and "\<not> u_showHelp m" and "\<not> u_repeating m" and "\<not> u_editing m"
    and "\<not> u_filtering m" and "\<not> u_cmdline m" and "\<not> u_viewing m"
  shows "motion_inv (fst (onKey E k m))"
proof -
  have "motion_frame (clearMotion m) (fst (leaderCommand E k (clearMotion m)))"
    "motion_frame (clearMotion m) (forwardTerminalKey E k (clearMotion m))"
    "motion_frame (clearMotion m) ((clearMotion m)\<lparr>u_pendingLeader := True\<rparr>)"
    by (intro frame_rules motion_frame_refl)+
  then have "motion_inv (fst (leaderCommand E k (clearMotion m)))" "motion_inv (forwardTerminalKey E k (clearMotion m))"
    "motion_inv ((clearMotion m)\<lparr>u_pendingLeader := True\<rparr>)"
    by (simp_all add: motion_frame_def motion_inv_def)
  moreover have "listening m" if "\<not> u_pendingLeader m" "u_focus m \<noteq> FocusTerminal"
    using assms that by (cases "u_focus m") (auto simp: listening_def)
  ultimately show ?thesis using motion_onTrafficKey by (auto simp: onKey_def)
qed

lemma motion_onAnyKey:
  assumes "motion_inv m"
  shows "motion_inv (fst (onAnyKey E k m))"
proof -
  have "motion_frame m (fst (onHelpKey E k m))" "motion_frame m (fst (onRepeaterKey E k m))"
    "motion_frame m (fst (onEditKey E k m))" "motion_frame m (fst (onFilterKey E k m))"
    "motion_frame m (fst (onCmdKey E k m))" "motion_frame m (fst (onViewKey E k m))"
    by (intro frame_rules motion_frame_refl)+
  then show ?thesis
    using assms motion_onKey [OF assms, of E k]
    by (auto simp: onAnyKey_def motion_inv_def motion_frame_def listening_def)
qed

text \<open>The messages that are not keys leave what is open as it is.\<close>

lemma size_fields [simp]:
  "listening (sizeDetail E m) = listening m" "listening (sizeEditor E m) = listening m" "listening (resizeChild E m) = listening m"
  "listening (sizeRepeater E m) = listening m" "listening (set_detail E f m) = listening m"
  by (simp_all add: listening_def sizeDetail_def sizeEditor_def resizeChild_def sizeRepeater_def set_detail_def call_def Let_def
      split: prod.split)

lemma motion_Update:
  assumes "motion_inv m" and "\<forall>ev. x \<noteq> MouseMsg ev"
  shows "motion_inv (fst (Update E x m))"
proof -
  have keep: "motion_inv m'" if "motion_frame m m'" "listening m' = listening m" for m'
    using assms(1) that by (auto simp: motion_inv_def motion_frame_def)
  show ?thesis
  proof (cases x)
    case (WindowSizeMsg w h)
    have "motion_frame m (fst (Update E (WindowSizeMsg w h) m))"
      unfolding Update.simps Let_def by (intro frame_rules motion_frame_refl)
    moreover have "listening (fst (Update E (WindowSizeMsg w h) m)) = listening m"
      by (simp add: Let_def) (simp add: listening_def)
    ultimately show ?thesis unfolding WindowSizeMsg by (rule keep)
  next
    case EventMsg
    have "motion_frame m (fst (Update E EventMsg m))"
      unfolding Update.simps Let_def by (intro frame_rules motion_frame_refl)
    moreover have "listening (fst (Update E EventMsg m)) = listening m"
      by (simp add: Let_def split: option.split) (simp add: listening_def)
    ultimately show ?thesis unfolding EventMsg by (rule keep)
  next
    case (PauseMsg p)
    show ?thesis
    proof (cases "u_paused m")
      case None
      then have "idle (fst (Update E (PauseMsg p) m))"
        by (simp add: enqueuePause_def activatePause_def idle_def Let_def)
      then show ?thesis unfolding PauseMsg motion_inv_def ..
    next
      case (Some f)
      then show ?thesis unfolding PauseMsg
        by (intro keep) (simp_all add: enqueuePause_def motion_frame_def idle_def listening_def)
    qed
  next
    case (RepeaterResultMsg fo err)
    have "motion_frame m (fst (Update E (RepeaterResultMsg fo err) m))"
      unfolding Update.simps by (intro frame_rules motion_frame_refl)
    moreover have "listening (fst (Update E (RepeaterResultMsg fo err) m)) = listening m"
      by (simp add: repeater_result_def listening_def Let_def)
    ultimately show ?thesis unfolding RepeaterResultMsg by (rule keep)
  next
    case (AttackDoneMsg n)
    then show ?thesis by (intro keep) (simp_all add: motion_frame_def idle_def listening_def)
  next
    case (KeyMsg k)
    then show ?thesis using motion_onAnyKey [OF assms(1)] by simp
  qed (use assms in simp_all)
qed

lemma motion_run:
  assumes "motion_inv m" and "\<forall>ev. MouseMsg ev \<notin> set xs"
  shows "motion_inv (run_msgs E xs m)"
  using assms
proof (induction xs arbitrary: m)
  case (Cons x xs)
  have "motion_inv (fst (Update E x m))" by (rule motion_Update) (use Cons.prems in auto)
  then show ?case using Cons by simp
qed simp

lemma motion_New: "motion_inv (New E h st e hasTarget pty screen path keys)"
  by (simp add: motion_inv_def idle_def New_def)



text \<open>
  A click into the terminal pane takes the focus from the list and leaves the count pending: the invariant is lost, and
  a motion typed after a click back into the list is multiplied.
\<close>

lemma click_keeps_count:
  assumes "u_count m = 5" and "\<not> u_hasTarget m"
  shows "\<not> motion_inv (onLeftPaneMouse E ev box m)"
  using assms by (simp add: onLeftPaneMouse_def motion_inv_def idle_def listening_def Let_def)

end
