(* ===== verification/TuiInput.thy ===== *)
theory TuiInput
  imports TuiMouse
begin

text \<open>
  What typing does: in the terminal pane keys reach the target byte for byte, with a doubled leader standing for one, and in the
  editor the fix of \<^verbatim>\<open>Content-Length\<close> announces the length of the body.
\<close>

section \<open>The terminal pane\<close>

lemma pty_push_prefix: "\<exists>n. pty_push w sent b = sent @ take n b"
proof (induction w sent b rule: pty_push.induct)
  case (1 w sent b)
  obtain n err where w: "w sent b = (n, err)" by fastforce
  show ?case
  proof (cases "b = [] \<or> err \<noteq> None \<or> n = 0")
    case True
    then show ?thesis using w by (subst pty_push.simps) auto
  next
    case False
    then obtain k where "pty_push w (sent @ take n b) (drop n b) = (sent @ take n b) @ take k (drop n b)"
      using 1 w by (metis (no_types, lifting))
    moreover have "take n b @ take k (drop n b) = take (n + k) b" by (simp add: take_add)
    ultimately show ?thesis using False w by (subst pty_push.simps) (auto intro!: exI [of _ "n + k"])
  qed
qed

lemma pty_push_all: "\<forall>sent b. w sent b = (length b, None) \<Longrightarrow> pty_push w sent b = sent @ b"
  by (subst pty_push.simps, cases "b = []") (auto simp: pty_push.simps [of w "sent @ b" "[]"])

definition terminal_mode :: "('w, 'fl, 't, 're, 'inj) tui \<Rightarrow> bool" where
  "terminal_mode m \<longleftrightarrow> u_focus m = FocusTerminal \<and> u_hasTarget m \<and> \<not> u_showHelp m \<and> \<not> u_repeating m
     \<and> \<not> u_editing m \<and> \<not> u_filtering m \<and> \<not> u_cmdline m \<and> \<not> u_viewing m"

text \<open>
  The keys the target is sent for keys typed there: a key of the leader, pressed without Alt, passes the next one through, which a user
  who escapes it presses as the leader again.
\<close>

fun target_keys :: "(tea_key \<Rightarrow> bool) \<Rightarrow> tea_key list \<Rightarrow> tea_key list" where
  "target_keys L [] = []"
| "target_keys L [k] = (if L k \<and> \<not> kg_Alt k then [] else [k])"
| "target_keys L (k # k' # ks) = (if L k \<and> \<not> kg_Alt k then k' # target_keys L ks else k # target_keys L (k' # ks))"

fun leader_escaped :: "(tea_key \<Rightarrow> bool) \<Rightarrow> tea_key list \<Rightarrow> bool" where
  "leader_escaped L [] \<longleftrightarrow> True"
| "leader_escaped L [k] \<longleftrightarrow> True"
| "leader_escaped L (k # k' # ks) \<longleftrightarrow> (if L k \<and> \<not> kg_Alt k then L k' \<and> leader_escaped L ks else leader_escaped L (k' # ks))"

definition typing ::
    "(tea_key \<Rightarrow> bool) \<Rightarrow> 't vt option \<Rightarrow> bytes \<Rightarrow> ('w, 'fl, 't, 're, 'inj) tui \<Rightarrow> bool" where
  "typing L scr sent m \<longleftrightarrow>
     terminal_mode m \<and> u_pty m = Some sent \<and> \<not> u_pendingLeader m \<and> leader_key m = L \<and> u_screen m = scr"

lemma leader_key_keep:
  "leader_key (m\<lparr>u_pendingLeader := b\<rparr>) = leader_key m" "leader_key (m\<lparr>u_pty := p\<rparr>) = leader_key m"
  "leader_key (clearMotion m) = leader_key m"
  by (simp_all add: leader_key_def km_def fun_eq_iff clearMotion_def)

lemma Update_key: "terminal_mode m \<Longrightarrow> fst (Update E (KeyMsg k) m) = fst (onKey E k m)"
  by (simp add: terminal_mode_def onAnyKey_def)

lemma terminal_mode_keep:
  "terminal_mode (m\<lparr>u_pendingLeader := b\<rparr>) = terminal_mode m" "terminal_mode (m\<lparr>u_pty := p\<rparr>) = terminal_mode m"
  "terminal_mode (clearMotion m) = terminal_mode m"
  by (simp_all add: terminal_mode_def clearMotion_def)

lemma clearMotion_keep:
  "u_pty (clearMotion m) = u_pty m" "u_pendingLeader (clearMotion m) = u_pendingLeader m" "u_screen (clearMotion m) = u_screen m"
  "u_keys (clearMotion m) = u_keys m" "u_hasTarget (clearMotion m) = u_hasTarget m" "u_focus (clearMotion m) = u_focus m"
  by (simp_all add: clearMotion_def)

lemma forward_all:
  assumes "typing L scr sent m" and "\<forall>sent b. ev_PtyWrite E sent b = (length b, None)"
  shows "typing L scr (sent @ terminal_key_bytes scr k) (forwardTerminalKey E k m)"
  using assms
  by (simp add: typing_def forwardTerminalKey_def send_pty_def pty_push_all terminal_mode_keep leader_key_keep)
    (simp add: terminal_mode_def)

lemma typing_clear: "typing L scr sent m \<Longrightarrow> typing L scr sent (clearMotion m)"
  by (simp add: typing_def clearMotion_keep terminal_mode_keep leader_key_keep)

lemma terminal_key_step:
  assumes "typing L scr sent m" and "\<forall>sent b. ev_PtyWrite E sent b = (length b, None)" and "\<not> (L k \<and> \<not> kg_Alt k)"
  shows "typing L scr (sent @ terminal_key_bytes scr k) (fst (Update E (KeyMsg k) m))"
proof -
  have "fst (onKey E k m) = forwardTerminalKey E k (clearMotion m)"
    using assms by (auto simp: onKey_def typing_def terminal_mode_def)
  moreover have "terminal_mode m" using assms(1) by (simp add: typing_def)
  ultimately have "fst (Update E (KeyMsg k) m) = forwardTerminalKey E k (clearMotion m)" by (simp only: Update_key)
  then show ?thesis using forward_all [OF typing_clear [OF assms(1)] assms(2)] by (simp only:)
qed

lemma leader_step:
  assumes "typing L scr sent m" and "L k" "\<not> kg_Alt k"
  shows "fst (Update E (KeyMsg k) m) = (clearMotion m)\<lparr>u_pendingLeader := True\<rparr>"
proof -
  have "terminal_mode m" using assms(1) by (simp add: typing_def)
  then show ?thesis using assms by (simp add: Update_key onKey_def typing_def del: Update.simps)
qed

lemma leader_pair_step:
  assumes "typing L scr sent m" and "\<forall>sent b. ev_PtyWrite E sent b = (length b, None)" and "L k" "\<not> kg_Alt k" "L k'"
  shows "typing L scr (sent @ terminal_key_bytes scr k') (fst (Update E (KeyMsg k') (fst (Update E (KeyMsg k) m))))"
proof -
  define m1 where "m1 = (clearMotion m)\<lparr>u_pendingLeader := True\<rparr>"
  define m2 where "m2 = (clearMotion m1)\<lparr>u_pendingLeader := False\<rparr>"
  have t: "typing L scr sent m2"
    using assms(1) by (simp add: m1_def m2_def typing_def clearMotion_keep terminal_mode_keep leader_key_keep)
  have "terminal_mode m1" using assms(1) by (simp add: m1_def typing_def terminal_mode_keep)
  then have "fst (Update E (KeyMsg k') m1) = fst (leaderCommand E k' (clearMotion m1))"
    by (simp add: Update_key onKey_def m1_def del: Update.simps)
  also have "\<dots> = forwardTerminalKey E k' m2"
    using t assms(5) by (simp add: leaderCommand_def m2_def [symmetric] typing_def terminal_mode_def)
  finally show ?thesis
    using forward_all [OF t assms(2)] leader_step [where E = E, OF assms(1,3,4)] by (simp only: m1_def)
qed

lemma typed_keys:
  assumes "typing L scr sent m" and "\<forall>sent b. ev_PtyWrite E sent b = (length b, None)" and "leader_escaped L ks"
  shows "u_pty (run_msgs E (map KeyMsg ks) m) = Some (sent @ concat (map (terminal_key_bytes scr) (target_keys L ks)))"
  using assms
proof (induction L ks arbitrary: m sent rule: target_keys.induct)
  case (1 L)
  then show ?case by (simp add: typing_def)
next
  case (2 L k)
  then show ?case
  proof (cases "L k \<and> \<not> kg_Alt k")
    case True
    with 2 show ?thesis by (simp add: leader_step clearMotion_keep typing_def del: Update.simps)
  next
    case False
    with terminal_key_step [OF 2(1,2) False] show ?thesis by (auto simp: typing_def simp del: Update.simps)
  qed
next
  case (3 L k k' ks)
  show ?case
  proof (cases "L k \<and> \<not> kg_Alt k")
    case True
    with 3 have "typing L scr (sent @ terminal_key_bytes scr k') (fst (Update E (KeyMsg k') (fst (Update E (KeyMsg k) m))))"
      by (intro leader_pair_step) auto
    from "3.IH"(1) [OF True this] 3 True show ?thesis by (simp del: Update.simps)
  next
    case False
    from "3.IH"(2) [OF False terminal_key_step [OF 3(3,4) False] 3(4)] 3 False show ?thesis by (auto simp del: Update.simps)
  qed
qed

text \<open>
  C19: while the terminal pane has the focus and its target takes what is written, the bytes of every key reach it, in the order typed and
  after what was sent before: none is taken by a binding of the interface, but for the leader, which has to be typed twice to be sent once.
\<close>

theorem terminal_keys_reach_target:
  assumes "terminal_mode m" and "u_pty m = Some sent" and "\<not> u_pendingLeader m"
    and "\<forall>sent b. ev_PtyWrite E sent b = (length b, None)"
    and "leader_escaped (leader_key m) ks"
  shows "u_pty (run_msgs E (map KeyMsg ks) m)
    = Some (sent @ concat (map (terminal_key_bytes (u_screen m)) (target_keys (leader_key m) ks)))"
  using assms by (intro typed_keys) (simp_all add: typing_def)

text \<open>The letter \<open>a\<close>, then the leader twice: the target reads the letter and one control byte.\<close>

definition plain_key :: "key_type \<Rightarrow> tea_key" where
  "plain_key t = \<lparr>kg_Type = t, kg_Runes = [97], kg_Alt = False, kg_Paste = False\<rparr>"

definition whole_writes :: "('w, 'fl, 't, 'style, 'inj) env \<Rightarrow> ('w, 'fl, 't, 'style, 'inj) env" where
  "whole_writes E = E\<lparr>ev_PtyWrite := \<lambda>_ b. (length b, None)\<rparr>"

theorem terminal_keys_reach_target_witness:
  "\<forall>E :: (nat, nat, nat, nat, nat) env.
    u_pty (run_msgs (whole_writes E) (map KeyMsg [plain_key KeyRunes, plain_key (KeyC0 1), plain_key (KeyC0 1)])
      ((demo_ui E)\<lparr>u_hasTarget := True, u_pty := Some []\<rparr>)) = Some [0x61, 1]"
proof
  fix E :: "(nat, nat, nat, nat, nat) env"
  let ?m = "(demo_ui E)\<lparr>u_hasTarget := True, u_pty := Some []\<rparr>"
  let ?ks = "[plain_key KeyRunes, plain_key (KeyC0 1), plain_key (KeyC0 1)]"
  have L: "leader_key ?m (plain_key t) \<longleftrightarrow> t = KeyC0 1" for t
    by (simp add: leader_key_def km_def demo_ui_def New_def plain_key_def)
  have alt: "\<not> kg_Alt (plain_key t)" for t by (simp add: plain_key_def)
  have "terminal_key_bytes (None :: nat vt option) (plain_key KeyRunes) = [0x61]"
    "terminal_key_bytes (None :: nat vt option) (plain_key (KeyC0 1)) = [1]"
    by code_simp+
  moreover have "u_screen ?m = None" by (simp add: demo_ui_def New_def)
  moreover have "u_pty (run_msgs (whole_writes E) (map KeyMsg ?ks) ?m)
      = Some ([] @ concat (map (terminal_key_bytes (u_screen ?m)) (target_keys (leader_key ?m) ?ks)))"
    by (rule terminal_keys_reach_target) (simp_all add: L alt terminal_mode_def whole_writes_def, simp_all add: demo_ui_def New_def)
  ultimately show "u_pty (run_msgs (whole_writes E) (map KeyMsg ?ks) ?m) = Some [0x61, 1]"
    by (simp add: L alt del: run_msgs.simps)
qed

section \<open>The length of an edited body\<close>

abbreviation length_line :: "string \<Rightarrow> bool" where
  "length_line l \<equiv> prefix ''content-length:'' (to_lower l)"

lemma fix_lines_cases:
  "(\<forall>l \<in> set ls. \<not> length_line l) \<and> fix_lines new ls = ls @ [new]
   \<or> (\<exists>a l b. ls = a @ l # b \<and> length_line l \<and> (\<forall>l \<in> set a. \<not> length_line l) \<and> fix_lines new ls = a @ new # b)"
proof (induction ls)
  case (Cons l ls)
  then show ?case
  proof (cases "length_line l")
    case True
    then have "l # ls = [] @ l # ls \<and> length_line l \<and> (\<forall>l \<in> set []. \<not> length_line l) \<and> fix_lines new (l # ls) = [] @ new # ls"
      by simp
    then show ?thesis by blast
  next
    case False
    from Cons show ?thesis
    proof
      assume "\<exists>a l b. ls = a @ l # b \<and> length_line l \<and> (\<forall>l \<in> set a. \<not> length_line l) \<and> fix_lines new ls = a @ new # b"
      then obtain a l' b where "ls = a @ l' # b" "length_line l'" "\<forall>l \<in> set a. \<not> length_line l" "fix_lines new ls = a @ new # b"
        by blast
      with False have "l # ls = (l # a) @ l' # b \<and> length_line l' \<and> (\<forall>l \<in> set (l # a). \<not> length_line l)
          \<and> fix_lines new (l # ls) = (l # a) @ new # b" by simp
      then show ?thesis by blast
    qed (use False in auto)
  qed
qed simp

lemma contains_join_crlf: "contains (join crlf (x # y # ys)) crlf"
  by (auto simp: contains_sublist)

text \<open>
  A message of two lines or more, all of them ended with \<^verbatim>\<open>CRLF\<close>: the first line of the length is replaced, or one is added at the end,
  the announced length is that of the body, and the other lines and the body stay.
\<close>

lemma fix_length_announces_body:
  assumes "\<forall>l \<in> set ls. plain_line l" and "2 \<le> length ls"
  shows "fixContentLength (join crlf ls @ crlf @ crlf @ body)
    = join crlf (fix_lines (''Content-Length: '' @ show_nat (length body)) ls) @ crlf @ crlf @ body"
proof -
  obtain x y ys where ls: "ls = x # y # ys" using assms(2) by (cases ls; cases "tl ls") auto
  then have "ls \<noteq> []" by simp
  moreover have "contains (join crlf ls) crlf" unfolding ls by (rule contains_join_crlf)
  ultimately show ?thesis
    using head_ends [OF assms(1), of body] split_crlf_join [OF assms(1)]
    by (simp add: fixContentLength_def fix_at_def crlf_def)
qed

text \<open>
  A head with bare line feeds and a blank line inside the body, written with \<^verbatim>\<open>CRLF\<close>: the boundary found is the one in the
  body, and the length announced is that of the rest of the body.
\<close>

lemma fix_length_wrong_boundary:
  "fixContentLength (''POST / HTTP/1.1'' @ [newline] @ ''Content-Length: 0'' @ [newline, newline] @ ''ab'' @ crlf @ crlf @ ''cd'')
    = ''POST / HTTP/1.1'' @ [newline] @ ''Content-Length: 2'' @ [newline, newline] @ ''ab'' @ crlf @ crlf @ ''cd''"
  by code_simp

end
