(* ===== verification/TuiScreen.thy ===== *)
theory TuiScreen
  imports TuiMouse
begin

text \<open>
  What the user sees and what a click or a key does: the rows drawn and the rows a click resolves, the panes and the grid of the
  target's screen inside the left one.
\<close>

section \<open>The rows\<close>

lemma length_row_window:
  assumes "1 \<le> listRows" and "0 \<le> n"
  shows "length (row_window listRows n selected) = nat (min n listRows)"
  using assms by (auto simp: row_window_def clampIndex_def Let_def min_def)

lemma nth_row_window:
  assumes "i < length (row_window listRows n selected)"
  shows "row_window listRows n selected ! i =
    (if clampIndex selected n \<ge> listRows then clampIndex selected n - listRows + 1 else 0) + int i"
proof -
  let ?s = "if clampIndex selected n \<ge> listRows then clampIndex selected n - listRows + 1 else 0"
  have w: "row_window listRows n selected = [?s .. min n (?s + listRows) - 1]" by (simp only: row_window_def Let_def)
  with assms have "?s + int i \<le> min n (?s + listRows) - 1" by (simp only: length_upto)
  then show ?thesis unfolding w by (rule nth_upto)
qed

lemma selected_in_window:
  assumes "1 \<le> listRows" and "0 < n"
  shows "clampIndex selected n \<in> set (row_window listRows n selected)"
  using assms clampIndex_range [OF assms(2), of selected] by (auto simp: row_window_def Let_def)

lemma layout_rows: "1 \<le> snd (trafficRowLayout h f c p)" "1 \<le> fst (trafficRowLayout h f c p)"
  by (auto simp: trafficRowLayout_def Let_def)

lemma click_window:
  assumes "0 \<le> n" and "(ltop, rows) = trafficRowLayout h f c p"
  shows "flowRowIndex y h n selected f c p =
    (if ltop \<le> y \<and> nat (y - ltop) < length (row_window rows n selected)
     then Some (row_window rows n selected ! nat (y - ltop)) else None)"
proof -
  let ?w = "row_window rows n selected"
  have rows: "1 \<le> rows" using layout_rows(1) [of h f c p] assms(2) by (metis snd_conv)
  have len: "length ?w = nat (min n rows)" by (rule length_row_window [OF rows assms(1)])
  let ?s = "clampIndex selected n"
  have s: "0 < n \<Longrightarrow> 0 \<le> ?s \<and> ?s < n" by (rule clampIndex_range)
  have "?w ! nat (y - ltop) = (if ?s \<ge> rows then ?s - rows + 1 else 0) + (y - ltop)"
    if "ltop \<le> y" "nat (y - ltop) < length ?w"
    using nth_row_window [OF that(2)] that(1) by simp
  then show ?thesis
    using s rows len assms(1) by (auto simp: flowRowIndex_def assms(2) [symmetric] Let_def clampIndex_def)
qed

definition list_top :: "('w, 'fl, 't, 'style, 'inj) env \<Rightarrow> int \<Rightarrow> ('w, 'fl, 't, 're, 'inj) tui \<Rightarrow> int" where
  "list_top E h m = fst (trafficRowLayout h (filter_line_shown E m) (u_cmdline m) (u_paused m \<noteq> None))"

definition shown_window :: "('w, 'fl, 't, 'style, 'inj) env \<Rightarrow> int \<Rightarrow> ('w, 'fl, 't, 're, 'inj) tui \<Rightarrow> int list" where
  "shown_window E h m = row_window (snd (trafficRowLayout h (filter_line_shown E m) (u_cmdline m) (u_paused m \<noteq> None)))
     (visible_count E m) (u_selected m)"

lemma traffic_lines_rows:
  obtains pre where "int (length pre) = list_top E h m"
    and "traffic_lines E w h m = pre @ map (\<lambda>i. renderFlowRow (ev_ui E) (u_heap m (visible E m ! nat i))
           (i = clampIndex (u_selected m) (visible_count E m)) w) (shown_window E h m)"
  by (rule that [of "take (nat (list_top E h m)) (traffic_lines E w h m)"])
    (auto simp: traffic_lines_def shown_window_def list_top_def trafficRowLayout_def visible_count_def Let_def)

lemma clicked_window:
  "clickedFlowIndex E y h m =
    (if list_top E h m \<le> y \<and> nat (y - list_top E h m) < length (shown_window E h m)
     then Some (shown_window E h m ! nat (y - list_top E h m)) else None)"
  unfolding clickedFlowIndex_def list_top_def shown_window_def
  by (rule click_window) (auto simp: visible_count_def)

text \<open>
  C16: a click on the traffic pane selects the flow drawn under it: it resolves to a flow exactly when a row of the list is drawn
  on that line, and the line then shows that flow. The selected flow is always drawn, and a click there finds it.
\<close>

theorem click_selects_the_row_drawn:
  fixes E :: "('w, 'fl, 't, 'style, 'inj) env" and m :: "('w, 'fl, 't, 're, 'inj) tui"
  shows "(clickedFlowIndex E y h m \<noteq> None \<longleftrightarrow> list_top E h m \<le> y \<and> nat y < length (traffic_lines E w h m))
    \<and> (\<forall>i. clickedFlowIndex E y h m = Some i \<longrightarrow>
         traffic_lines E w h m ! nat y = renderFlowRow (ev_ui E) (u_heap m (visible E m ! nat i)) (i = clampIndex (u_selected m) (visible_count E m)) w)
    \<and> (visible E m \<noteq> [] \<longrightarrow> (\<exists>y. clickedFlowIndex E y h m = Some (clampIndex (u_selected m) (visible_count E m))))"
proof -
  let ?top = "list_top E h m" and ?win = "shown_window E h m"
  obtain pre where pre: "int (length pre) = ?top" and rows: "traffic_lines E w h m = pre @ map (\<lambda>i. renderFlowRow (ev_ui E) (u_heap m (visible E m ! nat i))
      (i = clampIndex (u_selected m) (visible_count E m)) w) ?win"
    by (rule traffic_lines_rows)
  have line: "nat y = length pre + nat (y - ?top)" if "?top \<le> y" using that pre by simp
  have "clampIndex (u_selected m) (visible_count E m) \<in> set ?win" if "visible E m \<noteq> []"
    unfolding shown_window_def by (rule selected_in_window) (use that layout_rows in \<open>auto simp: visible_count_def\<close>)
  then have "\<exists>y. clickedFlowIndex E y h m = Some (clampIndex (u_selected m) (visible_count E m))" if vis: "visible E m \<noteq> []"
  proof -
    obtain k where "k < length ?win" "?win ! k = clampIndex (u_selected m) (visible_count E m)"
      using \<open>visible E m \<noteq> [] \<Longrightarrow> _ \<in> set ?win\<close> [OF vis] by (auto simp: in_set_conv_nth)
    then have "clickedFlowIndex E (?top + int k) h m = Some (clampIndex (u_selected m) (visible_count E m))"
      by (simp add: clicked_window)
    then show ?thesis ..
  qed
  then show ?thesis
    using line by (auto simp: clicked_window rows split: if_splits)
qed

text \<open>One flow listed, on an empty filter: it is drawn on the line below the header.\<close>

definition demo_listed :: "('w, 'fl, 't, 'style, 'inj) env \<Rightarrow> ('w, 'fl, 't, unit, 'inj) tui" where
  "demo_listed E = (demo_ui E)\<lparr>u_flows := [3]\<rparr>"

definition empty_inputs :: "('w, 'fl, 't, 'style, 'inj) env \<Rightarrow> ('w, 'fl, 't, 'style, 'inj) env" where
  "empty_inputs E = E\<lparr>ev_widgets := (ev_widgets E)\<lparr>wg_Value := \<lambda>_. []\<rparr>\<rparr>"

theorem click_selects_the_row_drawn_witness:
  "\<forall>E :: (nat, nat, nat, nat, nat) env.
    traffic_lines (empty_inputs E) 40 20 (demo_listed E) ! 1 = renderFlowRow (ev_ui E) (demo_heap 3) True 40"
proof
  fix E :: "(nat, nat, nat, nat, nat) env"
  let ?E = "empty_inputs E" and ?m = "demo_listed E"
  have "to_lower (trim_space []) = []" by code_simp
  then have vis: "visible ?E ?m = [3]"
    by (simp add: visible_def demo_listed_def demo_ui_def New_def empty_inputs_def visible_rows_def row_shown_def Let_def)
  then have count: "visible_count ?E ?m = 1" by (simp add: visible_count_def)
  have m: "\<not> filter_line_shown ?E ?m" "\<not> u_cmdline ?m" "u_paused ?m = None" "u_selected ?m = 0" "u_heap ?m = demo_heap"
    by (simp_all add: filter_line_shown_def demo_listed_def demo_ui_def New_def empty_inputs_def)
  have "clickedFlowIndex ?E 1 20 ?m = Some 0"
    by (simp add: clickedFlowIndex_def count m flowRowIndex_def trafficRowLayout_def clampIndex_def)
  then have "traffic_lines ?E 40 20 ?m ! nat 1 = renderFlowRow (ev_ui ?E) (u_heap ?m (visible ?E ?m ! nat 0))
      (0 = clampIndex (u_selected ?m) (visible_count ?E ?m)) 40"
    using click_selects_the_row_drawn [of ?E 1 20 ?m 40] by blast
  then show "traffic_lines ?E 40 20 ?m ! 1 = renderFlowRow (ev_ui E) (demo_heap 3) True 40"
    by (simp add: vis count m clampIndex_def) (simp add: empty_inputs_def)
qed

section \<open>The panes\<close>

lemma box_widths_tile:
  assumes "6 \<le> width"
  shows "3 \<le> fst (box_widths width s)" "3 \<le> snd (box_widths width s)" "fst (box_widths width s) + snd (box_widths width s) = width"
  using assms by (auto simp: box_widths_def Let_def)

text \<open>On a screen too narrow for two panes the left box has no room for its borders and a column of content.\<close>

lemma narrow_screen_left_box: "box_widths 4 s = (1, 3)"
  by (simp add: box_widths_def Let_def)

lemma content_cell_bounds:
  "content_cell box ev = Some (col, row) \<Longrightarrow>
    0 \<le> col \<and> col < fst (contentGrid box) \<and> 0 \<le> row \<and> row < snd (contentGrid box)"
  by (auto simp: content_cell_def contentGrid_def Let_def split: if_splits)

lemma VT_Resize_size:
  assumes "1 \<le> cols" and "1 \<le> rows" and "\<not> v_closed (VT_Resize L cols rows v)"
  shows "v_cols (VT_Resize L cols rows v) = cols" "v_rows (VT_Resize L cols rows v) = rows"
  using assms by (auto simp: VT_Resize_def resizeLocked_def split: if_splits)

lemma size_keeps:
  "u_width (sizeDetail E m) = u_width m" "u_height (sizeDetail E m) = u_height m"
  "u_screen (sizeDetail E m) = u_screen m" "u_splitRatio (sizeDetail E m) = u_splitRatio m"
  "u_width (sizeEditor E m) = u_width m" "u_height (sizeEditor E m) = u_height m"
  "u_screen (sizeEditor E m) = u_screen m" "u_splitRatio (sizeEditor E m) = u_splitRatio m"
  "u_width (sizeRepeater E m) = u_width m" "u_height (sizeRepeater E m) = u_height m"
  "u_screen (sizeRepeater E m) = u_screen m" "u_splitRatio (sizeRepeater E m) = u_splitRatio m"
  "u_width (resizeChild E m) = u_width m" "u_height (resizeChild E m) = u_height m" "u_splitRatio (resizeChild E m) = u_splitRatio m"
  by (simp_all add: sizeDetail_def sizeEditor_def sizeRepeater_def resizeChild_def call_def Let_def split: prod.split)

text \<open>
  C35: after a change of the window's size, every cell above the status line belongs to one pane, neither box is too narrow for a
  border and content, and when the left pane has content, the emulator of an open target is as large as that content:
  every mouse event passed on to it names a cell of its grid.
\<close>

theorem panes_tile_and_clicks_hit_the_grid:
  fixes E :: "('w, 'fl, 't, 'style, 'inj) env" and m0 :: "('w, 'fl, 't, 're, 'inj) tui"
  assumes "6 \<le> w" and m: "m = fst (Update E (WindowSizeMsg w h) m0)"
  shows "3 \<le> rc_W (fst (paneRects E m)) \<and> 3 \<le> rc_W (snd (paneRects E m))
    \<and> (\<forall>x y. 0 \<le> x \<and> x < w \<and> 0 \<le> y \<and> y < h - 1 \<longrightarrow>
         rect_contains (fst (paneRects E m)) x y \<noteq> rect_contains (snd (paneRects E m)) x y)
    \<and> (\<forall>v ev col row. u_screen m = Some v \<and> \<not> v_closed v \<and> content_cell (fst (paneRects E m)) ev = Some (col, row) \<longrightarrow>
         0 \<le> col \<and> col < v_cols v \<and> 0 \<le> row \<and> row < v_rows v)"
proof -
  let ?s = "fo_scale (ev_floats E) w (u_splitRatio m0)"
  let ?l = "fst (box_widths w ?s)" and ?r = "snd (box_widths w ?s)"
  have rects: "paneRects E m = (\<lparr>rc_X = 0, rc_Y = 0, rc_W = ?l, rc_H = h - 1\<rparr>, \<lparr>rc_X = ?l, rc_Y = 0, rc_W = ?r, rc_H = h - 1\<rparr>)"
    unfolding m by (simp add: paneRects_def paneBoxWidths_def size_keeps Let_def split: prod.split)
  have screen: "u_screen m = (if ?l - 4 < 1 \<or> h - 4 < 1 then u_screen m0
      else map_option (VT_Resize (ev_term E) (?l - 4) (h - 4)) (u_screen m0))"
    unfolding m by (simp add: size_keeps Let_def)
      (simp add: resizeChild_def leftSize_def leftPaneWidth_def paneBoxWidths_def call_def Let_def)
  have "0 \<le> col \<and> col < v_cols v \<and> 0 \<le> row \<and> row < v_rows v"
    if "u_screen m = Some v" "\<not> v_closed v" "content_cell (fst (paneRects E m)) ev = Some (col, row)" for v ev col row
    using content_cell_bounds [OF that(3)] that(1,2)
    by (auto simp: rects contentGrid_def screen VT_Resize_size Let_def split: if_splits)
  then show ?thesis
    using box_widths_tile [OF assms(1), of ?s] by (auto simp: rects rect_contains_def)
qed

theorem panes_tile_and_clicks_hit_the_grid_witness:
  "\<forall>E :: (nat, nat, nat, nat, nat) env.
    (let m = fst (Update E (WindowSizeMsg 80 24) ((demo_ui E)\<lparr>u_screen := Some (NewVT (ev_term E) 0 0)\<rparr>))
     in rect_contains (fst (paneRects E m)) 41 20 \<noteq> rect_contains (snd (paneRects E m)) 41 20)"
proof
  fix E :: "(nat, nat, nat, nat, nat) env"
  show "let m = fst (Update E (WindowSizeMsg 80 24) ((demo_ui E)\<lparr>u_screen := Some (NewVT (ev_term E) 0 0)\<rparr>))
     in rect_contains (fst (paneRects E m)) 41 20 \<noteq> rect_contains (snd (paneRects E m)) 41 20"
    using panes_tile_and_clicks_hit_the_grid
      [of 80 _ E 24 "(demo_ui E)\<lparr>u_screen := Some (NewVT (ev_term E) 0 0)\<rparr>", OF _ refl]
    unfolding Let_def by (simp del: Update.simps)
qed

end
