(* ===== verification/TuiView.thy ===== *)
theory TuiView
  imports TuiScreen
begin

text \<open>
  The frame drawn: \<^verbatim>\<open>View\<close> with the modal views of \<^verbatim>\<open>help.go\<close> and \<^verbatim>\<open>repeater.go\<close>. Boxes, placement and the
  joining of blocks are Lip Gloss, a parameter.
\<close>

record layout_lib =
  ly_Box :: "border \<Rightarrow> string option \<Rightarrow> int \<Rightarrow> int \<Rightarrow> string \<Rightarrow> string"
  ly_HelpBox :: "border \<Rightarrow> string option \<Rightarrow> string \<Rightarrow> string"
  ly_Width :: "int \<Rightarrow> string \<Rightarrow> string"
  ly_Place :: "int \<Rightarrow> int \<Rightarrow> string \<Rightarrow> string"
  ly_JoinHorizontal :: "string list \<Rightarrow> string"
  ly_JoinVertical :: "string list \<Rightarrow> string"

definition pane_box :: "layout_lib \<Rightarrow> styles \<Rightarrow> bool \<Rightarrow> int \<Rightarrow> int \<Rightarrow> string \<Rightarrow> string" where
  "pane_box L S active = ly_Box L (sy_paneBorder S) (if active then sy_focused S else sy_unfocused S)"

definition frameHelp :: "layout_lib \<Rightarrow> styles \<Rightarrow> string \<Rightarrow> string" where
  "frameHelp L S content = ly_HelpBox L (sy_paneBorder S) (sy_focused S) content"

definition left_mark :: string where "left_mark = [CHR '' '', CHR 0xE2, CHR 0x97, CHR 0x80]"

definition focusMark :: "ui \<Rightarrow> bool \<Rightarrow> string" where
  "focusMark U active = (if active then ui_Render U (sy_keyCap (ui_styles U)) left_mark else [])"

text \<open>The template is not nil once the Repeater is open.\<close>

definition repeaterView :: "('w, 'fl, 't, 'style, 'inj) env \<Rightarrow> layout_lib \<Rightarrow> ('w, 'fl, 't, 're, 'inj) tui \<Rightarrow> string" where
  "repeaterView E L m =
     (let U = ev_ui E; S = ui_styles U; W = ev_widgets E; r = u_rep m; base = the (rs_base r);
          title = ''Repeater '' @ sy_glyphArrow S @ '' '' @ tp_Method base @ '' '' @ tp_URL base;
          label = (\<lambda>name f. ui_Render U (sy_section S) name @ focusMark U (rs_focus r = f));
          payLabel = ui_Render U (sy_section S) ''Payloads''
            @ ui_Render U (sy_dim S) (''  ['' @ mode_string (rs_mode r) @ '']  name = a, b, c'')
            @ focusMark U (rs_focus r = RepFocusPayload);
          hint = ui_Render U (sy_dim S) (''Tab switch'' @ dot_sep @ ''Ctrl+O mode'' @ dot_sep @ ''Ctrl+S send'' @ dot_sep @ ''Esc close'');
          footer = (if rs_result r \<noteq> [] then ui_Render U (sy_pending S) (rs_result r) @ ''   '' @ hint else hint)
      in ly_JoinVertical L
           [ui_Render U (sy_title S) (truncate_text title (u_width m - 1)),
            label ''Request'' RepFocusReq, wg_View W (rs_req r), payLabel, wg_View W (rs_payload r),
            label ''Response'' RepFocusResp, wg_View W (rs_respVP r), footer])"

text \<open>
  The frame and the emulator after it, which \<^verbatim>\<open>Render\<close> resizes to the pane; \<open>None\<close> when there is no emulator, where the
  code dereferences a nil interface.
\<close>

definition View ::
    "('w, 'fl, 't, 'style, 'inj) env \<Rightarrow> layout_lib \<Rightarrow> ('w, 'fl, 't, 're, 'inj) tui \<Rightarrow> (string \<times> 't vt option) option" where
  "View E L m =
     (let U = ev_ui E; S = ui_styles U in
      if u_width m = 0 then Some (''starting'' @ ellipsis, u_screen m)
      else if u_showHelp m then
        Some (ly_Place L (u_width m) (u_height m) (helpViewAt (frameHelp L S) U (km m) (u_height m) (u_helpScroll m)), u_screen m)
      else if u_repeating m then Some (repeaterView E L m, u_screen m)
      else (case u_screen m of
          None \<Rightarrow> None
        | Some v \<Rightarrow>
            (let paneH = u_height m - 3; (lw, lh) = leftSize E m; (screen, v1) = VT_Render (ev_term E) lw lh v;
                 left = pane_box L S (u_focus m = FocusTerminal) (leftPaneWidth E m) paneH screen;
                 right = pane_box L S (u_focus m = FocusTraffic) (rightPaneWidth E m) paneH (right_content E m);
                 bar = ly_Width L (u_width m) (statusBar U (u_status m) (Enabled (u_engine m)) (InterceptResponses (u_engine m)))
             in Some (ly_JoinHorizontal L [left, right] @ [newline] @ bar, Some v1))))"

text \<open>
  Drawing does not disturb the target: after a change of the window's size the emulator already has the size of the pane, and the frame
  leaves it as it is. A target whose screen is too small to show is not resized by either.
\<close>

lemma leftSize_resized:
  "leftSize E (fst (Update E (WindowSizeMsg w h) m)) = leftSize E (m\<lparr>u_width := w, u_height := h\<rparr>)"
  by (simp add: leftSize_def leftPaneWidth_def paneBoxWidths_def size_keeps Let_def)

lemma view_leaves_emulator:
  assumes m: "m = fst (Update E (WindowSizeMsg w h) m0)" and "View E L m = Some (s, scr)"
  shows "scr = u_screen m"
proof -
  obtain c r where cr: "leftSize E (m0\<lparr>u_width := w, u_height := h\<rparr>) = (c, r)" by fastforce
  have lr: "leftSize E m = (c, r)" unfolding m leftSize_resized by (rule cr)
  have scr: "u_screen m = (if c < 1 \<or> r < 1 then u_screen m0 else map_option (VT_Resize (ev_term E) c r) (u_screen m0))"
    unfolding m by (simp add: size_keeps Let_def) (simp add: resizeChild_def cr call_def Let_def)
  have "snd (VT_Render (ev_term E) c r v) = v" if "u_screen m = Some v" for v
    using that unfolding scr
    by (auto simp: VT_Render_def VT_Resize_def resizeLocked_def Let_def split: if_splits prod.split)
  then show ?thesis
    using assms(2) by (auto simp: View_def lr Let_def split: if_splits option.splits prod.splits)
qed

end
