(* ===== verification/FileStore.thy ===== *)
theory FileStore
  imports Prelude
begin

text \<open>
  \<^verbatim>\<open>internal/ownerfile\<close>: a complete file is written to a private temporary one, flushed, renamed over the
  destination, and the directory is flushed. The file system is the POSIX one: a directory maps names to inodes, \<^verbatim>\<open>fsync\<close> makes an inode or
  the directory durable, and a crash may lose what was not flushed. Any system call may fail. The result holds every state the disk went through,
  so that a property can speak of a crash at any moment.
\<close>

section \<open>The file system\<close>

record inode =
  i_data :: bytes
  i_mode :: nat
  i_synced :: bool

record disk =
  d_inodes :: "nat \<Rightarrow> inode"
  d_next :: nat
  d_dir :: "string \<Rightarrow> nat option"
  d_synced :: "string \<Rightarrow> nat option"

definition d_create :: "string \<Rightarrow> disk \<Rightarrow> disk" where
  "d_create p d = d\<lparr>d_inodes := (d_inodes d)(d_next d := \<lparr>i_data = [], i_mode = 0x180, i_synced = False\<rparr>),
     d_next := d_next d + 1, d_dir := (d_dir d)(p \<mapsto> d_next d)\<rparr>"

definition d_chmod :: "nat \<Rightarrow> nat \<Rightarrow> disk \<Rightarrow> disk" where
  "d_chmod i mode d = d\<lparr>d_inodes := (d_inodes d)(i := (d_inodes d i)\<lparr>i_mode := mode, i_synced := False\<rparr>)\<rparr>"

definition d_append :: "nat \<Rightarrow> bytes \<Rightarrow> disk \<Rightarrow> disk" where
  "d_append i b d = d\<lparr>d_inodes := (d_inodes d)(i := (d_inodes d i)\<lparr>i_data := i_data (d_inodes d i) @ b, i_synced := False\<rparr>)\<rparr>"

definition d_fsync :: "nat \<Rightarrow> disk \<Rightarrow> disk" where
  "d_fsync i d = d\<lparr>d_inodes := (d_inodes d)(i := (d_inodes d i)\<lparr>i_synced := True\<rparr>)\<rparr>"

definition d_rename :: "string \<Rightarrow> string \<Rightarrow> disk \<Rightarrow> disk" where
  "d_rename p q d = d\<lparr>d_dir := (d_dir d)(q := d_dir d p, p := None)\<rparr>"

definition d_unlink :: "string \<Rightarrow> disk \<Rightarrow> disk" where
  "d_unlink p d = d\<lparr>d_dir := (d_dir d)(p := None)\<rparr>"

definition d_sync_dir :: "disk \<Rightarrow> disk" where
  "d_sync_dir d = d\<lparr>d_synced := d_dir d\<rparr>"

definition content :: "disk \<Rightarrow> string \<Rightarrow> (bytes \<times> nat) option" where
  "content d p = map_option (\<lambda>i. (i_data (d_inodes d i), i_mode (d_inodes d i))) (d_dir d p)"

text \<open>
  After a crash each name is bound as it was or as it was last flushed, and an inode that was flushed is intact.
\<close>

definition crash_ok :: "disk \<Rightarrow> disk \<Rightarrow> bool" where
  "crash_ok d d' \<longleftrightarrow> (\<forall>p. d_dir d' p = d_dir d p \<or> d_dir d' p = d_synced d p)
     \<and> (\<forall>i. i_synced (d_inodes d i) \<longrightarrow> d_inodes d' i = d_inodes d i)"

definition durable :: "disk \<Rightarrow> string \<Rightarrow> bool" where
  "durable d p \<longleftrightarrow> d_synced d p = d_dir d p \<and> (\<forall>i. d_dir d p = Some i \<longrightarrow> i < d_next d \<and> i_synced (d_inodes d i))"

section \<open>ownerfile\<close>

datatype syscall = SysCreateTemp | SysChmod | SysSync | SysClose | SysRename | SysOpenDir | SysSyncDir | SysCloseDir

text \<open>Which calls fail, whether the temporary file can be removed, and the name \<^verbatim>\<open>os.CreateTemp\<close> finds.\<close>

record os =
  os_fail :: "syscall \<Rightarrow> string option"
  os_can_remove :: bool
  os_temp :: "string \<Rightarrow> disk \<Rightarrow> string"

definition Mode :: nat where "Mode = 0x180"

fun write_chunks :: "nat \<Rightarrow> bytes list \<Rightarrow> disk \<Rightarrow> disk list" where
  "write_chunks i [] d = []"
| "write_chunks i (b # bs) d = (let d1 = d_append i b d in d1 # write_chunks i bs d1)"

definition syncParent :: "os \<Rightarrow> disk \<Rightarrow> disk list \<times> string option" where
  "syncParent s d =
     (case os_fail s SysOpenDir of Some e \<Rightarrow> ([], Some e)
      | None \<Rightarrow> (case os_fail s SysSyncDir of Some e \<Rightarrow> ([], Some e)
        | None \<Rightarrow> ([d_sync_dir d], os_fail s SysCloseDir)))"

text \<open>
  The callback is what it writes, piece by piece, and the error it returns. The states are those after each change; the deferred clean-up is the last one
  unless the file was committed.
\<close>

definition WriteFunc :: "os \<Rightarrow> string \<Rightarrow> bytes list \<times> string option \<Rightarrow> disk \<Rightarrow> disk list \<times> string option" where
  "WriteFunc s path cb d =
     (case os_fail s SysCreateTemp of Some e \<Rightarrow> ([], Some e)
      | None \<Rightarrow>
          (let tmp = os_temp s path d; i = d_next d; d1 = d_create tmp d;
               give_up = (\<lambda>ds e. (ds @ (if os_can_remove s then [d_unlink tmp (last ds)] else []), Some e))
           in case os_fail s SysChmod of Some e \<Rightarrow> give_up [d1] e
              | None \<Rightarrow>
                  (let d2 = d_chmod i Mode d1; ds = d1 # d2 # write_chunks i (fst cb) d2
                   in case snd cb of Some e \<Rightarrow> give_up ds e
                      | None \<Rightarrow> (case os_fail s SysSync of Some e \<Rightarrow> give_up ds e
                        | None \<Rightarrow>
                            (let d3 = d_fsync i (last ds) in
                             case os_fail s SysClose of Some e \<Rightarrow> give_up (ds @ [d3]) e
                             | None \<Rightarrow> (case os_fail s SysRename of Some e \<Rightarrow> give_up (ds @ [d3]) e
                               | None \<Rightarrow>
                                   (let d4 = d_rename tmp path d3; (ds5, err) = syncParent s d4
                                    in (ds @ [d3, d4] @ ds5, err))))))))"

definition ErrShortWrite :: string where "ErrShortWrite = ''short write''"

text \<open>\<open>w\<close> answers the one call of \<^verbatim>\<open>w.Write\<close> with the bytes taken and the error.\<close>

definition Write :: "os \<Rightarrow> string \<Rightarrow> (bytes \<Rightarrow> nat \<times> string option) \<Rightarrow> bytes \<Rightarrow> disk \<Rightarrow> disk list \<times> string option" where
  "Write s path w data d =
     (let (n, err) = w data
      in WriteFunc s path ([take n data], if err = None \<and> n \<noteq> length data then Some ErrShortWrite else err) d)"

section \<open>Properties\<close>

definition temp_free :: "os \<Rightarrow> string \<Rightarrow> disk \<Rightarrow> bool" where
  "temp_free s path d \<longleftrightarrow> d_dir d (os_temp s path d) = None \<and> os_temp s path d \<noteq> path"

text \<open>
  What every state before the rename keeps: the destination and its inode, so a crash finds the old file.
\<close>

definition before_rename :: "disk \<Rightarrow> string \<Rightarrow> string \<Rightarrow> disk \<Rightarrow> bool" where
  "before_rename d tmp path s \<longleftrightarrow> (\<forall>p. p \<noteq> tmp \<longrightarrow> d_dir s p = d_dir d p) \<and> d_synced s = d_synced d
     \<and> (\<forall>j. j \<noteq> d_next d \<longrightarrow> d_inodes s j = d_inodes d j)"

lemma before_rename_crash:
  assumes "before_rename d tmp path s" and "durable d path" and "tmp \<noteq> path" and "crash_ok s s'"
  shows "content s' path = content d path"
proof -
  have dir: "d_dir s' path = d_dir d path"
    using assms unfolding crash_ok_def before_rename_def durable_def by metis
  show ?thesis
  proof (cases "d_dir d path")
    case (Some j)
    with assms(2) have "j < d_next d" "i_synced (d_inodes d j)" by (auto simp: durable_def)
    with assms(1) have "d_inodes s j = d_inodes d j" by (simp add: before_rename_def)
    with assms(4) \<open>i_synced _\<close> have "d_inodes s' j = d_inodes d j" by (simp add: crash_ok_def)
    with Some dir show ?thesis by (simp add: content_def)
  qed (simp add: content_def dir)
qed

lemma before_rename_refl: "before_rename d tmp path d"
  by (simp add: before_rename_def)

lemma before_rename_ops:
  "before_rename d tmp path s \<Longrightarrow> before_rename d tmp path (d_chmod (d_next d) m s)"
  "before_rename d tmp path s \<Longrightarrow> before_rename d tmp path (d_append (d_next d) b s)"
  "before_rename d tmp path s \<Longrightarrow> before_rename d tmp path (d_fsync (d_next d) s)"
  "before_rename d tmp path s \<Longrightarrow> before_rename d tmp path (d_unlink tmp s)"
  "before_rename d tmp path (d_create tmp d)"
  by (simp_all add: before_rename_def d_chmod_def d_append_def d_fsync_def d_unlink_def d_create_def)

lemma write_chunks_before:
  "before_rename d tmp path s \<Longrightarrow> \<forall>x \<in> set (write_chunks (d_next d) bs s). before_rename d tmp path x"
proof (induction bs arbitrary: s)
  case (Cons b bs)
  have "before_rename d tmp path (d_append (d_next d) b s)" using Cons.prems by (rule before_rename_ops)
  with Cons.IH [OF this] show ?case by (simp add: Let_def)
qed simp

lemma write_chunks_last:
  "let s' = last (s # write_chunks i bs s) in d_dir s' = d_dir s \<and> i_data (d_inodes s' i) = i_data (d_inodes s i) @ concat bs
     \<and> i_mode (d_inodes s' i) = i_mode (d_inodes s i)"
proof (induction bs arbitrary: s)
  case (Cons b bs)
  from Cons [of "d_append i b s"] show ?case by (simp add: Let_def d_append_def)
qed (simp add: Let_def)

lemma d_dir_unlink: "d_dir (d_unlink p x) p = None"
  by (simp add: d_unlink_def)

definition private_temp :: "nat \<Rightarrow> string \<Rightarrow> disk \<Rightarrow> bool" where
  "private_temp i tmp x \<longleftrightarrow> d_dir x tmp = None \<or> d_dir x tmp = Some i \<and> i_mode (d_inodes x i) = Mode"

lemma private_temp_ops:
  "private_temp i tmp x \<Longrightarrow> private_temp i tmp (d_append i b x)" "private_temp i tmp x \<Longrightarrow> private_temp i tmp (d_fsync i x)"
  "private_temp i tmp x \<Longrightarrow> private_temp i tmp (d_chmod i Mode x)" "private_temp i tmp (d_unlink tmp x)"
  "private_temp (d_next x) tmp (d_create tmp x)" "private_temp i tmp x \<Longrightarrow> private_temp i tmp (d_sync_dir x)"
  "tmp \<noteq> path \<Longrightarrow> private_temp i tmp (d_rename tmp path x)"
  by (auto simp: private_temp_def d_append_def d_fsync_def d_chmod_def d_unlink_def d_create_def d_rename_def d_sync_dir_def Mode_def)

lemma write_chunks_private: "private_temp i tmp s \<Longrightarrow> \<forall>x \<in> set (write_chunks i bs s). private_temp i tmp x"
proof (induction bs arbitrary: s)
  case (Cons b bs)
  have "private_temp i tmp (d_append i b s)" using Cons.prems by (rule private_temp_ops)
  with Cons.IH [OF this] show ?case by (simp add: Let_def)
qed simp

text \<open>The two ways a write ends: given up before the rename, or committed by it.\<close>

definition given_up :: "os \<Rightarrow> string \<Rightarrow> disk \<Rightarrow> disk list \<Rightarrow> string option \<Rightarrow> bool" where
  "given_up s path d ds err \<longleftrightarrow> err \<noteq> None
     \<and> (\<forall>x \<in> set ds. before_rename d (os_temp s path d) path x \<and> private_temp (d_next d) (os_temp s path d) x)
     \<and> (os_can_remove s \<longrightarrow> d_dir (last (d # ds)) (os_temp s path d) = d_dir d (os_temp s path d) \<or> d_dir (last (d # ds)) (os_temp s path d) = None)"

definition new_file :: "nat \<Rightarrow> bytes \<Rightarrow> disk \<Rightarrow> bool" where
  "new_file i b x \<longleftrightarrow> d_inodes x i = \<lparr>i_data = b, i_mode = Mode, i_synced = True\<rparr>"

definition committed :: "os \<Rightarrow> string \<Rightarrow> disk \<Rightarrow> bytes list \<Rightarrow> disk list \<Rightarrow> string option \<Rightarrow> bool" where
  "committed s path d bs ds err \<longleftrightarrow> (\<exists>pre d3 post. ds = pre @ [d3, d_rename (os_temp s path d) path d3] @ post
     \<and> (\<forall>x \<in> set (pre @ [d3]). before_rename d (os_temp s path d) path x \<and> private_temp (d_next d) (os_temp s path d) x)
     \<and> d_dir d3 (os_temp s path d) = Some (d_next d) \<and> new_file (d_next d) (concat bs) d3
     \<and> (post, err) = syncParent s (d_rename (os_temp s path d) path d3))"

lemma WriteFunc_outcome:
  assumes "WriteFunc s path cb d = (ds, err)"
  shows "given_up s path d ds err \<or> snd cb = None \<and> committed s path d (fst cb) ds err"
proof -
  let ?tmp = "os_temp s path d" and ?i = "d_next d"
  define d1 where "d1 = d_create ?tmp d"
  define d2 where "d2 = d_chmod ?i Mode d1"
  define ws where "ws = d1 # d2 # write_chunks ?i (fst cb) d2"
  define d3 where "d3 = d_fsync ?i (last ws)"
  have ok1: "before_rename d ?tmp path d1 \<and> private_temp ?i ?tmp d1" unfolding d1_def by (simp add: before_rename_ops private_temp_ops)
  then have ok2: "before_rename d ?tmp path d2 \<and> private_temp ?i ?tmp d2" unfolding d2_def by (simp add: before_rename_ops private_temp_ops)
  then have ws: "\<forall>x \<in> set ws. before_rename d ?tmp path x \<and> private_temp ?i ?tmp x"
    using ok1 write_chunks_before [of d ?tmp path d2 "fst cb"] write_chunks_private [of ?i ?tmp d2 "fst cb"] by (simp add: ws_def)
  have "last ws = last (d2 # write_chunks ?i (fst cb) d2)" by (simp add: ws_def)
  then have last: "d_dir (last ws) ?tmp = Some ?i" "i_data (d_inodes (last ws) ?i) = concat (fst cb)" "i_mode (d_inodes (last ws) ?i) = Mode"
    using write_chunks_last [of d2 ?i "fst cb"] by (simp_all add: Let_def d2_def d1_def d_chmod_def d_create_def)
  have "ws \<noteq> []" by (simp add: ws_def)
  then have "last ws \<in> set ws" by simp
  with ws have ok3: "before_rename d ?tmp path d3 \<and> private_temp ?i ?tmp d3" unfolding d3_def by (simp add: before_rename_ops private_temp_ops)
  have d3: "d_dir d3 ?tmp = Some ?i" "new_file ?i (concat (fst cb)) d3" using last by (simp_all add: d3_def d_fsync_def new_file_def)
  have up: "given_up s path d (xs @ (if os_can_remove s then [d_unlink ?tmp (last xs)] else [])) (Some e)"
    if "xs \<noteq> []" "\<forall>x \<in> set xs. before_rename d ?tmp path x \<and> private_temp ?i ?tmp x" for xs e
    using that by (auto simp: given_up_def before_rename_ops private_temp_ops d_dir_unlink)
  have run: "WriteFunc s path cb d =
     (case os_fail s SysCreateTemp of Some e \<Rightarrow> ([], Some e)
      | None \<Rightarrow> (let give_up = (\<lambda>ds e. (ds @ (if os_can_remove s then [d_unlink ?tmp (last ds)] else []), Some e))
         in case os_fail s SysChmod of Some e \<Rightarrow> give_up [d1] e
            | None \<Rightarrow> (case snd cb of Some e \<Rightarrow> give_up ws e
              | None \<Rightarrow> (case os_fail s SysSync of Some e \<Rightarrow> give_up ws e
                | None \<Rightarrow> (case os_fail s SysClose of Some e \<Rightarrow> give_up (ws @ [d3]) e
                  | None \<Rightarrow> (case os_fail s SysRename of Some e \<Rightarrow> give_up (ws @ [d3]) e
                    | None \<Rightarrow> (let (ds5, err) = syncParent s (d_rename ?tmp path d3)
                        in (ws @ [d3, d_rename ?tmp path d3] @ ds5, err))))))))"
    unfolding WriteFunc_def Let_def d1_def d2_def d3_def ws_def by (rule refl)
  have up0: "given_up s path d [] (Some e)" for e by (simp add: given_up_def)
  have com: "committed s path d (fst cb) (ws @ [d3, d_rename ?tmp path d3] @ fst (syncParent s (d_rename ?tmp path d3)))
      (snd (syncParent s (d_rename ?tmp path d3)))"
    unfolding committed_def using ws ok3 d3 by (intro exI [of _ ws] exI [of _ d3] exI conjI) auto
  have ups: "given_up s path d ([d1] @ (if os_can_remove s then [d_unlink ?tmp (last [d1])] else [])) (Some e)"
    "given_up s path d (ws @ (if os_can_remove s then [d_unlink ?tmp (last ws)] else [])) (Some e)"
    "given_up s path d ((ws @ [d3]) @ (if os_can_remove s then [d_unlink ?tmp (last (ws @ [d3]))] else [])) (Some e)" for e
    using ok1 ok3 ws \<open>ws \<noteq> []\<close> by (intro up; simp)+
  let ?ok = "\<lambda>c. os_fail s c = None"
  consider (temp) e where "os_fail s SysCreateTemp = Some e" | (chmod) e where "?ok SysCreateTemp" "os_fail s SysChmod = Some e"
    | (callback) e where "?ok SysCreateTemp" "?ok SysChmod" "snd cb = Some e"
    | (sync) e where "?ok SysCreateTemp" "?ok SysChmod" "snd cb = None" "os_fail s SysSync = Some e"
    | (close) e where "?ok SysCreateTemp" "?ok SysChmod" "snd cb = None" "?ok SysSync" "os_fail s SysClose = Some e"
    | (rename) e where "?ok SysCreateTemp" "?ok SysChmod" "snd cb = None" "?ok SysSync" "?ok SysClose" "os_fail s SysRename = Some e"
    | (committed) "?ok SysCreateTemp" "?ok SysChmod" "snd cb = None" "?ok SysSync" "?ok SysClose" "?ok SysRename"
    by fastforce
  then have "given_up s path d (fst (WriteFunc s path cb d)) (snd (WriteFunc s path cb d))
      \<or> snd cb = None \<and> committed s path d (fst cb) (fst (WriteFunc s path cb d)) (snd (WriteFunc s path cb d))"
  proof cases
    case committed
    then show ?thesis using com by (simp add: run Let_def split_beta)
  qed (use ups up0 in \<open>simp_all add: run Let_def\<close>)
  then show ?thesis by (simp add: assms)
qed

lemma before_rename_content:
  assumes "before_rename d tmp path x" and "\<forall>p i. d_dir d p = Some i \<longrightarrow> i < d_next d" and "p \<noteq> tmp"
  shows "content x p = content d p"
proof (cases "d_dir d p")
  case (Some i)
  with assms(2) have "i \<noteq> d_next d" by blast
  with Some assms(1,3) show ?thesis by (simp add: before_rename_def content_def)
qed (use assms(1,3) in \<open>simp add: before_rename_def content_def\<close>)

lemma syncParent_states: "(post, err) = syncParent s x \<Longrightarrow> set post \<subseteq> {d_sync_dir x} \<and> (err = None \<longrightarrow> post = [d_sync_dir x])"
  by (auto simp: syncParent_def split: option.splits)

lemma renamed_dir:
  assumes "d_dir d3 tmp = Some i" and "x = d_rename tmp path d3 \<or> x = d_sync_dir (d_rename tmp path d3)"
  shows "d_dir x path = (if tmp = path then None else Some i)" "d_inodes x = d_inodes d3" "p \<noteq> path \<Longrightarrow> p \<noteq> tmp \<Longrightarrow> d_dir x p = d_dir d3 p"
    "d_synced x = d_synced d3 \<or> d_synced x = d_dir x" "d_dir x tmp = None"
  using assms by (auto simp: d_rename_def d_sync_dir_def)

lemma renamed_crash:
  assumes "before_rename d tmp path d3" and "durable d path" and "tmp \<noteq> path"
    and "d_dir d3 tmp = Some (d_next d)" and "new_file (d_next d) b d3"
    and x: "x = d_rename tmp path d3 \<or> x = d_sync_dir (d_rename tmp path d3)" and "crash_ok x y"
  shows "content y path = content d path \<or> content y path = Some (b, Mode)"
    and "x = d_sync_dir (d_rename tmp path d3) \<Longrightarrow> content y path = Some (b, Mode)"
proof -
  note dir = renamed_dir [OF assms(4) x]
  have new: "d_dir y path = Some (d_next d) \<Longrightarrow> content y path = Some (b, Mode)"
    using assms(5,7) dir(2) by (auto simp: content_def crash_ok_def new_file_def)
  have synced: "d_synced x path = d_synced d path \<or> d_synced x path = Some (d_next d)"
    using dir(1,4) assms(1,3) by (auto simp: before_rename_def)
  have old: "d_dir y path = d_dir d path \<Longrightarrow> content y path = content d path"
  proof (cases "d_dir d path")
    case (Some j)
    with assms(2) have j: "j < d_next d" "i_synced (d_inodes d j)" by (auto simp: durable_def)
    with assms(1) have "d_inodes x j = d_inodes d j" unfolding dir(2) by (simp add: before_rename_def)
    with assms(7) j have "d_inodes y j = d_inodes d j" by (simp add: crash_ok_def)
    then show "d_dir y path = d_dir d path \<Longrightarrow> ?thesis" using Some by (simp add: content_def)
  qed (simp add: content_def)
  have "d_dir y path = d_dir x path \<or> d_dir y path = d_synced x path" using assms(7) by (simp add: crash_ok_def)
  with synced new old dir(1) assms(2,3) show "content y path = content d path \<or> content y path = Some (b, Mode)"
    by (auto simp: durable_def)
  show "content y path = Some (b, Mode)" if "x = d_sync_dir (d_rename tmp path d3)"
  proof (rule new)
    have "d_synced x = d_dir x" using that by (simp add: d_sync_dir_def)
    then show "d_dir y path = Some (d_next d)"
      using \<open>d_dir y path = d_dir x path \<or> d_dir y path = d_synced x path\<close> dir(1) assms(3) by auto
  qed
qed

lemma given_up_safe:
  assumes "given_up s path d ds err" and "temp_free s path d" and "durable d path" and "\<forall>p i. d_dir d p = Some i \<longrightarrow> i < d_next d"
    and "x \<in> set (d # ds)"
  shows "crash_ok x y \<Longrightarrow> content y path = content d path" and "content x path = content d path"
    and "p \<noteq> os_temp s path d \<Longrightarrow> content x p = content d p"
    and "x \<in> set ds \<Longrightarrow> content x (os_temp s path d) = Some (b, m) \<Longrightarrow> m = Mode"
proof -
  have before: "before_rename d (os_temp s path d) path x"
    using assms(1,5) by (auto simp: given_up_def before_rename_refl)
  have ne: "os_temp s path d \<noteq> path" using assms(2) by (simp add: temp_free_def)
  show "crash_ok x y \<Longrightarrow> content y path = content d path" by (rule before_rename_crash [OF before assms(3) ne])
  show "content x path = content d path" using before_rename_content [OF before assms(4)] ne by auto
  show "p \<noteq> os_temp s path d \<Longrightarrow> content x p = content d p" by (rule before_rename_content [OF before assms(4)])
  show "x \<in> set ds \<Longrightarrow> content x (os_temp s path d) = Some (b, m) \<Longrightarrow> m = Mode"
    using assms(1) by (auto simp: given_up_def private_temp_def content_def)
qed

lemma committed_safe:
  assumes "committed s path d bs ds err" and "temp_free s path d" and "durable d path" and "\<forall>p i. d_dir d p = Some i \<longrightarrow> i < d_next d"
    and "x \<in> set (d # ds)"
  shows "crash_ok x y \<Longrightarrow> content y path = content d path \<or> content y path = Some (concat bs, Mode)"
    and "err = None \<Longrightarrow> crash_ok (last (d # ds)) z \<Longrightarrow> content z path = Some (concat bs, Mode)"
    and "p \<noteq> path \<Longrightarrow> p \<noteq> os_temp s path d \<Longrightarrow> content x p = content d p"
    and "x \<in> set ds \<Longrightarrow> content x (os_temp s path d) = Some (b, m) \<Longrightarrow> m = Mode"
proof -
  let ?tmp = "os_temp s path d"
  have ne: "?tmp \<noteq> path" using assms(2) by (simp add: temp_free_def)
  obtain pre d3 post where ds: "ds = pre @ [d3, d_rename ?tmp path d3] @ post"
    and pre: "\<forall>x \<in> set (pre @ [d3]). before_rename d ?tmp path x \<and> private_temp (d_next d) ?tmp x"
    and d3: "d_dir d3 ?tmp = Some (d_next d)" "new_file (d_next d) (concat bs) d3"
    and post: "(post, err) = syncParent s (d_rename ?tmp path d3)"
    using assms(1) unfolding committed_def by blast
  have b3: "before_rename d ?tmp path d3" using pre by simp
  note states = syncParent_states [OF post]
  have split: "before_rename d ?tmp path x \<or> x = d_rename ?tmp path d3 \<or> x = d_sync_dir (d_rename ?tmp path d3)"
    using assms(5) pre states by (auto simp: ds before_rename_refl)
  show "crash_ok x y \<Longrightarrow> content y path = content d path \<or> content y path = Some (concat bs, Mode)"
    using split before_rename_crash [OF _ assms(3) ne] renamed_crash(1) [OF b3 assms(3) ne d3] by blast
  show "err = None \<Longrightarrow> crash_ok (last (d # ds)) z \<Longrightarrow> content z path = Some (concat bs, Mode)"
    using renamed_crash(2) [OF b3 assms(3) ne d3] states by (auto simp: ds)
  show "content x p = content d p" if "p \<noteq> path" "p \<noteq> ?tmp"
    using split
  proof
    assume "before_rename d ?tmp path x"
    then show ?thesis by (rule before_rename_content [OF _ assms(4) that(2)])
  next
    assume x: "x = d_rename ?tmp path d3 \<or> x = d_sync_dir (d_rename ?tmp path d3)"
    have "content x p = content d3 p"
      by (simp only: content_def renamed_dir(2) [OF d3(1) x] renamed_dir(3) [OF d3(1) x that])
    also have "\<dots> = content d p" by (rule before_rename_content [OF b3 assms(4) that(2)])
    finally show ?thesis .
  qed
  show "x \<in> set ds \<Longrightarrow> content x ?tmp = Some (b, m) \<Longrightarrow> m = Mode"
    using split pre states renamed_dir(5) [OF d3(1), of x path]
    by (auto simp: ds private_temp_def content_def)
qed

text \<open>
  Whatever call fails and wherever the machine crashes, the destination holds its old content or the whole of the new one, never a part: a
  failed callback leaves it as it was, and when the write reports success the new content, readable by its owner only,
  has reached the disk. The temporary file is never accessible to others, and no other file changes.
\<close>

lemma file_replaced_atomically:
  assumes "WriteFunc s path cb d = (ds, err)"
    and "temp_free s path d" and "durable d path" and "\<forall>p i. d_dir d p = Some i \<longrightarrow> i < d_next d"
  shows "(\<forall>x \<in> set (d # ds). \<forall>y. crash_ok x y \<longrightarrow>
      content y path = content d path \<or> snd cb = None \<and> content y path = Some (concat (fst cb), Mode))
    \<and> (snd cb \<noteq> None \<longrightarrow> err \<noteq> None \<and> content (last (d # ds)) path = content d path)
    \<and> (err = None \<longrightarrow> (\<forall>y. crash_ok (last (d # ds)) y \<longrightarrow> content y path = Some (concat (fst cb), Mode)))
    \<and> (\<forall>x \<in> set ds. \<forall>b m. content x (os_temp s path d) = Some (b, m) \<longrightarrow> m = Mode)
    \<and> (\<forall>x \<in> set ds. \<forall>p. p \<noteq> path \<and> p \<noteq> os_temp s path d \<longrightarrow> content x p = content d p)"
  using WriteFunc_outcome [OF assms(1)]
proof
  assume up: "given_up s path d ds err"
  note safe = given_up_safe [OF up assms(2-4)]
  have last: "last (d # ds) \<in> set (d # ds)" by (rule last_in_set) simp
  have err: "err \<noteq> None" using up by (simp add: given_up_def)
  have "content y path = content d path" if "x \<in> set (d # ds)" "crash_ok x y" for x y by (rule safe(1) [OF that])
  moreover have "content (last (d # ds)) path = content d path" by (rule safe(2) [OF last])
  moreover have "content x p = content d p" if "x \<in> set ds" "p \<noteq> os_temp s path d" for x p
    by (rule safe(3)) (use that in simp_all)
  moreover have "m = Mode" if "x \<in> set ds" "content x (os_temp s path d) = Some (b, m)" for x b m
    by (rule safe(4)) (use that in simp_all)
  ultimately show ?thesis using err by blast
next
  assume "snd cb = None \<and> committed s path d (fst cb) ds err"
  then have ok: "snd cb = None" and com: "committed s path d (fst cb) ds err" by simp_all
  note safe = committed_safe [OF com assms(2-4)]
  have "content y path = content d path \<or> content y path = Some (concat (fst cb), Mode)" if "x \<in> set (d # ds)" "crash_ok x y" for x y
    by (rule safe(1) [OF that])
  moreover note ok
  moreover have "content y path = Some (concat (fst cb), Mode)" if "err = None" "crash_ok (last (d # ds)) y" for y
    by (rule safe(2) [OF _ that, of d]) simp
  moreover have "content x p = content d p" if "x \<in> set ds" "p \<noteq> path" "p \<noteq> os_temp s path d" for x p
    by (rule safe(3)) (use that in simp_all)
  moreover have "m = Mode" if "x \<in> set ds" "content x (os_temp s path d) = Some (b, m)" for x b m
    by (rule safe(4)) (use that in simp_all)
  ultimately show ?thesis using ok by (intro conjI ballI allI impI) simp_all
qed

definition demo_os :: "string option \<Rightarrow> os" where
  "demo_os e = \<lparr>os_fail = (\<lambda>c. if c = SysSync then e else None), os_can_remove = True, os_temp = (\<lambda>p _. ''.'' @ p @ ''-1'')\<rparr>"

definition demo_disk :: disk where
  "demo_disk = \<lparr>d_inodes = \<lambda>_. \<lparr>i_data = [1], i_mode = 0x1A4, i_synced = True\<rparr>, d_next = 1,
     d_dir = [''s'' \<mapsto> 0], d_synced = [''s'' \<mapsto> 0]\<rparr>"

lemma file_replaced_atomically_witness:
  "content (last (demo_disk # fst (WriteFunc (demo_os (Some ''io'')) ''s'' ([[2], [3]], None) demo_disk))) ''s'' = Some ([1], 0x1A4)
   \<and> content (last (demo_disk # fst (WriteFunc (demo_os None) ''s'' ([[2], [3]], None) demo_disk))) ''s'' = Some ([2, 3], Mode)"
proof -
  have hyp: "temp_free (demo_os e) ''s'' demo_disk" "durable demo_disk ''s''"
    "\<forall>p i. d_dir demo_disk p = Some i \<longrightarrow> i < d_next demo_disk" for e
    by (simp_all add: temp_free_def durable_def demo_os_def demo_disk_def)
  have crash: "crash_ok d d" for d by (simp add: crash_ok_def)
  let ?W = "\<lambda>e. WriteFunc (demo_os e) ''s'' ([[2], [3]], None) demo_disk"
  have "snd (?W None) = None" by (simp add: WriteFunc_def demo_os_def syncParent_def Let_def)
  moreover from file_replaced_atomically [OF surjective_pairing [of "?W None"] hyp]
  have "snd (?W None) = None \<longrightarrow> (\<forall>y. crash_ok (last (demo_disk # fst (?W None))) y
      \<longrightarrow> content y ''s'' = Some (concat (fst ([[2], [3]], None :: string option)), Mode))"
    by (elim conjE)
  ultimately have "content (last (demo_disk # fst (?W None))) ''s'' = Some (concat (fst ([[2], [3]], None :: string option)), Mode)"
    using crash by simp
  moreover have "content (last (demo_disk # fst (?W (Some ''io'')))) ''s'' = Some ([1], 0x1A4)"
    by (simp add: WriteFunc_def demo_os_def demo_disk_def content_def d_create_def d_chmod_def d_append_def d_unlink_def Let_def)
  ultimately show ?thesis by simp
qed

end
