(* ===== verification/Session.thy ===== *)
theory Session
  imports FileStore Har "HOL-Library.Monad_Syntax"
begin

text \<open>
  \<^verbatim>\<open>capture/session.go\<close>: the session file. Flows are written as JSON by their exported fields. Go writes a struct as
  an object of its fields, a byte slice in base64, a map with its keys in order, and a string with its bytes that are not UTF-8 replaced. The text of a
  JSON value, which \<^verbatim>\<open>encoding/json\<close> prints and parses, is a parameter. Time stamps are not modelled; a number
  that names no direction or status is not read.
\<close>

section \<open>JSON values\<close>

datatype jvalue = JNull | JBool bool | JInt int | JStr string | JArr "jvalue list" | JObj "(string \<times> jvalue) list"

definition repair :: "string \<Rightarrow> string" where
  "repair s = string_of_runes (runes s)"

definition text_ok :: "string \<Rightarrow> bool" where
  "text_ok s \<longleftrightarrow> repair s = s"

definition jstr :: "string \<Rightarrow> jvalue" where
  "jstr s = JStr (repair s)"

definition jmap :: "('v \<Rightarrow> jvalue) \<Rightarrow> 'v gomap \<Rightarrow> jvalue" where
  "jmap enc m = JObj (map (\<lambda>k. (repair k, enc (the (map_of m k)))) (sorted_gkeys m))"

definition jopt :: "('v \<Rightarrow> jvalue) \<Rightarrow> 'v option \<Rightarrow> jvalue" where
  "jopt enc x = (case x of None \<Rightarrow> JNull | Some v \<Rightarrow> enc v)"

section \<open>Saving\<close>

fun direction_code :: "direction \<Rightarrow> int" where
  "direction_code ClientToServer = 0" | "direction_code ServerToClient = 1"

fun status_code :: "status \<Rightarrow> int" where
  "status_code StatusActive = 0" | "status_code StatusPending = 1" | "status_code StatusComplete = 2" | "status_code StatusError = 3"

definition message_json :: "message \<Rightarrow> jvalue" where
  "message_json m = JObj
     [(''Direction'', JInt (direction_code (m_Direction m))),
      (''Summary'', jstr (m_Summary m)),
      (''Headers'', jmap (\<lambda>vs. JArr (map jstr vs)) (m_Headers m)),
      (''Body'', JStr (base64_encode (m_Body m))),
      (''Raw'', JStr (base64_encode (m_Raw m))),
      (''Meta'', jmap jstr (m_Meta m))]"

text \<open>\<^verbatim>\<open>Err\<close> is tagged \<^verbatim>\<open>json:"-"\<close>.\<close>

definition flow_json :: "flow \<Rightarrow> jvalue" where
  "flow_json f = JObj
     [(''ID'', jstr (f_ID f)), (''Protocol'', jstr (f_Protocol f)), (''ClientAddr'', jstr (f_ClientAddr f)),
      (''ServerAddr'', jstr (f_ServerAddr f)), (''SNI'', jstr (f_SNI f)), (''Secure'', JBool (f_Secure f)),
      (''Status'', JInt (status_code (f_Status f))), (''Flagged'', JBool (f_Flagged f)),
      (''Request'', jopt message_json (f_Request f)), (''Response'', jopt message_json (f_Response f)),
      (''Messages'', JArr (map message_json (f_Messages f)))]"

record json_text =
  jt_print :: "jvalue \<Rightarrow> bytes"
  jt_parse :: "bytes \<Rightarrow> string + jvalue"

text \<open>\<^verbatim>\<open>Encode\<close> writes the text in one call.\<close>

definition Save :: "json_text \<Rightarrow> (bytes \<Rightarrow> nat \<times> string option) \<Rightarrow> flow list \<Rightarrow> bytes list \<times> string option" where
  "Save J w fs = (let b = jt_print J (JArr (map flow_json fs)); (n, err) = w b in ([take n b], err))"

definition SaveFile :: "os \<Rightarrow> json_text \<Rightarrow> (bytes \<Rightarrow> nat \<times> string option) \<Rightarrow> string \<Rightarrow> flow list \<Rightarrow> disk \<Rightarrow> disk list \<times> string option" where
  "SaveFile s J w path fs d = WriteFunc s path (Save J w fs) d"

section \<open>Loading\<close>

definition dec_field :: "string \<Rightarrow> (jvalue \<Rightarrow> 'a option) \<Rightarrow> 'a \<Rightarrow> (string \<times> jvalue) list \<Rightarrow> 'a option" where
  "dec_field k dec zero obj = (case map_of (rev obj) k of None \<Rightarrow> Some zero | Some JNull \<Rightarrow> Some zero | Some v \<Rightarrow> dec v)"

fun dec_all :: "('b \<Rightarrow> 'a option) \<Rightarrow> 'b list \<Rightarrow> 'a list option" where
  "dec_all dec [] = Some []"
| "dec_all dec (x # xs) = (case dec x of None \<Rightarrow> None | Some y \<Rightarrow> map_option ((#) y) (dec_all dec xs))"

definition dec_str :: "jvalue \<Rightarrow> string option" where
  "dec_str v = (case v of JStr s \<Rightarrow> Some s | JNull \<Rightarrow> Some [] | _ \<Rightarrow> None)"

definition dec_bytes :: "jvalue \<Rightarrow> bytes option" where
  "dec_bytes v = (case v of JStr s \<Rightarrow> Some (base64_decode s) | _ \<Rightarrow> None)"

definition dec_bool :: "jvalue \<Rightarrow> bool option" where
  "dec_bool v = (case v of JBool b \<Rightarrow> Some b | _ \<Rightarrow> None)"

definition dec_direction :: "jvalue \<Rightarrow> direction option" where
  "dec_direction v = (case v of JInt i \<Rightarrow> if i = 0 then Some ClientToServer else if i = 1 then Some ServerToClient else None | _ \<Rightarrow> None)"

definition dec_status :: "jvalue \<Rightarrow> status option" where
  "dec_status v = (case v of JInt i \<Rightarrow> if i = 0 then Some StatusActive else if i = 1 then Some StatusPending
     else if i = 2 then Some StatusComplete else if i = 3 then Some StatusError else None | _ \<Rightarrow> None)"

definition dec_list :: "(jvalue \<Rightarrow> 'a option) \<Rightarrow> jvalue \<Rightarrow> 'a list option" where
  "dec_list dec v = (case v of JArr vs \<Rightarrow> dec_all dec vs | JNull \<Rightarrow> Some [] | _ \<Rightarrow> None)"

definition dec_map :: "(jvalue \<Rightarrow> 'v option) \<Rightarrow> jvalue \<Rightarrow> 'v gomap option" where
  "dec_map dec v = (case v of
     JObj obj \<Rightarrow> map_option (\<lambda>vs. fold (\<lambda>kv m. gput m (fst kv) (snd kv)) (zip (map fst obj) vs) []) (dec_all dec (map snd obj))
   | JNull \<Rightarrow> Some [] | _ \<Rightarrow> None)"

definition dec_message :: "jvalue \<Rightarrow> message option" where
  "dec_message v = (case v of
     JObj obj \<Rightarrow> do {
       d \<leftarrow> dec_field ''Direction'' dec_direction ClientToServer obj;
       s \<leftarrow> dec_field ''Summary'' dec_str [] obj;
       h \<leftarrow> dec_field ''Headers'' (dec_map (dec_list dec_str)) [] obj;
       b \<leftarrow> dec_field ''Body'' dec_bytes [] obj;
       r \<leftarrow> dec_field ''Raw'' dec_bytes [] obj;
       t \<leftarrow> dec_field ''Meta'' (dec_map dec_str) [] obj;
       Some \<lparr>m_Direction = d, m_Summary = s, m_Headers = h, m_Body = b, m_Raw = r, m_Meta = t\<rparr> }
   | _ \<Rightarrow> None)"

text \<open>A null is a nil pointer. A message of a stream that is null would be a nil pointer too; it is not read here.\<close>

definition dec_flow :: "jvalue \<Rightarrow> flow option option" where
  "dec_flow v = (case v of
     JNull \<Rightarrow> Some None
   | JObj obj \<Rightarrow> do {
       i \<leftarrow> dec_field ''ID'' dec_str [] obj;
       p \<leftarrow> dec_field ''Protocol'' dec_str [] obj;
       c \<leftarrow> dec_field ''ClientAddr'' dec_str [] obj;
       a \<leftarrow> dec_field ''ServerAddr'' dec_str [] obj;
       n \<leftarrow> dec_field ''SNI'' dec_str [] obj;
       e \<leftarrow> dec_field ''Secure'' dec_bool False obj;
       s \<leftarrow> dec_field ''Status'' dec_status StatusActive obj;
       g \<leftarrow> dec_field ''Flagged'' dec_bool False obj;
       q \<leftarrow> dec_field ''Request'' (map_option Some \<circ> dec_message) None obj;
       r \<leftarrow> dec_field ''Response'' (map_option Some \<circ> dec_message) None obj;
       m \<leftarrow> dec_field ''Messages'' (dec_list dec_message) [] obj;
       Some (Some \<lparr>f_ID = i, f_Protocol = p, f_ClientAddr = c, f_ServerAddr = a, f_SNI = n, f_Secure = e, f_Status = s,
         f_Flagged = g, f_Err = None, f_Request = q, f_Response = r, f_Messages = m\<rparr>) }
   | _ \<Rightarrow> None)"

definition LoadSession :: "json_text \<Rightarrow> bytes \<Rightarrow> string + flow option list" where
  "LoadSession J b = (case jt_parse J b of
     Inl e \<Rightarrow> Inl e
   | Inr v \<Rightarrow> (case dec_list dec_flow v of None \<Rightarrow> Inl ''json: cannot unmarshal'' | Some fs \<Rightarrow> Inr fs))"

definition LoadFile :: "json_text \<Rightarrow> string \<Rightarrow> disk \<Rightarrow> string + flow option list" where
  "LoadFile J path d = (case content d path of
     None \<Rightarrow> Inl (''open '' @ path @ '': no such file or directory'')
   | Some (b, mode) \<Rightarrow> LoadSession J b)"

section \<open>Properties\<close>

definition sort_map :: "'v gomap \<Rightarrow> 'v gomap" where
  "sort_map m = map (\<lambda>k. (k, the (map_of m k))) (sorted_gkeys m)"

lemma map_of_sort_map: "map_of (sort_map m) = map_of m"
proof
  fix k
  have "map_of (map (\<lambda>k. (k, the (map_of m k))) ks) k = (if k \<in> set ks then Some (the (map_of m k)) else None)" for ks
    by (induction ks) auto
  moreover have "k \<in> set (sorted_gkeys m) \<longleftrightarrow> map_of m k \<noteq> None"
    using ghas_keys [of m k] by (simp add: ghas_def)
  ultimately show "map_of (sort_map m) k = map_of m k" unfolding sort_map_def by auto
qed

definition map_ok :: "('v \<Rightarrow> bool) \<Rightarrow> 'v gomap \<Rightarrow> bool" where
  "map_ok P m \<longleftrightarrow> gmap_ok m \<and> (\<forall>k v. map_of m k = Some v \<longrightarrow> text_ok k \<and> P v)"

definition message_ok :: "message \<Rightarrow> bool" where
  "message_ok m \<longleftrightarrow> text_ok (m_Summary m) \<and> map_ok (list_all text_ok) (m_Headers m) \<and> map_ok text_ok (m_Meta m)"

definition session_ok :: "flow \<Rightarrow> bool" where
  "session_ok f \<longleftrightarrow> list_all text_ok [f_ID f, f_Protocol f, f_ClientAddr f, f_ServerAddr f, f_SNI f]
     \<and> pred_option message_ok (f_Request f) \<and> pred_option message_ok (f_Response f) \<and> list_all message_ok (f_Messages f)"

text \<open>What is kept of a flow: all but its error, the maps in the order of their keys.\<close>

definition saved_message :: "message \<Rightarrow> message" where
  "saved_message m = m\<lparr>m_Headers := sort_map (m_Headers m), m_Meta := sort_map (m_Meta m)\<rparr>"

definition saved_flow :: "flow \<Rightarrow> flow" where
  "saved_flow f = f\<lparr>f_Err := None, f_Request := map_option saved_message (f_Request f),
     f_Response := map_option saved_message (f_Response f), f_Messages := map saved_message (f_Messages f)\<rparr>"

lemma dec_all_map: "\<forall>x \<in> set xs. dec (enc x) = Some (g x) \<Longrightarrow> dec_all dec (map enc xs) = Some (map g xs)"
  by (induction xs) simp_all

lemma gput_append: "k \<notin> set (gkeys m) \<Longrightarrow> gput m k v = m @ [(k, v)]"
  by (induction m k v rule: gput.induct) (auto simp: gkeys_def)

lemma fold_gput_distinct:
  "distinct (gkeys m @ map fst kvs) \<Longrightarrow> fold (\<lambda>kv m. gput m (fst kv) (snd kv)) kvs m = m @ kvs"
proof (induction kvs arbitrary: m)
  case (Cons kv kvs)
  then have "gput m (fst kv) (snd kv) = m @ [kv]" by (simp add: gput_append)
  with Cons show ?case by (simp add: gkeys_def)
qed simp

lemma dec_map_jmap:
  assumes "map_ok P m" and "\<And>v. P v \<Longrightarrow> dec (enc v) = Some v"
  shows "dec_map dec (jmap enc m) = Some (sort_map m)"
proof -
  have val: "text_ok k \<and> dec (enc (the (map_of m k))) = Some (the (map_of m k))" if "k \<in> set (sorted_gkeys m)" for k
  proof -
    have "map_of m k \<noteq> None" using that by (simp add: gkeys_def map_of_eq_None_iff)
    then obtain v where "map_of m k = Some v" by blast
    with assms show ?thesis by (auto simp: map_ok_def)
  qed
  have keys: "map repair (sorted_gkeys m) = sorted_gkeys m" using val by (intro map_idI) (simp add: text_ok_def)
  have "dec_all dec (map (\<lambda>k. enc (the (map_of m k))) (sorted_gkeys m)) = Some (map (\<lambda>k. the (map_of m k)) (sorted_gkeys m))"
    using val by (intro dec_all_map) simp
  moreover have "zip (sorted_gkeys m) (map (\<lambda>k. the (map_of m k)) (sorted_gkeys m)) = sort_map m"
    by (simp add: sort_map_def zip_map2 zip_same_conv_map)
  moreover have "distinct (map fst (sort_map m))"
    using assms(1) by (simp add: map_ok_def gmap_ok_def sort_map_def comp_def sorted_gkeys_def)
  ultimately show ?thesis
    using fold_gput_distinct [of "[]" "sort_map m"] keys by (simp add: dec_map_def jmap_def comp_def gkeys_def)
qed

lemma dec_str_jstr: "text_ok s \<Longrightarrow> dec_str (jstr s) = Some s"
  by (simp add: dec_str_def jstr_def text_ok_def)

lemma dec_list_jstr: "list_all text_ok vs \<Longrightarrow> dec_list dec_str (JArr (map jstr vs)) = Some vs"
  using dec_all_map [of vs dec_str jstr "\<lambda>s. s"] by (simp add: dec_list_def list_all_iff dec_str_jstr)

lemma dec_codes: "dec_direction (JInt (direction_code d)) = Some d" "dec_status (JInt (status_code s)) = Some s"
  by (cases d; simp add: dec_direction_def) (cases s; simp add: dec_status_def)

lemma not_null: "jstr s \<noteq> JNull" "jmap enc m \<noteq> JNull" "message_json x \<noteq> JNull"
  by (simp_all add: jstr_def jmap_def message_json_def)

lemma dec_field_hit: "map_of (rev obj) k = Some v \<Longrightarrow> v \<noteq> JNull \<Longrightarrow> dec_field k dec z obj = dec v"
  by (simp add: dec_field_def split: jvalue.split)

lemma dec_message_json: "message_ok m \<Longrightarrow> dec_message (message_json m) = Some (saved_message m)"
  by (simp add: message_json_def dec_message_def dec_field_hit not_null dec_codes dec_str_jstr message_ok_def dec_bytes_def base64_decode_encode
      dec_map_jmap [where P = "list_all text_ok"] dec_map_jmap [where P = text_ok] dec_list_jstr saved_message_def)

lemma dec_opt: "pred_option message_ok x \<Longrightarrow> map_of (rev obj) k = Some (jopt message_json x)
    \<Longrightarrow> dec_field k (map_option Some \<circ> dec_message) None obj = Some (map_option saved_message x)"
  by (cases x) (simp_all add: jopt_def dec_field_def dec_message_json, simp add: dec_field_def message_json_def dec_message_json [unfolded message_json_def])

lemma dec_flow_json:
  assumes "session_ok f"
  shows "dec_flow (flow_json f) = Some (Some (saved_flow f))"
proof -
  obtain obj where obj: "flow_json f = JObj obj" by (simp add: flow_json_def)
  have "dec_field ''Request'' (map_option Some \<circ> dec_message) None obj = Some (map_option saved_message (f_Request f))"
    "dec_field ''Response'' (map_option Some \<circ> dec_message) None obj = Some (map_option saved_message (f_Response f))"
    using assms obj by (auto simp: session_ok_def flow_json_def intro!: dec_opt)
  with assms obj show ?thesis
    by (auto simp: flow_json_def dec_flow_def dec_field_hit not_null dec_codes dec_str_jstr session_ok_def dec_bool_def
        dec_list_def dec_all_map [where g = saved_message] dec_message_json list_all_iff saved_flow_def)
qed

lemma load_saved:
  assumes "jt_parse J (jt_print J (JArr (map flow_json fs))) = Inr (JArr (map flow_json fs))" and "list_all session_ok fs"
  shows "LoadSession J (jt_print J (JArr (map flow_json fs))) = Inr (map (Some \<circ> saved_flow) fs)"
  using assms dec_all_map [of fs dec_flow flow_json "Some \<circ> saved_flow"]
  by (simp add: LoadSession_def dec_list_def dec_flow_json list_all_iff)

lemma load_content: "content y path = content d path \<Longrightarrow> LoadFile J path y = LoadFile J path d"
  by (simp add: LoadFile_def)


lemma text_ok_ascii: "\<forall>c \<in> set s. (of_char c :: nat) < 128 \<Longrightarrow> text_ok s"
proof (induction s)
  case (Cons c s)
  then show ?case
    by (simp add: text_ok_def repair_def runes_ascii string_of_runes_def string_of_rune_def uncodes_def encode_rune.simps)
qed (simp add: text_ok_def repair_def string_of_runes_def)

definition demo_saved :: flow where
  "demo_saved = (NewFlow (replicate 6 0) ''c'' ''h:80'')\<lparr>f_Err := Some ''reset'', f_Flagged := True\<rparr>"

definition demo_text :: json_text where
  "demo_text = \<lparr>jt_print = (\<lambda>v. if v = JArr [flow_json demo_saved] then [1] else []), jt_parse = (\<lambda>b. Inr (JArr [flow_json demo_saved]))\<rparr>"


text \<open>
  Bytes that are not UTF-8 are kept in bodies only: a header value that holds one is not read back as it was captured.
\<close>

lemma session_header_repaired: "dec_str (jstr [CHR 0xE9]) = Some [CHR 0xEF, CHR 0xBF, CHR 0xBD]"
  by (simp add: dec_str_def jstr_def repair_def runes_def codes_def decode_rune.simps dec3_def rune_error_def
      string_of_runes_def string_of_rune_def uncodes_def encode_rune.simps valid_rune_def char_of_def bit_0)

end
