(* ===== verification/CertAuthority.thy ===== *)
theory CertAuthority
  imports FileStore
begin

text \<open>
  \<^verbatim>\<open>internal/proxy/ca/ca.go\<close>: the local certificate authority. Keys, serial numbers, X.509 and PEM are the standard library, taken as
  parameters; the outcome of drawing a key or a serial number is an argument. The files are those of \<open>FileStore\<close>; times are not modelled.
\<close>

section \<open>Certificates\<close>

datatype key_usage = UsageCertSign | UsageCRLSign | UsageDigitalSignature | ExtUsageServerAuth

record cert_template =
  ct_SerialNumber :: nat
  ct_CommonName :: string
  ct_Organization :: "string list"
  ct_Usage :: "key_usage list"
  ct_IsCA :: bool
  ct_MaxPathLenZero :: bool
  ct_IPAddresses :: "bytes list"
  ct_DNSNames :: "string list"

text \<open>
  \<open>xl_Create\<close> signs a template for the public key of the first key, with the certificate of the parent, which is the template itself
  when there is none, and the second key.
\<close>

record ('cert, 'key) x509_lib =
  xl_Create :: "cert_template \<Rightarrow> 'cert option \<Rightarrow> 'key \<Rightarrow> 'key \<Rightarrow> string + bytes"
  xl_ParseCertificate :: "bytes \<Rightarrow> string + 'cert"
  xl_Raw :: "'cert \<Rightarrow> bytes"
  xl_MarshalKey :: "'key \<Rightarrow> string + bytes"
  xl_ParseKey :: "bytes \<Rightarrow> string + 'key"
  xl_PemEncode :: "string \<Rightarrow> bytes \<Rightarrow> bytes"
  xl_PemDecode :: "bytes \<Rightarrow> bytes option"
  xl_ParseIP :: "string \<Rightarrow> bytes option"

record 'key leaf =
  lf_Certificate :: "bytes list"
  lf_PrivateKey :: 'key

record ('cert, 'key) authority =
  ca_cert :: 'cert
  ca_key :: 'key
  ca_certPEM :: bytes
  ca_leafs :: "'key leaf gomap"

definition root_template :: cert_template where
  "root_template = \<lparr>ct_SerialNumber = 1, ct_CommonName = ''cli-capture Root CA'', ct_Organization = [''cli-capture''],
     ct_Usage = [UsageCertSign, UsageCRLSign], ct_IsCA = True, ct_MaxPathLenZero = True, ct_IPAddresses = [], ct_DNSNames = []\<rparr>"

definition leaf_template :: "('cert, 'key) x509_lib \<Rightarrow> nat \<Rightarrow> string \<Rightarrow> cert_template" where
  "leaf_template X serial host =
     (let t = \<lparr>ct_SerialNumber = serial, ct_CommonName = host, ct_Organization = [],
        ct_Usage = [UsageDigitalSignature, ExtUsageServerAuth], ct_IsCA = False, ct_MaxPathLenZero = False, ct_IPAddresses = [], ct_DNSNames = []\<rparr>
      in case xl_ParseIP X host of
           Some ip \<Rightarrow> t\<lparr>ct_IPAddresses := [ip]\<rparr>
         | None \<Rightarrow> t\<lparr>ct_DNSNames := [host]\<rparr>)"

definition LeafFor ::
    "('cert, 'key) x509_lib \<Rightarrow> string + 'key \<Rightarrow> string + nat \<Rightarrow> string \<Rightarrow> ('cert, 'key) authority
      \<Rightarrow> (string + 'key leaf) \<times> ('cert, 'key) authority" where
  "LeafFor X draw_key draw_serial host c =
     (case map_of (ca_leafs c) host of
        Some leaf \<Rightarrow> (Inr leaf, c)
      | None \<Rightarrow> (case draw_key of Inl e \<Rightarrow> (Inl e, c)
        | Inr key \<Rightarrow> (case draw_serial of Inl e \<Rightarrow> (Inl e, c)
          | Inr serial \<Rightarrow> (case xl_Create X (leaf_template X serial host) (Some (ca_cert c)) key (ca_key c) of
              Inl e \<Rightarrow> (Inl e, c)
            | Inr der \<Rightarrow>
                (let leaf = \<lparr>lf_Certificate = [der, xl_Raw X (ca_cert c)], lf_PrivateKey = key\<rparr>
                 in (Inr leaf, c\<lparr>ca_leafs := gput (ca_leafs c) host leaf\<rparr>))))))"

section \<open>The files of the authority\<close>

text \<open>
  \<^verbatim>\<open>os.WriteFile\<close>: the file is created with the mode, or truncated with the mode it has. The argument says whether it can be opened and
  how much of the data is taken.
\<close>

definition WriteFile :: "string option \<Rightarrow> (nat \<times> string option) \<Rightarrow> string \<Rightarrow> bytes \<Rightarrow> nat \<Rightarrow> disk \<Rightarrow> disk list \<times> string option" where
  "WriteFile open_err wr path data mode d =
     (case open_err of Some e \<Rightarrow> ([], Some e)
      | None \<Rightarrow>
          (let (i, d1) = (case d_dir d path of
                 Some i \<Rightarrow> (i, d\<lparr>d_inodes := (d_inodes d)(i := (d_inodes d i)\<lparr>i_data := [], i_synced := False\<rparr>)\<rparr>)
               | None \<Rightarrow> (d_next d, d_chmod (d_next d) mode (d_create path d)))
           in ([d1, d_append i (take (fst wr) data) d1], snd wr)))"

definition load ::
    "('cert, 'key) x509_lib \<Rightarrow> (string \<Rightarrow> string option) \<Rightarrow> string \<Rightarrow> string \<Rightarrow> disk \<Rightarrow> string + 'cert \<times> 'key \<times> bytes" where
  "load X read_err certPath keyPath d =
     (let read = (\<lambda>p. case read_err p of Some e \<Rightarrow> Inl e
            | None \<Rightarrow> (case content d p of None \<Rightarrow> Inl ''no such file or directory'' | Some (b, m) \<Rightarrow> Inr b))
      in case read certPath of Inl e \<Rightarrow> Inl e
         | Inr certPEM \<Rightarrow> (case read keyPath of Inl e \<Rightarrow> Inl e
           | Inr keyPEM \<Rightarrow> (case (xl_PemDecode X certPEM, xl_PemDecode X keyPEM) of
               (Some cb, Some kb) \<Rightarrow> (case xl_ParseCertificate X cb of Inl e \<Rightarrow> Inl e
                 | Inr cert \<Rightarrow> (case xl_ParseKey X kb of Inl e \<Rightarrow> Inl e | Inr key \<Rightarrow> Inr (cert, key, certPEM)))
             | _ \<Rightarrow> Inl ''ca: malformed pem'')))"

text \<open>How the calls that may fail turn out.\<close>

record 'key ca_outcomes =
  co_mkdir :: "string option"
  co_chmod :: "string option"
  co_read :: "string \<Rightarrow> string option"
  co_key :: "string + 'key"
  co_open :: "string \<Rightarrow> string option"
  co_write :: "string \<Rightarrow> bytes \<Rightarrow> nat \<times> string option"

definition create ::
    "('cert, 'key) x509_lib \<Rightarrow> 'key ca_outcomes \<Rightarrow> string \<Rightarrow> string \<Rightarrow> disk \<Rightarrow> disk list \<times> (string + ('cert, 'key) authority)" where
  "create X C certPath keyPath d =
     (case co_key C of Inl e \<Rightarrow> ([], Inl e)
      | Inr key \<Rightarrow> (case xl_Create X root_template None key key of Inl e \<Rightarrow> ([], Inl e)
        | Inr der \<Rightarrow> (case xl_ParseCertificate X der of Inl e \<Rightarrow> ([], Inl e)
          | Inr cert \<Rightarrow> (case xl_MarshalKey X key of Inl e \<Rightarrow> ([], Inl e)
            | Inr keyDER \<Rightarrow>
                (let certPEM = xl_PemEncode X ''CERTIFICATE'' der; keyPEM = xl_PemEncode X ''EC PRIVATE KEY'' keyDER;
                     (ds1, err1) = WriteFile (co_open C certPath) (co_write C certPath certPEM) certPath certPEM 0x1A4 d
                 in case err1 of Some e \<Rightarrow> (ds1, Inl e)
                    | None \<Rightarrow>
                        (let (ds2, err2) = WriteFile (co_open C keyPath) (co_write C keyPath keyPEM) keyPath keyPEM 0x180 (last (d # ds1))
                         in case err2 of Some e \<Rightarrow> (ds1 @ ds2, Inl e)
                            | None \<Rightarrow> (ds1 @ ds2,
                                Inr \<lparr>ca_cert = cert, ca_key = key, ca_certPEM = certPEM, ca_leafs = []\<rparr>)))))))"

definition LoadOrCreate ::
    "('cert, 'key) x509_lib \<Rightarrow> 'key ca_outcomes \<Rightarrow> string \<Rightarrow> string \<Rightarrow> disk \<Rightarrow> disk list \<times> (string + ('cert, 'key) authority)" where
  "LoadOrCreate X C certPath keyPath d =
     (case co_mkdir C of Some e \<Rightarrow> ([], Inl e)
      | None \<Rightarrow> (case co_chmod C of Some e \<Rightarrow> ([], Inl e)
        | None \<Rightarrow> (case load X (co_read C) certPath keyPath d of
            Inr (cert, key, pem) \<Rightarrow> ([], Inr \<lparr>ca_cert = cert, ca_key = key, ca_certPEM = pem, ca_leafs = []\<rparr>)
          | Inl _ \<Rightarrow> create X C certPath keyPath d)))"

section \<open>Properties\<close>

subsection \<open>Leaf certificates\<close>

text \<open>What a leaf for a host has to be: made for exactly this host, for servers, by this authority, with a key of its own.\<close>

definition leaf_for :: "('cert, 'key) x509_lib \<Rightarrow> ('cert, 'key) authority \<Rightarrow> string \<Rightarrow> 'key leaf \<Rightarrow> bool" where
  "leaf_for X c host leaf \<longleftrightarrow> (\<exists>serial der. lf_Certificate leaf = [der, xl_Raw X (ca_cert c)]
     \<and> xl_Create X (leaf_template X serial host) (Some (ca_cert c)) (lf_PrivateKey leaf) (ca_key c) = Inr der)"

fun leaf_calls ::
    "('cert, 'key) x509_lib \<Rightarrow> ((string + 'key) \<times> (string + nat) \<times> string) list \<Rightarrow> ('cert, 'key) authority
      \<Rightarrow> (string \<times> (string + 'key leaf)) list \<times> ('cert, 'key) authority" where
  "leaf_calls X [] c = ([], c)"
| "leaf_calls X ((k, s, host) # rest) c =
     (let (r, c1) = LeafFor X k s host c; (rs, c2) = leaf_calls X rest c1 in ((host, r) # rs, c2))"

lemma LeafFor_cases:
  obtains leaf where "map_of (ca_leafs c) host = Some leaf" "LeafFor X k s host c = (Inr leaf, c)"
  | e where "map_of (ca_leafs c) host = None" "LeafFor X k s host c = (Inl e, c)"
  | leaf where "map_of (ca_leafs c) host = None" "leaf_for X c host leaf"
      "LeafFor X k s host c = (Inr leaf, c\<lparr>ca_leafs := gput (ca_leafs c) host leaf\<rparr>)"
proof (cases "map_of (ca_leafs c) host")
  case None
  show ?thesis
  proof (cases "snd (LeafFor X k s host c) = c")
    case True
    then show ?thesis
      using None that(2,3) by (auto simp: LeafFor_def leaf_for_def Let_def split: sum.splits)
  next
    case False
    then show ?thesis
      using None that(3) by (auto simp: LeafFor_def leaf_for_def Let_def split: sum.splits)
  qed
qed (use that(1) in \<open>simp add: LeafFor_def\<close>)

lemma LeafFor_keeps:
  assumes "LeafFor X k s host c = (r, c1)"
  shows "ca_cert c1 = ca_cert c" "ca_key c1 = ca_key c"
    and "map_of (ca_leafs c) h = Some leaf \<Longrightarrow> map_of (ca_leafs c1) h = Some leaf"
    and "r = Inr leaf' \<Longrightarrow> map_of (ca_leafs c1) host = Some leaf'"
    and "\<forall>h l. map_of (ca_leafs c) h = Some l \<longrightarrow> leaf_for X c h l \<Longrightarrow> \<forall>h l. map_of (ca_leafs c1) h = Some l \<longrightarrow> leaf_for X c1 h l"
    and "r = Inl e \<Longrightarrow> c1 = c"
  by (rule LeafFor_cases [of c host X k s]; use assms in \<open>auto simp: leaf_for_def\<close>)+

lemma leaf_calls_sound:
  assumes "leaf_calls X xs c = (rs, c')" and "\<forall>h l. map_of (ca_leafs c) h = Some l \<longrightarrow> leaf_for X c h l"
  shows "(\<forall>host leaf. (host, Inr leaf) \<in> set rs \<longrightarrow> leaf_for X c host leaf \<and> map_of (ca_leafs c') host = Some leaf)
    \<and> (\<forall>h l. map_of (ca_leafs c) h = Some l \<longrightarrow> map_of (ca_leafs c') h = Some l)"
  using assms
proof (induction xs arbitrary: c rs)
  case (Cons x xs)
  obtain k s host where x: "x = (k, s, host)" by (cases x)
  obtain r c1 where r: "LeafFor X k s host c = (r, c1)" by fastforce
  obtain rs1 where rest: "leaf_calls X xs c1 = (rs1, c')" "rs = (host, r) # rs1"
    using Cons.prems(1) r by (auto simp: x split: prod.splits)
  note keep = LeafFor_keeps [OF r]
  have inv: "\<forall>h l. map_of (ca_leafs c1) h = Some l \<longrightarrow> leaf_for X c1 h l" by (rule keep(5) [OF Cons.prems(2)])
  have same: "leaf_for X c1 h l = leaf_for X c h l" for h l by (simp add: leaf_for_def keep(1,2))
  note IH = Cons.IH [OF rest(1) inv]
  have "leaf_for X c host leaf \<and> map_of (ca_leafs c') host = Some leaf" if "r = Inr leaf" for leaf
    using keep(4) [OF that] inv IH by (simp add: same)
  with IH keep(3) show ?case by (auto simp: rest(2) same)
qed simp


definition demo_x509 :: "(bytes, nat) x509_lib" where
  "demo_x509 = \<lparr>xl_Create = (\<lambda>t p k s. if s = 7 then Inr (bytes_of (concat (ct_DNSNames t))) else Inl ''sign''),
     xl_ParseCertificate = Inr, xl_Raw = id, xl_MarshalKey = (\<lambda>k. Inr [word_of_nat k]),
     xl_ParseKey = (\<lambda>b. if length b = 1 then Inr (unat (hd b)) else Inl ''x509''), xl_PemEncode = (\<lambda>_ b. b),
     xl_PemDecode = Some, xl_ParseIP = (\<lambda>_. None)\<rparr>"


subsection \<open>The authority across starts\<close>

definition files_ok :: "disk \<Rightarrow> bool" where
  "files_ok d \<longleftrightarrow> (\<forall>q i. d_dir d q = Some i \<longrightarrow> i < d_next d \<and> (\<forall>q'. d_dir d q' = Some i \<longrightarrow> q' = q))"

lemma content_WriteFile:
  assumes "files_ok d"
  shows "content (last (d # fst (WriteFile None (length data, None) path data mode d))) path
      = Some (data, case content d path of None \<Rightarrow> mode | Some (b, m) \<Rightarrow> m)"
    and "p \<noteq> path \<Longrightarrow> content (last (d # fst (WriteFile None (length data, None) path data mode d))) p = content d p"
    and "files_ok (last (d # fst (WriteFile None (length data, None) path data mode d)))"
    and "snd (WriteFile None (length data, None) path data mode d) = None"
proof -
  let ?W = "last (d # fst (WriteFile None (length data, None) path data mode d))"
  have keep: "q = p \<and> i < d_next d" if "d_dir d p = Some i" "d_dir d q = Some i" for p q i
    using assms that unfolding files_ok_def by blast
  show "content ?W path = Some (data, case content d path of None \<Rightarrow> mode | Some (b, m) \<Rightarrow> m)"
    by (cases "d_dir d path") (simp_all add: WriteFile_def content_def d_append_def d_create_def d_chmod_def Let_def)
  show "content ?W p = content d p" if "p \<noteq> path"
  proof (cases "d_dir d p")
    case (Some j)
    have "j \<noteq> d_next d" using keep [OF Some Some] by simp
    moreover have "d_dir d path \<noteq> Some j" using keep [OF Some] that by blast
    ultimately show ?thesis
      using that Some by (cases "d_dir d path") (auto simp: WriteFile_def content_def d_append_def d_create_def d_chmod_def Let_def)
  qed (use that in \<open>cases "d_dir d path"; simp add: WriteFile_def content_def d_append_def d_create_def d_chmod_def Let_def\<close>)
  show "files_ok ?W"
  proof (cases "d_dir d path")
    case None
    have "d_dir d q \<noteq> Some (d_next d)" for q using keep [of q "d_next d"] by blast
    with None show ?thesis using assms
      by (auto simp: files_ok_def WriteFile_def d_append_def d_create_def d_chmod_def Let_def less_SucI)
  next
    case (Some i)
    with assms show ?thesis by (auto simp: files_ok_def WriteFile_def d_append_def Let_def)
  qed
  show "snd (WriteFile None (length data, None) path data mode d) = None" by (simp add: WriteFile_def Let_def split: option.split prod.split)
qed

definition calls_succeed :: "'key ca_outcomes \<Rightarrow> bool" where
  "calls_succeed C \<longleftrightarrow> co_mkdir C = None \<and> co_chmod C = None \<and> (\<forall>p. co_read C p = None) \<and> (\<forall>p. co_open C p = None)
     \<and> (\<forall>p b. co_write C p b = (length b, None))"

definition x509_laws :: "('cert, 'key) x509_lib \<Rightarrow> bool" where
  "x509_laws X \<longleftrightarrow> (\<forall>t b. xl_PemDecode X (xl_PemEncode X t b) = Some b) \<and> (\<forall>k b. xl_MarshalKey X k = Inr b \<longrightarrow> xl_ParseKey X b = Inr k)"

lemma load_contents:
  assumes "\<forall>p. read_err p = None" and "content d certPath = Some (certPEM, m1)" and "content d keyPath = Some (keyPEM, m2)"
    and "xl_PemDecode X certPEM = Some cb" and "xl_PemDecode X keyPEM = Some kb"
  shows "load X read_err certPath keyPath d = (case xl_ParseCertificate X cb of Inl e \<Rightarrow> Inl e
    | Inr cert \<Rightarrow> (case xl_ParseKey X kb of Inl e \<Rightarrow> Inl e | Inr key \<Rightarrow> Inr (cert, key, certPEM)))"
  using assms by (simp add: load_def)

text \<open>
  An authority that was created is found again: the next start loads the certificate and the key just written, when PEM and X.509 read back what
  they wrote.
\<close>

lemma created_authority_found_again:
  assumes "x509_laws X" and "calls_succeed C" and "files_ok d" and "certPath \<noteq> keyPath"
    and "create X C certPath keyPath d = (ds, Inr c)"
  shows "snd (LoadOrCreate X C certPath keyPath (last (d # ds))) = Inr c"
proof -
  from assms(5) obtain key der cert keyDER where k: "co_key C = Inr key" "xl_Create X root_template None key key = Inr der"
    "xl_ParseCertificate X der = Inr cert" "xl_MarshalKey X key = Inr keyDER"
    by (auto simp: create_def split: sum.splits)
  define certPEM where "certPEM = xl_PemEncode X ''CERTIFICATE'' der"
  define keyPEM where "keyPEM = xl_PemEncode X ''EC PRIVATE KEY'' keyDER"
  obtain ds1 err1 where r1: "WriteFile None (length certPEM, None) certPath certPEM 0x1A4 d = (ds1, err1)" by fastforce
  note w1 = content_WriteFile [OF assms(3), where data = certPEM and path = certPath and mode = "0x1A4", unfolded r1 fst_conv snd_conv]
  obtain ds2 err2 where r2: "WriteFile None (length keyPEM, None) keyPath keyPEM 0x180 (last (d # ds1)) = (ds2, err2)" by fastforce
  note w2 = content_WriteFile [OF w1(3), where data = keyPEM and path = keyPath and mode = "0x180", unfolded r2 fst_conv snd_conv]
  have "create X C certPath keyPath d = (ds1 @ ds2, Inr \<lparr>ca_cert = cert, ca_key = key, ca_certPEM = certPEM, ca_leafs = []\<rparr>)"
    using assms(2) unfolding create_def calls_succeed_def
    by (simp add: k certPEM_def [symmetric] keyPEM_def [symmetric] r1 w1(4) r2 w2(4) Let_def del: last.simps)
  then have made: "ds = ds1 @ ds2" "c = \<lparr>ca_cert = cert, ca_key = key, ca_certPEM = certPEM, ca_leafs = []\<rparr>"
    using assms(5) by simp_all
  have last: "last (d # ds) = last (last (d # ds1) # ds2)" unfolding made(1) by (cases ds2) simp_all
  obtain m1 m2 where "content (last (d # ds)) certPath = Some (certPEM, m1)" "content (last (d # ds)) keyPath = Some (keyPEM, m2)"
    unfolding last using w1(1) w2(1) w2(2) [OF assms(4)] by simp
  then have "load X (co_read C) certPath keyPath (last (d # ds)) = Inr (cert, key, certPEM)"
    using assms(1,2) k load_contents [of "co_read C" "last (d # ds)" certPath certPEM m1 keyPath keyPEM m2 X der keyDER]
    by (simp add: x509_laws_def certPEM_def keyPEM_def calls_succeed_def)
  then show ?thesis using assms(2) made(2) by (simp add: LoadOrCreate_def calls_succeed_def)
qed

text \<open>
  The certificate is written before the key, in place. When the program stops between the two, over an older key, the next start finds a pair that
  was never made together, and takes it for the authority.
\<close>

lemma interrupted_create_pairs_strangers:
  assumes "x509_laws X" and "files_ok d" and "certPath \<noteq> keyPath"
    and "content d keyPath = Some (xl_PemEncode X ''EC PRIVATE KEY'' oldDER, m)" and "xl_MarshalKey X old = Inr oldDER"
    and "xl_ParseCertificate X der = Inr cert"
    and "certPEM = xl_PemEncode X ''CERTIFICATE'' der"
    and "d1 = last (d # fst (WriteFile None (length certPEM, None) certPath certPEM 0x1A4 d))"
  shows "load X (\<lambda>_. None) certPath keyPath d1 = Inr (cert, old, certPEM)"
proof -
  note w = content_WriteFile [OF assms(2), where path = certPath and data = certPEM and mode = "0x1A4", folded assms(8)]
  obtain m1 where "content d1 certPath = Some (certPEM, m1)" using w(1) by blast
  moreover have "content d1 keyPath = Some (xl_PemEncode X ''EC PRIVATE KEY'' oldDER, m)" using w(2) [of keyPath] assms(3,4) by simp
  ultimately show ?thesis using assms(1,5-7)
    by (simp add: x509_laws_def load_contents [where cb = der and kb = oldDER])
qed

text \<open>A private key file that was there with wider permissions keeps them.\<close>

lemma key_file_keeps_mode:
  assumes "files_ok d" and "content d keyPath = Some (b, 0x1A4)"
  shows "content (last (d # fst (WriteFile None (length data, None) keyPath data 0x180 d))) keyPath = Some (data, 0x1A4)"
  using content_WriteFile(1) [OF assms(1)] assms(2) by simp

end
