(* ===== verification/Startup.thy ===== *)
theory Startup
  imports Session CertAuthority Config Theme Keymap Scope Runner Transparent Vt
begin

text \<open>
  \<^verbatim>\<open>cmd/cli-capture/main.go\<close>: the log file, the identity of the target in transparent
  mode, and the life of the proxy, the redirect, the target, the terminal and the interface. A function passed to \<^verbatim>\<open>executeCapture\<close> is its
  outcome, and what happens is a log of events. The wiring of channels and goroutines is not modelled but for the pump of the PTY; the
  messages logged are not, but for the commands the user is told to run.
\<close>

section \<open>The log file\<close>

record log_outcomes =
  lg_mkdir :: "string option"
  lg_chmod_dir :: "string option"
  lg_open :: "string option"
  lg_chmod :: "string option"

definition openStartupLog :: "log_outcomes \<Rightarrow> string \<Rightarrow> disk \<Rightarrow> disk \<times> (string + nat)" where
  "openStartupLog G path d =
     (case lg_mkdir G of Some e \<Rightarrow> (d, Inl e)
      | None \<Rightarrow> (case lg_chmod_dir G of Some e \<Rightarrow> (d, Inl e)
        | None \<Rightarrow> (case lg_open G of Some e \<Rightarrow> (d, Inl e)
          | None \<Rightarrow>
              (let (i, d1) = (case d_dir d path of Some i \<Rightarrow> (i, d) | None \<Rightarrow> (d_next d, d_create path d))
               in case lg_chmod G of Some e \<Rightarrow> (d1, Inl e) | None \<Rightarrow> (d_chmod i 0x180 d1, Inr i)))))"

text \<open>What was logged before is kept, and the file becomes private whatever its mode was.\<close>

lemma startup_log_private_and_kept:
  assumes "openStartupLog G path d = (d', Inr i)"
  shows "content d' path = Some (case content d path of None \<Rightarrow> [] | Some (b, m) \<Rightarrow> b, 0x180)"
  using assms
  by (auto simp: openStartupLog_def content_def d_create_def d_chmod_def Let_def split: option.splits)

section \<open>The target's identity\<close>

datatype identity_error = UidRequired | RootRefused | UnresolvedUid int credential_error

definition transparentTargetCredentialsWithLookup ::
    "string \<Rightarrow> bool \<Rightarrow> int \<Rightarrow> (int \<Rightarrow> credential_error + user_credentials) \<Rightarrow> identity_error + user_credentials option" where
  "transparentTargetCredentialsWithLookup addr apply_rules uid find_user =
     (if addr = [] \<or> \<not> apply_rules then Inr None
      else if uid < 0 then Inl UidRequired
      else if uid = 0 then Inl RootRefused
      else case find_user uid of Inl e \<Rightarrow> Inl (UnresolvedUid uid e) | Inr c \<Rightarrow> Inr (Some c))"

definition startTarget where
  "startTarget argv env credentials start startWithCredentials =
     (if credentials \<noteq> None then startWithCredentials argv env credentials else start argv env)"

definition capture_target ::
    "(string \<Rightarrow> string + os_user) \<Rightarrow> (os_user \<Rightarrow> string + string list) \<Rightarrow> (string \<Rightarrow> bool) \<Rightarrow> (exec_cmd \<Rightarrow> string + 'pty)
      \<Rightarrow> string \<Rightarrow> bool \<Rightarrow> int \<Rightarrow> string list \<Rightarrow> string list \<Rightarrow> (identity_error + start_error) + exec_cmd \<times> 'pty" where
  "capture_target find_user groupIDs look_path start_pty addr apply_rules uid argv env =
     (case transparentTargetCredentialsWithLookup addr apply_rules uid (\<lambda>u. lookupUserCredentialsWith u find_user groupIDs) of
        Inl e \<Rightarrow> Inl (Inl e)
      | Inr c \<Rightarrow> (case startTarget argv env c (Start look_path start_pty) (StartWithCredentials look_path start_pty) of
          Inl e \<Rightarrow> Inl (Inr e) | Inr r \<Rightarrow> Inr r))"

text \<open>The hint the user is given when the target cannot be found.\<close>

datatype target_hint = HintShellFlag | HintFixShell | NoHint

definition target_error_hint :: "bool \<Rightarrow> start_error \<Rightarrow> target_hint" where
  "target_error_hint namedTarget e =
     (case e of TargetNotFound _ \<Rightarrow> if namedTarget then HintShellFlag else HintFixShell | _ \<Rightarrow> NoHint)"

text \<open>The commands logged when the rules are not installed.\<close>

definition logTransparentSetup :: "(string \<Rightarrow> bool) \<Rightarrow> int \<Rightarrow> int \<Rightarrow> string list \<times> string" where
  "logTransparentSetup look_path port uid =
     (let (bin, redirect, flush) = (case DetectBackend look_path of
            Some be \<Rightarrow> (be_Bin be, be_Redirect be port uid, be_Flush be)
          | None \<Rightarrow> (''nft'', NFTRedirect port uid, NFTFlush))
      in (Shell bin redirect, join '' && '' (Shell bin flush)))"

section \<open>The order of starting and stopping\<close>

datatype capture_event = StartedProxy | ClosedProxy | OpenedListener | ClosedListener | InstalledRules | RemovedRules
  | WatchingSignals | IgnoringSignals | StartedTarget | ClosedTarget | StartedTerminal | ClosedTerminal | RanProgram

record transparent_lifecycle =
  tr_closeListener :: bool
  tr_teardown :: bool
  tr_stopSignals :: bool

record 'e lifecycle_outcomes =
  lc_startProxy :: "'e option"
  lc_startTransparent :: "transparent_lifecycle \<times> 'e option"
  lc_startTarget :: "'e option"
  lc_runProgram :: "'e option"

definition started_transparent :: "transparent_lifecycle \<Rightarrow> capture_event list" where
  "started_transparent t = (if tr_closeListener t then [OpenedListener] else [])
     @ (if tr_teardown t then [InstalledRules] else []) @ (if tr_stopSignals t then [WatchingSignals] else [])"

text \<open>
  The calls deferred, the last one first, run when the function returns.
\<close>

definition executeCapture :: "'e lifecycle_outcomes \<Rightarrow> capture_event list \<times> 'e option" where
  "executeCapture L =
     (case lc_startProxy L of Some e \<Rightarrow> ([], Some e)
      | None \<Rightarrow>
          (let deferred = [ClosedProxy]; (t, err) = lc_startTransparent L;
               deferred = (if tr_closeListener t then [ClosedListener] else []) @ deferred;
               deferred = (if tr_teardown t then [RemovedRules] else []) @ deferred;
               deferred = (if tr_stopSignals t then [IgnoringSignals] else []) @ deferred;
               begun = StartedProxy # started_transparent t
           in case err of Some e \<Rightarrow> (begun @ deferred, Some e)
              | None \<Rightarrow> (case lc_startTarget L of Some e \<Rightarrow> (begun @ deferred, Some e)
                | None \<Rightarrow>
                    (let deferred = ClosedTerminal # ClosedTarget # deferred
                     in (begun @ [StartedTarget, StartedTerminal, RanProgram] @ deferred, lc_runProgram L)))))"

text \<open>
  \<^verbatim>\<open>runProgram\<close>: \<open>caught\<close> says whether the handler took a signal before it saw that the interface had ended.
\<close>

datatype program_error = TuiError string | ErrInterrupted

definition runProgram :: "bool \<Rightarrow> string option \<Rightarrow> bool \<Rightarrow> program_error option" where
  "runProgram watching run_err caught =
     (case run_err of Some e \<Rightarrow> Some (TuiError e)
      | None \<Rightarrow> if watching \<and> caught then Some ErrInterrupted else None)"

section \<open>The functions \<^verbatim>\<open>run\<close> passes\<close>

datatype run_failure = ProxyListen string | IdentityRefused identity_error | TransparentListen string | TransparentApply apply_error
  | TargetFailed target_hint start_error | ProgramEnded program_error

definition no_transparent :: transparent_lifecycle where
  "no_transparent = \<lparr>tr_closeListener = False, tr_teardown = False, tr_stopSignals = False\<rparr>"

text \<open>\<open>listen\<close> gives the port of the listener; \<open>apply_redirect\<close> is \<^verbatim>\<open>ApplyRedirect\<close> for a port and a user.\<close>

definition startTransparent ::
    "identity_error + user_credentials option \<Rightarrow> (string \<Rightarrow> string + int) \<Rightarrow> (int \<Rightarrow> int \<Rightarrow> apply_error + string list list)
      \<Rightarrow> string \<Rightarrow> bool \<Rightarrow> int \<Rightarrow> transparent_lifecycle \<times> run_failure option" where
  "startTransparent credentials listen apply_redirect addr apply_rules uid =
     (case credentials of Inl e \<Rightarrow> (no_transparent, Some (IdentityRefused e))
      | Inr _ \<Rightarrow>
          if addr = [] then (no_transparent, None)
          else case listen addr of Inl e \<Rightarrow> (no_transparent, Some (TransparentListen e))
            | Inr port \<Rightarrow>
                (let lifecycle = no_transparent\<lparr>tr_closeListener := True\<rparr>
                 in if \<not> apply_rules then (lifecycle, None)
                    else case apply_redirect port uid of
                      Inl e \<Rightarrow> (lifecycle, Some (TransparentApply e))
                    | Inr _ \<Rightarrow> (lifecycle\<lparr>tr_teardown := True, tr_stopSignals := True\<rparr>, None)))"

section \<open>The pump of the PTY\<close>

text \<open>A read gives bytes and, at the end, an error; the notice of size one is full or not.\<close>

fun pumpPTY :: "('t, 'style) term_lib \<Rightarrow> (bytes \<times> bool) list \<Rightarrow> 't vt \<Rightarrow> bool \<Rightarrow> 't vt \<times> bool" where
  "pumpPTY L [] screen notified = (screen, notified)"
| "pumpPTY L ((b, ended) # reads) screen notified =
     (let (screen1, notified1) = (if b \<noteq> [] then (snd (VT_Write L b screen), True) else (screen, notified))
      in if ended then (screen1, notified1) else pumpPTY L reads screen1 notified1)"

lemma pump_never_loses_the_notice: "(b, e) \<in> set (takeWhile (\<lambda>r. \<not> snd r) reads) \<Longrightarrow> b \<noteq> [] \<Longrightarrow> snd (pumpPTY L reads screen n)"
proof (induction reads arbitrary: screen n)
  case (Cons r reads)
  have full: "snd (pumpPTY L rs s True)" for rs s
    by (induction rs arbitrary: s) (auto simp: Let_def)
  obtain b1 e1 where r: "r = (b1, e1)" by fastforce
  show ?case
  proof (cases "b1 = []")
    case True
    with Cons show ?thesis by (auto simp: r split: if_splits)
  next
    case False
    with full show ?thesis by (simp add: r Let_def)
  qed
qed simp

section \<open>Properties\<close>

text \<open>An event that ends what another began.\<close>

fun ends :: "capture_event \<Rightarrow> capture_event option" where
  "ends ClosedProxy = Some StartedProxy" | "ends ClosedListener = Some OpenedListener" | "ends RemovedRules = Some InstalledRules"
| "ends IgnoringSignals = Some WatchingSignals" | "ends ClosedTarget = Some StartedTarget" | "ends ClosedTerminal = Some StartedTerminal"
| "ends _ = None"

text \<open>A log is read against the stack of what is open: an end closes what was begun last.\<close>

fun open_after :: "capture_event list \<Rightarrow> capture_event list \<Rightarrow> capture_event list option" where
  "open_after opened [] = Some opened"
| "open_after opened (e # es) =
     (if e = RanProgram then open_after opened es
      else case ends e of
        None \<Rightarrow> open_after (e # opened) es
      | Some b \<Rightarrow> (case opened of x # xs \<Rightarrow> if x = b then open_after xs es else None | [] \<Rightarrow> None))"



lemma runner_command_credential:
  assumes "runner_command look_path argv env c = Inr cmd"
  shows "ec_Credential cmd = c \<and> ec_Args cmd = argv \<and> ec_Env cmd = env"
  using assms by (auto simp: runner_command_def configureUserCredentials_def split: list.splits if_splits option.splits sum.splits)

text \<open>
  C31: with automatic rules the target runs as the very user whose traffic is redirected, with that user's groups and none of the groups of the
  privileged parent, and never as root, so the proxy's own connections are not redirected; in any other mode it keeps the credentials of the
  program. The arguments and the environment are passed on as they are.
\<close>

theorem redirected_target_is_the_chosen_user:
  assumes "capture_target find_user groupIDs look_path start_pty addr apply_rules uid argv env = Inr (cmd, p)"
  shows "(if addr \<noteq> [] \<and> apply_rules
      then 0 < uid \<and> (\<exists>u ts g gs c. find_user (show_int uid) = Inr u \<and> groupIDs u = Inr ts \<and> parse_uint 32 (us_Gid u) = Some g
        \<and> ec_Credential cmd = Some c \<and> uint (uc_uid c) = uid \<and> uc_gid c = of_nat g \<and> uc_groups c = of_nat g # gs \<and> distinct (uc_groups c)
        \<and> set (uc_groups c) = insert (of_nat g) {w. \<exists>t \<in> set ts. parseCredentialID ''supplementary gid'' t = Inr w})
      else ec_Credential cmd = None)
    \<and> ec_Args cmd = argv \<and> ec_Env cmd = env"
proof -
  let ?creds = "transparentTargetCredentialsWithLookup addr apply_rules uid (\<lambda>u. lookupUserCredentialsWith u find_user groupIDs)"
  obtain c where c: "?creds = Inr c"
    and start: "startTarget argv env c (Start look_path start_pty) (StartWithCredentials look_path start_pty) = Inr (cmd, p)"
    using assms by (auto simp: capture_target_def split: sum.splits)
  show ?thesis
  proof (cases "addr \<noteq> [] \<and> apply_rules")
    case True
    with c obtain u where u: "c = Some u" "0 < uid" "lookupUserCredentialsWith uid find_user groupIDs = Inr u"
      by (auto simp: transparentTargetCredentialsWithLookup_def split: if_splits sum.splits)
    with start have "StartWithCredentials look_path start_pty argv env (Some u) = Inr (cmd, p)" by (simp add: startTarget_def)
    from target_runs_as_user [OF u(3) this] obtain os ts g gs where r: "find_user (show_int uid) = Inr os" "groupIDs os = Inr ts"
      "parse_uint 32 (us_Gid os) = Some g" "distinct (of_nat g # gs)" "uid < 2 ^ 32" "ec_Args cmd = argv" "ec_Env cmd = env"
      "ec_Credential cmd = Some \<lparr>uc_uid = word_of_int uid, uc_gid = of_nat g, uc_groups = of_nat g # gs\<rparr>"
      "set (of_nat g # gs) = insert (of_nat g) {w. \<exists>t \<in> set ts. parseCredentialID ''supplementary gid'' t = Inr w}"
      by blast
    have "uint (word_of_int uid :: 32 word) = uid" using u(2) r(5) by (simp add: uint_word_of_int)
    with True u(2) r show ?thesis by auto
  next
    case False
    with c have "c = None" by (auto simp: transparentTargetCredentialsWithLookup_def)
    with start have "startWithPTY look_path start_pty argv env None = Inr (cmd, p)" by (simp add: startTarget_def Start_def)
    then obtain a where a: "runner_command look_path argv env None = Inr a" "(case start_pty a of Inl e \<Rightarrow> Inl (PtyError e) | Inr p \<Rightarrow> Inr (a, p)) = Inr (cmd, p)"
      by (auto simp: startWithPTY_def rbind_eq_Inr)
    from a(2) have "a = cmd" by (cases "start_pty a") simp_all
    with a(1) runner_command_credential [of look_path argv env None cmd] False show ?thesis by auto
  qed
qed

theorem redirected_target_is_the_chosen_user_witness:
  "\<exists>cmd. capture_target demo_lookup demo_groups (\<lambda>_. True) (\<lambda>_. Inr ()) '':9000'' True 1500 [''id''] [''A=b''] = Inr (cmd, ())
    \<and> (\<exists>c. ec_Credential cmd = Some c \<and> uint (uc_uid c) = 1500) \<and> ec_Env cmd = [''A=b'']"
proof -
  obtain c where c: "lookupUserCredentialsWith 1500 demo_lookup demo_groups = Inr c" and g: "uc_groups c \<noteq> []"
    by (simp add: lookupUserCredentialsWith_def demo_lookup_def demo_groups_def parseCredentialID_def parse_uint_numerals show_1500)
  then obtain cmd where t: "capture_target demo_lookup demo_groups (\<lambda>_. True) (\<lambda>_. Inr ()) '':9000'' True 1500 [''id''] [''A=b''] = Inr (cmd, ())"
    by (simp add: capture_target_def transparentTargetCredentialsWithLookup_def startTarget_def StartWithCredentials_def startWithPTY_def
        runner_command_def configureUserCredentials_def)
  from redirected_target_is_the_chosen_user [OF t] t show ?thesis by auto
qed

end
