(* ===== verification/Launch.thy ===== *)
theory Launch
  imports Startup Capture Intercept
begin

text \<open>
  \<^verbatim>\<open>run\<close> of \<^verbatim>\<open>cmd/cli-capture/main.go\<close> up to the start of the proxy: the flags, the command of the target, the log, the
  configuration, the theme, the keys, the certificate authority, the session preloaded and the two scopes, in the order of the code. A step that
  fails refuses the start. What is printed to the log is not modelled; \<^verbatim>\<open>flag.Parse\<close> is the record of the flags it filled.
\<close>

section \<open>The flags\<close>

record flags =
  fl_version :: bool
  fl_listen :: string
  fl_dir :: string
  fl_theme :: string
  fl_leader :: string
  fl_configs :: "string list"
  fl_scope :: string
  fl_exclude :: string
  fl_lastMatch :: bool
  fl_mitm :: string
  fl_noMitm :: string
  fl_transparent :: string
  fl_transparentUID :: int
  fl_transparentApply :: bool
  fl_load :: string
  fl_shell :: bool
  fl_args :: "string list"

definition defaultDir :: "string option \<Rightarrow> string" where
  "defaultDir home = (case home of None \<Rightarrow> ''.cli-capture'' | Some h \<Rightarrow> path_join [h, ''.cli-capture''])"

text \<open>A command line without any flag.\<close>

definition default_flags :: "string option \<Rightarrow> string list \<Rightarrow> flags" where
  "default_flags home args =
     \<lparr>fl_version = False, fl_listen = ''127.0.0.1:0'', fl_dir = defaultDir home, fl_theme = [], fl_leader = [], fl_configs = [],
      fl_scope = [], fl_exclude = [], fl_lastMatch = False, fl_mitm = [], fl_noMitm = [], fl_transparent = [], fl_transparentUID = -1,
      fl_transparentApply = False, fl_load = [], fl_shell = False, fl_args = args\<rparr>"

section \<open>Settling what to run\<close>

datatype refusal = ShellNeedsCommand | LogRefused string string | ConfigRefused config_error | ThemeRefused theme_error
  | KeysRefused keymap_error | AuthorityRefused string | SessionRefused string | ScopeRefused scope_error | MitmRefused scope_error
  | NilFlowPanic

definition target_argv :: "(string \<Rightarrow> string) \<Rightarrow> bool \<Rightarrow> string list \<Rightarrow> refusal + string list" where
  "target_argv getenv useShell argv =
     (if argv = [] then (if useShell then Inl ShellNeedsCommand else Inr (LoginShell getenv))
      else if useShell then Inr (ShellCommand getenv argv) else Inr argv)"

definition run_palette :: "(string \<Rightarrow> string) \<Rightarrow> string \<Rightarrow> config \<Rightarrow> theme_error + theme" where
  "run_palette getenv themeName cfg =
     (let t = cf_Theme cfg; base = (if themeName \<noteq> [] then themeName else th_Base t)
      in rbind (Resolve base (th_Colors t) (th_Glyphs t) (th_Border t)) (\<lambda>palette.
           Inr (if getenv ''NO_COLOR'' \<noteq> [] then Colorless palette else palette)))"

definition run_keys :: "(nat \<Rightarrow> string) \<Rightarrow> string \<Rightarrow> config \<Rightarrow> keymap_error + keymap" where
  "run_keys key_name leaderKey cfg =
     (let k = cf_Keys cfg in NewKeyMap key_name (if leaderKey \<noteq> [] then leaderKey else ks_Leader k) (ks_Bindings k))"

text \<open>
  The flows loaded are put into the store one by one. \<^verbatim>\<open>Add\<close> reads the id of its flow, so a nil pointer ends the program; \<open>None\<close> is
  the panic. The flows take the first references of the heap.
\<close>

fun preload :: "flow option list \<Rightarrow> fref \<Rightarrow> heap \<Rightarrow> store \<Rightarrow> (heap \<times> store) option" where
  "preload [] p h s = Some (h, s)"
| "preload (None # fs) p h s = None"
| "preload (Some f # fs) p h s = (let h1 = h(p := f) in preload fs (p + 1) h1 (Add h1 p s))"

record ('re, 'cert, 'key) world =
  wo_env :: environment
  wo_key_name :: "nat \<Rightarrow> string"
  wo_log :: log_outcomes
  wo_read :: "string \<Rightarrow> string option"
  wo_decode :: decoder
  wo_x509 :: "('cert, 'key) x509_lib"
  wo_ca :: "'key ca_outcomes"
  wo_json :: json_text
  wo_regex :: "'re regex_engine"

record ('re, 'inj, 'cert, 'key) settings =
  se_argv :: "string list"
  se_namedTarget :: bool
  se_palette :: theme
  se_keys :: keymap
  se_authority :: "('cert, 'key) authority"
  se_caFile :: string
  se_heap :: heap
  se_store :: store
  se_engine :: "('re, 'inj) engine"
  se_mitm :: "'re scope_set"

definition disk_files :: "(string \<Rightarrow> string option) \<Rightarrow> disk \<Rightarrow> files" where
  "disk_files read_err d path =
     (case read_err path of Some e \<Rightarrow> Inl (OpenFailed e)
      | None \<Rightarrow> (case content d path of None \<Rightarrow> Inl NotExist | Some (b, m) \<Rightarrow> Inr b))"

definition run_flows :: "json_text \<Rightarrow> string \<Rightarrow> disk \<Rightarrow> heap \<Rightarrow> refusal + heap \<times> store" where
  "run_flows J loadPath d h =
     (if loadPath = [] then Inr (h, NewStore)
      else case LoadFile J loadPath d of Inl e \<Rightarrow> Inl (SessionRefused e)
        | Inr fs \<Rightarrow> (case preload fs 0 h NewStore of None \<Rightarrow> Inl NilFlowPanic | Some hs \<Rightarrow> Inr hs))"

text \<open>
  \<^verbatim>\<open>run\<close> before the proxy. The disk is returned too: the log and the authority are written while the rest is still to be checked.
\<close>

definition prepare ::
    "('re, 'cert, 'key) world \<Rightarrow> flags \<Rightarrow> heap \<Rightarrow> disk \<Rightarrow> disk \<times> (refusal + ('re, 'inj, 'cert, 'key) settings)" where
  "prepare W F h d =
     (let getenv = en_Getenv (wo_env W); logPath = path_join [fl_dir F, ''cli-capture.log'']
      in case target_argv getenv (fl_shell F) (fl_args F) of Inl e \<Rightarrow> (d, Inl e)
         | Inr argv \<Rightarrow> (case openStartupLog (wo_log W) logPath d of (d1, Inl e) \<Rightarrow> (d1, Inl (LogRefused logPath e))
           | (d1, Inr logf) \<Rightarrow> (case Load (disk_files (wo_read W) d1) (wo_decode W) (wo_env W) (fl_configs F) (fl_dir F) of
               Inl e \<Rightarrow> (d1, Inl (ConfigRefused e))
             | Inr l \<Rightarrow> (let cfg = ld_Config l in
               case run_palette getenv (fl_theme F) cfg of Inl e \<Rightarrow> (d1, Inl (ThemeRefused e))
             | Inr palette \<Rightarrow> (case run_keys (wo_key_name W) (fl_leader F) cfg of Inl e \<Rightarrow> (d1, Inl (KeysRefused e))
             | Inr keys \<Rightarrow>
                 (let certPath = path_join [fl_dir F, ''ca.pem''];
                      (ds, ca) = LoadOrCreate (wo_x509 W) (wo_ca W) certPath (path_join [fl_dir F, ''ca.key'']) d1; d2 = last (d1 # ds)
                  in case ca of Inl e \<Rightarrow> (d2, Inl (AuthorityRefused e))
                     | Inr authority \<Rightarrow> (case run_flows (wo_json W) (fl_load F) d2 h of Inl e \<Rightarrow> (d2, Inl e)
                       | Inr (h1, store) \<Rightarrow> (case buildScope (wo_regex W) (fl_scope F) (fl_exclude F) (fl_lastMatch F) of
                           Inl e \<Rightarrow> (d2, Inl (ScopeRefused e))
                         | Inr interceptScope \<Rightarrow> (case buildScope (wo_regex W) (fl_mitm F) (fl_noMitm F) (fl_lastMatch F) of
                             Inl e \<Rightarrow> (d2, Inl (MitmRefused e))
                           | Inr mitmScope \<Rightarrow>
                               (d2, Inr \<lparr>se_argv = argv, se_namedTarget = (fl_args F \<noteq> []), se_palette = palette, se_keys = keys,
                                  se_authority = authority, se_caFile = certPath, se_heap = h1, se_store = store,
                                  se_engine = SetScope (Some interceptScope) NewEngine, se_mitm = mitmScope\<rparr>))))))))))"

text \<open>What the functions passed to \<^verbatim>\<open>executeCapture\<close> meet: the network, the user database, the firewall, the PTY and the interface.\<close>

record 'pty outside =
  ou_listen :: "string \<Rightarrow> string option"
  ou_proxyAddr :: string
  ou_environ :: "string list"
  ou_visit :: "string gomap \<Rightarrow> string gomap"
  ou_find_user :: "string \<Rightarrow> string + os_user"
  ou_groupIDs :: "os_user \<Rightarrow> string + string list"
  ou_transparent :: "string \<Rightarrow> string + int"
  ou_apply :: "int \<Rightarrow> int \<Rightarrow> apply_error + string list list"
  ou_look_path :: "string \<Rightarrow> bool"
  ou_start_pty :: "exec_cmd \<Rightarrow> string + 'pty"
  ou_run :: "string option"
  ou_caught :: bool

definition target_credentials :: "'pty outside \<Rightarrow> flags \<Rightarrow> identity_error + user_credentials option" where
  "target_credentials U F =
     transparentTargetCredentialsWithLookup (fl_transparent F) (fl_transparentApply F) (fl_transparentUID F)
       (\<lambda>u. lookupUserCredentialsWith u (ou_find_user U) (ou_groupIDs U))"

definition run_target :: "'pty outside \<Rightarrow> flags \<Rightarrow> ('re, 'inj, 'cert, 'key) settings \<Rightarrow> user_credentials option \<Rightarrow> start_error + exec_cmd \<times> 'pty" where
  "run_target U F s credentials =
     (let env = ProxyEnv (ou_visit U) (ou_environ U) (ou_proxyAddr U) (se_caFile s)
      in startTarget (se_argv s) env credentials (Start (ou_look_path U) (ou_start_pty U)) (StartWithCredentials (ou_look_path U) (ou_start_pty U)))"

definition lifecycle :: "'pty outside \<Rightarrow> flags \<Rightarrow> ('re, 'inj, 'cert, 'key) settings \<Rightarrow> run_failure lifecycle_outcomes" where
  "lifecycle U F s =
     (let credentials = target_credentials U F;
          tr = startTransparent credentials (ou_transparent U) (ou_apply U) (fl_transparent F) (fl_transparentApply F) (fl_transparentUID F)
      in \<lparr>lc_startProxy = map_option ProxyListen (ou_listen U (fl_listen F)),
          lc_startTransparent = tr,
          lc_startTarget = (case run_target U F s (case credentials of Inr c \<Rightarrow> c | Inl _ \<Rightarrow> None) of
             Inl e \<Rightarrow> Some (TargetFailed (target_error_hint (se_namedTarget s) e) e) | Inr _ \<Rightarrow> None),
          lc_runProgram = map_option ProgramEnded (runProgram (tr_stopSignals (fst tr)) (ou_run U) (ou_caught U))\<rparr>)"

text \<open>\<^verbatim>\<open>run\<close> itself: with \<^verbatim>\<open>-version\<close> nothing happens; a refused start starts nothing.\<close>

datatype run_error = Refused refusal | Ended run_failure

definition run_all ::
    "('re, 'cert, 'key) world \<Rightarrow> 'pty outside \<Rightarrow> flags \<Rightarrow> heap \<Rightarrow> disk \<Rightarrow> disk \<times> capture_event list \<times> run_error option" where
  "run_all W U F h d =
     (if fl_version F then (d, [], None)
      else case prepare W F h d of
          (d', Inl e) \<Rightarrow> (d', [], Some (Refused e))
        | (d', Inr s) \<Rightarrow> (let (log, err) = executeCapture (lifecycle U F (s :: ('re, unit, 'cert, 'key) settings)) in (d', log, map_option Ended err)))"

section \<open>Properties\<close>

lemma prepare_Inr:
  assumes "prepare W F h d = (d', Inr s)"
  obtains logf d1 l ds sc where "target_argv (en_Getenv (wo_env W)) (fl_shell F) (fl_args F) = Inr (se_argv s)"
    and "openStartupLog (wo_log W) (path_join [fl_dir F, ''cli-capture.log'']) d = (d1, Inr logf)"
    and "Load (disk_files (wo_read W) d1) (wo_decode W) (wo_env W) (fl_configs F) (fl_dir F) = Inr l"
    and "run_palette (en_Getenv (wo_env W)) (fl_theme F) (ld_Config l) = Inr (se_palette s)"
    and "run_keys (wo_key_name W) (fl_leader F) (ld_Config l) = Inr (se_keys s)"
    and "LoadOrCreate (wo_x509 W) (wo_ca W) (path_join [fl_dir F, ''ca.pem'']) (path_join [fl_dir F, ''ca.key'']) d1 = (ds, Inr (se_authority s))"
    and "d' = last (d1 # ds)"
    and "run_flows (wo_json W) (fl_load F) d' h = Inr (se_heap s, se_store s)"
    and "buildScope (wo_regex W) (fl_scope F) (fl_exclude F) (fl_lastMatch F) = Inr sc" and "se_engine s = SetScope (Some sc) NewEngine"
    and "buildScope (wo_regex W) (fl_mitm F) (fl_noMitm F) (fl_lastMatch F) = Inr (se_mitm s)"
  using assms by (auto simp: prepare_def Let_def simp del: last.simps split: sum.splits prod.splits)

subsection \<open>The session preloaded\<close>

lemma store_abs_fresh:
  "store_abs h ps s \<Longrightarrow> \<forall>q \<in> set ps. h' q = h q \<Longrightarrow> store_abs h' ps s"
  by (simp add: store_abs_def cong: map_cong)

lemma preload_lists:
  assumes "preload gs p h s = Some (h', s')" and "store_abs h ps s" and "set ps \<subseteq> {..<p}"
  shows "store_abs h' (ps @ [p..<p + length gs]) s' \<and> gs = map Some (map h' [p..<p + length gs]) \<and> (\<forall>q<p. h' q = h q)"
  using assms
proof (induction gs p h s arbitrary: ps rule: preload.induct)
  case (3 f gs p h s)
  let ?h = "h(p := f)"
  have "store_abs ?h ps s" using "3.prems"(2,3) by (intro store_abs_fresh [OF "3.prems"(2)]) auto
  then have abs: "store_abs ?h (ps @ [p]) (Add ?h p s)" using store_abs_step [of ?h ps s "OpAdd p"] by simp
  have sub: "set (ps @ [p]) \<subseteq> {..<p + 1}" using "3.prems"(3) by auto
  have step: "preload gs (p + 1) ?h (Add ?h p s) = Some (h', s')" using "3.prems"(1) by (simp add: Let_def)
  note r = "3.IH" [OF refl step abs sub]
  have up: "[p..<p + length (Some f # gs)] = p # [p + 1..<p + 1 + length gs]" by (simp add: upt_conv_Cons del: upt_Suc)
  have "h' p = f" using r by simp
  moreover have "h' q = h q" if "q < p" for q using r that by simp
  ultimately show ?case using r unfolding up by (simp del: upt_Suc)
qed simp_all

lemma store_abs_New: "store_abs h [] NewStore" by (simp add: store_abs_def NewStore_def)

lemma preloaded_list:
  assumes "preload gs 0 h NewStore = Some (h', s)" and "gs = map Some fs" and "distinct (map f_ID fs)"
  shows "map (map_option h') (ListFlows s) = map Some fs"
proof -
  have "store_abs h' [0..<length gs] s" "gs = map Some (map h' [0..<length gs])"
    using preload_lists [OF assms(1) store_abs_New] by simp_all
  moreover from this(2) have fs: "fs = map h' [0..<length gs]"
    unfolding assms(2) by (metis inj_map_eq_map inj_Some length_map)
  ultimately have "ListFlows s = map Some [0..<length gs]"
    using assms(3) by (intro store_abs_List) (simp_all add: comp_def)
  with fs show ?thesis by simp
qed

subsection \<open>What the settings are\<close>

lemma run_palette_colors:
  assumes "run_palette getenv themeName cfg = Inr t" and "getenv ''NO_COLOR'' \<noteq> []"
  shows "get_color p t = []"
  using assms by (auto simp: run_palette_def rbind_eq_Inr get_color_Colorless Let_def)

lemma target_argv_Inr:
  "target_argv getenv useShell args = Inr argv \<Longrightarrow>
    argv \<noteq> [] \<and> argv = (if args = [] then LoginShell getenv else if useShell then ShellCommand getenv args else args)"
  by (auto simp: target_argv_def LoginShell_def ShellCommand_def Let_def split: if_splits list.splits)


subsection \<open>A start refused\<close>

text \<open>What is refused before the certificate authority is looked at.\<close>

fun before_authority :: "refusal \<Rightarrow> bool" where
  "before_authority ShellNeedsCommand = True" | "before_authority (LogRefused p e) = True" | "before_authority (ConfigRefused e) = True"
| "before_authority (ThemeRefused e) = True" | "before_authority (KeysRefused e) = True" | "before_authority _ = False"

definition data_of :: "disk \<Rightarrow> string \<Rightarrow> bytes option" where
  "data_of d p = map_option fst (content d p)"

lemma startup_log_data:
  assumes "openStartupLog G path d = (d', r)" and "files_ok d"
  shows "data_of d' p = data_of d p \<or> p = path \<and> data_of d p = None \<and> data_of d' p = Some []"
proof (cases "d_dir d path")
  case None
  have "d_dir d q \<noteq> Some (d_next d)" for q using assms(2) unfolding files_ok_def by blast
  with None assms(1) show ?thesis
    by (cases "p = path"; cases "d_dir d p")
      (auto simp: openStartupLog_def data_of_def content_def d_create_def d_chmod_def Let_def split: option.splits)
next
  case (Some i)
  with assms(1) show ?thesis
    by (cases "d_dir d p") (auto simp: openStartupLog_def data_of_def content_def d_create_def d_chmod_def Let_def split: option.splits)
qed

lemma prepare_before_authority:
  assumes "prepare W F h d = (d', Inl e)" and "before_authority e"
  shows "d' = d \<or> (\<exists>r. openStartupLog (wo_log W) (path_join [fl_dir F, ''cli-capture.log'']) d = (d', r))"
proof (cases "target_argv (en_Getenv (wo_env W)) (fl_shell F) (fl_args F)")
  case Inl
  with assms(1) show ?thesis by (simp add: prepare_def)
next
  case (Inr argv)
  have flows: "\<not> before_authority e" if "run_flows J p d2 h = Inl e" for J p d2
    using that by (auto simp: run_flows_def split: if_splits sum.splits option.splits)
  show ?thesis using assms Inr
    by (auto simp: prepare_def Let_def simp del: last.simps split: sum.splits prod.splits dest!: flows)
qed


section \<open>Two starts\<close>

definition demo_getenv :: "string \<Rightarrow> string" where
  "demo_getenv k = (if k = ''NO_COLOR'' then ''1'' else if k = ''SHELL'' then ''/bin/zsh'' else [])"

definition demo_world :: "(unit, bytes, nat) world" where
  "demo_world = \<lparr>wo_env = \<lparr>en_Getenv = demo_getenv, en_Home = Some ''/h''\<rparr>, wo_key_name = demo_key_name,
     wo_log = \<lparr>lg_mkdir = None, lg_chmod_dir = None, lg_open = None, lg_chmod = None\<rparr>, wo_read = (\<lambda>_. None), wo_decode = (\<lambda>_. Inl ''json''),
     wo_x509 = demo_x509, wo_ca = \<lparr>co_mkdir = None, co_chmod = None, co_read = (\<lambda>_. None), co_key = Inr 7, co_open = (\<lambda>_. None),
       co_write = (\<lambda>p b. (length b, None))\<rparr>,
     wo_json = \<lparr>jt_print = (\<lambda>_. []), jt_parse = (\<lambda>b. Inr (JArr [JObj [(''ID'', JStr ''a'')]]))\<rparr>, wo_regex = no_engine\<rparr>"

definition demo_home :: disk where
  "demo_home = \<lparr>d_inodes = (\<lambda>_. \<lparr>i_data = [], i_mode = 0x180, i_synced = True\<rparr>), d_next = 1, d_dir = [''s'' \<mapsto> 0], d_synced = [''s'' \<mapsto> 0]\<rparr>"

definition demo_old_flow :: flow where
  "demo_old_flow = \<lparr>f_ID = ''a'', f_Protocol = [], f_ClientAddr = [], f_ServerAddr = [], f_SNI = [], f_Secure = False, f_Status = StatusActive,
     f_Flagged = False, f_Err = None, f_Request = None, f_Response = None, f_Messages = []\<rparr>"

lemma demo_launch_paths:
  "defaultDir (Some ''/h'') = ''/h/.cli-capture''"
  "path_join [''/h/.cli-capture'', ''cli-capture.log''] = ''/h/.cli-capture/cli-capture.log''"
  "path_join [''/h/.cli-capture'', ''ca.pem''] = ''/h/.cli-capture/ca.pem''"
  "path_join [''/h/.cli-capture'', ''ca.key''] = ''/h/.cli-capture/ca.key''"
  "path_join [''/h/.cli-capture'', ''config.json''] = ''/h/.cli-capture/config.json''"
  "path_join [''/h'', ''.config'', ''cli-capture''] = ''/h/.config/cli-capture''"
  "path_join [''/h/.config/cli-capture'', ''config.json''] = ''/h/.config/cli-capture/config.json''"
  by code_simp+

lemma demo_launch_keys: "\<exists>km. NewKeyMap demo_key_name [] [] = Inr km"
proof -
  have "case NewKeyMap demo_key_name [] [] of Inr km \<Rightarrow> True | Inl _ \<Rightarrow> False" by code_simp
  then show ?thesis by (auto split: sum.splits)
qed

lemma demo_launch_palette: "\<exists>t. Resolve [] [] [] [] = Inr t"
proof -
  have "case Resolve [] [] [] [] of Inr t \<Rightarrow> True | Inl _ \<Rightarrow> False" by code_simp
  then show ?thesis by (auto split: sum.splits)
qed

lemma demo_launch_scope: "\<exists>sc. buildScope no_engine [] [] False = Inr sc"
  by (rule buildScope_total) simp_all

abbreviation demo_flags :: flags where
  "demo_flags \<equiv> (default_flags (Some ''/h'') [])\<lparr>fl_load := ''s''\<rparr>"

lemmas demo_launch = demo_world_def default_flags_def demo_home_def demo_launch_paths content_def

definition demo_logged :: disk where
  "demo_logged = fst (openStartupLog (wo_log demo_world) ''/h/.cli-capture/cli-capture.log'' demo_home)"

lemma demo_log_opened:
  "openStartupLog (wo_log demo_world) ''/h/.cli-capture/cli-capture.log'' demo_home = (demo_logged, Inr 1)"
  "content demo_logged ''s'' = Some ([], 0x180)"
  "p \<noteq> ''s'' \<Longrightarrow> p \<noteq> ''/h/.cli-capture/cli-capture.log'' \<Longrightarrow> content demo_logged p = None"
  by (simp_all add: demo_logged_def openStartupLog_def demo_launch d_create_def d_chmod_def Let_def)

lemma demo_config: "Load (disk_files (\<lambda>_. None) demo_logged) (\<lambda>_. Inl ''json'') (wo_env demo_world) [] ''/h/.cli-capture'' = Inr \<lparr>ld_Config = empty_config, ld_Files = []\<rparr>"
  by (simp add: Load_def ReadFile_def disk_files_def demo_log_opened DefaultPath_def LegacyPath_def Dir_def demo_world_def demo_getenv_def
      demo_launch_paths Let_def)

lemma demo_authority:
  obtains ds c where "LoadOrCreate demo_x509 (wo_ca demo_world) ''/h/.cli-capture/ca.pem'' ''/h/.cli-capture/ca.key'' demo_logged = (ds, Inr c)"
    and "content (last (demo_logged # ds)) ''s'' = Some ([], 0x180)"
  by (simp add: LoadOrCreate_def load_def create_def WriteFile_def demo_logged_def openStartupLog_def demo_launch demo_x509_def d_append_def d_create_def
      d_chmod_def Let_def)

lemma demo_world_parts:
  "en_Getenv (wo_env demo_world) = demo_getenv" "wo_key_name demo_world = demo_key_name" "wo_read demo_world = (\<lambda>_. None)"
  "wo_decode demo_world = (\<lambda>_. Inl ''json'')" "wo_x509 demo_world = demo_x509" "wo_regex demo_world = no_engine"
  by (simp_all add: demo_world_def)

lemma demo_palette: "\<exists>t. run_palette demo_getenv [] empty_config = Inr t"
proof -
  obtain t where "Resolve [] [] [] [] = Inr t" using demo_launch_palette ..
  then show ?thesis by (simp add: run_palette_def empty_config_def Let_def)
qed

lemma demo_keys: "\<exists>km. run_keys demo_key_name [] empty_config = Inr km"
  using demo_launch_keys by (simp add: run_keys_def empty_config_def)

lemmas demo_start = demo_world_parts demo_launch_paths demo_log_opened(1) demo_config default_flags_def target_argv_def

lemma demo_session: "content d ''s'' = Some (b, m) \<Longrightarrow> LoadFile (wo_json demo_world) ''s'' d = Inr (map Some [demo_old_flow])"
  by (simp add: LoadFile_def LoadSession_def demo_world_def dec_list_def dec_flow_def dec_field_def dec_str_def demo_old_flow_def)

lemma demo_prepare:
  assumes "buildScope no_engine [] ex False = Inr mitm"
  obtains d' s where "prepare demo_world (demo_flags\<lparr>fl_noMitm := ex\<rparr>) (\<lambda>_. demo_old_flow) demo_home = (d', Inr (s :: (unit, unit, bytes, nat) settings))"
    and "LoadFile (wo_json demo_world) ''s'' d' = Inr (map Some [demo_old_flow])"
proof -
  obtain ds c where ca: "LoadOrCreate demo_x509 (wo_ca demo_world) ''/h/.cli-capture/ca.pem'' ''/h/.cli-capture/ca.key'' demo_logged = (ds, Inr c)"
    "content (last (demo_logged # ds)) ''s'' = Some ([], 0x180)" by (rule demo_authority)
  obtain km where km: "run_keys demo_key_name [] empty_config = Inr km" using demo_keys ..
  obtain pal where pal: "run_palette demo_getenv [] empty_config = Inr pal" using demo_palette ..
  obtain sc where sc: "buildScope no_engine [] [] False = Inr sc" using demo_launch_scope ..
  let ?d' = "last (demo_logged # ds)"
  note saved = demo_session [OF ca(2)]
  obtain s :: "(unit, unit, bytes, nat) settings"
    where "prepare demo_world (demo_flags\<lparr>fl_noMitm := ex\<rparr>) (\<lambda>_. demo_old_flow) demo_home = (?d', Inr s)"
    by (simp add: prepare_def run_flows_def demo_start ca saved km pal sc assms Let_def del: last.simps)
  from that [OF this saved] show thesis .
qed


definition demo_outside :: "unit outside" where
  "demo_outside = \<lparr>ou_listen = (\<lambda>_. None), ou_proxyAddr = ''127.0.0.1:8080'', ou_environ = [], ou_visit = id, ou_find_user = demo_lookup,
     ou_groupIDs = demo_groups, ou_transparent = (\<lambda>_. Inr 9000), ou_apply = (\<lambda>_ _. Inr NFTFlush), ou_look_path = (\<lambda>_. True),
     ou_start_pty = (\<lambda>_. Inr ()), ou_run = None, ou_caught = False\<rparr>"


end
