(* ===== verification/ProxyServer.thy ===== *)
theory ProxyServer
  imports Launch Proxy
begin

text \<open>
  The \<^verbatim>\<open>Proxy\<close> of \<^verbatim>\<open>internal/proxy/proxy.go\<close>: its fields, the accept loop, and the policy \<^verbatim>\<open>run\<close> gives it. A listener is its
  address and whether it is open; what \<^verbatim>\<open>Accept\<close> returns, until it fails, is a list. The authority, the store and the tamperer are those of
  the models of the handlers; \<open>'cfg\<close> is a TLS configuration.
\<close>

record ('re, 'cfg) proxy =
  px_mitm :: "'re scope_set option"
  px_ln :: "(string \<times> bool) option"
  px_upstreamTLS :: "(string \<Rightarrow> 'cfg) option"

definition New_proxy :: "('re, 'cfg) proxy" where
  "New_proxy = \<lparr>px_mitm = None, px_ln = None, px_upstreamTLS = None\<rparr>"

definition SetUpstreamTLS :: "(string \<Rightarrow> 'cfg) option \<Rightarrow> ('re, 'cfg) proxy \<Rightarrow> ('re, 'cfg) proxy" where
  "SetUpstreamTLS fn p = p\<lparr>px_upstreamTLS := fn\<rparr>"

text \<open>\<open>verify_name\<close> is the configuration with only the server name set.\<close>

definition upstreamConfig :: "(string \<Rightarrow> 'cfg) \<Rightarrow> ('re, 'cfg) proxy \<Rightarrow> string \<Rightarrow> 'cfg" where
  "upstreamConfig verify_name p sni = (case px_upstreamTLS p of Some fn \<Rightarrow> fn sni | None \<Rightarrow> verify_name sni)"

definition SetMITMPolicy :: "'re scope_set option \<Rightarrow> ('re, 'cfg) proxy \<Rightarrow> ('re, 'cfg) proxy" where
  "SetMITMPolicy s p = p\<lparr>px_mitm := s\<rparr>"

definition Listen :: "(string \<Rightarrow> string + string) \<Rightarrow> string \<Rightarrow> ('re, 'cfg) proxy \<Rightarrow> string option \<times> ('re, 'cfg) proxy" where
  "Listen net_listen addr p = (case net_listen addr of Inl e \<Rightarrow> (Some e, p) | Inr bound \<Rightarrow> (None, p\<lparr>px_ln := Some (bound, True)\<rparr>))"

definition Addr :: "('re, 'cfg) proxy \<Rightarrow> string" where
  "Addr p = (case px_ln p of None \<Rightarrow> [] | Some (addr, _) \<Rightarrow> addr)"

definition Close_proxy :: "('re, 'cfg) proxy \<Rightarrow> ('re, 'cfg) proxy" where
  "Close_proxy p = (case px_ln p of None \<Rightarrow> p | Some (addr, _) \<Rightarrow> p\<lparr>px_ln := Some (addr, False)\<rparr>)"

text \<open>Each connection is handled on its own with the policy of the proxy.\<close>

definition handle_env :: "'re proxy_env \<Rightarrow> ('re, 'cfg) proxy \<Rightarrow> 're proxy_env" where
  "handle_env P p = P\<lparr>pe_policy := px_mitm p\<rparr>"

fun Serve_proxy :: "'re proxy_env \<Rightarrow> ('re, 'cfg) proxy \<Rightarrow> (string + bytes list) list \<Rightarrow> (bytes \<times> route) list" where
  "Serve_proxy P p [] = []"
| "Serve_proxy P p (Inl e # accepts) = []"
| "Serve_proxy P p (Inr conn # accepts) = proxy_handle (handle_env P p) conn # Serve_proxy P p accepts"

text \<open>What \<^verbatim>\<open>run\<close> does with it.\<close>

definition run_proxy ::
    "(string \<Rightarrow> string + string) \<Rightarrow> flags \<Rightarrow> ('re, 'inj, 'cert, 'key) settings \<Rightarrow> string option \<times> ('re, 'cfg) proxy" where
  "run_proxy net_listen F s = Listen net_listen (fl_listen F) (SetMITMPolicy (Some (se_mitm s)) New_proxy)"

section \<open>Properties\<close>

lemma Serve_proxy_all:
  "Serve_proxy P p accepts = map (proxy_handle (handle_env P p) \<circ> projr) (takeWhile (\<lambda>a. \<not> isl a) accepts)"
  by (induction P p accepts rule: Serve_proxy.induct) simp_all

lemma run_proxy_ok:
  assumes "run_proxy net_listen F s = (None, p)"
  shows "px_mitm p = Some (se_mitm s) \<and> net_listen (fl_listen F) = Inr (Addr p)"
  using assms by (auto simp: run_proxy_def Listen_def SetMITMPolicy_def New_proxy_def Addr_def split: sum.splits)

text \<open>The target of the policy: a TLS host.\<close>

abbreviation tls_host :: "string \<Rightarrow> target" where
  "tls_host host \<equiv> \<lparr>tg_Host = host, tg_Method = [], tg_Path = [], tg_Protocol = ''tls'', tg_Body = []\<rparr>"

definition left_alone :: "('re, 'cert, 'key) world \<Rightarrow> flags \<Rightarrow> string \<Rightarrow> bool" where
  "left_alone W F host \<longleftrightarrow>
     \<not> fl_lastMatch F \<and> (\<exists>p \<in> set (splitComma (fl_noMitm F)). spec_matches (wo_regex W) p (tls_host host))
     \<or> splitComma (fl_mitm F) \<noteq> [] \<and> \<not> (\<exists>p \<in> set (splitComma (fl_mitm F)). spec_matches (wo_regex W) p (tls_host host))"

lemma left_alone_policy:
  assumes "prepare W F h d = (d', Inr s)" and "left_alone W F host"
  shows "\<not> InScope (wo_regex W) (se_mitm s) (tls_host host)"
proof (rule prepare_Inr [OF assms(1)])
  assume "buildScope (wo_regex W) (fl_mitm F) (fl_noMitm F) (fl_lastMatch F) = Inr (se_mitm s)"
  from buildScope_verdict [OF this] assms(2) show ?thesis
    unfolding left_alone_def Let_def by auto
qed



end
