(* ===== verification/Spec2Isabelle.thy ===== *)
theory Spec2Isabelle
  imports ShellQuote Scope Capture ContentEncoding Intercept WsFrame WebSocket Grpc Protocols
    RequestBody Substitute Attack Repeater RawForm Replay
    Export FlowText Har Config Theme Runner Keymap Keys Transparent
    Http1 Proxy Http2
    Vt TuiStyles TuiRows Detail TuiHelp TuiMouse TuiPause TuiMotion TuiInput TuiView TuiScreen
    FileStore Session CertAuthority Startup Launch ProxyServer
begin

text \<open>
  A verification library for \<^verbatim>\<open>cli-capture\<close>, a terminal program that runs a command and captures its network traffic. What follows says what is
  modelled, where, and what is shown; the properties themselves stand in the theories of their components.

  \<^bold>\<open>The program.\<close>

  \<^verbatim>\<open>cli-capture\<close> starts a command line program under a pseudo-terminal with its network traffic led through a proxy, and shows
  the target's screen beside the list of captured flows. This library models its Go code, file by file, and proves what makes each part correct.

  The parts and how they meet. \<^verbatim>\<open>run\<close> (\<^verbatim>\<open>cmd/cli-capture/main.go\<close>) settles the configuration, the theme, the keys, the
  certificate authority, a saved session and two scopes, and then starts the proxy, the transparent redirect, the target, the
  terminal and the interface. The proxy (\<^verbatim>\<open>internal/proxy\<close>) accepts a connection, decides whether its host may be decrypted
  (\<^verbatim>\<open>internal/scope\<close>), takes the place of the server with a leaf of the authority (\<^verbatim>\<open>internal/proxy/ca\<close>), and
  hands the streams to a protocol handler (\<^verbatim>\<open>internal/protocol\<close>): HTTP/1, HTTP/2 with gRPC, WebSocket or raw bytes. A
  handler records flows in the store (\<^verbatim>\<open>internal/capture\<close>) and asks the intercept engine (\<^verbatim>\<open>internal/intercept\<close>) before
  it forwards a message; the engine blocks the handler until the interface (\<^verbatim>\<open>internal/tui\<close>) resolves the pause. The interface
  also drives the terminal emulator (\<^verbatim>\<open>internal/terminal\<close>), resends requests (\<^verbatim>\<open>internal/replay\<close>,
  \<^verbatim>\<open>internal/repeater\<close>) and exports flows (\<^verbatim>\<open>internal/export\<close>, \<^verbatim>\<open>internal/ownerfile\<close>).

  \<^bold>\<open>The theories.\<close>

  Shared vocabulary. \<open>Prelude\<close>: Go strings as lists of bytes, \<^verbatim>\<open>[]byte\<close> as \<open>8 word list\<close>, results with an error as sums,
  Go maps as association lists with distinct keys. \<open>GoStrings\<close>, \<open>GoUtf8\<close>, \<open>GoIO\<close>, \<open>GoNet\<close>, \<open>GoHttp\<close>,
  \<open>HttpClient\<close>: what the program uses of Go's standard library, written out. The locale \<open>frame_codec\<close> of \<open>GoIO\<close>
  is the contract of a stream of frames, which \<open>WsFrame\<close> and \<open>Grpc\<close> interpret; \<open>word_quoting\<close> of \<open>ShellQuote\<close> is that of a
  quoted shell word, which \<open>ShellQuote\<close> and \<open>Runner\<close> interpret; \<open>tui_frame\<close> of \<open>TuiFrame\<close> and \<open>screen_text\<close> of \<open>Detail\<close>
  serve the interface.

  Capture. \<open>Capture\<close> (\<^verbatim>\<open>capture/flow.go\<close>, \<^verbatim>\<open>store.go\<close>): messages and flows as records, the store as the order
  of ids with a map, subscribers as bounded buffers. \<open>ContentEncoding\<close> (\<^verbatim>\<open>decode.go\<close>), \<open>RequestBody\<close>
  (\<^verbatim>\<open>protocol/request_body.go\<close>): the logical body of a request and its way back to the wire. \<open>FileStore\<close>
  (\<^verbatim>\<open>ownerfile\<close>) on a file system with inodes, directory entries and crashes; \<open>Session\<close> (\<^verbatim>\<open>capture/session.go\<close>).

  Interception. \<open>Intercept\<close> (\<^verbatim>\<open>intercept/intercept.go\<close>): the engine's record, its operations, and a step relation in which each
  locked section is one step and calls of the hooks interleave with resolvers in any order.

  Protocols. \<open>Protocols\<close> (\<^verbatim>\<open>protocol.go\<close>, \<^verbatim>\<open>tcp.go\<close>), \<open>Http1\<close> (\<^verbatim>\<open>http.go\<close>), \<open>WsFrame\<close> and \<open>WebSocket\<close>
  (\<^verbatim>\<open>wsframe.go\<close>, \<^verbatim>\<open>websocket.go\<close>), \<open>Grpc\<close> (\<^verbatim>\<open>grpc.go\<close>), \<open>Http2\<close> (\<^verbatim>\<open>proxy/http2.go\<close>). \<open>Proxy\<close>
  (\<^verbatim>\<open>proxy.go\<close>, \<^verbatim>\<open>conn.go\<close>): routing, the peeked \<^verbatim>\<open>ClientHello\<close>, pass-through; \<open>ProxyServer\<close>: the
  accept loop and the policy given on the command line. \<open>CertAuthority\<close> (\<^verbatim>\<open>ca/ca.go\<close>).
  \<open>Transparent\<close> (\<^verbatim>\<open>internal/transparent\<close>): socket addresses and the firewall rules with their roll-back.

  Requests sent again. \<open>Substitute\<close>, \<open>Attack\<close>, \<open>Repeater\<close>, \<open>RawForm\<close> (\<^verbatim>\<open>internal/repeater\<close>), \<open>Replay\<close>
  (\<^verbatim>\<open>replay.go\<close>). Exports: \<open>Export\<close>, \<open>FlowText\<close>, \<open>Har\<close> (\<^verbatim>\<open>internal/export\<close>).

  Settings and start. \<open>Scope\<close>, \<open>Config\<close>, \<open>Theme\<close>, \<open>Keymap\<close>, \<open>Runner\<close> (\<^verbatim>\<open>internal/runner\<close>), \<open>Startup\<close>
  and \<open>Launch\<close> (\<^verbatim>\<open>main.go\<close>).

  Interface. \<open>Vt\<close> (\<^verbatim>\<open>internal/terminal\<close>), \<open>Keys\<close> (\<^verbatim>\<open>keys.go\<close>), \<open>TuiStyles\<close>, \<open>TuiRows\<close>, \<open>Detail\<close>,
  \<open>TuiHelp\<close> (\<^verbatim>\<open>styles.go\<close>, \<^verbatim>\<open>rows.go\<close>, \<^verbatim>\<open>detail.go\<close>, \<^verbatim>\<open>help.go\<close>), and the model of \<^verbatim>\<open>model.go\<close>: \<open>TuiState\<close> is its state
  with the objects it points to, \<open>TuiKeys\<close> and \<open>TuiMouse\<close> its handlers and \<^verbatim>\<open>Update\<close>, \<open>TuiView\<close> its frame. A run of the interface is a
  list of messages. \<open>TuiPause\<close>, \<open>TuiMotion\<close>, \<open>TuiInput\<close> and \<open>TuiScreen\<close> hold what is proved of such runs.

  \<^bold>\<open>What is shown.\<close>

  Interception: in every interleaving a paused message is owed exactly one resolution, can be released with the user's decision, and shows as
  paused exactly while it is; the interface resolves messages in the order announced and an edit goes to the message it was made on.

  Relaying: what each peer receives is what the other sent but for what the user edited or dropped, for HTTP/1, WebSocket and gRPC, for any cut of
  the stream into reads; a stream that is only observed is unchanged. Probing a connection takes no byte from it, and a host out of scope is never
  decrypted. An upload that broke off is never offered for replay.

  Round trips: frames, bodies with their encodings, the raw form of a request, a curl command as a shell reads it, a session file through a
  crash. Refinements: the terminal pane drawn shows the grid of the emulator; the gRPC rewriter is a function on the whole stream.

  The whole program: a start that is not refused has settled what the flags ask for; one that is refused has run nothing; whatever step fails, what was
  started is stopped in reverse; a redirected target runs as the user that is redirected.

  Termination and fuel. Functions of the model are total; loops that read a stream recurse on the bytes left, the token search on the
  tokens not taken. Where a handler can block for ever (an HTTP/1 exchange whose peer stays silent) the model returns no result, and the theorem
  on the exchange says under which conditions it returns. The one loop with fuel is the odometer of the cluster bomb
  (\<open>Attack\<close>): the product of the numbers of payloads is enough, and proved to be. Machine integers are words where a width matters: the WebSocket and
  gRPC lengths, the tokens, user ids. A length at which Go panics is a branch of its own.

  \<^bold>\<open>Parameters.\<close>

  Code outside the repository is an argument of the definitions that use it: compression formats (\<open>codecs\<close>), TLS and X.509, the parsing and printing of
  \<^verbatim>\<open>net/http\<close> and \<^verbatim>\<open>encoding/json\<close>, regular expressions the user writes, the terminal emulator's parser, the Bubble
  Tea widgets, floats, the system calls of files, processes and firewalls, random bytes. A property that relies on what such code documents says so
  in a hypothesis, such as \<open>codecs_lawful\<close>, and its witness gives an instance.

  \<^bold>\<open>Not modelled.\<close>

  Time: deadlines, time stamps and the grace period of \<^verbatim>\<open>VT.Close\<close>, whose outcome is an interleaving. The scheduling of goroutines beyond
  the step relations of \<open>Intercept\<close>, \<open>WebSocket\<close> and \<open>Vt\<close>, and the channels between the parts, which carry the messages a run of the interface is given. Log
  messages. The set-up of the HTTP/2 server in \<^verbatim>\<open>http2.go\<close>, which is a
  composition of library calls. The stubs for systems other than Linux, the \<^verbatim>\<open>getsockopt\<close> call of \<^verbatim>\<open>origdst_linux.go\<close> and Go
  interfaces without code. Flag parsing: the flags are a record. These are pure input and output or library code, so nothing more is translated here.
\<close>

end
